(* ===== verification/Prelude.thy ===== *)
theory Prelude
  imports Main "HOL-Library.Word"
begin

section \<open>Shared types, results and byte arithmetic\<close>

text \<open>
  The vocabulary every component uses: Python exceptions as values of \<open>py_error\<close>, a
  computation that may raise as a \<open>res\<close>, bytes as 8-bit words, and the little-endian
  integer conversions the protocol is built on (\<open>int.to_bytes\<close>, \<open>int.from_bytes\<close>,
  the \<open>struct.pack\<close> formats and the truncating field assignment of ctypes).
  Lemmas that simplify results are collected in \<open>res_simps\<close>, those that compute
  lengths and values of little-endian strings in \<open>le_simps\<close>.
\<close>

named_theorems res_simps
named_theorems le_simps

type_synonym byte = "8 word"

subsection \<open>Exceptions\<close>

datatype py_error =
    OverflowError | StructError | TypeError | ValueError | KeyError | IndexError
  | AttributeError | ParseError | AssertionError | UnicodeError | BufferError
  | RuntimeError | RecursionError | NotSupportedByClusterError | SchemaWarning | StopIteration
  | CacheError | ClusterError | SQLError | BinaryTypeError | ParameterError
  | SocketError | AuthenticationError | ReconnectError | LookupError
  | HandshakeError "int \<times> int \<times> int"

type_synonym 'a res = "py_error + 'a"

definition rbind :: "'a res \<Rightarrow> ('a \<Rightarrow> 'b res) \<Rightarrow> 'b res" where
  "rbind m f = (case m of Inl e \<Rightarrow> Inl e | Inr x \<Rightarrow> f x)"

lemma rbind_Inr [simp]: "rbind (Inr x) f = f x"
  by (simp add: rbind_def)

lemma rbind_Inl [simp]: "rbind (Inl e) f = Inl e"
  by (simp add: rbind_def)

lemma rbind_eq_Inr_iff [res_simps]: "rbind m f = Inr y \<longleftrightarrow> (\<exists>x. m = Inr x \<and> f x = Inr y)"
  by (cases m) auto

lemma rbind_eq_InrE:
  assumes "rbind m f = Inr y"
  obtains x where "m = Inr x" and "f x = Inr y"
  using assms by (auto simp: rbind_eq_Inr_iff)

lemma rbind_assoc: "rbind (rbind m f) g = rbind m (\<lambda>x. rbind (f x) g)"
  by (cases m) auto

lemma rbind_fun_assoc: "(\<lambda>x. rbind (rbind (m x) f) g) = (\<lambda>x. rbind (m x) (\<lambda>y. rbind (f y) g))"
  by (simp add: rbind_assoc)

lemma rbind_cong [fundef_cong]:
  "m = m' \<Longrightarrow> (\<And>x. m' = Inr x \<Longrightarrow> f x = f' x) \<Longrightarrow> rbind m f = rbind m' f'"
  by (cases m') auto

text \<open>A \<open>for\<close> loop whose body may raise, threading a state.\<close>

fun rfold :: "('a \<Rightarrow> 's \<Rightarrow> 's res) \<Rightarrow> 'a list \<Rightarrow> 's \<Rightarrow> 's res" where
  "rfold f [] s = Inr s"
| "rfold f (x # xs) s = rbind (f x s) (rfold f xs)"

text \<open>A list comprehension whose body may raise.\<close>

fun rmap :: "('a \<Rightarrow> 'b res) \<Rightarrow> 'a list \<Rightarrow> 'b list res" where
  "rmap f [] = Inr []"
| "rmap f (x # xs) = rbind (f x) (\<lambda>y. rbind (rmap f xs) (\<lambda>ys. Inr (y # ys)))"

lemma rfold_append: "rfold f (xs @ ys) s = rbind (rfold f xs s) (rfold f ys)"
  by (induction xs arbitrary: s) (simp_all add: rbind_assoc fun_eq_iff cong: rbind_cong)

lemma rmap_cong [fundef_cong]:
  "xs = ys \<Longrightarrow> (\<And>x. x \<in> set ys \<Longrightarrow> f x = g x) \<Longrightarrow> rmap f xs = rmap g ys"
proof (induction ys arbitrary: xs)
  case (Cons y ys)
  then have "rmap f ys = rmap g ys" and "f y = g y" by auto
  with Cons.prems(1) show ?case by simp
qed simp

lemma rfold_cong [fundef_cong]:
  "xs = ys \<Longrightarrow> s = t \<Longrightarrow> (\<And>x s. x \<in> set ys \<Longrightarrow> f x s = g x s) \<Longrightarrow> rfold f xs s = rfold g ys t"
proof (induction ys arbitrary: xs s t)
  case (Cons y ys)
  then have "rfold f ys = rfold g ys" and "f y t = g y t" by auto
  with Cons.prems show ?case by simp
qed simp

lemma rmap_all_Inr: "(\<And>x. x \<in> set xs \<Longrightarrow> f x = Inr (g x)) \<Longrightarrow> rmap f xs = Inr (map g xs)"
  by (induction xs) auto

lemma rmap_length: "rmap f xs = Inr ys \<Longrightarrow> length ys = length xs"
  by (induction xs arbitrary: ys) (auto simp: res_simps)

lemma rmap_nth: "rmap f xs = Inr ys \<Longrightarrow> i < length xs \<Longrightarrow> f (xs ! i) = Inr (ys ! i)"
proof (induction xs arbitrary: ys i)
  case (Cons x xs)
  then show ?case by (cases i) (auto simp: res_simps)
qed simp

subsection \<open>Little-endian integers\<close>

text \<open>
  \<open>le_bytes k n\<close> are the low \<open>k\<close> bytes of \<open>n\<close>, least significant first;
  \<open>le_nat\<close> is \<open>int.from_bytes(bs, 'little')\<close>, and \<open>le_int\<close> its signed reading.
\<close>

fun le_bytes :: "nat \<Rightarrow> nat \<Rightarrow> byte list" where
  "le_bytes 0 n = []"
| "le_bytes (Suc k) n = of_nat n # le_bytes k (n div 256)"

fun le_nat :: "byte list \<Rightarrow> nat" where
  "le_nat [] = 0"
| "le_nat (b # bs) = unat b + 256 * le_nat bs"

definition le_int :: "bool \<Rightarrow> byte list \<Rightarrow> int" where
  "le_int sg bs =
     (let n = int (le_nat bs); m = 256 ^ length bs
      in if sg \<and> m \<le> 2 * n then n - m else n)"

lemma length_le_bytes [simp]: "length (le_bytes k n) = k"
  by (induction k arbitrary: n) auto

lemma byte_less: "unat (b :: byte) < 256"
  using unsigned_less [of b, where ?'a = nat] by simp

lemma unat_of_nat_byte: "unat (of_nat n :: byte) = n mod 256"
  by (simp add: unat_of_nat)

lemma le_nat_less: "le_nat bs < 256 ^ length bs"
proof (induction bs)
  case (Cons b bs)
  have "unat b < 256" by (rule byte_less)
  with Cons.IH show ?case by simp
qed simp

lemma le_nat_le_bytes [le_simps]: "le_nat (le_bytes k n) = n mod 256 ^ k"
proof (induction k arbitrary: n)
  case (Suc k)
  have "n mod 256 ^ Suc k = n mod 256 + 256 * (n div 256 mod 256 ^ k)"
    by (simp add: mod_mult2_eq)
  with Suc.IH show ?case by (simp add: unat_of_nat_byte)
qed simp

lemma le_bytes_le_nat [le_simps]: "le_bytes (length bs) (le_nat bs) = bs"
proof (induction bs)
  case (Cons b bs)
  have b: "unat b < 256" by (rule byte_less)
  then have "(unat b + 256 * le_nat bs) div 256 = le_nat bs" by simp
  moreover have "(of_nat (unat b + 256 * le_nat bs) :: byte) = b"
  proof -
    have "unat (of_nat (unat b + 256 * le_nat bs) :: byte) = unat b"
      using b by (simp only: unat_of_nat_byte) simp
    then show ?thesis by (simp only: word_unat_eq_iff)
  qed
  ultimately show ?case using Cons.IH by simp
qed simp

lemma le_bytes_mod: "le_bytes k (n mod 256 ^ k) = le_bytes k n"
  using le_bytes_le_nat [of "le_bytes k n"] by (simp add: le_simps)

subsection \<open>Integer formats of Python and ctypes\<close>

text \<open>
  \<open>ct_bytes k v\<close> is what assigning a Python int to a \<open>k\<close>-byte ctypes field stores: the
  value modulo \<open>256 ^ k\<close>, with no range check. \<open>int_to_bytes\<close> is \<open>int.to_bytes\<close>,
  which raises OverflowError out of range, and \<open>struct_pack\<close> a signed \<open>struct.pack\<close>
  format, which raises struct.error.
\<close>

definition ct_bytes :: "nat \<Rightarrow> int \<Rightarrow> byte list" where
  "ct_bytes k v = le_bytes k (nat (v mod 256 ^ k))"

definition in_range :: "nat \<Rightarrow> bool \<Rightarrow> int \<Rightarrow> bool" where
  "in_range k sg v =
     (if sg then - (256 ^ k) \<le> 2 * v \<and> 2 * v < 256 ^ k else 0 \<le> v \<and> v < 256 ^ k)"

definition int_to_bytes :: "nat \<Rightarrow> bool \<Rightarrow> int \<Rightarrow> byte list res" where
  "int_to_bytes k sg v =
     (if in_range k sg v then Inr (ct_bytes k v) else Inl OverflowError)"

definition struct_pack :: "nat \<Rightarrow> int \<Rightarrow> byte list res" where
  "struct_pack k v = (if in_range k True v then Inr (ct_bytes k v) else Inl StructError)"

lemma length_ct_bytes [simp]: "length (ct_bytes k v) = k"
  by (simp add: ct_bytes_def)

lemma le_nat_ct_bytes [le_simps]: "le_nat (ct_bytes k v) = nat (v mod 256 ^ k)"
proof -
  have "v mod 256 ^ k < 256 ^ k" "0 \<le> v mod 256 ^ k" by simp_all
  then have "nat (v mod 256 ^ k) < 256 ^ k"
    by (metis nat_less_iff of_nat_numeral of_nat_power)
  then show ?thesis by (simp add: ct_bytes_def le_simps)
qed

lemma le_int_ct_bytes [le_simps]:
  assumes "in_range k sg v" and "0 < k"
  shows "le_int sg (ct_bytes k v) = v"
proof (cases "v < 0")
  case False
  with assms have "v mod 256 ^ k = v"
    by (intro mod_pos_pos_trivial) (auto simp: in_range_def split: if_splits)
  with False assms show ?thesis
    by (auto simp: le_int_def le_simps Let_def in_range_def split: if_splits)
next
  case True
  with assms have s: sg "- (256 ^ k) \<le> 2 * v" by (auto simp: in_range_def split: if_splits)
  then have "(v + 256 ^ k) mod 256 ^ k = v + 256 ^ k"
    using True by (intro mod_pos_pos_trivial) auto
  then have m: "v mod 256 ^ k = v + 256 ^ k" by simp
  have "0 \<le> v + 256 ^ k" using s(2) True by linarith
  with m s show ?thesis by (auto simp: le_int_def le_simps Let_def)
qed

lemma le_int_False [le_simps]: "le_int False bs = int (le_nat bs)"
  by (simp add: le_int_def Let_def)

lemma le_int_range: "bs \<noteq> [] \<Longrightarrow> in_range (length bs) sg (le_int sg bs)"
proof -
  define n where "n = int (le_nat bs)"
  have "0 \<le> n" "n < 256 ^ length bs"
    using le_nat_less [of bs] by (simp_all add: n_def)
  then show ?thesis
    unfolding in_range_def le_int_def Let_def n_def [symmetric] by auto
qed

lemma ct_bytes_le_int: "ct_bytes (length bs) (le_int sg bs) = bs"
proof -
  let ?n = "int (le_nat bs)" and ?m = "256 ^ length bs :: int"
  have "?n < ?m"
    using le_nat_less [of bs] by (metis of_nat_less_iff of_nat_numeral of_nat_power)
  then have "le_int sg bs mod ?m = ?n"
    by (auto simp: le_int_def Let_def minus_mod_self2)
  then show ?thesis by (simp add: ct_bytes_def le_simps)
qed

lemma int_to_bytes_Inr_iff: "int_to_bytes k s v = Inr bs \<longleftrightarrow> in_range k s v \<and> bs = ct_bytes k v"
  by (auto simp: int_to_bytes_def)

lemma struct_pack_Inr_iff: "struct_pack k v = Inr bs \<longleftrightarrow> in_range k True v \<and> bs = ct_bytes k v"
  by (auto simp: struct_pack_def)

subsection \<open>Lists\<close>

lemma takeWhile_all: "(\<forall>x \<in> set xs. P x) \<Longrightarrow> takeWhile P xs = xs"
  by (simp add: takeWhile_eq_all_conv)

lemma take_drop_mid: "length xs = m \<Longrightarrow> take (length ys) (drop m (xs @ ys @ zs)) = ys"
  by simp

end
