(* ===== verification/Hashing.thy ===== *)
theory Hashing
  imports Prelude
begin

section \<open>Hash codes and identifiers\<close>

text \<open>
  \<open>pygridgain/utils.py\<close> and its C twin \<open>cext/cutils.c\<close>: Java-compatible hash codes of
  strings, byte arrays, decimals and timestamps, cache, entity and schema identifiers, and the
  name helpers. A Python string is the list of its code points. The pure Python versions
  compute on unbounded integers and simulate overflow; the C versions compute on \<open>int32_t\<close>,
  modelled as 32-bit words. Lower and upper casing is modelled on the code points of ASCII and
  Latin-1, and the identity elsewhere.
\<close>

unbundle bit_operations_syntax

type_synonym pystr = "nat list"

definition str_of :: "string \<Rightarrow> pystr" where
  "str_of s = map of_char s"

subsection \<open>32-bit arithmetic on Python integers\<close>

definition is_pow2 :: "int \<Rightarrow> bool" where
  "is_pow2 v \<longleftrightarrow> 0 < v \<and> (v AND (v - 1)) = 0"

definition int_overflow :: "int \<Rightarrow> int" where
  "int_overflow v = ((v XOR 0x80000000) AND 0xffffffff) - 0x80000000"

definition unsigned32 :: "int \<Rightarrow> int" where
  "unsigned32 v = v mod 4294967296"

definition unsigned64 :: "int \<Rightarrow> int" where
  "unsigned64 v = v mod 18446744073709551616"

definition c_int32 :: "int \<Rightarrow> int" where
  "c_int32 v = (v + 2147483648) mod 4294967296 - 2147483648"

definition LONG_MASK :: int where
  "LONG_MASK = 0xffffffff"

definition MAX_LONG :: int where
  "MAX_LONG = 9223372036854775807"

lemma int_and_mask32: "v AND 0xffffffff = v mod 4294967296" for v :: int
  using take_bit_eq_mask [of 32 v] by (simp add: take_bit_eq_mod mask_eq_exp_minus_1)

lemma int_overflow_eq: "int_overflow v = c_int32 v"
proof -
  have "v XOR 0x80000000 = flip_bit 31 v"
    by (simp add: flip_bit_eq_xor push_bit_eq_mult)
  also have "\<dots> = (if bit v 31 then v - 2147483648 else v + 2147483648)"
    by (simp add: flip_bit_eq_if set_bit_eq unset_bit_eq)
  finally have "(v XOR 0x80000000) mod 4294967296 = (v + 2147483648) mod 4294967296"
    by (simp only: minus_mod_self2 [of "v + 2147483648" 4294967296, symmetric] split: if_split)
      simp
  then show ?thesis by (simp add: int_overflow_def int_and_mask32 c_int32_def)
qed

lemma c_int32_sint: "c_int32 v = sint (word_of_int v :: 32 word)"
  by (simp add: c_int32_def signed_take_bit_eq_take_bit_shift take_bit_eq_mod signed_of_int)

lemma int_overflow_sint: "int_overflow v = sint (word_of_int v :: 32 word)"
  by (simp add: int_overflow_eq c_int32_sint)

lemma c_int32_range: "- 2147483648 \<le> c_int32 v \<and> c_int32 v < 2147483648"
  by (simp add: c_int32_def)

lemma c_int32_id: "- 2147483648 \<le> v \<Longrightarrow> v < 2147483648 \<Longrightarrow> c_int32 v = v"
  by (simp add: c_int32_def)

lemma word_of_int_sint: "(word_of_int (sint w) :: 32 word) = w"
  by simp

lemma word_of_int_overflow: "(word_of_int (int_overflow v) :: 32 word) = word_of_int v"
  by (simp add: int_overflow_sint)

subsection \<open>Hash codes of strings and byte arrays\<close>

text \<open>The fallback loops, over code points and over signed bytes.\<close>

fun hash_loop :: "int list \<Rightarrow> int \<Rightarrow> int" where
  "hash_loop [] result = result"
| "hash_loop (c # cs) result = hash_loop cs (int_overflow (31 * result + c))"

definition c_byte_value :: "byte \<Rightarrow> int" where
  "c_byte_value b = sint b"

definition str_hashcode :: "pystr \<Rightarrow> int" where
  "str_hashcode s = hash_loop (map int s) 0"

definition bytes_hashcode :: "byte list \<Rightarrow> int" where
  "bytes_hashcode bs = hash_loop (map c_byte_value bs) 1"

datatype hash_input = HNone | HStr pystr | HBytes "byte list"

fun hashcode_fallback :: "hash_input \<Rightarrow> int" where
  "hashcode_fallback HNone = 0"
| "hashcode_fallback (HStr s) = str_hashcode s"
| "hashcode_fallback (HBytes bs) = bytes_hashcode bs"

text \<open>The C extension: \<open>res = 31 * res + ch\<close> in \<open>int32_t\<close>.\<close>

fun c_hash_loop :: "32 word list \<Rightarrow> 32 word \<Rightarrow> 32 word" where
  "c_hash_loop [] res = res"
| "c_hash_loop (c # cs) res = c_hash_loop cs (31 * res + c)"

definition lower1 :: "nat \<Rightarrow> nat" where
  "lower1 c = (if (65 \<le> c \<and> c \<le> 90) \<or> (192 \<le> c \<and> c \<le> 222 \<and> c \<noteq> 215) then c + 32 else c)"

definition upper1 :: "nat \<Rightarrow> nat" where
  "upper1 c = (if (97 \<le> c \<and> c \<le> 122) \<or> (224 \<le> c \<and> c \<le> 254 \<and> c \<noteq> 247) then c - 32 else c)"

definition c_str_hashcode :: "bool \<Rightarrow> pystr \<Rightarrow> 32 word" where
  "c_str_hashcode low s = c_hash_loop (map (\<lambda>c. of_nat (if low then lower1 c else c)) s) 0"

definition c_bytes_hashcode :: "byte list \<Rightarrow> 32 word" where
  "c_bytes_hashcode bs = c_hash_loop (map (\<lambda>b. word_of_int (sint b)) bs) 1"

fun c_hashcode :: "hash_input \<Rightarrow> int" where
  "c_hashcode HNone = 0"
| "c_hashcode (HStr s) = sint (c_str_hashcode False s)"
| "c_hashcode (HBytes bs) = sint (c_bytes_hashcode bs)"

text \<open>Both loops keep the same 32 bits.\<close>

lemma hash_loop_word:
  "word_of_int (hash_loop cs r) = c_hash_loop (map word_of_int cs) (word_of_int r)"
  by (induction cs arbitrary: r) (simp_all add: word_of_int_overflow)

lemma hash_loop_signed:
  "- 2147483648 \<le> r \<Longrightarrow> r < 2147483648 \<Longrightarrow>
   - 2147483648 \<le> hash_loop cs r \<and> hash_loop cs r < 2147483648"
  by (induction cs arbitrary: r) (simp_all add: int_overflow_eq c_int32_range)

lemma signed32_eqI:
  assumes "word_of_int v = (w :: 32 word)" and "- 2147483648 \<le> v \<and> v < 2147483648"
  shows "v = sint w"
  using assms c_int32_sint [of v] c_int32_id [of v] by simp

lemma str_hashcode_word: "word_of_int (str_hashcode s) = c_str_hashcode False s"
  by (simp add: str_hashcode_def c_str_hashcode_def hash_loop_word comp_def)

lemma str_hashcode_signed: "- 2147483648 \<le> str_hashcode s \<and> str_hashcode s < 2147483648"
  unfolding str_hashcode_def by (rule hash_loop_signed) simp_all

lemma bytes_hashcode_signed: "- 2147483648 \<le> bytes_hashcode s \<and> bytes_hashcode s < 2147483648"
  unfolding bytes_hashcode_def by (rule hash_loop_signed) simp_all

lemma bytes_hashcode_word: "word_of_int (bytes_hashcode bs) = c_bytes_hashcode bs"
  by (simp add: bytes_hashcode_def c_bytes_hashcode_def hash_loop_word comp_def c_byte_value_def)

text \<open>
  C24. The C extension and the pure Python fallback return the same hash code for \<open>None\<close>,
  for every string and for every byte buffer, so it does not matter which one is installed.
\<close>

theorem hashcode_cext_equiv: "c_hashcode x = hashcode_fallback x"
proof (cases x)
  case (HStr s)
  then show ?thesis
    using signed32_eqI [OF str_hashcode_word str_hashcode_signed] by simp
next
  case (HBytes bs)
  then show ?thesis
    using signed32_eqI [OF bytes_hashcode_word bytes_hashcode_signed] by simp
qed simp

subsection \<open>Cache, entity and schema identifiers\<close>

datatype ident = IInt int | IStr pystr

definition py_lower :: "pystr \<Rightarrow> pystr" where
  "py_lower s = map lower1 s"

fun cache_id :: "ident \<Rightarrow> int" where
  "cache_id (IInt i) = i"
| "cache_id (IStr s) = hashcode_fallback (HStr s)"

fun entity_id :: "ident option \<Rightarrow> int option" where
  "entity_id None = None"
| "entity_id (Some (IInt i)) = Some i"
| "entity_id (Some (IStr s)) = Some (hashcode_fallback (HStr (py_lower s)))"

definition FNV1_OFFSET_BASIS :: int where
  "FNV1_OFFSET_BASIS = 0x811c9dc5"

definition FNV1_PRIME :: int where
  "FNV1_PRIME = 0x01000193"

datatype schema_arg = SchemaId int | SchemaNone | SchemaDict "pystr list"

definition fnv_field :: "pystr \<Rightarrow> int \<Rightarrow> int" where
  "fnv_field name s0 =
     (let field_id = str_hashcode (py_lower name);
          s1 = int_overflow ((s0 XOR (field_id AND 0xff)) * FNV1_PRIME);
          s2 = int_overflow ((s1 XOR (drop_bit 8 field_id AND 0xff)) * FNV1_PRIME);
          s3 = int_overflow ((s2 XOR (drop_bit 16 field_id AND 0xff)) * FNV1_PRIME)
      in int_overflow ((s3 XOR (drop_bit 24 field_id AND 0xff)) * FNV1_PRIME))"

fun schema_id_fallback :: "schema_arg \<Rightarrow> int" where
  "schema_id_fallback (SchemaId i) = i"
| "schema_id_fallback SchemaNone = 0"
| "schema_id_fallback (SchemaDict names) =
     fold fnv_field names (if names = [] then 0 else FNV1_OFFSET_BASIS)"

definition c_fnv_field :: "pystr \<Rightarrow> 32 word \<Rightarrow> 32 word" where
  "c_fnv_field name s0 =
     (let field_id = c_str_hashcode True name;
          s1 = (s0 XOR (field_id AND 0xff)) * 0x01000193;
          s2 = (s1 XOR (signed_drop_bit 8 field_id AND 0xff)) * 0x01000193;
          s3 = (s2 XOR (signed_drop_bit 16 field_id AND 0xff)) * 0x01000193
      in (s3 XOR (signed_drop_bit 24 field_id AND 0xff)) * 0x01000193)"

fun c_schema_id :: "schema_arg \<Rightarrow> int" where
  "c_schema_id (SchemaId i) = i"
| "c_schema_id SchemaNone = 0"
| "c_schema_id (SchemaDict names) =
     (if names = [] then 0 else sint (fold c_fnv_field names 0x811c9dc5))"

lemma c_str_hashcode_lower: "c_str_hashcode True s = c_str_hashcode False (py_lower s)"
  by (simp add: c_str_hashcode_def py_lower_def comp_def)

lemma word_of_int_drop_bit_sint:
  "(word_of_int (drop_bit n (sint w)) :: 32 word) = signed_drop_bit n w"
  by (simp add: sint_signed_drop_bit_eq [symmetric])

lemma fnv_field_word: "word_of_int (fnv_field name s) = c_fnv_field name (word_of_int s)"
proof -
  have h: "str_hashcode (py_lower name) = sint (c_str_hashcode True name)"
    using signed32_eqI [OF str_hashcode_word str_hashcode_signed]
    by (simp add: c_str_hashcode_lower)
  show ?thesis
    by (simp add: fnv_field_def c_fnv_field_def Let_def h word_of_int_overflow FNV1_PRIME_def
      of_int_and_eq of_int_xor_eq word_of_int_drop_bit_sint)
qed

lemma fnv_fold_word: "word_of_int (fold fnv_field ns s) = fold c_fnv_field ns (word_of_int s)"
  by (induction ns arbitrary: s) (simp_all add: fnv_field_word)

lemma fnv_field_signed: "- 2147483648 \<le> fnv_field n s \<and> fnv_field n s < 2147483648"
  by (simp add: fnv_field_def Let_def int_overflow_eq c_int32_range)

lemma fnv_fold_signed:
  "ns \<noteq> [] \<Longrightarrow> - 2147483648 \<le> fold fnv_field ns s \<and> fold fnv_field ns s < 2147483648"
  by (cases ns rule: rev_cases) (simp_all add: fnv_field_signed)


lemma schema_id_signed:
  "- 2147483648 \<le> schema_id_fallback (SchemaDict ns) \<and>
   schema_id_fallback (SchemaDict ns) < 2147483648"
  by (cases "ns = []") (use fnv_fold_signed in auto)

subsection \<open>Decimals and timestamps\<close>

text \<open>
  A decimal is a sign, a coefficient and an exponent (\<open>Decimal.as_tuple\<close>);
  \<open>dec_normalize\<close> is \<open>Decimal.normalize\<close> in the default context: round half to even
  to 28 digits and strip trailing zeros.
\<close>

type_synonym dec = "bool \<times> nat \<times> int"

fun ndigits :: "nat \<Rightarrow> nat" where
  "ndigits c = (if c < 10 then 1 else Suc (ndigits (c div 10)))"

declare ndigits.simps [simp del]

definition round_half_even :: "nat \<Rightarrow> nat \<Rightarrow> nat" where
  "round_half_even c m =
     (let q = c div m; r = c mod m
      in if m < 2 * r \<or> (2 * r = m \<and> odd q) then q + 1 else q)"

definition dec_fix :: "nat \<Rightarrow> int \<Rightarrow> nat \<times> int" where
  "dec_fix c e =
     (let n = ndigits c
      in if 28 < n then (round_half_even c (10 ^ (n - 28)), e + int (n - 28)) else (c, e))"

function strip10 :: "nat \<Rightarrow> int \<Rightarrow> nat \<times> int" where
  "strip10 c e = (if c = 0 then (0, 0) else if c mod 10 = 0 then strip10 (c div 10) (e + 1) else (c, e))"
  by pat_completeness auto
termination
  by (relation "measure fst") auto

declare strip10.simps [simp del]

definition dec_normalize :: "dec \<Rightarrow> dec" where
  "dec_normalize d = (case d of (sign, c, e) \<Rightarrow> (sign, case_prod strip10 (dec_fix c e)))"

text \<open>The loop over \<open>value >> order\<close>: the 32-bit pieces, most significant first.\<close>

function dec_magnitude :: "int \<Rightarrow> int list" where
  "dec_magnitude v = (if 1 < v then dec_magnitude (drop_bit 32 v) @ [c_int32 v] else [])"
  by pat_completeness auto
termination
  by (relation "measure nat") (auto simp: drop_bit_eq_div)

declare dec_magnitude.simps [simp del]

definition magnitude_hash :: "int list \<Rightarrow> int" where
  "magnitude_hash ms = fold (\<lambda>v h. (31 * h + (v AND LONG_MASK)) AND LONG_MASK) ms 0"

definition decimal_hashcode :: "dec \<Rightarrow> int" where
  "decimal_hashcode d =
     (case dec_normalize d of (neg, c, e) \<Rightarrow>
        let sign = (if neg then -1 else 1);
            v = int c;
            int_hash =
              (if v < MAX_LONG
               then (drop_bit 32 (unsigned64 v) * 31 + (v AND LONG_MASK)) AND LONG_MASK
               else magnitude_hash (dec_magnitude v))
        in c_int32 (31 * int_hash * sign - e))"

definition datetime_hashcode :: "int \<Rightarrow> int" where
  "datetime_hashcode v = (v AND LONG_MASK) XOR drop_bit 32 (unsigned64 v)"

text \<open>
  The Java algorithm \<open>decimal_hashcode\<close> says it translates: \<open>BigInteger.hashCode\<close> on
  the big-endian 32-bit magnitude, with no word left out.
\<close>

function words32 :: "int \<Rightarrow> int list" where
  "words32 v = (if 0 < v then words32 (v div 4294967296) @ [v mod 4294967296] else [])"
  by pat_completeness auto
termination
  by (relation "measure nat") auto

declare words32.simps [simp del]

definition java_bigint_hash :: "int \<Rightarrow> int" where
  "java_bigint_hash v = fold (\<lambda>w h. (31 * h + w) mod 4294967296) (words32 v) 0"

text \<open>The loop's pieces are Java's words, except that a leading word 1 is lost.\<close>

lemma words32_nonempty: "0 < v \<Longrightarrow> words32 v \<noteq> []"
  by (subst words32.simps) simp

lemma words32_range: "w \<in> set (words32 v) \<Longrightarrow> 0 \<le> w \<and> w < 4294967296"
proof (induction v rule: words32.induct)
  case (1 v)
  then show ?case by (subst (asm) (2) words32.simps) (auto split: if_splits)
qed

lemma c_int32_mod: "c_int32 (v mod 4294967296) = c_int32 v"
  by (simp add: c_int32_def mod_simps)

lemma dec_magnitude_words32:
  "0 < v \<Longrightarrow> dec_magnitude v =
     map c_int32 (if hd (words32 v) = 1 then tl (words32 v) else words32 v)"
proof (induction v rule: words32.induct)
  case (1 v)
  note unf = words32.simps [of v] dec_magnitude.simps [of v]
  show ?case
  proof (cases "v < 4294967296")
    case True
    with "1.prems" have "v div 4294967296 = 0" "v mod 4294967296 = v" by simp_all
    then show ?thesis
      using "1.prems" by (simp add: unf drop_bit_eq_div words32.simps dec_magnitude.simps)
  next
    case False
    then have v: "1 < v" "0 < v div 4294967296" by simp_all
    with "1.IH" "1.prems" words32_nonempty [OF v(2)] show ?thesis
      by (simp add: unf drop_bit_eq_div c_int32_mod)
  qed
qed

lemma c_int32_and_mask: "c_int32 w AND LONG_MASK = w mod 4294967296"
  by (simp add: LONG_MASK_def int_and_mask32 c_int32_def mod_simps)

lemma magnitude_hash_words:
  "(\<And>w. w \<in> set ws \<Longrightarrow> 0 \<le> w \<and> w < 4294967296) \<Longrightarrow>
   magnitude_hash (map c_int32 ws) = fold (\<lambda>w h. (31 * h + w) mod 4294967296) ws 0"
proof -
  assume r: "\<And>w. w \<in> set ws \<Longrightarrow> 0 \<le> w \<and> w < 4294967296"
  have step: "(31 * h + (c_int32 w AND LONG_MASK)) AND LONG_MASK = (31 * h + w) mod 4294967296"
    for w h by (simp add: c_int32_and_mask) (simp add: LONG_MASK_def int_and_mask32 mod_simps)
  have "fold (\<lambda>v h. (31 * h + (v AND LONG_MASK)) AND LONG_MASK) (map c_int32 ws) h =
        fold (\<lambda>w h. (31 * h + w) mod 4294967296) ws h" for h
    by (induction ws arbitrary: h) (simp_all add: step)
  then show ?thesis by (simp add: magnitude_hash_def)
qed

lemma mod_mult_add_left: "(a mod m * p + b) mod m = (a * p + b) mod m" for a :: int
proof -
  have "(a mod m * p + b) mod m = ((a mod m * p) mod m + b) mod m"
    by (simp only: mod_add_left_eq)
  also have "\<dots> = (a * p + b) mod m" by (simp only: mod_mult_left_eq mod_add_left_eq)
  finally show ?thesis .
qed

lemma fold_hash_linear:
  "fold (\<lambda>w h. (31 * h + w) mod 4294967296) ws h mod 4294967296 =
   (h * 31 ^ length ws + fold (\<lambda>w h. (31 * h + w) mod 4294967296) ws 0) mod (4294967296 :: int)"
proof (induction ws arbitrary: h)
  case (Cons w ws)
  let ?f = "fold (\<lambda>w h. (31 * h + w) mod 4294967296) ws :: int \<Rightarrow> int"
  let ?M = "4294967296 :: int" and ?p = "31 ^ length ws :: int"
  have "?f ((31 * h + w) mod ?M) mod ?M = ((31 * h + w) mod ?M * ?p + ?f 0) mod ?M"
    by (rule Cons.IH)
  also have "\<dots> = ((31 * h + w) * ?p + ?f 0) mod ?M"
    by (rule mod_mult_add_left)
  also have "\<dots> = (h * 31 * ?p + (w * ?p + ?f 0)) mod ?M" by (simp add: algebra_simps)
  also have "\<dots> = (h * 31 * ?p + (w mod ?M * ?p + ?f 0) mod ?M) mod ?M"
    by (simp only: mod_mult_add_left mod_add_right_eq)
  also have "\<dots> = (h * 31 * ?p + ?f (w mod ?M) mod ?M) mod ?M" by (simp only: Cons.IH)
  also have "\<dots> = (h * 31 * ?p + ?f (w mod ?M)) mod ?M" by (simp only: mod_add_right_eq)
  finally show ?case by (simp add: algebra_simps)
qed simp

lemma hash_leading_one:
  "fold (\<lambda>w h. (31 * h + w) mod 4294967296) ws 1 \<noteq>
   fold (\<lambda>w h. (31 * h + w) mod (4294967296 :: int)) ws 0"
proof
  let ?f = "fold (\<lambda>w h. (31 * h + w) mod 4294967296) ws :: int \<Rightarrow> int"
  assume "?f 1 = ?f 0"
  with fold_hash_linear [of ws 1]
  have "(?f 0 + 31 ^ length ws) mod 4294967296 = ?f 0 mod 4294967296"
    by (simp add: add.commute)
  then have "4294967296 dvd (31 :: int) ^ length ws"
    by (simp add: mod_eq_dvd_iff)
  moreover have "(2 :: int) dvd 4294967296" by simp
  ultimately have "(2 :: int) dvd 31 ^ length ws" by (rule dvd_trans [rotated])
  then show False by (simp add: even_power)
qed

text \<open>
  C34. For a coefficient that does not fit in a long, the loop of \<open>decimal_hashcode\<close>
  computes Java's \<open>BigInteger\<close> hash exactly when the most significant 32-bit word of the
  coefficient is not 1; otherwise that word is dropped and the hash always differs.
\<close>

theorem decimal_magnitude_hash_iff:
  assumes "MAX_LONG \<le> v"
  shows "magnitude_hash (dec_magnitude v) = java_bigint_hash v \<longleftrightarrow> hd (words32 v) \<noteq> 1"
proof -
  let ?F = "fold (\<lambda>w h. (31 * h + w) mod 4294967296) :: int list \<Rightarrow> int \<Rightarrow> int"
  from assms have v: "0 < v" by (simp add: MAX_LONG_def)
  have r: "\<And>w. w \<in> set (words32 v) \<Longrightarrow> 0 \<le> w \<and> w < 4294967296" by (rule words32_range)
  show ?thesis
  proof (cases "hd (words32 v) = 1")
    case False
    with v r show ?thesis
      by (simp add: dec_magnitude_words32 magnitude_hash_words java_bigint_hash_def)
  next
    case True
    with words32_nonempty [OF v] obtain ws where ws: "words32 v = 1 # ws"
      by (cases "words32 v") auto
    have "magnitude_hash (dec_magnitude v) = ?F ws 0"
      using v ws r by (simp add: dec_magnitude_words32 magnitude_hash_words)
    moreover have "java_bigint_hash v = ?F ws 1" by (simp add: java_bigint_hash_def ws)
    ultimately show ?thesis using True hash_leading_one [of ws] by simp
  qed
qed

theorem decimal_magnitude_hash_iff_witness:
  "MAX_LONG \<le> 18446744073709551621 \<and>
   magnitude_hash (dec_magnitude 18446744073709551621) \<noteq> java_bigint_hash 18446744073709551621"
proof -
  have b: "MAX_LONG \<le> 18446744073709551621" by (simp add: MAX_LONG_def)
  have "hd (words32 18446744073709551621) = 1" by (simp add: words32.simps)
  with b decimal_magnitude_hash_iff [OF b] show ?thesis by simp
qed

subsection \<open>Names\<close>

definition capitalize :: "pystr \<Rightarrow> pystr" where
  "capitalize s = map upper1 (take 1 s) @ drop 1 s"

fun py_split :: "nat \<Rightarrow> pystr \<Rightarrow> pystr list" where
  "py_split d [] = [[]]"
| "py_split d (c # cs) =
     (if c = d then [] # py_split d cs
      else case py_split d cs of [] \<Rightarrow> [[c]] | p # ps \<Rightarrow> (c # p) # ps)"

definition process_delimiter :: "nat \<Rightarrow> pystr \<Rightarrow> pystr" where
  "process_delimiter d s = concat (map capitalize (py_split d s))"

end
