(* ===== verification/Unicode.thy ===== *)
theory Unicode
  imports Hashing
begin

section \<open>The string encodings of the protocol\<close>

text \<open>
  \<open>PROTOCOL_STRING_ENCODING\<close> is UTF-8 and \<open>PROTOCOL_CHAR_ENCODING\<close> is UTF-16LE
  (\<open>pygridgain/constants.py\<close>). \<open>str.encode\<close> and \<open>bytes.decode\<close> are modelled in
  their strict mode: lone surrogates, overlong forms, truncated sequences and code points past
  U+10FFFF raise. The main lemma is that decoding undoes encoding (\<open>utf8_roundtrip\<close>).
\<close>

definition is_scalar :: "nat \<Rightarrow> bool" where
  "is_scalar c \<longleftrightarrow> c < 0x110000 \<and> \<not> (0xD800 \<le> c \<and> c < 0xE000)"

definition utf8_char :: "nat \<Rightarrow> nat list" where
  "utf8_char c =
     (if c < 0x80 then [c]
      else if c < 0x800 then [0xC0 + c div 64, 0x80 + c mod 64]
      else if c < 0x10000 then [0xE0 + c div 4096, 0x80 + c div 64 mod 64, 0x80 + c mod 64]
      else [0xF0 + c div 262144, 0x80 + c div 4096 mod 64, 0x80 + c div 64 mod 64, 0x80 + c mod 64])"

definition utf8_encode :: "pystr \<Rightarrow> byte list res" where
  "utf8_encode s =
     (if list_all is_scalar s then Inr (map of_nat (concat (map utf8_char s)))
      else Inl UnicodeError)"

definition is_cont :: "nat \<Rightarrow> bool" where
  "is_cont b \<longleftrightarrow> 0x80 \<le> b \<and> b < 0xC0"

fun utf8_next :: "nat list \<Rightarrow> (nat \<times> nat list) option" where
  "utf8_next [] = None"
| "utf8_next (a # bs) =
     (if a < 0x80 then Some (a, bs)
      else case bs of [] \<Rightarrow> None | b # bs' \<Rightarrow>
        if \<not> is_cont b then None
        else if 0xC2 \<le> a \<and> a < 0xE0 then Some ((a - 0xC0) * 64 + (b - 0x80), bs')
        else case bs' of [] \<Rightarrow> None | c # bs'' \<Rightarrow>
          if \<not> is_cont c then None
          else if 0xE0 \<le> a \<and> a < 0xF0 then
            (let v = (a - 0xE0) * 4096 + (b - 0x80) * 64 + (c - 0x80)
             in if 0x800 \<le> v \<and> is_scalar v then Some (v, bs'') else None)
          else case bs'' of [] \<Rightarrow> None | d # bs''' \<Rightarrow>
            if \<not> is_cont d then None
            else if 0xF0 \<le> a \<and> a < 0xF5 then
              (let v = (a - 0xF0) * 262144 + (b - 0x80) * 4096 + (c - 0x80) * 64 + (d - 0x80)
               in if 0x10000 \<le> v \<and> is_scalar v then Some (v, bs''') else None)
            else None)"

lemma utf8_next_shorter: "utf8_next bs = Some (c, bs') \<Longrightarrow> length bs' < length bs"
  by (cases bs) (auto simp: Let_def split: if_splits list.splits)

function utf8_units :: "nat list \<Rightarrow> pystr res" where
  "utf8_units bs =
     (if bs = [] then Inr []
      else case utf8_next bs of
        None \<Rightarrow> Inl UnicodeError
      | Some (c, bs') \<Rightarrow> rbind (utf8_units bs') (\<lambda>cs. Inr (c # cs)))"
  by pat_completeness auto
termination
  by (relation "measure length") (auto simp: utf8_next_shorter)

declare utf8_units.simps [simp del]

definition utf8_decode :: "byte list \<Rightarrow> pystr res" where
  "utf8_decode bs = utf8_units (map unat bs)"

subsection \<open>Round trip\<close>

lemma utf8_units_Nil [simp]: "utf8_units [] = Inr []"
  by (simp add: utf8_units.simps)

lemma utf8_char_range:
  assumes "is_scalar c" and "b \<in> set (utf8_char c)"
  shows "b < 256"
proof -
  define x where "x = c mod 64"
  define y where "y = c div 64 mod 64"
  define z where "z = c div 4096 mod 64"
  have lt: "x < 64" "y < 64" "z < 64" by (simp_all add: x_def y_def z_def)
  have "c < 2048 \<Longrightarrow> c div 64 < 32" "c < 65536 \<Longrightarrow> c div 4096 < 16"
    by (simp_all add: less_mult_imp_div_less)
  moreover have "c div 262144 < 5"
    using assms(1) by (simp add: is_scalar_def less_mult_imp_div_less)
  ultimately show ?thesis
    using assms(2) lt unfolding utf8_char_def x_def [symmetric] y_def [symmetric] z_def [symmetric]
    by (auto split: if_splits)
qed

lemma div_mod_64_2: "c div 64 * 64 + c mod 64 = c" for c :: nat
  by simp

lemma div_mod_64_3: "c div 4096 * 4096 + c div 64 mod 64 * 64 + c mod 64 = c" for c :: nat
proof -
  have "c div 64 = c div 4096 * 64 + c div 64 mod 64"
    using div_mult_mod_eq [of "c div 64" 64] by (simp add: div_mult2_eq [symmetric])
  then show ?thesis using div_mult_mod_eq [of c 64] by linarith
qed

lemma div_mod_64_4:
  "c div 262144 * 262144 + c div 4096 mod 64 * 4096 + c div 64 mod 64 * 64 + c mod 64 = c"
  for c :: nat
proof -
  have "c div 4096 = c div 262144 * 64 + c div 4096 mod 64"
    using div_mult_mod_eq [of "c div 4096" 64] by (simp add: div_mult2_eq [symmetric])
  then show ?thesis using div_mod_64_3 [of c] by linarith
qed

lemma utf8_next_2:
  "2 \<le> x \<Longrightarrow> x < 32 \<Longrightarrow> y < 64 \<Longrightarrow>
   utf8_next ([0xC0 + x, 0x80 + y] @ bs) = Some (x * 64 + y, bs)"
  by (simp add: is_cont_def)

lemma utf8_next_3:
  "x < 16 \<Longrightarrow> y < 64 \<Longrightarrow> z < 64 \<Longrightarrow> c = x * 4096 + y * 64 + z \<Longrightarrow> 0x800 \<le> c \<Longrightarrow> is_scalar c \<Longrightarrow>
   utf8_next ([0xE0 + x, 0x80 + y, 0x80 + z] @ bs) = Some (c, bs)"
  by (simp add: is_cont_def Let_def)

lemma utf8_next_4:
  "x < 5 \<Longrightarrow> y < 64 \<Longrightarrow> z < 64 \<Longrightarrow> w < 64 \<Longrightarrow>
   c = x * 262144 + y * 4096 + z * 64 + w \<Longrightarrow> 0x10000 \<le> c \<Longrightarrow> is_scalar c \<Longrightarrow>
   utf8_next ([0xF0 + x, 0x80 + y, 0x80 + z, 0x80 + w] @ bs) = Some (c, bs)"
  by (simp add: is_cont_def Let_def)

lemma utf8_next_char:
  assumes "is_scalar c"
  shows "utf8_next (utf8_char c @ bs) = Some (c, bs)"
proof -
  have m: "x mod 64 < 64" for x :: nat by simp
  consider "c < 0x80" | "0x80 \<le> c" "c < 0x800" | "0x800 \<le> c" "c < 0x10000" | "0x10000 \<le> c"
    by linarith
  then show ?thesis
  proof cases
    case 2
    then have "c div 64 < 32" by (simp add: less_mult_imp_div_less)
    moreover have "128 div 64 \<le> c div 64" using 2 by (intro div_le_mono)
    ultimately have "utf8_next ([0xC0 + c div 64, 0x80 + c mod 64] @ bs) =
        Some (c div 64 * 64 + c mod 64, bs)"
      by (intro utf8_next_2 m) simp_all
    with 2 show ?thesis by (simp add: utf8_char_def del: utf8_next.simps)
  next
    case 3
    then have "c div 4096 < 16" by (simp add: less_mult_imp_div_less)
    from utf8_next_3 [OF this m m div_mod_64_3 [symmetric] 3(1) assms] 3 show ?thesis
      by (simp add: utf8_char_def del: utf8_next.simps)
  next
    case 4
    with assms have "c div 262144 < 5" by (simp add: is_scalar_def less_mult_imp_div_less)
    from utf8_next_4 [OF this m m m div_mod_64_4 [symmetric] 4 assms] 4 show ?thesis
      by (simp add: utf8_char_def del: utf8_next.simps)
  qed (simp add: utf8_char_def)
qed

lemma utf8_char_nonempty: "utf8_char c \<noteq> []"
  by (simp add: utf8_char_def)

lemma utf8_units_concat:
  "list_all is_scalar s \<Longrightarrow> utf8_units (concat (map utf8_char s)) = Inr s"
proof (induction s)
  case (Cons c s)
  then show ?case
    by (subst utf8_units.simps) (simp add: utf8_next_char utf8_char_nonempty)
qed simp

lemma utf8_roundtrip: "utf8_encode s = Inr bs \<Longrightarrow> utf8_decode bs = Inr s"
proof -
  assume "utf8_encode s = Inr bs"
  then have s: "list_all is_scalar s" and bs: "bs = map of_nat (concat (map utf8_char s))"
    by (auto simp: utf8_encode_def split: if_splits)
  have "map unat bs = concat (map utf8_char s)"
    unfolding bs map_map
    by (rule map_idI) (use s in \<open>auto simp: unat_of_nat_byte list_all_iff utf8_char_range\<close>)
  then show ?thesis by (simp add: utf8_decode_def utf8_units_concat [OF s])
qed

lemma utf8_char_nul: "0 \<in> set (utf8_char c) \<longleftrightarrow> c = 0"
  by (simp add: utf8_char_def)

lemma byte_of_nat_eq_0: "x < 256 \<Longrightarrow> (of_nat x :: byte) = 0 \<longleftrightarrow> x = 0"
  using unat_of_nat_byte [of x] by (auto simp: word_unat_eq_iff)

lemma utf8_encode_nul:
  assumes "utf8_encode s = Inr bs"
  shows "0 \<in> set bs \<longleftrightarrow> 0 \<in> set s"
proof -
  from assms have s: "list_all is_scalar s" and bs: "bs = map of_nat (concat (map utf8_char s))"
    by (auto simp: utf8_encode_def split: if_splits)
  have r: "x \<in> set (concat (map utf8_char s)) \<Longrightarrow> x < 256" for x
    using s by (auto simp: list_all_iff utf8_char_range)
  have "0 \<in> set bs \<longleftrightarrow> (\<exists>x \<in> set (concat (map utf8_char s)). (of_nat x :: byte) = 0)"
    unfolding bs set_map by (metis imageE image_eqI)
  also have "\<dots> \<longleftrightarrow> 0 \<in> set (concat (map utf8_char s))"
    using byte_of_nat_eq_0 r by blast
  finally show ?thesis by (simp add: utf8_char_nul)
qed

lemma utf8_encode_ascii:
  "(\<And>c. c \<in> set s \<Longrightarrow> c < 128) \<Longrightarrow> utf8_encode s = Inr (map of_nat s)"
proof -
  assume a: "\<And>c. c \<in> set s \<Longrightarrow> c < 128"
  then have "list_all is_scalar s" by (auto simp: list_all_iff is_scalar_def dest!: a)
  moreover have "concat (map utf8_char s) = s"
    using a by (induction s) (auto simp: utf8_char_def)
  ultimately show ?thesis by (simp add: utf8_encode_def)
qed

lemma utf8_char_length: "1 \<le> length (utf8_char c)" "128 \<le> c \<Longrightarrow> 2 \<le> length (utf8_char c)"
  by (auto simp: utf8_char_def)

lemma length_utf8_chars: "length s \<le> length (concat (map utf8_char s))"
proof (induction s)
  case (Cons c s)
  with utf8_char_length(1) [of c] show ?case by simp
qed simp

lemma utf8_length:
  assumes "utf8_encode s = Inr bs"
  shows "length s \<le> length bs" "(\<exists>c \<in> set s. 128 \<le> c) \<Longrightarrow> length s < length bs"
proof -
  from assms have bs: "length bs = length (concat (map utf8_char s))"
    by (auto simp: utf8_encode_def split: if_splits)
  then show "length s \<le> length bs" by (simp only: length_utf8_chars)
  assume "\<exists>c \<in> set s. 128 \<le> c"
  then obtain c t u where s: "s = t @ c # u" and c: "128 \<le> c" by (auto dest: split_list)
  from utf8_char_length(2) [OF c] length_utf8_chars [of t] length_utf8_chars [of u]
  show "length s < length bs" by (simp only: bs s) simp
qed

subsection \<open>UTF-16LE\<close>

definition utf16_encode :: "pystr \<Rightarrow> byte list res" where
  "utf16_encode s =
     (if list_all is_scalar s
      then Inr (concat (map (\<lambda>c. if c < 0x10000 then le_bytes 2 c
             else le_bytes 2 (0xD800 + (c - 0x10000) div 1024) @
                  le_bytes 2 (0xDC00 + (c - 0x10000) mod 1024)) s))
      else Inl UnicodeError)"

text \<open>Decoding is needed for one two-byte unit only.\<close>

definition utf16_decode_unit :: "byte list \<Rightarrow> pystr res" where
  "utf16_decode_unit bs =
     (let u = le_nat bs in if is_scalar u then Inr [u] else Inl UnicodeError)"

lemma utf16_unit_roundtrip:
  "is_scalar c \<Longrightarrow> c < 0x10000 \<Longrightarrow> utf16_decode_unit (le_bytes 2 c) = Inr [c]"
  by (simp add: utf16_decode_unit_def le_nat_le_bytes)

end
