(* ===== verification/CTypes.thy ===== *)
theory CTypes
  imports Unicode
begin

section \<open>ctypes layouts\<close>

text \<open>
  Parsing in \<open>pygridgain\<close> builds a packed \<open>ctypes.LittleEndianStructure\<close> class on the
  fly, reads it from the buffer with \<open>from_buffer_copy\<close> and converts its fields. A \<open>ctype\<close>
  is such a class, a \<open>cobj\<close> an instance; \<open>sizeof_ct\<close> is \<open>ctypes.sizeof\<close>,
  \<open>read_ct\<close> reads an instance and \<open>store_ct\<close> is the byte image of an instance whose fields
  were assigned. As in ctypes, integer fields keep the assigned value modulo their width and a
  \<open>c_char\<close> array is read and assigned up to its first NUL byte. The generated field names
  \<open>f'element_{i}'\<close>, \<open>f'row_{i}'\<close> and \<open>f'column_{j}'\<close> are constructors of their own, and so are
  the fields of a complex object, named by its schema (\<open>Fld\<close>).
\<close>

datatype fname = Nm string | Fld pystr | Element nat | Row nat | Column nat

datatype ctype =
    CInt nat bool
  | CReal nat
  | CChars nat
  | CArray ctype nat
  | CStruct "(fname \<times> ctype) list"

datatype cobj =
    OInt int
  | OReal "byte list"
  | OChars "byte list"
  | OArr "cobj list"
  | OStruct "(fname \<times> cobj) list"

abbreviation "c_byte \<equiv> CInt 1 True"
abbreviation "c_ubyte \<equiv> CInt 1 False"
abbreviation "c_short \<equiv> CInt 2 True"
abbreviation "c_int \<equiv> CInt 4 True"
abbreviation "c_longlong \<equiv> CInt 8 True"

fun sizeof_ct :: "ctype \<Rightarrow> nat" where
  "sizeof_ct (CInt k sg) = k"
| "sizeof_ct (CReal k) = k"
| "sizeof_ct (CChars n) = n"
| "sizeof_ct (CArray t n) = n * sizeof_ct t"
| "sizeof_ct (CStruct fs) = sum_list (map (\<lambda>f. sizeof_ct (snd f)) fs)"

fun read_ct :: "ctype \<Rightarrow> byte list \<Rightarrow> cobj"
  and read_array :: "ctype \<Rightarrow> nat \<Rightarrow> byte list \<Rightarrow> cobj list"
  and read_fields :: "(fname \<times> ctype) list \<Rightarrow> byte list \<Rightarrow> (fname \<times> cobj) list" where
  "read_ct (CInt k sg) bs = OInt (le_int sg (take k bs))"
| "read_ct (CReal k) bs = OReal (take k bs)"
| "read_ct (CChars n) bs = OChars (takeWhile (\<lambda>b. b \<noteq> 0) (take n bs))"
| "read_ct (CArray t n) bs = OArr (read_array t n bs)"
| "read_ct (CStruct fs) bs = OStruct (read_fields fs bs)"
| "read_array t 0 bs = []"
| "read_array t (Suc n) bs = read_ct t bs # read_array t n (drop (sizeof_ct t) bs)"
| "read_fields [] bs = []"
| "read_fields ((f, t) # fs) bs = (f, read_ct t bs) # read_fields fs (drop (sizeof_ct t) bs)"

fun store_ct :: "ctype \<Rightarrow> cobj \<Rightarrow> byte list"
  and store_array :: "ctype \<Rightarrow> cobj list \<Rightarrow> byte list"
  and store_fields :: "(fname \<times> ctype) list \<Rightarrow> (fname \<times> cobj) list \<Rightarrow> byte list" where
  "store_ct (CInt k sg) (OInt v) = ct_bytes k v"
| "store_ct (CReal k) (OReal bs) = bs"
| "store_ct (CChars n) (OChars cs) =
     (let v = takeWhile (\<lambda>b. b \<noteq> 0) cs in v @ replicate (n - length v) 0)"
| "store_ct (CArray t n) (OArr xs) = store_array t xs"
| "store_ct (CStruct fs) (OStruct os) = store_fields fs os"
| "store_ct t _ = replicate (sizeof_ct t) 0"
| "store_array t [] = []"
| "store_array t (x # xs) = store_ct t x @ store_array t xs"
| "store_fields ((f, t) # fs) ((g, x) # os) = store_ct t x @ store_fields fs os"
| "store_fields _ _ = []"

fun getattr_fields :: "fname \<Rightarrow> (fname \<times> cobj) list \<Rightarrow> cobj res" where
  "getattr_fields f [] = Inl AttributeError"
| "getattr_fields f ((g, x) # os) = (if f = g then Inr x else getattr_fields f os)"

fun getattr :: "fname \<Rightarrow> cobj \<Rightarrow> cobj res" where
  "getattr f (OStruct os) = getattr_fields f os"
| "getattr f _ = Inl AttributeError"

fun as_int :: "cobj \<Rightarrow> int res" where
  "as_int (OInt i) = Inr i"
| "as_int _ = Inl TypeError"

definition getint :: "string \<Rightarrow> cobj \<Rightarrow> int res" where
  "getint f ob = rbind (getattr (Nm f) ob) as_int"

text \<open>
  \<open>fits t x\<close>: the value \<open>x\<close> is represented exactly by layout \<open>t\<close>, so that reading
  the stored image gives it back.
\<close>

fun fits :: "ctype \<Rightarrow> cobj \<Rightarrow> bool" where
  "fits (CInt k sg) (OInt v) = (0 < k \<and> in_range k sg v)"
| "fits (CReal k) (OReal bs) = (length bs = k)"
| "fits (CChars n) (OChars cs) = (length cs \<le> n \<and> 0 \<notin> set cs)"
| "fits (CArray t n) (OArr xs) = (length xs = n \<and> list_all (fits t) xs)"
| "fits (CStruct fs) (OStruct os) =
     (map fst fs = map fst os \<and> list_all2 fits (map snd fs) (map snd os))"
| "fits _ _ = False"

lemma takeWhile_nonzero: "0 \<notin> set cs \<Longrightarrow> takeWhile (\<lambda>b. b \<noteq> (0 :: byte)) cs = cs"
  by (simp add: takeWhile_eq_all_conv) metis

lemma takeWhile_pad:
  "0 \<notin> set cs \<Longrightarrow> takeWhile (\<lambda>b. b \<noteq> (0 :: byte)) (cs @ replicate k 0) = cs"
  by (cases k) (auto simp: takeWhile_append takeWhile_nonzero)

lemma length_store:
  "fits t x \<Longrightarrow> length (store_ct t x) = sizeof_ct t"
  "list_all (fits t) xs \<Longrightarrow> length (store_array t xs) = length xs * sizeof_ct t"
  "map fst fs = map fst os \<Longrightarrow> list_all2 fits (map snd fs) (map snd os) \<Longrightarrow>
   length (store_fields fs os) = sum_list (map (\<lambda>f. sizeof_ct (snd f)) fs)"
  by (induction t x and t xs and fs os rule: store_ct_store_array_store_fields.induct)
    (auto simp: takeWhile_nonzero Let_def)

lemma read_store:
  "fits t x \<Longrightarrow> read_ct t (store_ct t x @ bs) = x"
  "list_all (fits t) xs \<Longrightarrow> read_array t (length xs) (store_array t xs @ bs) = xs"
  "map fst fs = map fst os \<Longrightarrow> list_all2 fits (map snd fs) (map snd os) \<Longrightarrow>
   read_fields fs (store_fields fs os @ bs) = os"
  by (induction t x and t xs and fs os arbitrary: bs and bs and bs
      rule: store_ct_store_array_store_fields.induct)
    (auto simp: le_int_ct_bytes takeWhile_nonzero takeWhile_pad Let_def length_store)

lemma read_ct_take:
  "read_ct t (take (sizeof_ct t + k) bs) = read_ct t bs"
  "read_array t n (take (n * sizeof_ct t + k) bs) = read_array t n bs"
  "read_fields fs (take (sum_list (map (\<lambda>f. sizeof_ct (snd f)) fs) + k) bs) = read_fields fs bs"
  by (induction t bs and t n bs and fs bs arbitrary: k and k and k
      rule: read_ct_read_array_read_fields.induct)
    (simp_all add: take_take drop_take min_absorb1 add.assoc del: take_add)

lemma read_ct_take_exact [simp]: "read_ct t (take (sizeof_ct t) bs) = read_ct t bs"
  using read_ct_take(1) [of t 0 bs] by simp

text \<open>Assigning a value with an embedded NUL to a \<open>c_char\<close> array loses its tail.\<close>

lemma store_chars_nul:
  "0 \<notin> set cs \<Longrightarrow> read_ct (CChars n) (store_ct (CChars n) (OChars (cs @ 0 # ds))) =
     OChars (take n cs)"
proof -
  assume cs: "0 \<notin> set cs"
  then have "0 \<notin> set (take n cs)" by (meson in_set_takeD)
  then show ?thesis
    using cs by (simp add: takeWhile_append takeWhile_nonzero takeWhile_pad)
qed

end
