(* ===== verification/Types.thy ===== *)
theory Types
  imports CTypes
begin

section \<open>Data classes, type codes and Python values\<close>

text \<open>
  The class hierarchy of \<open>pygridgain/datatypes\<close> as datatypes (one constructor per concrete
  class, families grouped by their base class), the type codes of \<open>type_codes.py\<close>, the
  \<open>tc_map\<close> dispatch of \<open>internal.py\<close>, the Python values the client converts, and the
  heuristics that pick a data class for a Python value.
\<close>

datatype prim = TByte | TShort | TInt | TLong | TFloat | TDouble | TChar | TBool

text \<open>\<open>prim\<close>: the payload classes \<open>Byte\<close>, \<open>Short\<close>, \<dots>, \<open>Bool\<close> of \<open>primitive.py\<close>.\<close>

text \<open>\<open>std\<close>: the classes that serve as \<open>standard_type\<close> of a standard array.\<close>

datatype std =
    String | DecimalObject | UUIDObject | TimestampObject | DateObject | TimeObject
  | EnumObject | BinaryEnumObject

text \<open>
  \<open>DataObject p\<close> is \<open>ByteObject\<close>, \<open>ShortObject\<close>, \<dots>; \<open>PrimitiveArrayObject p\<close> is
  \<open>ByteArrayObject\<close>, \<dots>; \<open>StandardArrayObject s\<close> is \<open>StringArrayObject\<close>, \<dots>
\<close>

datatype dtype =
    Null
  | DataObject prim
  | Standard std
  | PrimitiveArrayObject prim
  | StandardArrayObject std
  | ObjectArrayObject
  | CollectionObject
  | MapObject
  | BinaryObject
  | WrappedDataObject
  | AnyDataObject

text \<open>A class made by \<open>GenericObjectMeta\<close>: its type name and its schema.\<close>

datatype pyclass = PyClass (cls_type_name: pystr) (cls_schema: "(pystr \<times> dtype) list")

datatype pyval =
    VNone
  | VBool bool
  | VInt int
  | VFloat "64 word"
  | VStr pystr
  | VBytes "byte list"
  | VByteArray "byte list"
  | VDecimal dec
  | VUUID "byte list"
  | VDateTime int nat
  | VDate int
  | VTimeDelta int
  | VTuple "pyval list"
  | VList "pyval list"
  | VDict bool "(pyval \<times> pyval) list"
  | VType dtype
  | VObject pyclass int "(pystr \<times> pyval) list" "byte list option"

text \<open>
  \<open>VFloat\<close> holds the IEEE bits; \<open>VDateTime s us\<close> is the datetime at POSIX second \<open>s\<close>
  in the local time zone plus \<open>us\<close> microseconds, \<open>VDate s\<close> a date whose midnight is
  \<open>s\<close>, \<open>VTimeDelta us\<close> a timedelta in microseconds; the flag of \<open>VDict\<close> tells an
  \<open>OrderedDict\<close> from a \<open>dict\<close>; \<open>VObject c v fs buf\<close> is an instance of class \<open>c\<close>
  with its version, attributes and cached \<open>_buffer\<close>.
\<close>

subsection \<open>Type codes\<close>

fun prim_code :: "prim \<Rightarrow> byte" where
  "prim_code TByte = 0x01" | "prim_code TShort = 0x02" | "prim_code TInt = 0x03"
| "prim_code TLong = 0x04" | "prim_code TFloat = 0x05" | "prim_code TDouble = 0x06"
| "prim_code TChar = 0x07" | "prim_code TBool = 0x08"

fun prim_array_code :: "prim \<Rightarrow> byte" where
  "prim_array_code TByte = 0x0c" | "prim_array_code TShort = 0x0d" | "prim_array_code TInt = 0x0e"
| "prim_array_code TLong = 0x0f" | "prim_array_code TFloat = 0x10" | "prim_array_code TDouble = 0x11"
| "prim_array_code TChar = 0x12" | "prim_array_code TBool = 0x13"

fun std_code :: "std \<Rightarrow> byte" where
  "std_code String = 0x09" | "std_code UUIDObject = 0x0a" | "std_code DateObject = 0x0b"
| "std_code EnumObject = 0x1c" | "std_code DecimalObject = 0x1e"
| "std_code TimestampObject = 0x21" | "std_code TimeObject = 0x24"
| "std_code BinaryEnumObject = 0x26"

text \<open>\<open>BinaryEnumArrayObject\<close> inherits the code of \<open>EnumArrayObject\<close>.\<close>

fun std_array_code :: "std \<Rightarrow> byte" where
  "std_array_code String = 0x14" | "std_array_code UUIDObject = 0x15"
| "std_array_code DateObject = 0x16" | "std_array_code EnumObject = 0x1d"
| "std_array_code BinaryEnumObject = 0x1d" | "std_array_code DecimalObject = 0x1f"
| "std_array_code TimestampObject = 0x22" | "std_array_code TimeObject = 0x25"

definition TC_NULL :: byte where "TC_NULL = 0x65"
definition TC_OBJECT_ARRAY :: byte where "TC_OBJECT_ARRAY = 0x17"
definition TC_COLLECTION :: byte where "TC_COLLECTION = 0x18"
definition TC_MAP :: byte where "TC_MAP = 0x19"
definition TC_ARRAY_WRAPPED_OBJECTS :: byte where "TC_ARRAY_WRAPPED_OBJECTS = 0x1b"
definition TC_COMPLEX_OBJECT :: byte where "TC_COMPLEX_OBJECT = 0x67"

lemmas tc_defs = TC_NULL_def TC_OBJECT_ARRAY_def TC_COLLECTION_def TC_MAP_def
  TC_ARRAY_WRAPPED_OBJECTS_def TC_COMPLEX_OBJECT_def

fun type_code :: "dtype \<Rightarrow> byte option" where
  "type_code Null = Some TC_NULL"
| "type_code (DataObject p) = Some (prim_code p)"
| "type_code (Standard s) = Some (std_code s)"
| "type_code (PrimitiveArrayObject p) = Some (prim_array_code p)"
| "type_code (StandardArrayObject s) = Some (std_array_code s)"
| "type_code ObjectArrayObject = Some TC_OBJECT_ARRAY"
| "type_code CollectionObject = Some TC_COLLECTION"
| "type_code MapObject = Some TC_MAP"
| "type_code BinaryObject = Some TC_COMPLEX_OBJECT"
| "type_code WrappedDataObject = Some TC_ARRAY_WRAPPED_OBJECTS"
| "type_code AnyDataObject = None"

text \<open>The table of \<open>tc_map\<close>, in its order.\<close>

definition tc_table :: "(byte \<times> dtype) list" where
  "tc_table =
     [(TC_NULL, Null),
      (0x01, DataObject TByte), (0x02, DataObject TShort), (0x03, DataObject TInt),
      (0x04, DataObject TLong), (0x05, DataObject TFloat), (0x06, DataObject TDouble),
      (0x07, DataObject TChar), (0x08, DataObject TBool),
      (0x0a, Standard UUIDObject), (0x0b, Standard DateObject),
      (0x21, Standard TimestampObject), (0x24, Standard TimeObject),
      (0x1c, Standard EnumObject), (0x26, Standard BinaryEnumObject),
      (0x0c, PrimitiveArrayObject TByte), (0x0d, PrimitiveArrayObject TShort),
      (0x0e, PrimitiveArrayObject TInt), (0x0f, PrimitiveArrayObject TLong),
      (0x10, PrimitiveArrayObject TFloat), (0x11, PrimitiveArrayObject TDouble),
      (0x12, PrimitiveArrayObject TChar), (0x13, PrimitiveArrayObject TBool),
      (0x15, StandardArrayObject UUIDObject), (0x16, StandardArrayObject DateObject),
      (0x22, StandardArrayObject TimestampObject), (0x25, StandardArrayObject TimeObject),
      (0x1d, StandardArrayObject EnumObject),
      (0x09, Standard String), (0x14, StandardArrayObject String),
      (0x1e, Standard DecimalObject), (0x1f, StandardArrayObject DecimalObject),
      (TC_OBJECT_ARRAY, ObjectArrayObject), (TC_COLLECTION, CollectionObject),
      (TC_MAP, MapObject), (TC_COMPLEX_OBJECT, BinaryObject),
      (TC_ARRAY_WRAPPED_OBJECTS, WrappedDataObject)]"

text \<open>The key is the byte string sliced from the stream: not one byte, no entry.\<close>

fun tc_map :: "byte list \<Rightarrow> dtype res" where
  "tc_map [b] = (case map_of tc_table b of None \<Rightarrow> Inl KeyError | Some d \<Rightarrow> Inr d)"
| "tc_map _ = Inl KeyError"

text \<open>
  Every class of the table is found under its own code, so dispatch on the code written by a
  class returns that class; only \<open>BinaryEnumArrayObject\<close> shares the code of another class.
\<close>

lemma tc_map_type_code:
  assumes "type_code d = Some c" and "d \<noteq> StandardArrayObject BinaryEnumObject"
  shows "tc_map [c] = Inr d"
proof (cases d)
  case (DataObject p)
  with assms show ?thesis by (cases p) (simp_all add: tc_table_def tc_defs)
next
  case (Standard s)
  with assms show ?thesis by (cases s) (simp_all add: tc_table_def tc_defs)
next
  case (PrimitiveArrayObject p)
  with assms show ?thesis by (cases p) (simp_all add: tc_table_def tc_defs)
next
  case (StandardArrayObject s)
  with assms show ?thesis by (cases s) (simp_all add: tc_table_def tc_defs)
qed (use assms in \<open>simp_all add: tc_table_def tc_defs\<close>)

lemma type_code_not_null: "type_code d = Some c \<Longrightarrow> d \<noteq> Null \<Longrightarrow> c \<noteq> TC_NULL"
proof (cases d)
  case (DataObject p)
  then show "type_code d = Some c \<Longrightarrow> d \<noteq> Null \<Longrightarrow> c \<noteq> TC_NULL"
    by (cases p) (auto simp: tc_defs)
next
  case (Standard s)
  then show "type_code d = Some c \<Longrightarrow> d \<noteq> Null \<Longrightarrow> c \<noteq> TC_NULL"
    by (cases s) (auto simp: tc_defs)
next
  case (PrimitiveArrayObject p)
  then show "type_code d = Some c \<Longrightarrow> d \<noteq> Null \<Longrightarrow> c \<noteq> TC_NULL"
    by (cases p) (auto simp: tc_defs)
next
  case (StandardArrayObject s)
  then show "type_code d = Some c \<Longrightarrow> d \<noteq> Null \<Longrightarrow> c \<noteq> TC_NULL"
    by (cases s) (auto simp: tc_defs)
qed (auto simp: tc_defs)

end
