(* ===== verification/Registry.thy ===== *)
theory Registry
  imports Types
begin

section \<open>The client's registry of complex object classes\<close>

text \<open>
  The part of \<open>pygridgain/client.py\<close> that complex objects depend on: the
  \<open>compact_footer\<close> switch, the registry \<open>type id \<rightarrow> schema id \<rightarrow> class\<close>, its synchronisation
  with the binary types the server knows, and \<open>register_binary_type\<close>. What the server answers
  to \<open>OP_GET_BINARY_TYPE\<close> is a field of the environment (\<open>server_types\<close>);
  \<open>OP_PUT_BINARY_TYPE\<close> requests are logged in \<open>put_log\<close>.
\<close>

record type_info =
  ti_exists :: bool
  ti_name :: pystr
  ti_schemas :: "(pystr \<times> dtype) list list"

record client =
  compact :: "bool option"
  registry :: "int \<Rightarrow> (int \<times> pyclass) list"
  server_types :: "int \<Rightarrow> type_info"
  put_log :: "pyclass list"

definition no_type :: type_info where
  "no_type = \<lparr>ti_exists = False, ti_name = [], ti_schemas = []\<rparr>"

definition new_client :: "bool option \<Rightarrow> client" where
  "new_client cf = \<lparr>compact = cf, registry = (\<lambda>_. []), server_types = (\<lambda>_. no_type), put_log = []\<rparr>"

subsection \<open>The compact footer switch\<close>

definition compact_footer :: "client \<Rightarrow> bool" where
  "compact_footer c = (case compact c of None \<Rightarrow> True | Some b \<Rightarrow> b)"

definition set_compact_footer :: "bool \<Rightarrow> client \<Rightarrow> client res" where
  "set_compact_footer v c =
     (if compact c = Some v \<or> compact c = None then Inr (c\<lparr>compact := Some v\<rparr>)
      else Inl SchemaWarning)"

subsection \<open>Identifiers of a class\<close>

definition class_type_id :: "pyclass \<Rightarrow> int" where
  "class_type_id c = hashcode_fallback (HStr (py_lower (cls_type_name c)))"

definition schema_arg_of :: "(pystr \<times> dtype) list \<Rightarrow> schema_arg" where
  "schema_arg_of sch = SchemaDict (map fst sch)"

definition class_schema_id :: "pyclass \<Rightarrow> int" where
  "class_schema_id c = schema_id_fallback (schema_arg_of (cls_schema c))"

text \<open>\<open>ALLOWED_FIELD_TYPES\<close> of \<open>binary.py\<close>, checked when a class is created.\<close>

definition allowed_field_type :: "dtype \<Rightarrow> bool" where
  "allowed_field_type d \<longleftrightarrow> d \<noteq> AnyDataObject \<and> d \<noteq> StandardArrayObject BinaryEnumObject"

definition make_class :: "pystr \<Rightarrow> (pystr \<times> dtype) list \<Rightarrow> pyclass res" where
  "make_class name sch =
     (if list_all (\<lambda>f. allowed_field_type (snd f)) sch then Inr (PyClass name sch) else Inl ParseError)"

subsection \<open>Class names from binary type names\<close>

definition is_digit :: "nat \<Rightarrow> bool" where
  "is_digit c \<longleftrightarrow> 48 \<le> c \<and> c \<le> 57"

definition is_letter :: "nat \<Rightarrow> bool" where
  "is_letter c \<longleftrightarrow> (65 \<le> c \<and> c \<le> 90) \<or> (97 \<le> c \<and> c \<le> 122)"

text \<open>\<open>[^0-9a-zA-Z_.+$]\<close> is removed anywhere, \<open>^[^a-zA-Z_]+\<close> at the start.\<close>

definition identifier_char :: "nat \<Rightarrow> bool" where
  "identifier_char c \<longleftrightarrow> is_digit c \<or> is_letter c \<or> c = 95 \<or> c = 46 \<or> c = 43 \<or> c = 36"

definition create_type_name :: "pystr \<Rightarrow> pystr" where
  "create_type_name name =
     (let n1 = filter identifier_char name;
          n2 = process_delimiter 36 n1;
          n3 = process_delimiter 43 n2;
          n4 = process_delimiter 46 n3
      in capitalize (dropWhile (\<lambda>c. \<not> (is_letter c \<or> c = 95)) n4))"

subsection \<open>Registry lookups and updates\<close>

definition reg_put :: "int \<Rightarrow> int \<Rightarrow> pyclass \<Rightarrow> client \<Rightarrow> client" where
  "reg_put tid sid cl c =
     c\<lparr>registry := (registry c)(tid := (sid, cl) # filter (\<lambda>p. fst p \<noteq> sid) (registry c tid))\<rparr>"

text \<open>\<open>_create_dataclass\<close> names the class after the sanitised name.\<close>

fun sync_schemas :: "int \<Rightarrow> pystr \<Rightarrow> (pystr \<times> dtype) list list \<Rightarrow> client \<Rightarrow> client res" where
  "sync_schemas tid name [] c = Inr c"
| "sync_schemas tid name (sch # rest) c =
     (let sid = schema_id_fallback (schema_arg_of sch)
      in case map_of (registry c tid) sid of
           Some cl \<Rightarrow> sync_schemas tid name rest c
         | None \<Rightarrow> rbind (make_class (create_type_name name) sch)
             (\<lambda>cl. sync_schemas tid name rest (reg_put tid sid cl c)))"

definition sync_binary_registry :: "int \<Rightarrow> type_info \<Rightarrow> client \<Rightarrow> client res" where
  "sync_binary_registry tid ti c =
     (if ti_exists ti then sync_schemas tid (ti_name ti) (ti_schemas ti) c else Inr c)"

text \<open>
  \<open>_get_from_registry\<close> with a falsy schema (also a schema id 0) returns the whole
  dictionary of the type, not a class.
\<close>

datatype reg_result = RNone | RClass pyclass | RDict "(int \<times> pyclass) list"

definition get_from_registry :: "int \<Rightarrow> int option \<Rightarrow> client \<Rightarrow> reg_result" where
  "get_from_registry tid sid c =
     (case sid of
        None \<Rightarrow> RDict (registry c tid)
      | Some s \<Rightarrow>
          if s = 0 then RDict (registry c tid)
          else case map_of (registry c tid) s of None \<Rightarrow> RNone | Some cl \<Rightarrow> RClass cl)"

definition reg_found :: "reg_result \<Rightarrow> bool" where
  "reg_found r = (case r of RNone \<Rightarrow> False | RClass _ \<Rightarrow> True | RDict d \<Rightarrow> d \<noteq> [])"

definition query_binary_type :: "int \<Rightarrow> int option \<Rightarrow> client \<Rightarrow> (reg_result \<times> client) res" where
  "query_binary_type tid sid c =
     (let r = get_from_registry tid sid c
      in if reg_found r then Inr (r, c)
         else rbind (sync_binary_registry tid (server_types c tid) c)
                (\<lambda>c'. Inr (get_from_registry tid sid c', c')))"

text \<open>\<open>BinaryStream.get_dataclass\<close>: its caller reads \<open>.schema\<close> of the result.\<close>

definition get_dataclass :: "int \<Rightarrow> int \<Rightarrow> client \<Rightarrow> (pyclass \<times> client) res" where
  "get_dataclass tid sid c =
     rbind (query_binary_type tid (Some sid) c) (\<lambda>(r, c').
       if \<not> reg_found r then Inl RuntimeError
       else case r of RClass cl \<Rightarrow> Inr (cl, c') | _ \<Rightarrow> Inl AttributeError)"

definition register_binary_type :: "pyclass \<Rightarrow> client \<Rightarrow> client res" where
  "register_binary_type cl c =
     rbind (query_binary_type (class_type_id cl) (Some (class_schema_id cl)) c) (\<lambda>(r, c').
       let c'' = (if reg_found r then c' else c'\<lparr>put_log := put_log c' @ [cl]\<rparr>)
       in Inr (reg_put (class_type_id cl) (class_schema_id cl) cl c''))"

subsection \<open>What registration guarantees\<close>

lemma map_of_filter_neq:
  "map_of (filter (\<lambda>p. fst p \<noteq> k) xs) k' = (if k' = k then None else map_of xs k')"
  by (induction xs) auto

lemma reg_put_lookup [simp]:
  "map_of (registry (reg_put tid sid cl c) tid') sid' =
     (if tid' = tid \<and> sid' = sid then Some cl else map_of (registry c tid') sid')"
  by (simp add: reg_put_def map_of_filter_neq)

lemma reg_put_frame [simp]:
  "compact (reg_put tid sid cl c) = compact c"
  "server_types (reg_put tid sid cl c) = server_types c"
  "put_log (reg_put tid sid cl c) = put_log c"
  by (simp_all add: reg_put_def)

lemma sync_schemas_mono:
  "sync_schemas tid name schs c = Inr c' \<Longrightarrow> map_of (registry c t) s = Some cl \<Longrightarrow>
   map_of (registry c' t) s = Some cl"
proof (induction tid name schs c rule: sync_schemas.induct)
  case (2 tid name sch rest c)
  let ?sid = "schema_id_fallback (schema_arg_of sch)"
  show ?case
  proof (cases "map_of (registry c tid) ?sid")
    case None
    with "2.prems"(1) obtain x where m: "make_class (create_type_name name) sch = Inr x" and
      x: "sync_schemas tid name rest (reg_put tid ?sid x c) = Inr c'"
      by (auto simp: Let_def rbind_eq_Inr_iff)
    have "map_of (registry (reg_put tid ?sid x c) t) s = Some cl"
      using "2.prems"(2) None by auto
    from "2.IH"(1) [OF refl None m x this] show ?thesis .
  next
    case (Some y)
    with 2 show ?thesis by (simp add: Let_def)
  qed
qed simp

lemma sync_schemas_frame:
  "sync_schemas tid name schs c = Inr c' \<Longrightarrow>
   compact c' = compact c \<and> server_types c' = server_types c \<and> put_log c' = put_log c"
  by (induction tid name schs c rule: sync_schemas.induct)
    (auto simp: Let_def rbind_eq_Inr_iff split: option.splits)

lemma query_binary_type_frame:
  "query_binary_type tid sid c = Inr (r, c') \<Longrightarrow>
   compact c' = compact c \<and> server_types c' = server_types c \<and> put_log c' = put_log c"
  by (auto simp: query_binary_type_def sync_binary_registry_def Let_def rbind_eq_Inr_iff
      split: if_splits dest: sync_schemas_frame)

lemma register_binary_type_frame:
  "register_binary_type cl c = Inr c' \<Longrightarrow>
   compact c' = compact c \<and> server_types c' = server_types c"
  by (auto simp: register_binary_type_def rbind_eq_Inr_iff Let_def dest!: query_binary_type_frame)

lemma registered_lookup:
  "register_binary_type cl c = Inr c' \<Longrightarrow>
   map_of (registry c' (class_type_id cl)) (class_schema_id cl) = Some cl"
  by (auto simp: register_binary_type_def rbind_eq_Inr_iff Let_def)

lemma get_dataclass_lookup:
  "sid \<noteq> 0 \<Longrightarrow> map_of (registry c tid) sid = Some cl \<Longrightarrow> get_dataclass tid sid c = Inr (cl, c)"
  by (simp add: get_dataclass_def query_binary_type_def get_from_registry_def reg_found_def Let_def)

end
