(* ===== verification/Stream.thy ===== *)
theory Stream
  imports Registry
begin

section \<open>Binary streams\<close>

text \<open>
  \<open>pygridgain/stream/binary_stream.py\<close>: a \<open>BytesIO\<close> with its position, the cached memory
  view of \<open>getbuffer\<close> and the client. \<open>sview\<close> is the length of the exported view, if there is
  one: a view of an empty buffer is falsy in Python, so \<open>_release_buffer\<close> does not release it
  and the following write raises BufferError. Seeking past the end and writing there fills the
  gap with zeros.
\<close>

record bstream =
  sbuf :: "byte list"
  spos :: nat
  sview :: "nat option"
  sclient :: client

definition new_stream :: "client \<Rightarrow> byte list \<Rightarrow> bstream" where
  "new_stream c buf = \<lparr>sbuf = buf, spos = 0, sview = None, sclient = c\<rparr>"

definition getbuffer :: "bstream \<Rightarrow> bstream" where
  "getbuffer st =
     (case sview st of
        Some n \<Rightarrow> if n \<noteq> 0 then st else st\<lparr>sview := Some (length (sbuf st))\<rparr>
      | None \<Rightarrow> st\<lparr>sview := Some (length (sbuf st))\<rparr>)"

definition release_buffer :: "bstream \<Rightarrow> bstream" where
  "release_buffer st =
     (case sview st of Some n \<Rightarrow> if n \<noteq> 0 then st\<lparr>sview := None\<rparr> else st | None \<Rightarrow> st)"

definition overwrite :: "byte list \<Rightarrow> nat \<Rightarrow> byte list \<Rightarrow> byte list" where
  "overwrite buf p bs =
     (if bs = [] then buf
      else take p buf @ replicate (p - length buf) 0 @ bs @ drop (p + length bs) buf)"

definition swrite :: "byte list \<Rightarrow> bstream \<Rightarrow> bstream res" where
  "swrite bs st0 =
     (let st = release_buffer st0
      in if sview st \<noteq> None then Inl BufferError
         else Inr (st\<lparr>sbuf := overwrite (sbuf st) (spos st) bs, spos := spos st + length bs\<rparr>))"

definition seek_set :: "nat \<Rightarrow> bstream \<Rightarrow> bstream" where
  "seek_set n st = st\<lparr>spos := n\<rparr>"

definition seek_cur :: "nat \<Rightarrow> bstream \<Rightarrow> bstream" where
  "seek_cur n st = st\<lparr>spos := spos st + n\<rparr>"

definition bslice :: "byte list \<Rightarrow> nat \<Rightarrow> nat \<Rightarrow> byte list" where
  "bslice buf start offset = take offset (drop start buf)"

definition slice :: "nat \<Rightarrow> nat \<Rightarrow> bstream \<Rightarrow> byte list \<times> bstream" where
  "slice start offset st = (bslice (sbuf st) start offset, getbuffer st)"

definition stream_hashcode :: "nat \<Rightarrow> nat \<Rightarrow> bstream \<Rightarrow> int \<times> bstream" where
  "stream_hashcode start n st = (bytes_hashcode (bslice (sbuf st) start n), getbuffer st)"

text \<open>
  \<open>read_ctype\<close>, forward from a position and backward from the current one;
  \<open>from_buffer_copy\<close> raises ValueError on a short buffer. A backward read whose start would
  be negative does not occur after a successful parse and is an empty slice here.
\<close>

definition read_ctype :: "ctype \<Rightarrow> bstream \<Rightarrow> (cobj \<times> bstream) res" where
  "read_ctype t st =
     (let bs = bslice (sbuf st) (spos st) (sizeof_ct t)
      in if length bs < sizeof_ct t then Inl ValueError else Inr (read_ct t bs, getbuffer st))"

definition read_ctype_backward :: "ctype \<Rightarrow> bstream \<Rightarrow> (cobj \<times> bstream) res" where
  "read_ctype_backward t st =
     (if spos st < sizeof_ct t then Inl ValueError
      else let bs = bslice (sbuf st) (spos st - sizeof_ct t) (sizeof_ct t)
           in if length bs < sizeof_ct t then Inl ValueError else Inr (read_ct t bs, getbuffer st))"

text \<open>The stream's access to the client.\<close>

definition on_client :: "(client \<Rightarrow> client res) \<Rightarrow> bstream \<Rightarrow> bstream res" where
  "on_client f st = rbind (f (sclient st)) (\<lambda>c. Inr (st\<lparr>sclient := c\<rparr>))"

definition stream_get_dataclass :: "int \<Rightarrow> int \<Rightarrow> bstream \<Rightarrow> (pyclass \<times> bstream) res" where
  "stream_get_dataclass tid sid st =
     rbind (get_dataclass tid sid (sclient st)) (\<lambda>(cl, c). Inr (cl, st\<lparr>sclient := c\<rparr>))"

subsection \<open>Appending and reading\<close>

text \<open>
  \<open>at_end st\<close>: the stream is positioned at its end with no exported view, the state in which
  every encoder runs; \<open>appended st bs st'\<close>: the encoder appended exactly \<open>bs\<close>.
\<close>

definition at_end :: "bstream \<Rightarrow> bool" where
  "at_end st \<longleftrightarrow> spos st = length (sbuf st) \<and> sview st = None"

definition append_to :: "bstream \<Rightarrow> byte list \<Rightarrow> bstream" where
  "append_to st bs = st\<lparr>sbuf := sbuf st @ bs, spos := spos st + length bs\<rparr>"

lemma swrite_at_end: "at_end st \<Longrightarrow> swrite bs st = Inr (append_to st bs)"
  by (simp add: at_end_def swrite_def release_buffer_def overwrite_def append_to_def Let_def)

lemma append_to_at_end [simp]: "at_end st \<Longrightarrow> at_end (append_to st bs)"
  by (simp add: at_end_def append_to_def)

lemma append_to_fields [simp]:
  "sbuf (append_to st bs) = sbuf st @ bs"
  "spos (append_to st bs) = spos st + length bs"
  "sview (append_to st bs) = sview st"
  "sclient (append_to st bs) = sclient st"
  by (simp_all add: append_to_def)

lemma append_to_append [simp]: "append_to (append_to st bs) cs = append_to st (bs @ cs)"
  by (simp add: append_to_def)

lemma append_to_Nil [simp]: "append_to st [] = st"
  by (simp add: append_to_def)

lemma getbuffer_fields [simp]:
  "sbuf (getbuffer st) = sbuf st" "spos (getbuffer st) = spos st"
  "sclient (getbuffer st) = sclient st"
  by (auto simp: getbuffer_def split: option.splits)

lemma seek_fields [simp]:
  "sbuf (seek_cur n st) = sbuf st" "spos (seek_cur n st) = spos st + n"
  "sclient (seek_cur n st) = sclient st" "sview (seek_cur n st) = sview st"
  "sbuf (seek_set n st) = sbuf st" "spos (seek_set n st) = n"
  "sclient (seek_set n st) = sclient st" "sview (seek_set n st) = sview st"
  by (simp_all add: seek_cur_def seek_set_def)

lemma bslice_append [simp]:
  "length bs = n \<Longrightarrow> bslice (pre @ bs @ post) (length pre) n = bs"
  "length bs = n \<Longrightarrow> bslice (pre @ bs) (length pre) n = bs"
  by (simp_all add: bslice_def)

text \<open>
  \<open>reads st bs\<close>: the bytes \<open>bs\<close> are in the buffer at the current position. The effect of a
  parser is stated up to the cached view: same buffer, position advanced.
\<close>

definition reads :: "bstream \<Rightarrow> byte list \<Rightarrow> bool" where
  "reads st bs \<longleftrightarrow> (\<exists>post. drop (spos st) (sbuf st) = bs @ post) \<and> spos st \<le> length (sbuf st)"

definition advanced :: "bstream \<Rightarrow> nat \<Rightarrow> bstream \<Rightarrow> bool" where
  "advanced st n st' \<longleftrightarrow> sbuf st' = sbuf st \<and> spos st' = spos st + n"

lemma reads_append: "reads st (bs @ cs) \<Longrightarrow> reads st bs"
  by (auto simp: reads_def)

lemma reads_advanced: "reads st (bs @ cs) \<Longrightarrow> advanced st (length bs) st' \<Longrightarrow> reads st' cs"
proof -
  assume r: "reads st (bs @ cs)" and a: "advanced st (length bs) st'"
  from r obtain post where d: "drop (spos st) (sbuf st) = bs @ cs @ post"
    and p: "spos st \<le> length (sbuf st)" by (auto simp: reads_def)
  have "drop (spos st') (sbuf st') = drop (length bs) (drop (spos st) (sbuf st))"
    using a by (simp add: advanced_def add.commute)
  moreover have "length (sbuf st) - spos st = length (bs @ cs @ post)"
    using d by (metis length_drop)
  ultimately show ?thesis using a p d by (auto simp: reads_def advanced_def)
qed

lemma reads_slice:
  "reads st bs \<Longrightarrow> i + n \<le> length bs \<Longrightarrow> bslice (sbuf st) (spos st + i) n = take n (drop i bs)"
proof -
  assume "reads st bs" and i: "i + n \<le> length bs"
  then obtain post where d: "drop (spos st) (sbuf st) = bs @ post" by (auto simp: reads_def)
  have "drop (spos st + i) (sbuf st) = drop i (drop (spos st) (sbuf st))" by (simp add: add.commute)
  with d i show ?thesis by (simp add: bslice_def)
qed

lemma reads_slice0: "reads st bs \<Longrightarrow> n \<le> length bs \<Longrightarrow> bslice (sbuf st) (spos st) n = take n bs"
  using reads_slice [of st bs 0 n] by simp

lemma advanced_trans: "advanced st m st1 \<Longrightarrow> advanced st1 n st2 \<Longrightarrow> advanced st (m + n) st2"
  by (simp add: advanced_def)

lemma advanced_0 [simp]: "advanced st 0 st"
  by (simp add: advanced_def)

lemma advanced_seek [simp]: "advanced st n (seek_cur n st)"
  by (simp add: advanced_def)

lemma advanced_getbuffer [simp]:
  "advanced (getbuffer st) n st' = advanced st n st'"
  "advanced st n (getbuffer st') = advanced st n st'"
  by (simp_all add: advanced_def)

lemma reads_getbuffer [simp]: "reads (getbuffer st) bs = reads st bs"
  by (simp add: reads_def)

lemma read_back:
  assumes "reads st bs" and "advanced st (sizeof_ct t) st'" and "length bs = sizeof_ct t"
  shows "read_ctype_backward t st' = Inr (read_ct t bs, getbuffer st')"
proof -
  have "spos st' - sizeof_ct t = spos st" "sbuf st' = sbuf st"
    using assms(2) by (simp_all add: advanced_def)
  then have "bslice (sbuf st') (spos st' - sizeof_ct t) (sizeof_ct t) = bs"
    using reads_slice0 [OF assms(1), of "sizeof_ct t"] assms(3) by simp
  with assms show ?thesis by (simp add: read_ctype_backward_def advanced_def)
qed

text \<open>A fresh stream over received bytes reads them.\<close>

lemma reads_new_stream: "reads (new_stream c (bs @ post)) bs"
  by (simp add: reads_def new_stream_def)

lemma at_end_new_stream: "at_end (new_stream c [])"
  by (simp add: at_end_def new_stream_def)

text \<open>Hashing the empty buffer first makes the next write fail.\<close>

lemma empty_view_blocks_write:
  "swrite bs (snd (stream_hashcode i n (seek_cur k (new_stream c [])))) = Inl BufferError"
  by (simp add: stream_hashcode_def getbuffer_def seek_cur_def new_stream_def swrite_def
      release_buffer_def Let_def)

end
