(* ===== verification/Floats.thy ===== *)
theory Floats
  imports Stream
begin

section \<open>Binary floating point and time arithmetic\<close>

text \<open>
  The float operations the data classes use. A double is its IEEE bits (\<open>64 word\<close>); for the
  time conversions, which compute \<open>value.total_seconds() * 1000\<close> and
  \<open>value.timestamp() * 1000\<close> in floating point before truncating, a finite double is a pair
  \<open>(m, e)\<close> standing for \<open>m * 2 ^ e\<close>, and \<open>fl_ratio n d\<close> is the correctly rounded
  (half to even, 53 bits) quotient of two integers. Exponent overflow cannot occur in the
  ranges of \<open>datetime\<close> and \<open>timedelta\<close>.
\<close>

fun bitlen :: "nat \<Rightarrow> nat" where
  "bitlen n = (if n = 0 then 0 else Suc (bitlen (n div 2)))"

declare bitlen.simps [simp del]

type_synonym fl = "int \<times> int"

definition scaled :: "nat \<Rightarrow> nat \<Rightarrow> int \<Rightarrow> nat \<times> nat" where
  "scaled n d k = (if 0 \<le> k then (n, d * 2 ^ nat k) else (n * 2 ^ nat (- k), d))"

definition fl_nat :: "nat \<Rightarrow> nat \<Rightarrow> fl" where
  "fl_nat n d =
     (if n = 0 then (0, 0)
      else let k = int (bitlen n) - int (bitlen d) - 53;
               q = (case scaled n d k of (a, b) \<Rightarrow> a div b);
               k' = (if 2 ^ 53 \<le> q then k + 1 else k)
           in case scaled n d k' of (a, b) \<Rightarrow> (int (round_half_even a b), k'))"

definition fl_ratio :: "int \<Rightarrow> nat \<Rightarrow> fl" where
  "fl_ratio n d = (case fl_nat (nat \<bar>n\<bar>) d of (m, e) \<Rightarrow> (if n < 0 then (- m, e) else (m, e)))"

text \<open>Sum with an integer, product with an integer, truncation: the arguments are exact.\<close>

definition fl_mul :: "fl \<Rightarrow> int \<Rightarrow> fl" where
  "fl_mul x c = (case x of (m, e) \<Rightarrow>
     if 0 \<le> e then fl_ratio (m * c * 2 ^ nat e) 1 else fl_ratio (m * c) (2 ^ nat (- e)))"

definition fl_add :: "int \<Rightarrow> fl \<Rightarrow> fl" where
  "fl_add s x = (case x of (m, e) \<Rightarrow>
     if 0 \<le> e then fl_ratio (s + m * 2 ^ nat e) 1
     else fl_ratio (s * 2 ^ nat (- e) + m) (2 ^ nat (- e)))"

definition fl_trunc :: "fl \<Rightarrow> int" where
  "fl_trunc x = (case x of (m, e) \<Rightarrow>
     if 0 \<le> e then m * 2 ^ nat e else sgn m * (\<bar>m\<bar> div 2 ^ nat (- e)))"

definition fl_frac :: "fl \<Rightarrow> fl" where
  "fl_frac x = (case x of (m, e) \<Rightarrow>
     if 0 \<le> e then (0, 0) else (m - fl_trunc x * 2 ^ nat (- e), e))"

definition fl_round :: "fl \<Rightarrow> int" where
  "fl_round x = (case x of (m, e) \<Rightarrow>
     if 0 \<le> e then m * 2 ^ nat e
     else sgn m * int (round_half_even (nat \<bar>m\<bar>) (2 ^ nat (- e))))"

subsection \<open>Milliseconds\<close>

text \<open>\<open>int(value.total_seconds() * 1000)\<close> of a timedelta of \<open>us\<close> microseconds.\<close>

definition timedelta_ms :: "int \<Rightarrow> int" where
  "timedelta_ms us = fl_trunc (fl_mul (fl_ratio us 1000000) 1000)"

text \<open>\<open>math.floor(value.total_seconds() * 1000)\<close>, as \<open>expiry_policy.py\<close> does.\<close>

definition fl_floor :: "fl \<Rightarrow> int" where
  "fl_floor x = (case x of (m, e) \<Rightarrow> if 0 \<le> e then m * 2 ^ nat e else m div 2 ^ nat (- e))"

definition timedelta_ms_floor :: "int \<Rightarrow> int" where
  "timedelta_ms_floor us = fl_floor (fl_mul (fl_ratio us 1000000) 1000)"

text \<open>\<open>int(value.timestamp() * 1000)\<close> of a naive datetime: \<open>timestamp()\<close> is \<open>s + us / 1e6\<close>.\<close>

definition datetime_ms :: "int \<Rightarrow> nat \<Rightarrow> int" where
  "datetime_ms s us = fl_trunc (fl_mul (fl_add s (fl_ratio (int us) 1000000)) 1000)"

text \<open>\<open>datetime.fromtimestamp(epoch / 1000)\<close>: seconds and rounded microseconds.\<close>

definition datetime_of_ms :: "int \<Rightarrow> int \<times> nat" where
  "datetime_of_ms epoch =
     (let t = fl_ratio epoch 1000;
          s = fl_trunc t;
          us = fl_round (fl_mul (fl_frac t) 1000000)
      in if us < 0 then (s - 1, nat (us + 1000000))
         else if 1000000 \<le> us then (s + 1, nat (us - 1000000))
         else (s, nat us))"

text \<open>A value that is an integer of at most 53 bits is not rounded.\<close>

lemma bitlen_bounds: "0 < n \<Longrightarrow> 2 ^ (bitlen n - 1) \<le> n \<and> n < 2 ^ bitlen n \<and> 0 < bitlen n"
proof (induction n rule: bitlen.induct)
  case (1 n)
  have b: "bitlen n = Suc (bitlen (n div 2))" using "1.prems" by (simp add: bitlen.simps [of n])
  show ?case
  proof (cases "n div 2 = 0")
    case True
    with "1.prems" have "n = 1" by simp
    then show ?thesis by (simp add: bitlen.simps)
  next
    case False
    with "1.IH" "1.prems" have IH: "2 ^ (bitlen (n div 2) - 1) \<le> n div 2"
      "n div 2 < 2 ^ bitlen (n div 2)" "0 < bitlen (n div 2)" by auto
    from IH(3) have "(2 :: nat) ^ bitlen (n div 2) = 2 * 2 ^ (bitlen (n div 2) - 1)"
      by (metis power_minus_mult mult.commute)
    moreover have h: "2 * (n div 2) \<le> n" "n < 2 * (n div 2) + 2" by simp_all
    have "2 * 2 ^ (bitlen (n div 2) - 1) \<le> n" using IH(1) h(1) by linarith
    moreover have "n < 2 * 2 ^ bitlen (n div 2)" using IH(2) h(2) by linarith
    ultimately show ?thesis using IH(3) by (simp add: b)
  qed
qed

lemma round_half_even_exact: "0 < m \<Longrightarrow> round_half_even (q * m) m = q"
  by (simp add: round_half_even_def Let_def)

lemma bitlen_le: "n < 2 ^ b \<Longrightarrow> bitlen n \<le> b"
proof (rule ccontr)
  assume n: "n < 2 ^ b" and b: "\<not> bitlen n \<le> b"
  then have "(2 :: nat) ^ b \<le> 2 ^ (bitlen n - 1)" by (intro power_increasing) auto
  moreover have "0 < n" using b by (cases "n = 0") (auto simp: bitlen.simps [of 0])
  then have "2 ^ (bitlen n - 1) \<le> n" using bitlen_bounds by blast
  ultimately show False using n by linarith
qed

lemma bitlen_mult: "bitlen (q * d) \<le> bitlen q + bitlen d"
proof (cases "q = 0 \<or> d = 0")
  case False
  then have "q < 2 ^ bitlen q" "d < 2 ^ bitlen d" using bitlen_bounds by auto
  then have "q * d < 2 ^ bitlen q * 2 ^ bitlen d" by (intro mult_strict_mono) auto
  then show ?thesis by (intro bitlen_le) (simp add: power_add)
qed (auto simp: bitlen.simps [of 0])

lemma fl_nat_exact:
  assumes "0 < d" and "q < 2 ^ 53"
  shows "\<exists>j. fl_nat (q * d) d = (int q * 2 ^ j, - int j)"
proof (cases "q = 0")
  case False
  define k where "k = int (bitlen (q * d)) - int (bitlen d) - 53"
  define k' where "k' = (if 2 ^ 53 \<le> (case scaled (q * d) d k of (a, b) \<Rightarrow> a div b) then k + 1 else k)"
  have "k \<le> 0" using bitlen_mult [of q d] bitlen_le [OF assms(2)] by (simp add: k_def)
  moreover have "k = 0 \<Longrightarrow> k' = 0" using assms by (simp add: k'_def scaled_def)
  moreover have "k' \<le> k + 1" by (simp add: k'_def)
  ultimately have "k' \<le> 0" by (cases "k = 0") auto
  then obtain j where j: "k' = - int j" by (metis nonpos_int_cases)
  have "scaled (q * d) d k' = (q * 2 ^ j * d, d)"
    by (simp add: scaled_def j algebra_simps)
  then have "(case scaled (q * d) d k' of (a, b) \<Rightarrow> (int (round_half_even a b), k')) =
      (int q * 2 ^ j, - int j)"
    using round_half_even_exact [OF assms(1), of "q * 2 ^ j"] by (simp add: j)
  moreover have "fl_nat (q * d) d =
      (case scaled (q * d) d k' of (a, b) \<Rightarrow> (int (round_half_even a b), k'))"
    using False assms(1) by (simp add: fl_nat_def Let_def k_def k'_def)
  ultimately show ?thesis by metis
qed (auto simp: fl_nat_def)

lemma fl_ratio_exact:
  assumes "0 < d" and "\<bar>q\<bar> < 2 ^ 53"
  shows "\<exists>j. fl_ratio (q * int d) d = (q * 2 ^ j, - int j)"
proof -
  have "nat \<bar>q * int d\<bar> = nat \<bar>q\<bar> * d" by (simp add: abs_mult nat_mult_distrib)
  moreover have "nat \<bar>q\<bar> < 2 ^ 53" using assms(2) by simp
  from fl_nat_exact [OF assms(1) this] obtain j where
    "fl_nat (nat \<bar>q\<bar> * d) d = (int (nat \<bar>q\<bar>) * 2 ^ j, - int j)" by blast
  moreover have "q * int d < 0 \<longleftrightarrow> q < 0" using assms(1) by (simp add: mult_less_0_iff)
  ultimately show ?thesis by (auto simp: fl_ratio_def intro!: exI [of _ j])
qed

lemma fl_mul_exact:
  assumes "\<bar>q * c\<bar> < 2 ^ 53"
  shows "\<exists>j. fl_mul (q * 2 ^ i, - int i) c = (q * c * 2 ^ j, - int j)"
proof -
  have "fl_mul (q * 2 ^ i, - int i) c = fl_ratio (q * c * int (2 ^ i)) (2 ^ i)"
    by (cases "i = 0") (simp_all add: fl_mul_def algebra_simps)
  then show ?thesis using fl_ratio_exact [of "2 ^ i" "q * c"] assms by simp
qed

lemma fl_trunc_exact: "fl_trunc (q * 2 ^ j, - int j) = q"
proof -
  have "\<bar>q * 2 ^ j\<bar> div 2 ^ j = \<bar>q\<bar>" by (simp add: abs_mult)
  moreover have "sgn (q * 2 ^ j) = sgn q" by (simp add: sgn_mult)
  ultimately show ?thesis by (cases "j = 0") (simp_all add: fl_trunc_def mult_sgn_abs)
qed

text \<open>Whole seconds convert exactly.\<close>

lemma timedelta_ms_seconds:
  assumes "\<bar>s * 1000\<bar> < 2 ^ 53"
  shows "timedelta_ms (s * 1000000) = s * 1000"
proof -
  have "\<bar>s\<bar> < 2 ^ 53" using assms by simp
  from fl_ratio_exact [of 1000000 s] this obtain i where
    "fl_ratio (s * 1000000) 1000000 = (s * 2 ^ i, - int i)" by auto
  moreover from fl_mul_exact [OF assms, of i] obtain j where
    "fl_mul (s * 2 ^ i, - int i) 1000 = (s * 1000 * 2 ^ j, - int j)" by blast
  ultimately show ?thesis by (simp only: timedelta_ms_def fl_trunc_exact)
qed

subsection \<open>Doubles, floats and integers\<close>

definition rne_shift :: "nat \<Rightarrow> nat \<Rightarrow> nat" where
  "rne_shift n k = round_half_even n (2 ^ k)"

text \<open>The C conversion \<open>(float) d\<close>; the carry of rounding moves into the exponent.\<close>

definition d2f :: "64 word \<Rightarrow> 32 word" where
  "d2f d =
     (let b = unat d; s = b div 2 ^ 63 * 2 ^ 31; ex = b div 2 ^ 52 mod 2048; m = b mod 2 ^ 52
      in if ex = 2047 then
           of_nat (s + 0x7f800000 + (if m = 0 then 0 else m div 2 ^ 29 mod 0x400000 + 0x400000))
         else if 1151 \<le> ex then of_nat (s + 0x7f800000)
         else if 897 \<le> ex then
           of_nat (s + min 0x7f800000 ((ex - 896) * 2 ^ 23 + rne_shift m 29))
         else if ex = 0 then of_nat s
         else of_nat (s + rne_shift (2 ^ 52 + m) (926 - ex)))"

definition f2d :: "32 word \<Rightarrow> 64 word" where
  "f2d f =
     (let b = unat f; s = b div 2 ^ 31 * 2 ^ 63; ex = b div 2 ^ 23 mod 256; m = b mod 2 ^ 23
      in if ex = 255 then
           of_nat (s + 2047 * 2 ^ 52 + (if m = 0 then 0 else (m mod 0x400000 + 0x400000) * 2 ^ 29))
         else if ex \<noteq> 0 then of_nat (s + (ex + 896) * 2 ^ 52 + m * 2 ^ 29)
         else if m = 0 then of_nat s
         else let l = bitlen m
              in of_nat (s + (l + 873) * 2 ^ 52 + (m * 2 ^ (53 - l) - 2 ^ 52)))"

text \<open>\<open>float(i)\<close>; integers past the double range raise OverflowError.\<close>

definition i2d :: "int \<Rightarrow> 64 word res" where
  "i2d i =
     (if i = 0 then Inr 0
      else let n = nat \<bar>i\<bar>; s = (if i < 0 then 2 ^ 63 else 0); l = bitlen n;
               m = (if l \<le> 53 then n * 2 ^ (53 - l) else rne_shift n (l - 53));
               b = (l + 1022) * 2 ^ 52 + (m - 2 ^ 52)
           in if 2047 * 2 ^ 52 \<le> b then Inl OverflowError else Inr (of_nat (s + b)))"

definition float_is_inf :: "32 word \<Rightarrow> bool" where
  "float_is_inf f \<longleftrightarrow> unat f mod 2 ^ 31 = 0x7f800000"

definition double_is_inf :: "64 word \<Rightarrow> bool" where
  "double_is_inf d \<longleftrightarrow> unat d mod 2 ^ 63 = 2047 * 2 ^ 52"

end
