(* ===== verification/Codec.thy ===== *)
theory Codec
  imports Floats
begin

section \<open>The codec interface\<close>

text \<open>
  Every data class is used through the same three operations: \<open>from_python\<close> appends bytes,
  \<open>parse\<close> advances the stream and returns a ctypes layout, and \<open>to_python\<close> converts an
  instance of the layout. \<open>decodes\<close> states that the bytes \<open>bs\<close> are parsed, wherever they
  stand in a stream, to a layout that covers exactly \<open>bs\<close> and whose instance converts to
  \<open>v\<close>; \<open>P\<close> is an invariant of the client the parser may rely on and keeps. The locale
  \<open>wire_codec\<close> is the contract between an element class and the array, collection and map
  classes built on it (the repeated \<open>element_{i}\<close> loop), whose lemmas are proved here once.
\<close>

definition decodes ::
  "(client \<Rightarrow> bool) \<Rightarrow> (bstream \<Rightarrow> (ctype \<times> bstream) res) \<Rightarrow> (cobj \<Rightarrow> 'v res) \<Rightarrow> byte list \<Rightarrow> 'v \<Rightarrow> bool"
where
  "decodes P parse to_py bs v \<longleftrightarrow>
     (\<forall>st. reads st bs \<longrightarrow> P (sclient st) \<longrightarrow>
        (\<exists>t st'. parse st = Inr (t, st') \<and> advanced st (length bs) st' \<and> P (sclient st') \<and>
          sizeof_ct t = length bs \<and> to_py (read_ct t bs) = Inr v))"

lemma decodesI:
  assumes "\<And>st. reads st bs \<Longrightarrow> P (sclient st) \<Longrightarrow>
     \<exists>t st'. parse st = Inr (t, st') \<and> advanced st (length bs) st' \<and> P (sclient st') \<and>
       sizeof_ct t = length bs \<and> to_py (read_ct t bs) = Inr v"
  shows "decodes P parse to_py bs v"
  using assms by (simp add: decodes_def)

lemma decodesE:
  assumes "decodes P parse to_py bs v" and "reads st bs" and "P (sclient st)"
  obtains t st' where "parse st = Inr (t, st')" "advanced st (length bs) st'" "P (sclient st')"
    "sizeof_ct t = length bs" "to_py (read_ct t bs) = Inr v"
  using assms unfolding decodes_def by blast

subsection \<open>Null values\<close>

definition null_ct :: ctype where
  "null_ct = CStruct [(Nm ''type_code'', c_byte)]"

definition null_parse :: "bstream \<Rightarrow> (ctype \<times> bstream) res" where
  "null_parse st = Inr (null_ct, seek_cur 1 st)"

definition nullable_parse :: "(bstream \<Rightarrow> (ctype \<times> bstream) res) \<Rightarrow> bstream \<Rightarrow> (ctype \<times> bstream) res" where
  "nullable_parse parse_not_null st =
     (let (code, st1) = slice (spos st) 1 st
      in if code = [TC_NULL] then Inr (null_ct, seek_cur 1 st1) else parse_not_null st1)"

definition nullable_from_python :: "(pyval \<Rightarrow> byte list res) \<Rightarrow> pyval \<Rightarrow> byte list res" where
  "nullable_from_python from_python_not_null v =
     (if v = VNone then Inr [TC_NULL] else from_python_not_null v)"

definition nullable_to_python :: "(cobj \<Rightarrow> pyval res) \<Rightarrow> cobj \<Rightarrow> pyval res" where
  "nullable_to_python to_python_not_null ob =
     rbind (getint ''type_code'' ob) (\<lambda>c. if c = 101 then Inr VNone else to_python_not_null ob)"

lemma nullable_null_decodes: "decodes P (nullable_parse p) (nullable_to_python f) [TC_NULL] VNone"
proof (rule decodesI)
  fix st assume r: "reads st [TC_NULL]" and "P (sclient st)"
  then have "bslice (sbuf st) (spos st) 1 = [TC_NULL]" using reads_slice0 [OF r, of 1] by simp
  moreover have "nullable_to_python f (read_ct null_ct [TC_NULL]) = Inr VNone"
    by (simp add: null_ct_def nullable_to_python_def getint_def TC_NULL_def le_int_def Let_def)
  ultimately show "\<exists>t st'. nullable_parse p st = Inr (t, st') \<and>
      advanced st (length [TC_NULL]) st' \<and> P (sclient st') \<and>
      sizeof_ct t = length [TC_NULL] \<and> nullable_to_python f (read_ct t [TC_NULL]) = Inr VNone"
    using \<open>P (sclient st)\<close>
    by (simp add: nullable_parse_def slice_def null_ct_def advanced_def)
qed

subsection \<open>Repeated elements\<close>

fun parse_elements ::
  "(bstream \<Rightarrow> (ctype \<times> bstream) res) \<Rightarrow> nat \<Rightarrow> nat \<Rightarrow> bstream \<Rightarrow> ((fname \<times> ctype) list \<times> bstream) res"
where
  "parse_elements p i 0 st = Inr ([], st)"
| "parse_elements p i (Suc n) st =
     rbind (p st) (\<lambda>(t, st1).
       rbind (parse_elements p (Suc i) n st1) (\<lambda>(fs, st2). Inr ((Element i, t) # fs, st2)))"

definition elements_to_python :: "(cobj \<Rightarrow> 'v res) \<Rightarrow> nat \<Rightarrow> cobj \<Rightarrow> 'v list res" where
  "elements_to_python f n ob = rmap (\<lambda>i. rbind (getattr (Element i) ob) f) [0..<n]"

lemma read_fields_append:
  "read_fields (fs @ gs) bs =
     read_fields fs bs @ read_fields gs (drop (sum_list (map (\<lambda>f. sizeof_ct (snd f)) fs)) bs)"
  by (induction fs bs rule: read_ct_read_array_read_fields.induct(3)
      [where P = "\<lambda>_ _. True" and Q = "\<lambda>_ _ _. True"]) (auto simp: add.commute)

lemma getattr_fields_append:
  "f \<notin> fst ` set os \<Longrightarrow> getattr_fields f (os @ os') = getattr_fields f os'"
  by (induction os) auto

lemma getattr_fields_there:
  "f \<in> fst ` set os \<Longrightarrow> getattr_fields f (os @ os') = getattr_fields f os"
  by (induction os) force+

lemma fst_read_fields [simp]: "map fst (read_fields fs bs) = map fst fs"
  by (induction fs bs rule: read_ct_read_array_read_fields.induct(3)
      [where P = "\<lambda>_ _. True" and Q = "\<lambda>_ _ _. True"]) auto

lemma read_ct_prefix: "sizeof_ct t = length bs \<Longrightarrow> read_ct t (bs @ cs) = read_ct t bs"
  using read_ct_take_exact [of t "bs @ cs"] read_ct_take_exact [of t bs] by simp

lemma elements_decode:
  assumes "list_all2 (decodes P p f) bss ws" and "reads st (concat bss)" and "P (sclient st)"
  shows "\<exists>fs st'. parse_elements p i (length ws) st = Inr (fs, st') \<and>
    advanced st (length (concat bss)) st' \<and> P (sclient st') \<and>
    sum_list (map (\<lambda>f. sizeof_ct (snd f)) fs) = length (concat bss) \<and>
    map fst fs = map Element [i..<i + length ws] \<and>
    rmap (\<lambda>j. rbind (getattr_fields (Element j) (read_fields fs (concat bss))) f)
      [i..<i + length ws] = Inr ws"
  using assms
proof (induction bss ws arbitrary: st i rule: list_all2_induct)
  case Nil
  then show ?case by (auto simp: advanced_def)
next
  case (Cons bs bss w ws)
  from Cons.prems(1) have r: "reads st bs" by (auto dest: reads_append)
  from Cons.hyps(1) r Cons.prems(2) obtain t st1 where
    t: "p st = Inr (t, st1)" "advanced st (length bs) st1" "P (sclient st1)"
    "sizeof_ct t = length bs" "f (read_ct t bs) = Inr w"
    by (rule decodesE)
  from Cons.prems(1) t(2) have r1: "reads st1 (concat bss)" by (auto intro: reads_advanced)
  from Cons.IH [OF r1 t(3), of "Suc i"] obtain fs st2 where
    fs: "parse_elements p (Suc i) (length ws) st1 = Inr (fs, st2)"
    "advanced st1 (length (concat bss)) st2" "P (sclient st2)"
    "sum_list (map (\<lambda>f. sizeof_ct (snd f)) fs) = length (concat bss)"
    "map fst fs = map Element [Suc i..<Suc i + length ws]"
    "rmap (\<lambda>j. rbind (getattr_fields (Element j) (read_fields fs (concat bss))) f)
      [Suc i..<Suc i + length ws] = Inr ws"
    by blast
  let ?all = "read_fields ((Element i, t) # fs) (bs @ concat bss)"
  have all: "?all = (Element i, read_ct t bs) # read_fields fs (concat bss)"
    using t(4) by (simp add: read_ct_prefix)
  have "rmap (\<lambda>j. rbind (getattr_fields (Element j) ?all) f) [Suc i..<Suc i + length ws] =
        rmap (\<lambda>j. rbind (getattr_fields (Element j) (read_fields fs (concat bss))) f)
          [Suc i..<Suc i + length ws]"
    unfolding all by (rule rmap_cong) auto
  moreover have "getattr_fields (Element i) ?all = Inr (read_ct t bs)" by (simp only: all) simp
  moreover have "[i..<i + length (w # ws)] = i # [Suc i..<Suc i + length ws]"
    by (simp add: upt_rec [of i] del: upt_Suc)
  ultimately have "rmap (\<lambda>j. rbind (getattr_fields (Element j) ?all) f)
      [i..<i + length (w # ws)] = Inr (w # ws)"
    using t(5) fs(6) by (simp only: rmap.simps rbind_Inr)
  moreover have "parse_elements p i (length (w # ws)) st = Inr ((Element i, t) # fs, st2)"
    using t(1) fs(1) by simp
  moreover have "advanced st (length (concat (bs # bss))) st2"
    using t(2) fs(2) by (simp add: advanced_def)
  moreover have "map fst ((Element i, t) # fs) = map Element [i..<i + length (w # ws)]"
    using fs(5) by (simp add: upt_rec [of i "Suc (i + length ws)"] del: upt_Suc)
  ultimately show ?case using fs(3,4) t(4) by (intro exI [of _ "(Element i, t) # fs"] exI) simp
qed

text \<open>A structure made of header fields followed by elements.\<close>

lemma struct_elements:
  assumes "sum_list (map (\<lambda>f. sizeof_ct (snd f)) hs) = length hb"
    and "\<And>j. Element j \<notin> fst ` set hs"
    and "rmap (\<lambda>j. rbind (getattr_fields (Element j) (read_fields fs body)) f) [0..<n] = Inr ws"
  shows "elements_to_python f n (read_ct (CStruct (hs @ fs)) (hb @ body)) = Inr ws"
proof -
  have n: "fst ` set (read_fields hs bs) = fst ` set hs" for bs
    using fst_read_fields [of hs bs] by (metis set_map)
  have "getattr_fields (Element j) (read_fields (hs @ fs) (hb @ body)) =
        getattr_fields (Element j) (read_fields fs body)" for j
    using assms(1,2) n by (simp add: read_fields_append getattr_fields_append)
  then show ?thesis using assms(3) by (simp add: elements_to_python_def)
qed

lemma getint_header:
  assumes "Nm f \<in> fst ` set hs"
    and "sum_list (map (\<lambda>f. sizeof_ct (snd f)) hs) = length hb"
  shows "getint f (read_ct (CStruct (hs @ fs)) (hb @ body)) = getint f (read_ct (CStruct hs) hb)"
proof -
  have "read_fields hs (hb @ body) = read_fields hs hb"
    using read_ct_prefix [of "CStruct hs" hb body] assms(2) by simp
  moreover have "Nm f \<in> fst ` set (read_fields hs hb)"
    using assms(1) fst_read_fields [of hs hb] by (metis set_map)
  ultimately show ?thesis
    by (simp add: getint_def read_fields_append getattr_fields_there)
qed

text \<open>
  The classes that consist of a fixed header and a counted sequence of elements. Their
  \<open>to_python\<close> uses the elements and the integer fields of the header only.
\<close>

definition header_of :: "(fname \<times> ctype) list \<Rightarrow> byte list \<Rightarrow> 'v list \<Rightarrow> (cobj \<Rightarrow> 'v res) \<Rightarrow> cobj \<Rightarrow> bool" where
  "header_of hs hb ws f ob \<longleftrightarrow>
     elements_to_python f (length ws) ob = Inr ws \<and>
     (\<forall>x. Nm x \<in> fst ` set hs \<longrightarrow> getint x ob = getint x (read_ct (CStruct hs) hb))"

lemma header_ofD:
  "header_of hs hb ws f ob \<Longrightarrow> elements_to_python f (length ws) ob = Inr ws"
  "header_of hs hb ws f ob \<Longrightarrow> Nm x \<in> fst ` set hs \<Longrightarrow>
     getint x ob = getint x (read_ct (CStruct hs) hb)"
  by (simp_all add: header_of_def)

lemma header_elements_core:
  assumes "list_all2 (decodes P p f) bss ws"
    and size: "sum_list (map (\<lambda>f. sizeof_ct (snd f)) hs) = length hb"
    and names: "\<And>j. Element j \<notin> fst ` set hs"
    and r: "reads st (hb @ concat bss)" and "P (sclient st)"
    and st1: "advanced st (length hb) st1" "sclient st1 = sclient st"
  shows "\<exists>fs st2. parse_elements p 0 (length ws) st1 = Inr (fs, st2) \<and>
    advanced st (length (hb @ concat bss)) st2 \<and> P (sclient st2) \<and>
    sizeof_ct (CStruct (hs @ fs)) = length (hb @ concat bss) \<and>
    header_of hs hb ws f (read_ct (CStruct (hs @ fs)) (hb @ concat bss))"
proof -
  have "reads st1 (concat bss)" using r st1(1) by (rule reads_advanced)
  from elements_decode [OF assms(1) this, of 0] assms(5) st1(2) obtain fs st2 where
    fs: "parse_elements p 0 (length ws) st1 = Inr (fs, st2)"
    "advanced st1 (length (concat bss)) st2" "P (sclient st2)"
    "sum_list (map (\<lambda>f. sizeof_ct (snd f)) fs) = length (concat bss)"
    "rmap (\<lambda>j. rbind (getattr_fields (Element j) (read_fields fs (concat bss))) f)
      [0..<length ws] = Inr ws"
    by auto
  have "header_of hs hb ws f (read_ct (CStruct (hs @ fs)) (hb @ concat bss))"
    using struct_elements [OF size names fs(5)] getint_header [OF _ size]
    by (simp add: header_of_def)
  with fs st1(1) size show ?thesis by (auto simp: advanced_def)
qed

lemma header_elements_decode:
  assumes els: "list_all2 (decodes P p f) bss ws"
    and parse: "\<And>st. reads st (hb @ concat bss) \<Longrightarrow> \<exists>st1. advanced st (length hb) st1 \<and>
      sclient st1 = sclient st \<and> parse st = rbind (parse_elements p 0 (length ws) st1)
        (\<lambda>(fs, st2). Inr (CStruct (hs @ fs), st2))"
    and size: "sum_list (map (\<lambda>f. sizeof_ct (snd f)) hs) = length hb"
    and names: "\<And>j. Element j \<notin> fst ` set hs"
    and to_py: "\<And>ob. header_of hs hb ws f ob \<Longrightarrow> to_py ob = Inr v"
  shows "decodes P parse to_py (hb @ concat bss) v"
proof (rule decodesI)
  fix st assume r: "reads st (hb @ concat bss)" and P: "P (sclient st)"
  from parse [OF r] obtain st1 where st1: "advanced st (length hb) st1" "sclient st1 = sclient st"
    "parse st = rbind (parse_elements p 0 (length ws) st1) (\<lambda>(fs, st2). Inr (CStruct (hs @ fs), st2))"
    by blast
  from header_elements_core [OF els size names r P st1(1,2)] st1(3) to_py
  show "\<exists>t st'. parse st = Inr (t, st') \<and> advanced st (length (hb @ concat bss)) st' \<and>
      P (sclient st') \<and> sizeof_ct t = length (hb @ concat bss) \<and>
      to_py (read_ct t (hb @ concat bss)) = Inr v"
    by fastforce
qed

lemma le_int_not_null: "c \<noteq> TC_NULL \<Longrightarrow> le_int True [c] \<noteq> 101"
proof
  assume "c \<noteq> TC_NULL" and "le_int True [c] = 101"
  then have "ct_bytes 1 (le_int True [c]) = [0x65]" by (simp add: ct_bytes_def)
  then show False
    using \<open>c \<noteq> TC_NULL\<close> ct_bytes_le_int [of "[c]" True] by (simp add: TC_NULL_def)
qed

lemma coded_elements_decode:
  assumes els: "list_all2 (decodes P p f) bss ws" and c: "c \<noteq> TC_NULL"
    and hs: "hs = (Nm ''type_code'', c_byte) # hs'" and hb: "hb = c # hb'"
    and parse: "\<And>st. reads st (hb @ concat bss) \<Longrightarrow> \<exists>st1. advanced st (length hb) st1 \<and>
      sclient st1 = sclient st \<and> parse st = rbind (parse_elements p 0 (length ws) st1)
        (\<lambda>(fs, st2). Inr (CStruct (hs @ fs), st2))"
    and size: "sum_list (map (\<lambda>f. sizeof_ct (snd f)) hs) = length hb"
    and names: "\<And>j. Element j \<notin> fst ` set hs"
    and to_py: "\<And>ob. header_of hs hb ws f ob \<Longrightarrow> to_py ob = Inr v"
  shows "decodes P (nullable_parse parse) (nullable_to_python to_py) (hb @ concat bss) v"
proof (rule header_elements_decode [OF els _ size names])
  fix st assume r: "reads st (hb @ concat bss)"
  have "bslice (sbuf st) (spos st) 1 = [c]" using reads_slice0 [OF r, of 1] hb by simp
  with parse [of "getbuffer st"] r c show "\<exists>st1. advanced st (length hb) st1 \<and>
      sclient st1 = sclient st \<and> nullable_parse parse st = rbind (parse_elements p 0 (length ws) st1)
        (\<lambda>(fs, st2). Inr (CStruct (hs @ fs), st2))"
    by (auto simp: nullable_parse_def slice_def)
next
  fix ob assume ob: "header_of hs hb ws f ob"
  have "getint ''type_code'' (read_ct (CStruct hs) hb) = Inr (le_int True [c])"
    by (simp add: hs hb getint_def)
  with header_ofD(2) [OF ob, of "''type_code''"] have "getint ''type_code'' ob = Inr (le_int True [c])"
    by (simp add: hs)
  with le_int_not_null [OF c] to_py [OF ob] show "nullable_to_python to_py ob = Inr v"
    by (simp add: nullable_to_python_def)
qed

subsection \<open>The contract of an element class\<close>

locale wire_codec =
  fixes enc :: "pyval \<Rightarrow> byte list res"
    and parse :: "bstream \<Rightarrow> (ctype \<times> bstream) res"
    and to_py :: "cobj \<Rightarrow> 'v res"
    and good :: "pyval \<Rightarrow> 'v \<Rightarrow> bool"
    and inv :: "client \<Rightarrow> bool"
  assumes codec: "enc v = Inr bs \<Longrightarrow> good v w \<Longrightarrow> decodes inv parse to_py bs w"
begin

lemma codec_list:
  assumes "rmap enc vs = Inr bss" and "list_all2 good vs ws"
  shows "list_all2 (decodes inv parse to_py) bss ws"
  using assms(2,1)
proof (induction vs ws arbitrary: bss rule: list_all2_induct)
  case (Cons v vs w ws)
  then show ?case by (auto simp: rbind_eq_Inr_iff codec)
qed simp

lemma codec_elements:
  assumes "rmap enc vs = Inr bss" and "list_all2 good vs ws"
    and "reads st (concat bss)" and "inv (sclient st)"
  shows "\<exists>fs st'. parse_elements parse i (length ws) st = Inr (fs, st') \<and>
    advanced st (length (concat bss)) st' \<and> inv (sclient st') \<and>
    sum_list (map (\<lambda>f. sizeof_ct (snd f)) fs) = length (concat bss) \<and>
    map fst fs = map Element [i..<i + length ws] \<and>
    rmap (\<lambda>j. rbind (getattr_fields (Element j) (read_fields fs (concat bss))) to_py)
      [i..<i + length ws] = Inr ws"
  using codec_list [OF assms(1,2)] assms(3,4) by (rule elements_decode)

end

end
