(* ===== verification/Primitives.thy ===== *)
theory Primitives
  imports Codec
begin

section \<open>Primitive payloads, primitive objects and primitive arrays\<close>

text \<open>
  \<open>primitive.py\<close> (payload only), \<open>primitive_objects.py\<close> (type code and payload) and
  \<open>primitive_arrays.py\<close>. An encoder returns the bytes it writes to the stream; when it
  raises, the bytes written before are of no interest, since the caller discards the stream.
\<close>

subsection \<open>Python conversions\<close>

fun truthy :: "pyval \<Rightarrow> bool" where
  "truthy VNone = False"
| "truthy (VBool b) = b"
| "truthy (VInt i) = (i \<noteq> 0)"
| "truthy (VFloat w) = (unat w mod 2 ^ 63 \<noteq> 0)"
| "truthy (VStr s) = (s \<noteq> [])"
| "truthy (VBytes b) = (b \<noteq> [])"
| "truthy (VByteArray b) = (b \<noteq> [])"
| "truthy (VDecimal d) = (fst (snd d) \<noteq> 0)"
| "truthy (VTimeDelta us) = (us \<noteq> 0)"
| "truthy (VTuple xs) = (xs \<noteq> [])"
| "truthy (VList xs) = (xs \<noteq> [])"
| "truthy (VDict o' kvs) = (kvs \<noteq> [])"
| "truthy _ = True"

fun py_index :: "pyval \<Rightarrow> int option" where
  "py_index (VInt i) = Some i"
| "py_index (VBool b) = Some (if b then 1 else 0)"
| "py_index _ = None"

fun py_float :: "pyval \<Rightarrow> (64 word) res" where
  "py_float (VFloat w) = Inr w"
| "py_float (VInt i) = i2d i"
| "py_float (VBool b) = i2d (if b then 1 else 0)"
| "py_float _ = Inl TypeError"

text \<open>\<open>len(value)\<close> and iteration: the elements of a sized iterable.\<close>

fun py_seq :: "pyval \<Rightarrow> pyval list res" where
  "py_seq (VTuple xs) = Inr xs"
| "py_seq (VList xs) = Inr xs"
| "py_seq (VStr s) = Inr (map (\<lambda>c. VStr [c]) s)"
| "py_seq (VBytes bs) = Inr (map (\<lambda>b. VInt (int (unat b))) bs)"
| "py_seq (VByteArray bs) = Inr (map (\<lambda>b. VInt (int (unat b))) bs)"
| "py_seq (VDict o' kvs) = Inr (map fst kvs)"
| "py_seq _ = Inl TypeError"

subsection \<open>Payloads\<close>

fun prim_ct :: "prim \<Rightarrow> ctype" where
  "prim_ct TByte = c_byte"
| "prim_ct TShort = c_short"
| "prim_ct TInt = c_int"
| "prim_ct TLong = c_longlong"
| "prim_ct TFloat = CReal 4"
| "prim_ct TDouble = CReal 8"
| "prim_ct TChar = c_short"
| "prim_ct TBool = c_byte"

definition prim_parse :: "prim \<Rightarrow> bstream \<Rightarrow> (ctype \<times> bstream) res" where
  "prim_parse p st = Inr (prim_ct p, seek_cur (sizeof_ct (prim_ct p)) st)"

definition pack_int :: "nat \<Rightarrow> pyval \<Rightarrow> byte list res" where
  "pack_int k v = (case py_index v of None \<Rightarrow> Inl StructError | Some i \<Rightarrow> struct_pack k i)"

text \<open>\<open>struct.pack('<f', x)\<close> raises when a finite double overflows.\<close>

definition pack_float :: "pyval \<Rightarrow> byte list res" where
  "pack_float v =
     (case py_float v of
        Inl e \<Rightarrow> Inl (if e = OverflowError then OverflowError else StructError)
      | Inr d \<Rightarrow> let f = d2f d in
          if float_is_inf f \<and> \<not> double_is_inf d then Inl OverflowError
          else Inr (le_bytes 4 (unat f)))"

definition pack_double :: "pyval \<Rightarrow> byte list res" where
  "pack_double v =
     (case py_float v of
        Inl e \<Rightarrow> Inl (if e = OverflowError then OverflowError else StructError)
      | Inr d \<Rightarrow> Inr (le_bytes 8 (unat d)))"

definition pack_char :: "pyval \<Rightarrow> byte list res" where
  "pack_char v =
     (case v of
        VStr s \<Rightarrow> rbind (utf16_encode s) (\<lambda>b. int_to_bytes 2 False (int (le_nat b)))
      | VBytes b \<Rightarrow> int_to_bytes 2 False (int (le_nat b))
      | _ \<Rightarrow> (case py_index v of None \<Rightarrow> Inl AttributeError | Some i \<Rightarrow> int_to_bytes 2 False i))"

fun prim_from_python :: "prim \<Rightarrow> pyval \<Rightarrow> byte list res" where
  "prim_from_python TByte v = pack_int 1 v"
| "prim_from_python TShort v = pack_int 2 v"
| "prim_from_python TInt v = pack_int 4 v"
| "prim_from_python TLong v = pack_int 8 v"
| "prim_from_python TFloat v = pack_float v"
| "prim_from_python TDouble v = pack_double v"
| "prim_from_python TChar v = pack_char v"
| "prim_from_python TBool v = struct_pack 1 (if truthy v then 1 else 0)"

text \<open>
  The Python object ctypes returns for a simple field; \<open>decode_char\<close> is
  \<open>value.to_bytes(2, 'little').decode('utf-16le')\<close> on the signed \<open>c_short\<close> value.
\<close>

fun simple_value :: "cobj \<Rightarrow> pyval res" where
  "simple_value (OInt i) = Inr (VInt i)"
| "simple_value (OReal bs) =
     Inr (VFloat (if length bs = 4 then f2d (of_nat (le_nat bs)) else of_nat (le_nat bs)))"
| "simple_value _ = Inl TypeError"

definition decode_char :: "cobj \<Rightarrow> pyval res" where
  "decode_char ob =
     rbind (as_int ob) (\<lambda>i. rbind (int_to_bytes 2 False i) (\<lambda>b.
       rbind (utf16_decode_unit b) (\<lambda>s. Inr (VStr s))))"

definition decode_bool :: "cobj \<Rightarrow> pyval res" where
  "decode_bool ob = rbind (as_int ob) (\<lambda>i. Inr (VBool (i \<noteq> 0)))"

text \<open>
  \<open>to_python\<close> of a payload field of a structure: ctypes hands over a plain Python int, which
  has no \<open>.value\<close>, so \<open>Char.to_python\<close> raises there.
\<close>

fun prim_to_python :: "prim \<Rightarrow> cobj \<Rightarrow> pyval res" where
  "prim_to_python TChar ob = Inl AttributeError"
| "prim_to_python TBool ob = decode_bool ob"
| "prim_to_python p ob = simple_value ob"

subsection \<open>Primitive objects\<close>

definition data_object_ct :: "prim \<Rightarrow> ctype" where
  "data_object_ct p = CStruct [(Nm ''type_code'', c_byte), (Nm ''value'', prim_ct p)]"

definition data_object_parse :: "prim \<Rightarrow> bstream \<Rightarrow> (ctype \<times> bstream) res" where
  "data_object_parse p st = Inr (data_object_ct p, seek_cur (sizeof_ct (data_object_ct p)) st)"

text \<open>Assigning \<open>data_object.value\<close>: integers wrap, floats round, other types raise.\<close>

definition ctypes_set :: "prim \<Rightarrow> pyval \<Rightarrow> cobj res" where
  "ctypes_set p v =
     (case prim_ct p of
        CInt k sg \<Rightarrow> (case py_index v of None \<Rightarrow> Inl TypeError | Some i \<Rightarrow> Inr (OInt i))
      | CReal k \<Rightarrow> rbind (py_float v) (\<lambda>d.
          Inr (OReal (if k = 4 then le_bytes 4 (unat (d2f d)) else le_bytes 8 (unat d))))
      | _ \<Rightarrow> Inl TypeError)"

definition code_obj :: "byte \<Rightarrow> fname \<times> cobj" where
  "code_obj c = (Nm ''type_code'', OInt (int (unat c)))"

definition data_object_from_python :: "prim \<Rightarrow> pyval \<Rightarrow> byte list res" where
  "data_object_from_python p v =
     (if p = TChar then rbind (pack_char v) (\<lambda>b. Inr (prim_code TChar # b))
      else rbind (ctypes_set p v) (\<lambda>x.
        Inr (store_ct (data_object_ct p) (OStruct [code_obj (prim_code p), (Nm ''value'', x)]))))"

definition data_object_to_python :: "prim \<Rightarrow> cobj \<Rightarrow> pyval res" where
  "data_object_to_python p ob =
     rbind (getattr (Nm ''value'') ob)
       (case p of TChar \<Rightarrow> decode_char | TBool \<Rightarrow> decode_bool | _ \<Rightarrow> simple_value)"

subsection \<open>Arrays of primitives\<close>

definition prim_array_object_ct :: "prim \<Rightarrow> nat \<Rightarrow> ctype" where
  "prim_array_object_ct p n =
     CStruct [(Nm ''type_code'', c_byte), (Nm ''length'', c_int), (Nm ''data'', CArray (prim_ct p) n)]"

definition prim_array_object_parse :: "prim \<Rightarrow> bstream \<Rightarrow> (ctype \<times> bstream) res" where
  "prim_array_object_parse p st =
     (let (b, st1) = slice (spos st + 1) 4 st;
          t = prim_array_object_ct p (le_nat b)
      in Inr (t, seek_cur (sizeof_ct t) st1))"

definition write_length :: "nat \<Rightarrow> byte list res" where
  "write_length n = int_to_bytes 4 False (int n)"

text \<open>\<open>bytearray(value)\<close> and its fallback for values in \<open>-128..255\<close>.\<close>

fun byte_of_index :: "pyval \<Rightarrow> byte res" where
  "byte_of_index v =
     (case py_index v of None \<Rightarrow> Inl TypeError
      | Some i \<Rightarrow> if - 128 \<le> i \<and> i \<le> 255 then Inr (word_of_int i) else Inl ValueError)"

definition byte_array_payload :: "pyval \<Rightarrow> byte list res" where
  "byte_array_payload v =
     (case v of
        VBytes b \<Rightarrow> Inr b
      | VByteArray b \<Rightarrow> Inr b
      | VStr s \<Rightarrow> Inl TypeError
      | _ \<Rightarrow> rbind (py_seq v) (rmap byte_of_index))"

definition prim_array_object_from_python :: "prim \<Rightarrow> pyval \<Rightarrow> byte list res" where
  "prim_array_object_from_python p v =
     rbind (py_seq v) (\<lambda>xs. rbind (write_length (length xs)) (\<lambda>n.
       rbind (if p = TByte then byte_array_payload v
              else rbind (rmap (prim_from_python p) xs) (\<lambda>bs. Inr (concat bs)))
         (\<lambda>body. Inr (prim_array_code p # n @ body))))"

fun as_array :: "cobj \<Rightarrow> cobj list res" where
  "as_array (OArr xs) = Inr xs"
| "as_array _ = Inl TypeError"

definition raw_byte :: "cobj \<Rightarrow> byte res" where
  "raw_byte ob = rbind (as_int ob) (\<lambda>i. Inr (word_of_int i))"

definition prim_array_object_to_python :: "prim \<Rightarrow> cobj \<Rightarrow> pyval res" where
  "prim_array_object_to_python p ob =
     rbind (rbind (getattr (Nm ''data'') ob) as_array) (\<lambda>xs.
       if p = TByte then rbind (rmap raw_byte xs) (\<lambda>bs. Inr (VBytes bs))
       else if p = TBool then
         rbind (getint ''length'' ob) (\<lambda>n.
           rbind (rmap decode_bool (take (nat n) xs)) (\<lambda>vs. Inr (VList vs)))
       else rbind (rmap (if p = TChar then decode_char else simple_value) xs)
              (\<lambda>vs. Inr (VList vs)))"

text \<open>The payload-only arrays: no type code; \<open>Char\<close> and \<open>Bool\<close> elements stay integers.\<close>

definition prim_array_ct :: "prim \<Rightarrow> nat \<Rightarrow> ctype" where
  "prim_array_ct p n = CStruct [(Nm ''length'', c_int), (Nm ''data'', CArray (prim_ct p) n)]"

definition prim_array_parse :: "prim \<Rightarrow> bstream \<Rightarrow> (ctype \<times> bstream) res" where
  "prim_array_parse p st =
     (let (b, st1) = slice (spos st) 4 st; t = prim_array_ct p (le_nat b)
      in Inr (t, seek_cur (sizeof_ct t) st1))"

definition bytearray_of :: "pyval \<Rightarrow> byte list res" where
  "bytearray_of v =
     (case v of
        VBytes b \<Rightarrow> Inr b
      | VByteArray b \<Rightarrow> Inr b
      | VStr s \<Rightarrow> Inl TypeError
      | _ \<Rightarrow> rbind (py_seq v) (rmap (\<lambda>x.
          case py_index x of None \<Rightarrow> Inl TypeError
          | Some i \<Rightarrow> if 0 \<le> i \<and> i \<le> 255 then Inr (word_of_int i) else Inl ValueError)))"

definition prim_array_from_python :: "prim \<Rightarrow> pyval \<Rightarrow> byte list res" where
  "prim_array_from_python p v =
     rbind (py_seq v) (\<lambda>xs. rbind (write_length (length xs)) (\<lambda>n.
       rbind (if p = TByte then bytearray_of v
              else rbind (rmap (prim_from_python p) xs) (\<lambda>bs. Inr (concat bs)))
         (\<lambda>body. Inr (n @ body))))"

definition prim_array_to_python :: "prim \<Rightarrow> cobj \<Rightarrow> pyval res" where
  "prim_array_to_python p ob =
     rbind (rbind (getattr (Nm ''data'') ob) as_array) (\<lambda>xs.
       if p = TByte then rbind (rmap raw_byte xs) (\<lambda>bs. Inr (VBytes bs))
       else rbind (rmap simple_value xs) (\<lambda>vs. Inr (VList vs)))"

subsection \<open>Hash codes of primitive objects\<close>

definition index_hash :: "(int \<Rightarrow> int) \<Rightarrow> pyval \<Rightarrow> int res" where
  "index_hash f v = (case py_index v of None \<Rightarrow> Inl TypeError | Some i \<Rightarrow> Inr (f i))"

definition char_hash :: "pyval \<Rightarrow> int res" where
  "char_hash v = (case v of VStr [c] \<Rightarrow> Inr (int c) | _ \<Rightarrow> Inl TypeError)"

definition data_object_hashcode :: "prim \<Rightarrow> pyval \<Rightarrow> int res" where
  "data_object_hashcode p v =
     (case p of
        TLong \<Rightarrow> index_hash (\<lambda>i. i XOR drop_bit 32 (unsigned64 i)) v
      | TFloat \<Rightarrow> rbind (py_float v) (\<lambda>d. Inr (sint (d2f d)))
      | TDouble \<Rightarrow> rbind (py_float v) (\<lambda>d.
          Inr ((sint d AND 0xffffffff) XOR drop_bit 32 (sint d)))
      | TChar \<Rightarrow> char_hash v
      | TBool \<Rightarrow> Inr (if truthy v then 1231 else 1237)
      | _ \<Rightarrow> index_hash (\<lambda>i. i) v)"

subsection \<open>Fixed layouts decode\<close>

text \<open>
  The shared argument of every class with a fixed layout: if the stored value fits the layout,
  the layout read back yields it.
\<close>

lemma fixed_decodes:
  assumes "fits t ob" and "to_py ob = Inr v"
    and "\<And>st. reads st (store_ct t ob) \<Longrightarrow>
           \<exists>st'. p st = Inr (t, st') \<and> advanced st (sizeof_ct t) st' \<and> sclient st' = sclient st"
  shows "decodes P p to_py (store_ct t ob) v"
proof (rule decodesI)
  fix st assume r: "reads st (store_ct t ob)" and P: "P (sclient st)"
  from assms(3) [OF r] obtain st' where
    "p st = Inr (t, st')" "advanced st (sizeof_ct t) st'" "sclient st' = sclient st" by blast
  moreover have "read_ct t (store_ct t ob) = ob"
    using read_store(1) [OF assms(1), of "[]"] by simp
  ultimately show "\<exists>t' st'. p st = Inr (t', st') \<and> advanced st (length (store_ct t ob)) st' \<and>
      P (sclient st') \<and> sizeof_ct t' = length (store_ct t ob) \<and>
      to_py (read_ct t' (store_ct t ob)) = Inr v"
    using P assms(1,2) by (auto simp: length_store(1))
qed

text \<open>The null check in front of it.\<close>

lemma nullable_fixed_decodes:
  assumes "fits t ob" and "to_py ob = Inr v"
    and "\<And>st. reads st (store_ct t ob) \<Longrightarrow>
           \<exists>st'. p st = Inr (t, st') \<and> advanced st (sizeof_ct t) st' \<and> sclient st' = sclient st"
    and "ob = OStruct (code_obj c # os)" and "c \<noteq> TC_NULL" and "unat c < 128"
    and "t = CStruct ((Nm ''type_code'', c_byte) # fs)"
  shows "decodes P (nullable_parse p) (nullable_to_python to_py) (store_ct t ob) v"
proof (rule decodesI)
  fix st assume r: "reads st (store_ct t ob)" and P: "P (sclient st)"
  have s: "store_ct t ob = c # store_fields fs os"
    using assms(4,6,7) by (simp add: code_obj_def ct_bytes_def nat_mod_distrib)
  with r have "bslice (sbuf st) (spos st) 1 = [c]" using reads_slice0 [OF r, of 1] by simp
  moreover from r have r': "reads (getbuffer st) (store_ct t ob)" by simp
  from assms(3) [OF r'] obtain st' where "p (getbuffer st) = Inr (t, st')"
    "advanced st (sizeof_ct t) st'" "sclient st' = sclient st" by auto
  moreover have rd: "read_ct t (store_ct t ob) = ob"
    using read_store(1) [OF assms(1), of "[]"] by simp
  moreover have "uint c \<noteq> 101"
    using assms(5) by (auto simp: TC_NULL_def word_uint_eq_iff)
  then have "nullable_to_python to_py ob = Inr v"
    using assms(2,4) by (simp add: nullable_to_python_def getint_def code_obj_def)
  ultimately show "\<exists>t' st'. nullable_parse p st = Inr (t', st') \<and>
      advanced st (length (store_ct t ob)) st' \<and> P (sclient st') \<and>
      sizeof_ct t' = length (store_ct t ob) \<and>
      nullable_to_python to_py (read_ct t' (store_ct t ob)) = Inr v"
    using P assms(1,5) by (auto simp: nullable_parse_def slice_def length_store(1))
qed


subsection \<open>Integers: wrap-around in objects, range check in arrays\<close>

definition int_prim :: "prim \<Rightarrow> bool" where
  "int_prim p \<longleftrightarrow> p \<in> {TByte, TShort, TInt, TLong}"

text \<open>The value of the low \<open>k\<close> bytes of \<open>i\<close> in two's complement.\<close>

definition signed_wrap :: "nat \<Rightarrow> int \<Rightarrow> int" where
  "signed_wrap k i = (i + 128 * 256 ^ (k - 1)) mod (256 * 256 ^ (k - 1)) - 128 * 256 ^ (k - 1)"

lemma signed_wrap_in_range: "0 < k \<Longrightarrow> in_range k True (signed_wrap k i)"
proof -
  assume "0 < k"
  then obtain j where k: "k = Suc j" by (cases k) auto
  define m :: int where "m = 256 ^ j"
  have "0 < m" by (simp add: m_def)
  then have "0 \<le> (i + 128 * m) mod (256 * m)" "(i + 128 * m) mod (256 * m) < 256 * m" by simp_all
  then show ?thesis by (simp add: in_range_def signed_wrap_def k m_def [symmetric])
qed

lemma ct_bytes_signed_wrap: "0 < k \<Longrightarrow> ct_bytes k (signed_wrap k i) = ct_bytes k i"
proof -
  assume "0 < k"
  then obtain j where k: "k = Suc j" by (cases k) auto
  define m :: int where "m = 256 * 256 ^ j"
  define h :: int where "h = 128 * 256 ^ j"
  have "signed_wrap k i mod m = i mod m"
    unfolding signed_wrap_def k by (simp add: m_def [symmetric] h_def [symmetric] mod_simps)
  then show ?thesis by (simp add: ct_bytes_def k m_def)
qed

lemma signed_wrap_id: "0 < k \<Longrightarrow> signed_wrap k i = i \<longleftrightarrow> in_range k True i"
  using signed_wrap_in_range [of k i] ct_bytes_signed_wrap [of k i]
  by (metis le_int_ct_bytes)

lemma int_prim_ct: "int_prim p \<Longrightarrow> \<exists>k. prim_ct p = CInt k True \<and> 0 < k \<and> sizeof_ct (prim_ct p) = k"
  by (auto simp: int_prim_def)

lemma code_in_range: "unat c < 128 \<Longrightarrow> in_range (Suc 0) True (uint (c :: byte))"
proof -
  define n where "n = unat c"
  assume "unat c < 128"
  then have "in_range (Suc 0) True (int n)" by (simp add: in_range_def n_def [symmetric])
  then show ?thesis by (simp add: n_def)
qed

lemma prim_code_lt [simp]: "unat (prim_code p) < 128" "prim_code p \<noteq> TC_NULL"
  by (cases p; simp add: TC_NULL_def)+

lemma int_object_decodes:
  assumes "int_prim p" and "in_range (sizeof_ct (prim_ct p)) True i"
  shows "decodes P (nullable_parse (data_object_parse p)) (nullable_to_python (data_object_to_python p))
           (store_ct (data_object_ct p) (OStruct [code_obj (prim_code p), (Nm ''value'', OInt i)]))
           (VInt i)"
proof (rule nullable_fixed_decodes [where c = "prim_code p"])
  obtain k where k: "prim_ct p = CInt k True" "0 < k" using int_prim_ct [OF assms(1)] by auto
  show "fits (data_object_ct p) (OStruct [code_obj (prim_code p), (Nm ''value'', OInt i)])"
    using assms(2) k
    by (simp add: data_object_ct_def code_obj_def code_in_range)
  show "data_object_to_python p (OStruct [code_obj (prim_code p), (Nm ''value'', OInt i)]) = Inr (VInt i)"
    using assms(1) by (auto simp: data_object_to_python_def code_obj_def int_prim_def)
qed (auto simp: data_object_parse_def data_object_ct_def prim_code_lt intro: advanced_seek)

text \<open>
  An integer object never fails to encode: a value outside the range of its type is
  silently reduced modulo the width, and reading the object back gives that reduced value,
  which is the original one exactly when it was in range.
\<close>

theorem int_object_roundtrip:
  assumes "int_prim p"
  shows "\<exists>bs. data_object_from_python p (VInt i) = Inr bs \<and>
    decodes P (nullable_parse (data_object_parse p)) (nullable_to_python (data_object_to_python p))
      bs (VInt (signed_wrap (sizeof_ct (prim_ct p)) i)) \<and>
    (signed_wrap (sizeof_ct (prim_ct p)) i = i \<longleftrightarrow> in_range (sizeof_ct (prim_ct p)) True i)"
proof -
  obtain k where k: "prim_ct p = CInt k True" "0 < k" using int_prim_ct [OF assms] by auto
  have "data_object_from_python p (VInt i) =
      Inr (store_ct (data_object_ct p)
        (OStruct [code_obj (prim_code p), (Nm ''value'', OInt (signed_wrap k i))]))"
    using assms k
    by (auto simp: data_object_from_python_def ctypes_set_def int_prim_def data_object_ct_def
        ct_bytes_signed_wrap code_obj_def)
  moreover have "in_range (sizeof_ct (prim_ct p)) True (signed_wrap k i)"
    using k by (simp add: signed_wrap_in_range)
  ultimately show ?thesis
    using int_object_decodes [OF assms] signed_wrap_id k by fastforce
qed

theorem int_object_roundtrip_witness:
  "\<exists>bs. data_object_from_python TByte (VInt 200) = Inr bs \<and>
    decodes (\<lambda>_. True) (nullable_parse (data_object_parse TByte))
      (nullable_to_python (data_object_to_python TByte)) bs (VInt (- 56))"
proof -
  have "int_prim TByte" by (simp add: int_prim_def)
  moreover have "signed_wrap (sizeof_ct (prim_ct TByte)) 200 = - 56" by (simp add: signed_wrap_def)
  ultimately show ?thesis using int_object_roundtrip [of TByte 200 "\<lambda>_. True"] by auto
qed

subsection \<open>Characters\<close>

lemma pack_char_bmp:
  assumes "is_scalar c" and "c < 0x10000"
  shows "pack_char (VStr [c]) = Inr (ct_bytes 2 (int c))"
proof -
  have "in_range 2 False (int c)" using assms(2) by (simp add: in_range_def)
  then show ?thesis
    using assms by (simp add: pack_char_def utf16_encode_def le_simps int_to_bytes_def)
qed

lemma pack_char_astral:
  assumes "is_scalar c" and "0x10000 \<le> c"
  shows "pack_char (VStr [c]) = Inl OverflowError"
proof -
  define h where "h = (c - 0x10000) div 1024"
  define l where "l = (c - 0x10000) mod 1024"
  have l: "l < 1024" by (simp add: l_def)
  have h: "h < 1024" using assms(1) by (auto simp: h_def is_scalar_def less_mult_imp_div_less)
  have "le_nat (le_bytes 2 (0xD800 + h) @ le_bytes 2 (0xDC00 + l)) =
      le_nat (le_bytes 2 (0xD800 + h)) + 65536 * le_nat (le_bytes 2 (0xDC00 + l))"
    by (simp add: numeral_2_eq_2)
  also have "\<dots> = 0xD800 + h + 65536 * (0xDC00 + l)"
    using l h by (simp add: le_nat_le_bytes)
  finally have "\<not> in_range 2 False (int (le_nat (le_bytes 2 (0xD800 + h) @ le_bytes 2 (0xDC00 + l))))"
    by (simp add: in_range_def)
  then show ?thesis
    using assms by (simp add: pack_char_def utf16_encode_def int_to_bytes_def h_def l_def)
qed

lemma char_value:
  assumes "c < 0x10000"
  shows "le_int True (ct_bytes 2 (int c)) = (if c < 0x8000 then int c else int c - 0x10000)"
  using assms by (auto simp: le_int_def le_simps Let_def)

lemma decode_char_value:
  assumes "is_scalar c" and "c < 0x10000"
  shows "decode_char (OInt (if c < 0x8000 then int c else int c - 0x10000)) =
    (if c < 0x8000 then Inr (VStr [c]) else Inl OverflowError)"
proof (cases "c < 0x8000")
  case True
  have "ct_bytes 2 (int c) = le_bytes 2 c" using assms(2) by (simp add: ct_bytes_def)
  with True assms show ?thesis
    by (simp add: decode_char_def int_to_bytes_def in_range_def utf16_unit_roundtrip)
next
  case False
  with assms(2) show ?thesis by (simp add: decode_char_def int_to_bytes_def in_range_def)
qed

text \<open>
  C35. A character is written when its code point fits in 16 bits and raises OverflowError
  otherwise; but what was written is read back only for code points below \<open>0x8000\<close>: from
  there on, \<open>to_python\<close> converts a negative \<open>c_short\<close> to unsigned bytes and raises
  OverflowError.
\<close>

theorem char_object_roundtrip:
  assumes "is_scalar c"
  shows "(0x10000 \<le> c \<longrightarrow> data_object_from_python TChar (VStr [c]) = Inl OverflowError) \<and>
    (c < 0x10000 \<longrightarrow> (\<exists>bs. data_object_from_python TChar (VStr [c]) = Inr bs \<and>
      sizeof_ct (data_object_ct TChar) = length bs \<and>
      nullable_to_python (data_object_to_python TChar) (read_ct (data_object_ct TChar) bs) =
        (if c < 0x8000 then Inr (VStr [c]) else Inl OverflowError)))"
proof (intro conjI impI)
  assume "0x10000 \<le> c"
  then show "data_object_from_python TChar (VStr [c]) = Inl OverflowError"
    using pack_char_astral [OF assms] by (simp add: data_object_from_python_def)
next
  assume c: "c < 0x10000"
  then have "data_object_from_python TChar (VStr [c]) = Inr (0x07 # ct_bytes 2 (int c))"
    using pack_char_bmp [OF assms] by (simp add: data_object_from_python_def)
  moreover have "nullable_to_python (data_object_to_python TChar)
      (read_ct (data_object_ct TChar) (0x07 # ct_bytes 2 (int c))) =
      decode_char (OInt (le_int True (ct_bytes 2 (int c))))"
    by (simp add: nullable_to_python_def getint_def data_object_ct_def data_object_to_python_def
        le_int_def Let_def)
  ultimately show "\<exists>bs. data_object_from_python TChar (VStr [c]) = Inr bs \<and>
      sizeof_ct (data_object_ct TChar) = length bs \<and>
      nullable_to_python (data_object_to_python TChar) (read_ct (data_object_ct TChar) bs) =
        (if c < 0x8000 then Inr (VStr [c]) else Inl OverflowError)"
    using decode_char_value [OF assms c] char_value [OF c]
    by (simp add: data_object_ct_def)
qed

theorem char_object_roundtrip_witness:
  "\<exists>bs. data_object_from_python TChar (VStr [0x4e2d]) = Inr bs \<and>
     nullable_to_python (data_object_to_python TChar) (read_ct (data_object_ct TChar) bs) =
       Inr (VStr [0x4e2d])"
proof -
  have "is_scalar 0x4e2d" by (simp add: is_scalar_def)
  from char_object_roundtrip [OF this] show ?thesis by auto
qed

subsection \<open>Arrays of primitives read back\<close>

lemma store_array_concat: "store_array t xs = concat (map (store_ct t) xs)"
  by (induction xs) auto

lemma prim_array_code_lt [simp]: "unat (prim_array_code p) < 128" "prim_array_code p \<noteq> TC_NULL"
  by (cases p; simp add: TC_NULL_def)+

lemma ct_bytes_byte [simp]: "ct_bytes (Suc 0) (uint (c :: byte)) = [c]"
proof -
  have "unat c mod 256 = unat c" using byte_less [of c] by (rule mod_less)
  moreover have "nat (uint c mod 256) = unat c mod 256" by (simp add: nat_mod_distrib)
  ultimately show ?thesis by (simp add: ct_bytes_def)
qed

lemma prim_array_decodes:
  assumes "list_all (fits (prim_ct p)) xs" and "length xs < 2 ^ 31"
    and "prim_array_object_to_python p (OStruct [code_obj (prim_array_code p),
      (Nm ''length'', OInt (int (length xs))), (Nm ''data'', OArr xs)]) = Inr v"
  shows "decodes P (nullable_parse (prim_array_object_parse p))
    (nullable_to_python (prim_array_object_to_python p))
    (prim_array_code p # ct_bytes 4 (int (length xs)) @ concat (map (store_ct (prim_ct p)) xs)) v"
proof -
  let ?ob = "OStruct [code_obj (prim_array_code p),
      (Nm ''length'', OInt (int (length xs))), (Nm ''data'', OArr xs)]"
  let ?t = "prim_array_object_ct p (length xs)"
  let ?bs = "prim_array_code p # ct_bytes 4 (int (length xs)) @ concat (map (store_ct (prim_ct p)) xs)"
  have st: "store_ct ?t ?ob = ?bs"
    by (simp add: prim_array_object_ct_def code_obj_def store_array_concat)
  have "decodes P (nullable_parse (prim_array_object_parse p))
    (nullable_to_python (prim_array_object_to_python p)) (store_ct ?t ?ob) v"
  proof (rule nullable_fixed_decodes [where c = "prim_array_code p"])
    have "in_range 4 True (int (length xs))" using assms(2) by (simp add: in_range_def)
    then show "fits ?t ?ob"
      using assms(1) by (simp add: prim_array_object_ct_def code_obj_def code_in_range)
    show "prim_array_object_to_python p ?ob = Inr v" by (rule assms(3))
    show "?t = CStruct ((Nm ''type_code'', c_byte) #
        [(Nm ''length'', c_int), (Nm ''data'', CArray (prim_ct p) (length xs))])"
      by (simp add: prim_array_object_ct_def)
  next
    fix st assume r: "reads st (store_ct ?t ?ob)"
    have "bslice (sbuf st) (spos st + 1) 4 = ct_bytes 4 (int (length xs))"
      using reads_slice [OF r [unfolded st], of 1 4] by simp
    moreover have "le_nat (ct_bytes 4 (int (length xs))) = length xs"
      using assms(2) by (simp add: le_simps)
    ultimately show "\<exists>st'. prim_array_object_parse p st = Inr (?t, st') \<and>
        advanced st (sizeof_ct ?t) st' \<and> sclient st' = sclient st"
      by (simp add: prim_array_object_parse_def slice_def advanced_def Let_def)
  qed simp_all
  then show ?thesis by (simp only: st)
qed

text \<open>The integer arrays, and the bytes.\<close>

lemma rmap_pack_int:
  "int_prim p \<Longrightarrow> rmap (prim_from_python p) (map VInt is) =
    (if \<forall>i \<in> set is. in_range (sizeof_ct (prim_ct p)) True i
     then Inr (map (ct_bytes (sizeof_ct (prim_ct p))) is) else Inl StructError)"
proof (induction "is")
  case (Cons i "is")
  then have "prim_from_python p (VInt i) = struct_pack (sizeof_ct (prim_ct p)) i"
    by (auto simp: int_prim_def pack_int_def)
  with Cons show ?case by (simp add: struct_pack_def)
qed simp

text \<open>
  An array object of shorts, ints or longs: it is written exactly when every element is in
  range (otherwise struct.error, in contrast to single objects), and then reads back
  unchanged.
\<close>

theorem int_array_roundtrip:
  assumes "int_prim p" and "p \<noteq> TByte" and "length is < 2 ^ 31"
  shows "(if \<forall>i \<in> set is. in_range (sizeof_ct (prim_ct p)) True i
    then \<exists>bs. prim_array_object_from_python p (VList (map VInt is)) = Inr bs \<and>
      decodes P (nullable_parse (prim_array_object_parse p))
        (nullable_to_python (prim_array_object_to_python p)) bs (VList (map VInt is))
    else prim_array_object_from_python p (VList (map VInt is)) = Inl StructError)"
proof -
  let ?k = "sizeof_ct (prim_ct p)"
  obtain k where k: "prim_ct p = CInt k True" "0 < k" "?k = k"
    using int_prim_ct [OF assms(1)] by auto
  have w: "write_length (length is) = Inr (ct_bytes 4 (int (length is)))"
    using assms(3) by (simp add: write_length_def int_to_bytes_def in_range_def)
  show ?thesis
  proof (cases "\<forall>i \<in> set is. in_range ?k True i")
    case True
    let ?xs = "map OInt is"
    have st: "concat (map (store_ct (prim_ct p)) ?xs) = concat (map (ct_bytes ?k) is)"
      using k by (simp add: comp_def)
    have "rmap simple_value ?xs = Inr (map VInt is)" by (induction "is") auto
    then have "prim_array_object_to_python p (OStruct [code_obj (prim_array_code p),
        (Nm ''length'', OInt (int (length ?xs))), (Nm ''data'', OArr ?xs)]) = Inr (VList (map VInt is))"
      using assms(1,2) by (auto simp: prim_array_object_to_python_def code_obj_def int_prim_def)
    moreover have "list_all (fits (prim_ct p)) ?xs"
      using True k by (simp add: list_all_iff)
    ultimately have "decodes P (nullable_parse (prim_array_object_parse p))
        (nullable_to_python (prim_array_object_to_python p))
        (prim_array_code p # ct_bytes 4 (int (length ?xs)) @ concat (map (store_ct (prim_ct p)) ?xs))
        (VList (map VInt is))"
      using prim_array_decodes assms(3) by (metis length_map)
    moreover have "prim_array_object_from_python p (VList (map VInt is)) =
        Inr (prim_array_code p # ct_bytes 4 (int (length is)) @ concat (map (ct_bytes ?k) is))"
      using True assms(1,2) w
      by (simp add: prim_array_object_from_python_def rmap_pack_int)
    ultimately show ?thesis using True by (simp only: st length_map) auto
  next
    case False
    with assms w show ?thesis
      by (auto simp: prim_array_object_from_python_def rmap_pack_int)
  qed
qed

theorem int_array_roundtrip_witness:
  "\<exists>bs. prim_array_object_from_python TShort (VList [VInt 1, VInt (- 2)]) = Inr bs \<and>
     decodes (\<lambda>_. True) (nullable_parse (prim_array_object_parse TShort))
       (nullable_to_python (prim_array_object_to_python TShort)) bs (VList [VInt 1, VInt (- 2)])"
  using int_array_roundtrip [of TShort "[1, - 2]" "\<lambda>_. True"]
  by (simp add: int_prim_def in_range_def)

lemma raw_bytes: "rmap raw_byte (map (\<lambda>b. OInt (sint b)) bs) = Inr (bs :: byte list)"
  by (induction bs) (simp_all add: raw_byte_def)

lemma byte_array_decodes:
  assumes "length bs < 2 ^ 31"
  shows "decodes P (nullable_parse (prim_array_object_parse TByte))
    (nullable_to_python (prim_array_object_to_python TByte))
    (prim_array_code TByte # ct_bytes 4 (int (length bs)) @ bs) (VBytes bs)"
proof -
  let ?xs = "map (\<lambda>b. OInt (sint b)) bs"
  have "in_range 1 True (sint b)" for b :: byte
    using sint_range_size [of b] by (simp add: in_range_def word_size)
  then have "list_all (fits (prim_ct TByte)) ?xs" by (simp add: list_all_iff)
  moreover have "prim_array_object_to_python TByte (OStruct [code_obj (prim_array_code TByte),
      (Nm ''length'', OInt (int (length ?xs))), (Nm ''data'', OArr ?xs)]) = Inr (VBytes bs)"
    by (simp add: prim_array_object_to_python_def code_obj_def raw_bytes)
  moreover have "ct_bytes (Suc 0) (sint b) = [b]" for b :: byte
  proof -
    have "ct_bytes (Suc 0) (sint b) = ct_bytes (Suc 0) (uint b)"
      by (simp add: ct_bytes_def uint_sint take_bit_eq_mod)
    then show ?thesis by simp
  qed
  then have "concat (map (store_ct (prim_ct TByte)) ?xs) = bs" by (simp add: comp_def)
  ultimately show ?thesis using prim_array_decodes [of TByte ?xs "VBytes bs" P] assms by simp
qed

text \<open>Booleans and doubles.\<close>

lemma bool_object_decodes:
  "decodes P (nullable_parse (data_object_parse TBool)) (nullable_to_python (data_object_to_python TBool))
     (prim_code TBool # ct_bytes 1 (if b then 1 else 0)) (VBool b)"
proof -
  let ?ob = "OStruct [code_obj (prim_code TBool), (Nm ''value'', OInt (if b then 1 else 0))]"
  have "decodes P (nullable_parse (data_object_parse TBool))
      (nullable_to_python (data_object_to_python TBool)) (store_ct (data_object_ct TBool) ?ob) (VBool b)"
    by (rule nullable_fixed_decodes [where c = "prim_code TBool"])
      (auto simp: data_object_parse_def data_object_ct_def data_object_to_python_def code_obj_def
        decode_bool_def in_range_def TC_NULL_def)
  moreover have "store_ct (data_object_ct TBool) ?ob =
      prim_code TBool # ct_bytes 1 (if b then 1 else 0)"
    by (simp add: data_object_ct_def code_obj_def ct_bytes_def)
  ultimately show ?thesis by simp
qed

lemma double_object_decodes:
  "decodes P (nullable_parse (data_object_parse TDouble))
     (nullable_to_python (data_object_to_python TDouble))
     (prim_code TDouble # le_bytes 8 (unat w)) (VFloat w)"
proof -
  let ?ob = "OStruct [code_obj (prim_code TDouble), (Nm ''value'', OReal (le_bytes 8 (unat w)))]"
  have "unat w < 256 ^ 8" using unsigned_less [of w, where ?'a = nat] by simp
  then have v: "(of_nat (le_nat (le_bytes 8 (unat w))) :: 64 word) = w"
    by (simp add: le_nat_le_bytes)
  have "decodes P (nullable_parse (data_object_parse TDouble))
      (nullable_to_python (data_object_to_python TDouble)) (store_ct (data_object_ct TDouble) ?ob)
      (VFloat w)"
    by (rule nullable_fixed_decodes [where c = "prim_code TDouble"])
      (auto simp: data_object_parse_def data_object_ct_def data_object_to_python_def code_obj_def
        v in_range_def TC_NULL_def)
  moreover have "store_ct (data_object_ct TDouble) ?ob =
      prim_code TDouble # le_bytes 8 (unat w)"
    by (simp add: data_object_ct_def code_obj_def ct_bytes_def)
  ultimately show ?thesis by simp
qed

end
