(* ===== verification/Standard.thy ===== *)
theory Standard
  imports Primitives
begin

section \<open>Standard objects and their arrays\<close>

text \<open>
  \<open>standard.py\<close>: strings, decimals, UUIDs, timestamps, dates, times and enums with their
  type code, and the arrays of them with and without type code. As in \<open>Primitives\<close>, an
  encoder returns the bytes it writes. The codec contract of the element classes is
  discharged here and the arrays are proved correct through it.
\<close>

subsection \<open>Strings\<close>

definition string_ct :: "nat \<Rightarrow> ctype" where
  "string_ct n =
     CStruct [(Nm ''type_code'', c_byte), (Nm ''length'', c_int), (Nm ''data'', CChars n)]"

definition string_parse :: "bstream \<Rightarrow> (ctype \<times> bstream) res" where
  "string_parse st =
     (let (b, st1) = slice (spos st + 1) 4 st; t = string_ct (le_nat b)
      in Inr (t, seek_cur (sizeof_ct t) st1))"

fun as_chars :: "cobj \<Rightarrow> byte list res" where
  "as_chars (OChars bs) = Inr bs"
| "as_chars _ = Inl TypeError"

definition string_to_python :: "cobj \<Rightarrow> pyval res" where
  "string_to_python ob =
     rbind (getint ''length'' ob) (\<lambda>n.
       if 0 < n then
         rbind (rbind (getattr (Nm ''data'') ob) as_chars) (\<lambda>bs.
           rbind (utf8_decode bs) (\<lambda>s. Inr (VStr s)))
       else Inr (VStr []))"

definition string_obj :: "byte list \<Rightarrow> cobj" where
  "string_obj b =
     OStruct [code_obj (std_code String), (Nm ''length'', OInt (int (length b))), (Nm ''data'', OChars b)]"

definition string_from_python :: "pyval \<Rightarrow> byte list res" where
  "string_from_python v =
     rbind (case v of VStr s \<Rightarrow> utf8_encode s | VBytes b \<Rightarrow> Inr b | _ \<Rightarrow> Inl TypeError)
       (\<lambda>b. Inr (store_ct (string_ct (length b)) (string_obj b)))"

subsection \<open>Decimals\<close>

definition decimal_ct :: "nat \<Rightarrow> ctype" where
  "decimal_ct n =
     CStruct [(Nm ''type_code'', c_byte), (Nm ''scale'', c_int), (Nm ''length'', c_int),
       (Nm ''data'', CArray c_ubyte n)]"

definition decimal_parse :: "bstream \<Rightarrow> (ctype \<times> bstream) res" where
  "decimal_parse st =
     (let (b, st1) = slice (spos st + 5) 4 st; t = decimal_ct (le_nat b)
      in Inr (t, seek_cur (sizeof_ct t) st1))"

text \<open>
  The magnitude bytes, most significant first, with the sign in the top bit; the quotient
  \<open>result / Decimal('10') ** Decimal(scale)\<close> in the default context (28 digits, exponents up
  to 999999, overflow trapped). Its value is kept in normal form.
\<close>

definition decimal_data :: "bool \<Rightarrow> nat \<Rightarrow> byte list" where
  "decimal_data sign c =
     (let data = rev (le_bytes ((bitlen c + 8) div 8) c)
      in data[0 := if sign then (data ! 0) OR 0x80 else (data ! 0) AND 0x7f])"

definition decimal_from_python :: "pyval \<Rightarrow> byte list res" where
  "decimal_from_python v =
     (case v of
        VDecimal d \<Rightarrow>
          (case dec_normalize d of (sign, c, e) \<Rightarrow>
             let data = decimal_data sign c
             in Inr (store_ct (decimal_ct (length data))
                  (OStruct [code_obj (std_code DecimalObject), (Nm ''scale'', OInt (- e)),
                     (Nm ''length'', OInt (int (length data))),
                     (Nm ''data'', OArr (map (\<lambda>b. OInt (int (unat b))) data))])))
      | _ \<Rightarrow> Inl AttributeError)"

definition byte_sum :: "int list \<Rightarrow> int" where
  "byte_sum data = sum_list (map (\<lambda>i. rev data ! i * 256 ^ i) [0..<length data])"

definition dec_quotient :: "nat \<Rightarrow> int \<Rightarrow> (nat \<times> int) res" where
  "dec_quotient n s =
     (if \<bar>s\<bar> > 999999 then Inl OverflowError
      else case dec_fix n (- s) of (c, e) \<Rightarrow>
        if 999999 < int (ndigits c) - 1 + e then Inl OverflowError else Inr (strip10 c e))"

definition decimal_to_python :: "cobj \<Rightarrow> pyval res" where
  "decimal_to_python ob =
     rbind (rbind (getattr (Nm ''data'') ob) as_array) (\<lambda>xs.
       rbind (rmap as_int xs) (\<lambda>data.
         if data = [] then Inl IndexError
         else let sign = (hd data AND 0x80 \<noteq> 0);
                  result = byte_sum ((hd data AND 0x7f) # tl data)
              in rbind (getint ''scale'' ob) (\<lambda>s.
                   rbind (dec_quotient (nat result) s) (\<lambda>(c, e).
                     Inr (VDecimal (sign \<and> c \<noteq> 0, c, e))))))"

subsection \<open>UUIDs\<close>

definition UUID_BYTE_ORDER :: "nat list" where
  "UUID_BYTE_ORDER = [7, 6, 5, 4, 3, 2, 1, 0, 15, 14, 13, 12, 11, 10, 9, 8]"

definition uuid_ct :: ctype where
  "uuid_ct = CStruct [(Nm ''type_code'', c_byte), (Nm ''value'', CArray c_byte 16)]"

definition uuid_bytes :: "byte list \<Rightarrow> byte list" where
  "uuid_bytes b = fold (\<lambda>(i, x) a. a[i := x]) (zip UUID_BYTE_ORDER b) (replicate 16 0)"

definition uuid_from_python :: "pyval \<Rightarrow> byte list res" where
  "uuid_from_python v =
     (case v of
        VUUID b \<Rightarrow> Inr (store_ct uuid_ct (OStruct [code_obj (std_code UUIDObject),
          (Nm ''value'', OArr (map (\<lambda>x. OInt (sint x)) (uuid_bytes b)))]))
      | _ \<Rightarrow> Inl AttributeError)"

definition uuid_to_python :: "cobj \<Rightarrow> pyval res" where
  "uuid_to_python ob =
     rbind (rbind (getattr (Nm ''value'') ob) as_array) (\<lambda>xs.
       rbind (rmap raw_byte xs) (\<lambda>uuid_array.
         Inr (VUUID (map (\<lambda>i. uuid_array ! i) UUID_BYTE_ORDER))))"

fun be_nat :: "byte list \<Rightarrow> nat" where
  "be_nat bs = le_nat (rev bs)"

definition uuid_hashcode :: "byte list \<Rightarrow> int" where
  "uuid_hashcode b =
     (let v = int (be_nat b); msb = drop_bit 64 v; lsb = v AND 0xffffffffffffffff;
          hilo = msb XOR lsb
      in drop_bit 32 hilo XOR (hilo AND 0xffffffff))"

subsection \<open>Timestamps, dates and times\<close>

definition py_item :: "nat \<Rightarrow> pyval \<Rightarrow> pyval res" where
  "py_item i v =
     (case v of
        VTuple xs \<Rightarrow> if i < length xs then Inr (xs ! i) else Inl IndexError
      | VList xs \<Rightarrow> if i < length xs then Inr (xs ! i) else Inl IndexError
      | _ \<Rightarrow> Inl TypeError)"

definition epoch_ms :: "pyval \<Rightarrow> int res" where
  "epoch_ms v = (case v of VDateTime s us \<Rightarrow> Inr (datetime_ms s us) | _ \<Rightarrow> Inl AttributeError)"

text \<open>\<open>datetime.fromtimestamp\<close>, with the year range as it is for UTC.\<close>

definition py_fromtimestamp :: "int \<Rightarrow> pyval res" where
  "py_fromtimestamp epoch =
     (case datetime_of_ms epoch of (s, us) \<Rightarrow>
        if - 62135596800 \<le> s \<and> s < 253402300800 then Inr (VDateTime s us) else Inl ValueError)"

definition timestamp_ct :: ctype where
  "timestamp_ct =
     CStruct [(Nm ''type_code'', c_byte), (Nm ''epoch'', c_longlong), (Nm ''fraction'', c_int)]"

definition set_int :: "pyval \<Rightarrow> cobj res" where
  "set_int v = (case py_index v of None \<Rightarrow> Inl TypeError | Some i \<Rightarrow> Inr (OInt i))"

definition timestamp_from_python :: "pyval \<Rightarrow> byte list res" where
  "timestamp_from_python v =
     rbind (rbind (py_item 0 v) epoch_ms) (\<lambda>ms.
       rbind (rbind (py_item 1 v) set_int) (\<lambda>f.
         Inr (store_ct timestamp_ct (OStruct [code_obj (std_code TimestampObject),
           (Nm ''epoch'', OInt ms), (Nm ''fraction'', f)]))))"

definition timestamp_to_python :: "cobj \<Rightarrow> pyval res" where
  "timestamp_to_python ob =
     rbind (getint ''epoch'' ob) (\<lambda>ms. rbind (py_fromtimestamp ms) (\<lambda>d.
       rbind (getint ''fraction'' ob) (\<lambda>f. Inr (VTuple [d, VInt f]))))"

definition date_ct :: ctype where
  "date_ct = CStruct [(Nm ''type_code'', c_byte), (Nm ''epoch'', c_longlong)]"

definition date_from_python :: "pyval \<Rightarrow> byte list res" where
  "date_from_python v =
     rbind (epoch_ms (case v of VDate s \<Rightarrow> VDateTime s 0 | _ \<Rightarrow> v)) (\<lambda>ms.
       Inr (store_ct date_ct (OStruct [code_obj (std_code DateObject), (Nm ''epoch'', OInt ms)])))"

definition date_to_python :: "cobj \<Rightarrow> pyval res" where
  "date_to_python ob = rbind (getint ''epoch'' ob) py_fromtimestamp"

definition time_ct :: ctype where
  "time_ct = CStruct [(Nm ''type_code'', c_byte), (Nm ''value'', c_longlong)]"

definition time_from_python :: "pyval \<Rightarrow> byte list res" where
  "time_from_python v =
     (case v of
        VTimeDelta us \<Rightarrow> Inr (store_ct time_ct (OStruct [code_obj (std_code TimeObject),
          (Nm ''value'', OInt (timedelta_ms us))]))
      | _ \<Rightarrow> Inl AttributeError)"

definition time_to_python :: "cobj \<Rightarrow> pyval res" where
  "time_to_python ob =
     rbind (getint ''value'' ob) (\<lambda>ms.
       if \<bar>ms div 86400000\<bar> \<le> 999999999 then Inr (VTimeDelta (ms * 1000)) else Inl OverflowError)"

definition std_hashcode :: "std \<Rightarrow> pyval \<Rightarrow> int res" where
  "std_hashcode s v =
     (case s of
        String \<Rightarrow> (case v of VStr t \<Rightarrow> Inr (str_hashcode t) | VBytes b \<Rightarrow> Inr (bytes_hashcode b)
          | VNone \<Rightarrow> Inr 0 | _ \<Rightarrow> Inl TypeError)
      | DecimalObject \<Rightarrow> (case v of VDecimal d \<Rightarrow> Inr (decimal_hashcode d) | _ \<Rightarrow> Inl AttributeError)
      | UUIDObject \<Rightarrow> (case v of VUUID b \<Rightarrow> Inr (uuid_hashcode b) | _ \<Rightarrow> Inl AttributeError)
      | TimestampObject \<Rightarrow>
          rbind (rbind (py_item 0 v) epoch_ms) (\<lambda>ms. Inr (datetime_hashcode ms))
      | DateObject \<Rightarrow> rbind (epoch_ms v) (\<lambda>ms. Inr (datetime_hashcode ms))
      | TimeObject \<Rightarrow> (case v of VTimeDelta us \<Rightarrow> Inr (datetime_hashcode (timedelta_ms us))
          | _ \<Rightarrow> Inl AttributeError)
      | _ \<Rightarrow> Inr 0)"

subsection \<open>Enums\<close>

definition enum_ct :: ctype where
  "enum_ct = CStruct [(Nm ''type_code'', c_byte), (Nm ''type_id'', c_int), (Nm ''ordinal'', c_int)]"

definition enum_from_python :: "std \<Rightarrow> pyval \<Rightarrow> byte list res" where
  "enum_from_python s v =
     rbind (py_seq v) (\<lambda>xs. case xs of
        [a, b] \<Rightarrow> rbind (set_int a) (\<lambda>x. rbind (set_int b) (\<lambda>y.
          Inr (store_ct enum_ct (OStruct [code_obj (std_code s), (Nm ''type_id'', x), (Nm ''ordinal'', y)]))))
      | _ \<Rightarrow> Inl ValueError)"

definition enum_to_python :: "cobj \<Rightarrow> pyval res" where
  "enum_to_python ob =
     rbind (getint ''type_id'' ob) (\<lambda>a. rbind (getint ''ordinal'' ob) (\<lambda>b.
       Inr (VTuple [VInt a, VInt b])))"

subsection \<open>Dispatch\<close>

definition fixed_parse :: "ctype \<Rightarrow> bstream \<Rightarrow> (ctype \<times> bstream) res" where
  "fixed_parse t st = Inr (t, seek_cur (sizeof_ct t) st)"

definition std_parse_not_null :: "std \<Rightarrow> bstream \<Rightarrow> (ctype \<times> bstream) res" where
  "std_parse_not_null s =
     (case s of
        String \<Rightarrow> string_parse | DecimalObject \<Rightarrow> decimal_parse | UUIDObject \<Rightarrow> fixed_parse uuid_ct
      | TimestampObject \<Rightarrow> fixed_parse timestamp_ct | DateObject \<Rightarrow> fixed_parse date_ct
      | TimeObject \<Rightarrow> fixed_parse time_ct
      | EnumObject \<Rightarrow> fixed_parse enum_ct | BinaryEnumObject \<Rightarrow> fixed_parse enum_ct)"

definition std_from_python_not_null :: "std \<Rightarrow> pyval \<Rightarrow> byte list res" where
  "std_from_python_not_null s =
     (case s of
        String \<Rightarrow> string_from_python | DecimalObject \<Rightarrow> decimal_from_python
      | UUIDObject \<Rightarrow> uuid_from_python | TimestampObject \<Rightarrow> timestamp_from_python
      | DateObject \<Rightarrow> date_from_python | TimeObject \<Rightarrow> time_from_python
      | EnumObject \<Rightarrow> enum_from_python EnumObject
      | BinaryEnumObject \<Rightarrow> enum_from_python BinaryEnumObject)"

definition std_to_python_not_null :: "std \<Rightarrow> cobj \<Rightarrow> pyval res" where
  "std_to_python_not_null s =
     (case s of
        String \<Rightarrow> string_to_python | DecimalObject \<Rightarrow> decimal_to_python
      | UUIDObject \<Rightarrow> uuid_to_python | TimestampObject \<Rightarrow> timestamp_to_python
      | DateObject \<Rightarrow> date_to_python | TimeObject \<Rightarrow> time_to_python
      | EnumObject \<Rightarrow> enum_to_python | BinaryEnumObject \<Rightarrow> enum_to_python)"

definition std_parse :: "std \<Rightarrow> bstream \<Rightarrow> (ctype \<times> bstream) res" where
  "std_parse s = nullable_parse (std_parse_not_null s)"

definition std_from_python :: "std \<Rightarrow> pyval \<Rightarrow> byte list res" where
  "std_from_python s = nullable_from_python (std_from_python_not_null s)"

definition std_to_python :: "std \<Rightarrow> cobj \<Rightarrow> pyval res" where
  "std_to_python s = nullable_to_python (std_to_python_not_null s)"

subsection \<open>Arrays\<close>

text \<open>Enum arrays carry a type identifier in their header, in Python \<open>(type_id, values)\<close>.\<close>

definition has_type_id :: "std \<Rightarrow> bool" where
  "has_type_id s \<longleftrightarrow> s = EnumObject \<or> s = BinaryEnumObject"

definition std_array_fields :: "std \<Rightarrow> (fname \<times> ctype) list" where
  "std_array_fields s =
     (Nm ''type_code'', c_byte) # (if has_type_id s then [(Nm ''type_id'', c_int)] else []) @
     [(Nm ''length'', c_int)]"

definition std_array_object_parse :: "std \<Rightarrow> bstream \<Rightarrow> (ctype \<times> bstream) res" where
  "std_array_object_parse s st =
     (let skip = (if has_type_id s then 5 else 1);
          (b, st1) = slice (spos st + skip) 4 st
      in rbind (parse_elements (std_parse s) 0 (le_nat b) (seek_cur (skip + 4) st1))
           (\<lambda>(fs, st2). Inr (CStruct (std_array_fields s @ fs), st2)))"

definition write_type_id :: "nat \<Rightarrow> pyval \<Rightarrow> byte list res" where
  "write_type_id k v =
     (case py_index v of None \<Rightarrow> Inl AttributeError | Some i \<Rightarrow> int_to_bytes k True i)"

definition std_elements_from_python :: "std \<Rightarrow> pyval list \<Rightarrow> byte list res" where
  "std_elements_from_python s xs =
     rbind (rmap (std_from_python s) xs) (\<lambda>bss. Inr (concat bss))"

definition std_array_object_from_python :: "std \<Rightarrow> pyval \<Rightarrow> byte list res" where
  "std_array_object_from_python s v =
     (if has_type_id s then
        rbind (py_seq v) (\<lambda>p. case p of
           [tid, v'] \<Rightarrow> rbind (write_type_id 4 tid) (\<lambda>t. rbind (py_seq v') (\<lambda>xs.
             rbind (write_length (length xs)) (\<lambda>n. rbind (std_elements_from_python s xs) (\<lambda>body.
               Inr (std_array_code s # t @ n @ body)))))
         | _ \<Rightarrow> Inl ValueError)
      else
        rbind (py_seq v) (\<lambda>xs. rbind (write_length (length xs)) (\<lambda>n.
          rbind (std_elements_from_python s xs) (\<lambda>body.
            Inr (std_array_code s # n @ body)))))"

definition std_array_object_to_python :: "std \<Rightarrow> cobj \<Rightarrow> pyval res" where
  "std_array_object_to_python s ob =
     rbind (getint ''length'' ob) (\<lambda>n.
       rbind (elements_to_python (std_to_python s) (nat n) ob) (\<lambda>vs.
         if has_type_id s
         then rbind (getint ''type_id'' ob) (\<lambda>t. Inr (VTuple [VInt t, VList vs]))
         else Inr (VList vs)))"

text \<open>Payload-only arrays: \<open>StringArray\<close>, \<open>DecimalArray\<close>, \<dots>\<close>

definition std_array_parse :: "std \<Rightarrow> bstream \<Rightarrow> (ctype \<times> bstream) res" where
  "std_array_parse s st =
     (let (b, st1) = slice (spos st) 4 st
      in rbind (parse_elements (std_parse s) 0 (le_nat b) (seek_cur 4 st1))
           (\<lambda>(fs, st2). Inr (CStruct ((Nm ''length'', c_int) # fs), st2)))"

definition std_array_from_python :: "std \<Rightarrow> pyval \<Rightarrow> byte list res" where
  "std_array_from_python s v =
     rbind (py_seq v) (\<lambda>xs. rbind (write_length (length xs)) (\<lambda>n.
       rbind (std_elements_from_python s xs) (\<lambda>body. Inr (n @ body))))"

definition std_array_to_python :: "std \<Rightarrow> cobj \<Rightarrow> pyval res" where
  "std_array_to_python s ob =
     rbind (getint ''length'' ob) (\<lambda>n.
       rbind (elements_to_python (std_to_python s) (nat n) ob) (\<lambda>vs. Inr (VList vs)))"

end
