(* ===== verification/StandardCodec.thy ===== *)
theory StandardCodec
  imports Standard
begin

section \<open>Standard objects and arrays read back\<close>

text \<open>
  Correctness of \<open>Standard\<close>: for every class, what the encoder wrote is parsed at any
  position of a stream to a layout of the same size, and converts to the value
  \<open>std_good\<close> names: the value written, up to the losses of each class (a string is cut at its
  first NUL, a decimal is rounded to 28 digits and loses the sign of zero, times are cut to
  milliseconds, enum numbers wrap to 32 bits).
\<close>

lemma std_code_lt [simp]: "unat (std_code s) < 128" "std_code s \<noteq> TC_NULL"
  by (cases s; simp add: TC_NULL_def)+

lemma std_array_code_lt [simp]: "unat (std_array_code s) < 128" "std_array_code s \<noteq> TC_NULL"
  by (cases s; simp add: TC_NULL_def)+

text \<open>The common layout: the type code and the fields of the class.\<close>

abbreviation coded :: "(fname \<times> ctype) list \<Rightarrow> ctype" where
  "coded fs \<equiv> CStruct ((Nm ''type_code'', c_byte) # fs)"

lemma std_fixed:
  assumes "fits (CStruct fs) (OStruct os)"
    and "std_to_python_not_null s (OStruct (code_obj (std_code s) # os)) = Inr v"
    and "\<And>st. reads st (std_code s # store_fields fs os) \<Longrightarrow>
      \<exists>st'. std_parse_not_null s st = Inr (coded fs, st') \<and>
        advanced st (sizeof_ct (coded fs)) st' \<and> sclient st' = sclient st"
  shows "decodes P (std_parse s) (std_to_python s) (std_code s # store_fields fs os) v"
proof -
  have c: "store_ct (coded fs) (OStruct (code_obj (std_code s) # os)) = std_code s # store_fields fs os"
    by (simp add: code_obj_def)
  have "fits (coded fs) (OStruct (code_obj (std_code s) # os))"
    using assms(1) by (simp add: code_obj_def code_in_range)
  then have "decodes P (std_parse s) (std_to_python s)
      (store_ct (coded fs) (OStruct (code_obj (std_code s) # os))) v"
    unfolding std_parse_def std_to_python_def
    by (rule nullable_fixed_decodes [where c = "std_code s" and os = os and fs = fs])
      (use assms(2,3) c in simp_all)
  then show ?thesis by (simp only: c)
qed

subsection \<open>Strings\<close>

lemma utf8_encode_takeWhile:
  assumes "utf8_encode s = Inr b"
  shows "utf8_encode (takeWhile (\<lambda>c. c \<noteq> 0) s) = Inr (takeWhile (\<lambda>x. x \<noteq> 0) b)"
proof -
  from assms have s: "list_all is_scalar s" and b: "b = map of_nat (concat (map utf8_char s))"
    by (auto simp: utf8_encode_def split: if_splits)
  from s have "list_all is_scalar (takeWhile (\<lambda>c. c \<noteq> 0) s)"
    by (auto simp: list_all_iff dest: set_takeWhileD)
  moreover from s have "takeWhile (\<lambda>x. x \<noteq> (0 :: byte)) (map of_nat (concat (map utf8_char s))) =
    map of_nat (concat (map utf8_char (takeWhile (\<lambda>c. c \<noteq> 0) s)))"
  proof (induction s)
    case (Cons c s)
    show ?case
    proof (cases "c = 0")
      case True
      then show ?thesis by (simp add: utf8_char_def)
    next
      case False
      have "x \<noteq> 0" if "x \<in> set (map of_nat (utf8_char c))" for x :: byte
      proof -
        from that obtain n where n: "n \<in> set (utf8_char c)" "x = of_nat n" by auto
        have "n < 256" using utf8_char_range n(1) Cons.prems by auto
        moreover have "n \<noteq> 0" using False n(1) utf8_char_nul [of c] by metis
        ultimately show ?thesis using n(2) byte_of_nat_eq_0 by simp
      qed
      then have "takeWhile (\<lambda>x. x \<noteq> (0 :: byte)) (map of_nat (utf8_char c) @ ys) =
          map of_nat (utf8_char c) @ takeWhile (\<lambda>x. x \<noteq> 0) ys" for ys
        by (intro takeWhile_append2) auto
      with Cons False show ?thesis by simp
    qed
  qed simp
  ultimately show ?thesis by (simp add: utf8_encode_def b)
qed

lemma length_field:
  assumes "n < 2 ^ 31"
  shows "in_range 4 True (int n)" and "le_nat (ct_bytes 4 (int n)) = n"
    and "write_length n = Inr (ct_bytes 4 (int n))"
  using assms by (simp_all add: in_range_def le_simps write_length_def int_to_bytes_def)

lemma string_decodes:
  assumes "length b < 2 ^ 31" and "utf8_decode (takeWhile (\<lambda>x. x \<noteq> 0) b) = Inr s"
  shows "decodes P (std_parse String) (std_to_python String)
    (store_ct (string_ct (length b)) (string_obj b)) (VStr s)"
proof -
  let ?d = "takeWhile (\<lambda>x. x \<noteq> 0) b"
  let ?fs = "[(Nm ''length'', c_int), (Nm ''data'', CChars (length b))]"
  let ?os = "[(Nm ''length'', OInt (int (length b))), (Nm ''data'', OChars ?d)]"
  have "decodes P (std_parse String) (std_to_python String) (std_code String # store_fields ?fs ?os)
      (VStr s)"
  proof (rule std_fixed)
    have "0 \<notin> set ?d" by (auto dest: set_takeWhileD)
    then show "fits (CStruct ?fs) (OStruct ?os)"
      using length_field(1) [OF assms(1)] by (simp add: length_takeWhile_le)
    show "std_to_python_not_null String (OStruct (code_obj (std_code String) # ?os)) = Inr (VStr s)"
      using assms(2)
      by (cases "b = []") (auto simp: std_to_python_not_null_def string_to_python_def getint_def
          code_obj_def utf8_decode_def)
  next
    fix st assume r: "reads st (std_code String # store_fields ?fs ?os)"
    have "bslice (sbuf st) (spos st + 1) 4 = ct_bytes 4 (int (length b))"
      using reads_slice [OF r, of 1 4] by (simp add: Let_def)
    then show "\<exists>st'. std_parse_not_null String st = Inr (coded ?fs, st') \<and>
        advanced st (sizeof_ct (coded ?fs)) st' \<and> sclient st' = sclient st"
      using length_field(2) [OF assms(1)]
      by (simp add: std_parse_not_null_def string_parse_def string_ct_def slice_def advanced_def Let_def)
  qed
  moreover have "std_code String # store_fields ?fs ?os =
      store_ct (string_ct (length b)) (string_obj b)"
    by (simp add: string_ct_def string_obj_def code_obj_def Let_def del: std_code.simps)
  ultimately show ?thesis by simp
qed

subsection \<open>Decimals\<close>

lemma ndigits_bound: "c < 10 ^ ndigits c"
proof (induction c rule: ndigits.induct)
  case (1 c)
  show ?case
  proof (cases "c < 10")
    case False
    with 1 have "c div 10 < 10 ^ ndigits (c div 10)" by simp
    then have "c < 10 * 10 ^ ndigits (c div 10)" by linarith
    with False show ?thesis by (simp add: ndigits.simps [of c])
  qed (simp add: ndigits.simps [of c])
qed

lemma ndigits_le: "c < 10 ^ n \<Longrightarrow> 0 < n \<Longrightarrow> ndigits c \<le> n"
proof (induction n arbitrary: c)
  case (Suc n)
  show ?case
  proof (cases "c < 10")
    case False
    with Suc.prems have "0 < n" by (cases n) auto
    moreover have "c div 10 < 10 ^ n" using Suc.prems(1) by (simp add: less_mult_imp_div_less mult.commute)
    ultimately show ?thesis using Suc.IH False by (simp add: ndigits.simps [of c])
  qed (simp add: ndigits.simps [of c])
qed simp

lemma dec_fix_le: "fst (dec_fix c e) \<le> 10 ^ 28"
proof (cases "28 < ndigits c")
  case True
  define m :: nat where "m = 10 ^ (ndigits c - 28)"
  have "(10 :: nat) ^ ndigits c = 10 ^ 28 * m"
    using True le_add_diff_inverse [of 28 "ndigits c"] by (metis m_def less_imp_le power_add)
  with ndigits_bound [of c] have "c < 10 ^ 28 * m" by metis
  then have "c div m < 10 ^ 28" by (rule less_mult_imp_div_less)
  then have "round_half_even c m \<le> 10 ^ 28" by (simp add: round_half_even_def Let_def)
  with True show ?thesis by (simp add: dec_fix_def Let_def m_def)
next
  case False
  have "(10 :: nat) ^ ndigits c \<le> 10 ^ 28" using False by (intro power_increasing) auto
  then show ?thesis using ndigits_bound [of c] False by (simp add: dec_fix_def Let_def)
qed

lemma strip10_result:
  "strip10 c e = (c', e') \<Longrightarrow> c' \<le> c \<and> (if c' = 0 then e' = 0 else c' mod 10 \<noteq> 0)"
proof (induction c e rule: strip10.induct)
  case (1 c e)
  show ?case
  proof (cases "c \<noteq> 0 \<and> c mod 10 = 0")
    case True
    then have "strip10 c e = strip10 (c div 10) (e + 1)" by (simp add: strip10.simps [of c e])
    with 1 True have "c' \<le> c div 10 \<and> (if c' = 0 then e' = 0 else c' mod 10 \<noteq> 0)" by auto
    then show ?thesis by linarith
  next
    case False
    with "1.prems" show ?thesis by (auto simp: strip10.simps [of c e] split: if_splits)
  qed
qed

text \<open>A decimal in normal form has at most 28 digits and is not changed again.\<close>

lemma dec_normal:
  assumes "dec_normalize d = (sg, c, e)"
  shows "ndigits c \<le> 28" and "dec_fix c e = (c, e)" and "strip10 c e = (c, e)"
proof -
  from assms obtain s0 c0 e0 where d: "d = (s0, c0, e0)" and
    st: "strip10 (fst (dec_fix c0 e0)) (snd (dec_fix c0 e0)) = (c, e)"
    by (cases d) (auto simp: dec_normalize_def case_prod_beta)
  from strip10_result [OF st] have r: "c \<le> fst (dec_fix c0 e0)"
    "if c = 0 then e = 0 else c mod 10 \<noteq> 0" by simp_all
  have "c \<le> 10 ^ 28" using r(1) dec_fix_le [of c0 e0] by linarith
  moreover have "c \<noteq> 10 ^ 28" using r(2) by auto
  ultimately have "c < 10 ^ 28" by linarith
  then show n: "ndigits c \<le> 28" by (rule ndigits_le) simp
  then show "dec_fix c e = (c, e)" by (simp add: dec_fix_def Let_def)
  show "strip10 c e = (c, e)" using r(2) by (simp add: strip10.simps [of c e] split: if_splits)
qed

lemma le_bytes_snoc: "le_bytes (Suc k) c = le_bytes k c @ [of_nat (c div 256 ^ k)]"
proof (induction k arbitrary: c)
  case (Suc k)
  show ?case using Suc [of "c div 256"] by (simp add: div_mult2_eq)
qed simp

lemma bits_7: 
  fixes h :: int
  assumes "0 \<le> h" and "h < 128"
  shows "h AND 0x7f = h" and "h AND 0x80 = 0" and "(h + 128) AND 0x7f = h" and "(h + 128) AND 0x80 \<noteq> 0"
proof -
  have m: "x AND 0x7f = x mod 128" for x :: int
    using take_bit_eq_mask [of 7 x] by (simp add: take_bit_eq_mod mask_eq_exp_minus_1)
  have b: "x AND 0x80 = 0 \<longleftrightarrow> even (x div 128)" for x :: int
    using and_exp_eq_0_iff_not_bit [of x 7] by (simp add: bit_iff_odd)
  show "h AND 0x7f = h" "(h + 128) AND 0x7f = h" "h AND 0x80 = 0" "(h + 128) AND 0x80 \<noteq> 0"
    using assms by (simp_all add: m b div_pos_pos_trivial div_add_self2)
qed

lemma byte_7:
  assumes "n < 128"
  shows "(of_nat n :: byte) AND 0x7f = of_nat n" and "(of_nat n :: byte) OR 0x80 = of_nat (n + 128)"
proof -
  define h where "h = int n"
  have h: "0 \<le> h" "h < 128" using assms by (simp_all add: h_def)
  have w: "(of_nat n :: byte) = word_of_int h" "(of_nat (n + 128) :: byte) = word_of_int (h + 128)"
    by (simp_all add: h_def)
  have "(word_of_int h :: byte) AND 0x7f = word_of_int (h AND 0x7f)" by (simp add: of_int_and_eq)
  then show "(of_nat n :: byte) AND 0x7f = of_nat n" using bits_7(1) [OF h] w by simp
  have "h + 128 = h OR 0x80"
    by (rule disjunctive_add) (use bits_7(2) [OF h] in \<open>metis bit_and_iff bit_0_eq bot_apply bot_bool_def\<close>)
  moreover have "(word_of_int h :: byte) OR 0x80 = word_of_int (h OR 0x80)" by (simp add: of_int_or_eq)
  ultimately show "(of_nat n :: byte) OR 0x80 = of_nat (n + 128)" using w by simp
qed

lemma byte_sum_le_nat: "byte_sum (map uint (rev bs)) = int (le_nat bs)"
proof (induction bs)
  case (Cons b bs)
  have "byte_sum (map uint (rev (b # bs))) =
      (\<Sum>i\<leftarrow>[0..<Suc (length bs)]. map uint (b # bs) ! i * 256 ^ i)"
    by (simp add: byte_sum_def rev_map del: upt_Suc)
  also have "\<dots> = uint b + (\<Sum>i\<leftarrow>[0..<length bs]. map uint (b # bs) ! Suc i * 256 ^ Suc i)"
    by (simp add: upt_conv_Cons map_Suc_upt [symmetric] comp_def del: upt_Suc)
  also have "(\<Sum>i\<leftarrow>[0..<length bs]. map uint (b # bs) ! Suc i * 256 ^ Suc i) =
      256 * byte_sum (map uint (rev bs))"
    by (simp add: byte_sum_def rev_map sum_list_const_mult [symmetric] algebra_simps)
  finally show ?case using Cons by simp
qed (simp add: byte_sum_def)

lemma decimal_data_eq:
  obtains k h where "h < 128" and "h = c div 256 ^ k" and "c < 256 ^ Suc k"
    and "decimal_data sg c = of_nat (if sg then h + 128 else h) # rev (le_bytes k c)"
proof -
  obtain k where L: "(bitlen c + 8) div 8 = Suc k" by (cases "(bitlen c + 8) div 8") auto
  then have "bitlen c \<le> 8 * k + 7" by linarith
  then have "(2 :: nat) ^ bitlen c \<le> 2 ^ (8 * k + 7)" by (rule power_increasing) simp
  moreover have "c < 2 ^ bitlen c" using bitlen_bounds [of c] by (cases "c = 0") auto
  ultimately have c: "c < 2 ^ (8 * k + 7)" by linarith
  have "(2 :: nat) ^ (8 * k + 7) = 128 * 256 ^ k"
    using power_mult [of "2 :: nat" 8 k] by (simp add: power_add)
  with c have c': "c < 128 * 256 ^ k" by simp
  define h where "h = c div 256 ^ k"
  have h: "h < 128" unfolding h_def using c' by (rule less_mult_imp_div_less)
  have "decimal_data sg c = of_nat (if sg then h + 128 else h) # rev (le_bytes k c)"
    using byte_7 [OF h] by (simp add: decimal_data_def L le_bytes_snoc h_def [symmetric] del: le_bytes.simps)
  moreover have "c < 256 ^ Suc k" using c' by simp
  ultimately show thesis using that h h_def by blast
qed

lemma uint_of_nat_byte: "n < 256 \<Longrightarrow> uint (of_nat n :: byte) = int n"
  using unat_of_nat_byte [of n] by (metis mod_less uint_nat)

lemma decimal_data_value:
  fixes c :: nat and sg :: bool
  defines "xs \<equiv> map uint (decimal_data sg c)"
  shows "xs \<noteq> []" and "hd xs AND 0x80 \<noteq> 0 \<longleftrightarrow> sg" and "byte_sum ((hd xs AND 0x7f) # tl xs) = int c"
proof -
  obtain k h where h: "h < 128" "h = c div 256 ^ k" "c < 256 ^ Suc k"
    "decimal_data sg c = of_nat (if sg then h + 128 else h) # rev (le_bytes k c)"
    by (rule decimal_data_eq)
  have xs: "xs = int (if sg then h + 128 else h) # map uint (rev (le_bytes k c))"
    using h(1) by (simp add: xs_def h(4) uint_of_nat_byte del: of_nat_add)
  note b = bits_7 [of "int h", simplified of_nat_0_le_iff]
  show "xs \<noteq> []" by (simp add: xs)
  show "hd xs AND 0x80 \<noteq> 0 \<longleftrightarrow> sg" using b h(1) by (simp add: xs)
  have "(hd xs AND 0x7f) # tl xs = map uint (rev (le_bytes (Suc k) c))"
    using b h(1) by (simp add: xs le_bytes_snoc h(2) [symmetric] uint_of_nat_byte del: le_bytes.simps)
  then show "byte_sum ((hd xs AND 0x7f) # tl xs) = int c"
    using h(3) by (simp only: byte_sum_le_nat le_nat_le_bytes mod_less)
qed

lemma decimal_decodes:
  assumes d: "dec_normalize d = (sg, c, e)" and e: "\<bar>e\<bar> \<le> 999999"
    and adj: "int (ndigits c) - 1 + e \<le> 999999"
    and enc: "decimal_from_python (VDecimal d) = Inr bs"
  shows "decodes P (std_parse DecimalObject) (std_to_python DecimalObject) bs
    (VDecimal (sg \<and> c \<noteq> 0, c, e))"
proof -
  let ?data = "decimal_data sg c"
  let ?fs = "[(Nm ''scale'', c_int), (Nm ''length'', c_int), (Nm ''data'', CArray c_ubyte (length ?data))]"
  let ?os = "[(Nm ''scale'', OInt (- e)), (Nm ''length'', OInt (int (length ?data))),
    (Nm ''data'', OArr (map (\<lambda>b. OInt (uint b)) ?data))]"
  have len: "length ?data < 2 ^ 31"
  proof -
    have "c < 10 ^ 28"
    proof -
      have "c < 10 ^ ndigits c" by (rule ndigits_bound)
      also have "\<dots> \<le> 10 ^ 28" using dec_normal(1) [OF d] by (intro power_increasing) auto
      finally show ?thesis .
    qed
    then have "bitlen c \<le> 94"
    proof -
      have "c < 2 ^ 94" using \<open>c < 10 ^ 28\<close> by simp
      show ?thesis
      proof (rule ccontr)
        assume "\<not> bitlen c \<le> 94"
        then have "(2 :: nat) ^ 94 \<le> 2 ^ (bitlen c - 1)" by (intro power_increasing) auto
        with bitlen_bounds [of c] \<open>c < 2 ^ 94\<close> \<open>\<not> bitlen c \<le> 94\<close>
        show False by (cases "c = 0") (auto simp: bitlen.simps [of 0])
      qed
    qed
    then show ?thesis by (simp add: decimal_data_def Let_def)
  qed
  note val = decimal_data_value [of sg c]
  have "decodes P (std_parse DecimalObject) (std_to_python DecimalObject)
      (std_code DecimalObject # store_fields ?fs ?os) (VDecimal (sg \<and> c \<noteq> 0, c, e))"
  proof (rule std_fixed)
    have "in_range 4 True (- e)" using e by (auto simp: in_range_def abs_le_iff)
    moreover have "in_range 1 False (uint b)" for b :: byte
      using unsigned_less [of b, where ?'a = int] by (simp add: in_range_def)
    ultimately show "fits (CStruct ?fs) (OStruct ?os)"
      using length_field(1) [OF len] by (simp add: list_all_iff)
    have "rmap as_int (map (\<lambda>b. OInt (uint b)) bs) = Inr (map uint bs)" for bs :: "byte list"
      by (induction bs) auto
    moreover have "dec_quotient c (- e) = Inr (c, e)"
      using e adj dec_normal [OF d] by (simp add: dec_quotient_def)
    ultimately show "std_to_python_not_null DecimalObject (OStruct (code_obj (std_code DecimalObject) # ?os)) =
        Inr (VDecimal (sg \<and> c \<noteq> 0, c, e))"
      using val by (simp add: std_to_python_not_null_def decimal_to_python_def getint_def
          code_obj_def Let_def)
  next
    fix st assume r: "reads st (std_code DecimalObject # store_fields ?fs ?os)"
    have "bslice (sbuf st) (spos st + 5) 4 = ct_bytes 4 (int (length ?data))"
      using reads_slice [OF r, of 5 4] by (simp add: Let_def)
    then show "\<exists>st'. std_parse_not_null DecimalObject st = Inr (coded ?fs, st') \<and>
        advanced st (sizeof_ct (coded ?fs)) st' \<and> sclient st' = sclient st"
      using length_field(2) [OF len]
      by (simp add: std_parse_not_null_def decimal_parse_def decimal_ct_def slice_def advanced_def Let_def)
  qed
  moreover have "bs = std_code DecimalObject # store_fields ?fs ?os"
    using enc d by (simp add: decimal_from_python_def decimal_ct_def code_obj_def Let_def
        del: std_code.simps)
  ultimately show ?thesis by simp
qed

subsection \<open>UUIDs, times and enums\<close>

lemma length_16E:
  assumes "length b = 16"
  obtains b0 b1 b2 b3 b4 b5 b6 b7 b8 b9 b10 b11 b12 b13 b14 b15
  where "b = [b0, b1, b2, b3, b4, b5, b6, b7, b8, b9, b10, b11, b12, b13, b14, b15]"
  using assms by (auto simp: length_Suc_conv numeral_eq_Suc)

lemma uuid_bytes_eq:
  assumes "length b = 16"
  shows "uuid_bytes b = rev (take 8 b) @ rev (drop 8 b)"
    and "map (\<lambda>i. uuid_bytes b ! i) UUID_BYTE_ORDER = b"
  using assms by (elim length_16E, simp add: uuid_bytes_def UUID_BYTE_ORDER_def numeral_eq_Suc)+

lemma fixed_parse_reads:
  "\<exists>st'. fixed_parse t st = Inr (t, st') \<and> advanced st (sizeof_ct t) st' \<and> sclient st' = sclient st"
  by (simp add: fixed_parse_def)

lemma sint_byte_range [simp]: "in_range (Suc 0) True (sint (b :: byte))"
  using sint_range_size [of b] by (simp add: in_range_def word_size)

lemma uuid_decodes:
  assumes "length b = 16" and enc: "uuid_from_python (VUUID b) = Inr bs"
  shows "decodes P (std_parse UUIDObject) (std_to_python UUIDObject) bs (VUUID b)"
proof -
  let ?fs = "[(Nm ''value'', CArray c_byte 16)]"
  let ?os = "[(Nm ''value'', OArr (map (\<lambda>x. OInt (sint x)) (uuid_bytes b)))]"
  have len: "length (uuid_bytes b) = 16" using assms(1) by (simp add: uuid_bytes_eq(1))
  have "decodes P (std_parse UUIDObject) (std_to_python UUIDObject)
      (std_code UUIDObject # store_fields ?fs ?os) (VUUID b)"
  proof (rule std_fixed)
    show "fits (CStruct ?fs) (OStruct ?os)" using len by (simp add: list_all_iff)
    show "std_to_python_not_null UUIDObject (OStruct (code_obj (std_code UUIDObject) # ?os)) =
        Inr (VUUID b)"
      using uuid_bytes_eq(2) [OF assms(1)]
      by (simp add: std_to_python_not_null_def uuid_to_python_def code_obj_def raw_bytes)
  qed (use fixed_parse_reads [of uuid_ct] in \<open>simp add: std_parse_not_null_def uuid_ct_def\<close>)
  moreover have "bs = std_code UUIDObject # store_fields ?fs ?os"
    using enc by (simp add: uuid_from_python_def uuid_ct_def code_obj_def del: std_code.simps)
  ultimately show ?thesis by simp
qed

lemma store_wrap: "0 < k \<Longrightarrow> store_ct (CInt k sg) (OInt (signed_wrap k i)) = store_ct (CInt k sg) (OInt i)"
  by (simp add: ct_bytes_signed_wrap)

lemma enum_decodes:
  assumes "s = EnumObject \<or> s = BinaryEnumObject"
    and enc: "enum_from_python s (VTuple [VInt a, VInt b]) = Inr bs"
  shows "decodes P (std_parse s) (std_to_python s) bs
    (VTuple [VInt (signed_wrap 4 a), VInt (signed_wrap 4 b)])"
proof -
  let ?fs = "[(Nm ''type_id'', c_int), (Nm ''ordinal'', c_int)]"
  let ?os = "[(Nm ''type_id'', OInt (signed_wrap 4 a)), (Nm ''ordinal'', OInt (signed_wrap 4 b))]"
  have "decodes P (std_parse s) (std_to_python s) (std_code s # store_fields ?fs ?os)
      (VTuple [VInt (signed_wrap 4 a), VInt (signed_wrap 4 b)])"
  proof (rule std_fixed)
    show "fits (CStruct ?fs) (OStruct ?os)" by (simp add: signed_wrap_in_range)
    show "std_to_python_not_null s (OStruct (code_obj (std_code s) # ?os)) =
        Inr (VTuple [VInt (signed_wrap 4 a), VInt (signed_wrap 4 b)])"
      using assms(1) by (auto simp: std_to_python_not_null_def enum_to_python_def getint_def code_obj_def)
  qed (use fixed_parse_reads [of enum_ct] assms(1) in \<open>auto simp: std_parse_not_null_def enum_ct_def\<close>)
  moreover have "bs = std_code s # store_fields ?fs ?os"
    using enc by (simp add: enum_from_python_def set_int_def enum_ct_def code_obj_def
        ct_bytes_signed_wrap del: std_code.simps)
  ultimately show ?thesis by simp
qed

lemma date_decodes:
  assumes "in_range 8 True ms" and "py_fromtimestamp ms = Inr d"
    and enc: "epoch_ms (case v of VDate s \<Rightarrow> VDateTime s 0 | _ \<Rightarrow> v) = Inr ms"
    and "date_from_python v = Inr bs"
  shows "decodes P (std_parse DateObject) (std_to_python DateObject) bs d"
proof -
  let ?fs = "[(Nm ''epoch'', c_longlong)]" and ?os = "[(Nm ''epoch'', OInt ms)]"
  have "decodes P (std_parse DateObject) (std_to_python DateObject)
      (std_code DateObject # store_fields ?fs ?os) d"
    by (rule std_fixed)
      (use assms(1,2) fixed_parse_reads [of date_ct] in
        \<open>simp_all add: std_to_python_not_null_def std_parse_not_null_def date_to_python_def getint_def
          code_obj_def date_ct_def\<close>)
  moreover have "bs = std_code DateObject # store_fields ?fs ?os"
    using assms(4) enc by (simp add: date_from_python_def date_ct_def code_obj_def del: std_code.simps)
  ultimately show ?thesis by simp
qed

lemma time_decodes:
  assumes "in_range 8 True (timedelta_ms us)" and "\<bar>timedelta_ms us div 86400000\<bar> \<le> 999999999"
    and "time_from_python (VTimeDelta us) = Inr bs"
  shows "decodes P (std_parse TimeObject) (std_to_python TimeObject) bs
    (VTimeDelta (timedelta_ms us * 1000))"
proof -
  let ?fs = "[(Nm ''value'', c_longlong)]" and ?os = "[(Nm ''value'', OInt (timedelta_ms us))]"
  have "decodes P (std_parse TimeObject) (std_to_python TimeObject)
      (std_code TimeObject # store_fields ?fs ?os) (VTimeDelta (timedelta_ms us * 1000))"
    by (rule std_fixed)
      (use assms(1,2) fixed_parse_reads [of time_ct] in
        \<open>simp_all add: std_to_python_not_null_def std_parse_not_null_def time_to_python_def getint_def
          code_obj_def time_ct_def\<close>)
  moreover have "bs = std_code TimeObject # store_fields ?fs ?os"
    using assms(3) by (simp add: time_from_python_def time_ct_def code_obj_def del: std_code.simps)
  ultimately show ?thesis by simp
qed

lemma timestamp_decodes:
  assumes "in_range 8 True (datetime_ms s us)" and "py_fromtimestamp (datetime_ms s us) = Inr d"
    and "timestamp_from_python (VTuple [VDateTime s us, VInt f]) = Inr bs"
  shows "decodes P (std_parse TimestampObject) (std_to_python TimestampObject) bs
    (VTuple [d, VInt (signed_wrap 4 f)])"
proof -
  let ?fs = "[(Nm ''epoch'', c_longlong), (Nm ''fraction'', c_int)]"
  let ?os = "[(Nm ''epoch'', OInt (datetime_ms s us)), (Nm ''fraction'', OInt (signed_wrap 4 f))]"
  have "decodes P (std_parse TimestampObject) (std_to_python TimestampObject)
      (std_code TimestampObject # store_fields ?fs ?os) (VTuple [d, VInt (signed_wrap 4 f)])"
    by (rule std_fixed)
      (use assms(1,2) fixed_parse_reads [of timestamp_ct] in
        \<open>simp_all add: std_to_python_not_null_def std_parse_not_null_def timestamp_to_python_def
          getint_def code_obj_def timestamp_ct_def signed_wrap_in_range\<close>)
  moreover have "bs = std_code TimestampObject # store_fields ?fs ?os"
    using assms(3) by (simp add: timestamp_from_python_def py_item_def epoch_ms_def set_int_def
        timestamp_ct_def code_obj_def ct_bytes_signed_wrap del: std_code.simps)
  ultimately show ?thesis by simp
qed

subsection \<open>The element contract\<close>

definition canon_dec :: "dec \<Rightarrow> dec" where
  "canon_dec d = (case dec_normalize d of (sg, c, e) \<Rightarrow> (sg \<and> c \<noteq> 0, c, e))"

definition dec_in_range :: "dec \<Rightarrow> bool" where
  "dec_in_range d =
     (case dec_normalize d of (sg, c, e) \<Rightarrow> \<bar>e\<bar> \<le> 999999 \<and> int (ndigits c) - 1 + e \<le> 999999)"

definition ms_good :: "int \<Rightarrow> pyval \<Rightarrow> bool" where
  "ms_good ms d \<longleftrightarrow> in_range 8 True ms \<and> py_fromtimestamp ms = Inr d"

text \<open>\<open>std_good s v w\<close>: class \<open>s\<close> writes \<open>v\<close> and reads \<open>w\<close> back.\<close>

definition std_good :: "std \<Rightarrow> pyval \<Rightarrow> pyval \<Rightarrow> bool" where
  "std_good s v w \<longleftrightarrow> v = VNone \<and> w = VNone \<or>
     (case s of
        String \<Rightarrow> \<exists>t b. v = VStr t \<and> utf8_encode t = Inr b \<and> length b < 2 ^ 31 \<and>
          w = VStr (takeWhile (\<lambda>c. c \<noteq> 0) t)
      | DecimalObject \<Rightarrow> \<exists>d. v = VDecimal d \<and> dec_in_range d \<and> w = VDecimal (canon_dec d)
      | UUIDObject \<Rightarrow> \<exists>b. v = VUUID b \<and> length b = 16 \<and> w = v
      | TimestampObject \<Rightarrow> \<exists>s us f d. v = VTuple [VDateTime s us, VInt f] \<and>
          ms_good (datetime_ms s us) d \<and> w = VTuple [d, VInt (signed_wrap 4 f)]
      | DateObject \<Rightarrow> (\<exists>s us. v = VDateTime s us \<and> ms_good (datetime_ms s us) w) \<or>
          (\<exists>s. v = VDate s \<and> ms_good (datetime_ms s 0) w)
      | TimeObject \<Rightarrow> \<exists>us. v = VTimeDelta us \<and> in_range 8 True (timedelta_ms us) \<and>
          \<bar>timedelta_ms us div 86400000\<bar> \<le> 999999999 \<and> w = VTimeDelta (timedelta_ms us * 1000)
      | _ \<Rightarrow> \<exists>a b. v = VTuple [VInt a, VInt b] \<and>
          w = VTuple [VInt (signed_wrap 4 a), VInt (signed_wrap 4 b)])"

lemma std_codec:
  assumes enc: "std_from_python s v = Inr bs" and good: "std_good s v w"
  shows "decodes P (std_parse s) (std_to_python s) bs w"
proof (cases "v = VNone")
  case True
  with good have "w = VNone" by (cases s) (auto simp: std_good_def)
  with True enc show ?thesis
    by (auto simp: std_from_python_def nullable_from_python_def std_parse_def std_to_python_def
        nullable_null_decodes)
next
  case False
  then have enc': "std_from_python_not_null s v = Inr bs"
    using enc by (simp add: std_from_python_def nullable_from_python_def)
  show ?thesis
  proof (cases s)
    case String
    with good False obtain t b where v: "v = VStr t" "utf8_encode t = Inr b" "length b < 2 ^ 31"
      "w = VStr (takeWhile (\<lambda>c. c \<noteq> 0) t)" by (auto simp: std_good_def)
    have "bs = store_ct (string_ct (length b)) (string_obj b)"
      using enc' String v by (simp add: std_from_python_not_null_def string_from_python_def)
    with string_decodes [OF v(3) utf8_roundtrip [OF utf8_encode_takeWhile [OF v(2)]]] v(4) String
    show ?thesis by simp
  next
    case DecimalObject
    with good False obtain d where v: "v = VDecimal d" "dec_in_range d" "w = VDecimal (canon_dec d)"
      by (auto simp: std_good_def)
    obtain sg c e where d: "dec_normalize d = (sg, c, e)" by (cases "dec_normalize d") auto
    show ?thesis
      using decimal_decodes [OF d, of bs] enc' v d DecimalObject
      by (simp add: std_from_python_not_null_def dec_in_range_def canon_dec_def)
  next
    case UUIDObject
    with good False enc' show ?thesis
      by (auto simp: std_good_def std_from_python_not_null_def intro: uuid_decodes)
  next
    case TimestampObject
    with good False enc' show ?thesis
      by (auto simp: std_good_def std_from_python_not_null_def ms_good_def intro: timestamp_decodes)
  next
    case DateObject
    with good False have "\<exists>ms. ms_good ms w \<and>
        epoch_ms (case v of VDate s \<Rightarrow> VDateTime s 0 | _ \<Rightarrow> v) = Inr ms"
      by (auto simp: std_good_def epoch_ms_def)
    with DateObject enc' show ?thesis
      by (auto simp: std_from_python_not_null_def ms_good_def intro: date_decodes)
  next
    case TimeObject
    with good False enc' show ?thesis
      by (auto simp: std_good_def std_from_python_not_null_def intro: time_decodes)
  next
    case EnumObject
    with good False enc' show ?thesis
      by (auto simp: std_good_def std_from_python_not_null_def intro: enum_decodes)
  next
    case BinaryEnumObject
    with good False enc' show ?thesis
      by (auto simp: std_good_def std_from_python_not_null_def intro: enum_decodes)
  qed
qed

interpretation std: wire_codec "std_from_python s" "std_parse s" "std_to_python s" "std_good s" P
  for s P
  by unfold_locales (rule std_codec)

subsection \<open>Arrays of standard objects\<close>

lemma std_array_decodes:
  assumes plain: "\<not> has_type_id s" and good: "list_all2 (std_good s) vs ws"
    and len: "length vs < 2 ^ 31"
    and enc: "std_array_object_from_python s (VList vs) = Inr bs"
  shows "decodes P (nullable_parse (std_array_object_parse s))
    (nullable_to_python (std_array_object_to_python s)) bs (VList ws)"
proof -
  let ?hb = "std_array_code s # ct_bytes 4 (int (length vs))"
  from enc plain len obtain bss where bss: "rmap (std_from_python s) vs = Inr bss"
    and bs: "bs = ?hb @ concat bss"
    by (auto simp: std_array_object_from_python_def std_elements_from_python_def length_field
        rbind_eq_Inr_iff)
  have n: "length ws = length vs" using good by (simp add: list_all2_lengthD)
  show ?thesis unfolding bs
  proof (rule coded_elements_decode [where c = "std_array_code s" and hs = "std_array_fields s"])
    show "list_all2 (decodes P (std_parse s) (std_to_python s)) bss ws"
      using bss good by (rule std.codec_list)
  next
    fix st assume "reads st (?hb @ concat bss)"
    from reads_slice [OF this, of 1 4]
    have "bslice (sbuf st) (spos st + 1) 4 = ct_bytes 4 (int (length vs))" by simp
    then show "\<exists>st1. advanced st (length ?hb) st1 \<and> sclient st1 = sclient st \<and>
        std_array_object_parse s st = rbind (parse_elements (std_parse s) 0 (length ws) st1)
          (\<lambda>(fs, st2). Inr (CStruct (std_array_fields s @ fs), st2))"
      using plain len n length_field(2)
      by (intro exI [of _ "seek_cur 5 (getbuffer st)"])
        (simp add: std_array_object_parse_def slice_def advanced_def)
  next
    fix ob assume ob: "header_of (std_array_fields s) ?hb ws (std_to_python s) ob"
    have "getint ''length'' ob = Inr (int (length vs))"
      using header_ofD(2) [OF ob, of "''length''"] plain length_field(1) [OF len]
      by (simp add: std_array_fields_def getint_def le_int_ct_bytes)
    with header_ofD(1) [OF ob] plain n show "std_array_object_to_python s ob = Inr (VList ws)"
      by (simp add: std_array_object_to_python_def)
  qed (use plain in \<open>auto simp: std_array_fields_def\<close>)
qed

subsection \<open>The properties of each class\<close>

text \<open>
  C36. A string object written from any encodable text reads back as the text up to its first
  NUL character; so it reads back unchanged exactly when it contains none.
\<close>

theorem string_object_roundtrip:
  assumes "utf8_encode t = Inr b" and "length b < 2 ^ 31"
  shows "\<exists>bs. std_from_python String (VStr t) = Inr bs \<and> length bs = 5 + length b \<and>
    decodes P (std_parse String) (std_to_python String) bs (VStr (takeWhile (\<lambda>c. c \<noteq> 0) t)) \<and>
    (takeWhile (\<lambda>c. c \<noteq> 0) t = t \<longleftrightarrow> 0 \<notin> set t)"
proof -
  let ?bs = "store_ct (string_ct (length b)) (string_obj b)"
  have e: "std_from_python String (VStr t) = Inr ?bs"
    using assms(1) by (simp add: std_from_python_def nullable_from_python_def
        std_from_python_not_null_def string_from_python_def)
  moreover have "length ?bs = 5 + length b"
    by (simp add: string_ct_def string_obj_def code_obj_def Let_def length_takeWhile_le)
  moreover have "std_good String (VStr t) (VStr (takeWhile (\<lambda>c. c \<noteq> 0) t))"
    using assms by (auto simp: std_good_def)
  with e have "decodes P (std_parse String) (std_to_python String) ?bs
      (VStr (takeWhile (\<lambda>c. c \<noteq> 0) t))" by (rule std_codec)
  moreover have "takeWhile (\<lambda>c. c \<noteq> 0) t = t \<longleftrightarrow> 0 \<notin> set t"
    by (auto simp: takeWhile_eq_all_conv intro: gr0I)
  ultimately show ?thesis by blast
qed

theorem string_object_roundtrip_witness:
  "\<exists>bs. std_from_python String (VStr [97, 0, 98]) = Inr bs \<and>
     decodes (\<lambda>_. True) (std_parse String) (std_to_python String) bs (VStr [97])"
proof -
  have "utf8_encode [97, 0, 98] = Inr (map of_nat [97, 0, 98])" by (rule utf8_encode_ascii) auto
  from string_object_roundtrip [OF this, of "\<lambda>_. True"] show ?thesis by auto
qed

text \<open>
  A decimal object reads back as the decimal rounded to 28 digits in normal form: the
  sign, coefficient and scale survive the big-endian magnitude with its sign bit, and only a
  negative zero loses its sign.
\<close>

theorem decimal_object_roundtrip:
  assumes "dec_in_range d"
  shows "\<exists>bs. std_from_python DecimalObject (VDecimal d) = Inr bs \<and>
    decodes P (std_parse DecimalObject) (std_to_python DecimalObject) bs (VDecimal (canon_dec d))"
proof -
  obtain sg c e where "dec_normalize d = (sg, c, e)" by (cases "dec_normalize d") auto
  then have "\<exists>bs. std_from_python DecimalObject (VDecimal d) = Inr bs"
    by (simp add: std_from_python_def nullable_from_python_def std_from_python_not_null_def
        decimal_from_python_def Let_def)
  moreover have "std_good DecimalObject (VDecimal d) (VDecimal (canon_dec d))"
    using assms by (simp add: std_good_def)
  ultimately show ?thesis using std_codec by blast
qed

theorem decimal_object_roundtrip_witness:
  "\<exists>bs. std_from_python DecimalObject (VDecimal (True, 12340, - 3)) = Inr bs \<and>
    decodes (\<lambda>_. True) (std_parse DecimalObject) (std_to_python DecimalObject) bs
      (VDecimal (True, 1234, - 2))"
proof -
  have n: "dec_normalize (True, 12340, - 3) = (True, 1234, - 2)"
    by (simp add: dec_normalize_def dec_fix_def strip10.simps ndigits.simps)
  then have "dec_in_range (True, 12340, - 3)" by (simp add: dec_in_range_def ndigits.simps)
  from decimal_object_roundtrip [OF this, of "\<lambda>_. True"] n show ?thesis by (simp add: canon_dec_def)
qed

text \<open>
  A UUID is written in the byte order of \<open>java.util.UUID\<close> (both 8-byte halves
  little-endian) and reads back unchanged.
\<close>

theorem uuid_object_roundtrip:
  assumes "length b = 16"
  shows "\<exists>bs. std_from_python UUIDObject (VUUID b) = Inr bs \<and>
    bs = 0x0a # rev (take 8 b) @ rev (drop 8 b) \<and>
    decodes P (std_parse UUIDObject) (std_to_python UUIDObject) bs (VUUID b)"
proof -
  have "ct_bytes (Suc 0) (sint x) = [x]" for x :: byte
  proof -
    have "ct_bytes (Suc 0) (sint x) = ct_bytes (Suc 0) (uint x)"
      by (simp add: ct_bytes_def uint_sint take_bit_eq_mod)
    then show ?thesis by simp
  qed
  then have "store_array c_byte (map (\<lambda>x. OInt (sint x)) bs) = bs" for bs :: "byte list"
    by (induction bs) auto
  then have "std_from_python UUIDObject (VUUID b) = Inr (0x0a # uuid_bytes b)"
    by (simp add: std_from_python_def nullable_from_python_def std_from_python_not_null_def
        uuid_from_python_def uuid_ct_def code_obj_def ct_bytes_def)
  then have e: "std_from_python UUIDObject (VUUID b) = Inr (0x0a # rev (take 8 b) @ rev (drop 8 b))"
    by (simp only: uuid_bytes_eq(1) [OF assms])
  moreover have "std_good UUIDObject (VUUID b) (VUUID b)" using assms by (simp add: std_good_def)
  with e have "decodes P (std_parse UUIDObject) (std_to_python UUIDObject)
      (0x0a # rev (take 8 b) @ rev (drop 8 b)) (VUUID b)" by (rule std_codec)
  ultimately show ?thesis by simp
qed

theorem uuid_object_roundtrip_witness:
  "\<exists>bs. std_from_python UUIDObject (VUUID (map of_nat [0..<16])) = Inr bs \<and>
    bs = map of_nat [10, 7, 6, 5, 4, 3, 2, 1, 0, 15, 14, 13, 12, 11, 10, 9, 8]"
  using uuid_object_roundtrip [of "map of_nat [0..<16]" "\<lambda>_. True"] by (simp add: upt_rec)

text \<open>
  C37. A time of whole seconds reads back unchanged. This is not so for milliseconds, the
  resolution of the class: the product in floating point is truncated, and 1.001 seconds
  reads back as 1 second.
\<close>

theorem time_object_roundtrip:
  assumes "\<bar>s\<bar> \<le> 9000000000000"
  shows "(\<exists>bs. std_from_python TimeObject (VTimeDelta (s * 1000000)) = Inr bs \<and>
      decodes P (std_parse TimeObject) (std_to_python TimeObject) bs (VTimeDelta (s * 1000000))) \<and>
    (\<exists>bs. std_from_python TimeObject (VTimeDelta 1001000) = Inr bs \<and>
      decodes P (std_parse TimeObject) (std_to_python TimeObject) bs (VTimeDelta 1000000))"
proof -
  have enc: "\<exists>bs. std_from_python TimeObject (VTimeDelta us) = Inr bs" for us
    by (simp add: std_from_python_def nullable_from_python_def std_from_python_not_null_def
        time_from_python_def)
  have ms: "timedelta_ms 1001000 = 1000"
    by (simp add: timedelta_ms_def fl_ratio_def fl_nat_def scaled_def bitlen.simps fl_mul_def
        fl_trunc_def round_half_even_def Let_def)
  have sec: "timedelta_ms (s * 1000000) = s * 1000"
    using assms by (intro timedelta_ms_seconds) (simp add: abs_mult)
  have "std_good TimeObject (VTimeDelta (s * 1000000)) (VTimeDelta (s * 1000000))"
    using assms by (auto simp: std_good_def sec in_range_def abs_le_iff)
  moreover have "std_good TimeObject (VTimeDelta 1001000) (VTimeDelta 1000000)"
    by (simp add: std_good_def ms in_range_def)
  ultimately show ?thesis using enc std_codec by blast
qed

theorem time_object_roundtrip_witness:
  "\<exists>bs. std_from_python TimeObject (VTimeDelta (- 5000000)) = Inr bs \<and>
    decodes (\<lambda>_. True) (std_parse TimeObject) (std_to_python TimeObject) bs (VTimeDelta (- 5000000))"
  using time_object_roundtrip [of "- 5" "\<lambda>_. True"] by simp

text \<open>
  An array of strings, decimals, UUIDs, dates, times or timestamps, nulls included, reads
  back elementwise what its class keeps of each element.
\<close>

theorem std_array_roundtrip:
  assumes "\<not> has_type_id s" and "list_all2 (std_good s) vs ws" and "length vs < 2 ^ 31"
    and "std_array_object_from_python s (VList vs) = Inr bs"
  shows "decodes P (nullable_parse (std_array_object_parse s))
    (nullable_to_python (std_array_object_to_python s)) bs (VList ws)"
  using assms by (rule std_array_decodes)

theorem std_array_roundtrip_witness:
  "\<exists>bs. std_array_object_from_python String (VList [VStr [104, 105], VNone]) = Inr bs \<and>
    decodes (\<lambda>_. True) (nullable_parse (std_array_object_parse String))
      (nullable_to_python (std_array_object_to_python String)) bs (VList [VStr [104, 105], VNone])"
proof -
  have e: "utf8_encode [104, 105] = Inr (map of_nat [104, 105])" by (rule utf8_encode_ascii) auto
  then have g: "list_all2 (std_good String) [VStr [104, 105], VNone] [VStr [104, 105], VNone]"
    by (auto simp: std_good_def)
  from e obtain bs where bs: "std_array_object_from_python String (VList [VStr [104, 105], VNone]) = Inr bs"
    by (auto simp: std_array_object_from_python_def has_type_id_def std_elements_from_python_def
        std_from_python_def nullable_from_python_def std_from_python_not_null_def
        string_from_python_def write_length_def int_to_bytes_def in_range_def)
  from std_array_roundtrip [OF _ g _ bs, of "\<lambda>_. True"] bs show ?thesis
    by (auto simp: has_type_id_def)
qed

end
