(* ===== verification/Infer.thy ===== *)
theory Infer
  imports StandardCodec
begin

section \<open>Guessing the data class of a Python value\<close>

text \<open>
  \<open>AnyDataObject.get_subtype\<close>, \<open>AnyDataObject.map_python_type\<close> and \<open>is_hinted\<close>
  (\<open>internal.py\<close>, \<open>utils.py\<close>), over the Python type of a value and the subclass relation
  \<open>isinstance\<close> uses.
\<close>

datatype pytype =
    PNone | PBool | PInt | PFloat | PStr | PBytes | PByteArray | PDecimal | PUUID
  | PDateTime | PDate | PTimeDelta | PTuple | PList | PDict | POrderedDict | PType
  | PObject pyclass

fun pytype_of :: "pyval \<Rightarrow> pytype" where
  "pytype_of VNone = PNone"
| "pytype_of (VBool b) = PBool"
| "pytype_of (VInt i) = PInt"
| "pytype_of (VFloat w) = PFloat"
| "pytype_of (VStr s) = PStr"
| "pytype_of (VBytes b) = PBytes"
| "pytype_of (VByteArray b) = PByteArray"
| "pytype_of (VDecimal d) = PDecimal"
| "pytype_of (VUUID b) = PUUID"
| "pytype_of (VDateTime s us) = PDateTime"
| "pytype_of (VDate s) = PDate"
| "pytype_of (VTimeDelta us) = PTimeDelta"
| "pytype_of (VTuple xs) = PTuple"
| "pytype_of (VList xs) = PList"
| "pytype_of (VDict ordered kvs) = (if ordered then POrderedDict else PDict)"
| "pytype_of (VType d) = PType"
| "pytype_of (VObject c v attrs buf) = PObject c"

definition py_subclass :: "pytype \<Rightarrow> pytype \<Rightarrow> bool" where
  "py_subclass t u \<longleftrightarrow> t = u \<or> (t = PBool \<and> u = PInt) \<or> (t = PDateTime \<and> u = PDate) \<or>
     (t = POrderedDict \<and> u = PDict)"

definition isinst :: "pyval \<Rightarrow> pytype \<Rightarrow> bool" where
  "isinst v t = py_subclass (pytype_of v) t"

definition python_map :: "pytype \<Rightarrow> dtype option" where
  "python_map t =
     (case t of
        PInt \<Rightarrow> Some (DataObject TLong) | PFloat \<Rightarrow> Some (DataObject TDouble)
      | PStr \<Rightarrow> Some (Standard String)
      | PBytes \<Rightarrow> Some (PrimitiveArrayObject TByte) | PByteArray \<Rightarrow> Some (PrimitiveArrayObject TByte)
      | PBool \<Rightarrow> Some (DataObject TBool) | PNone \<Rightarrow> Some Null | PUUID \<Rightarrow> Some (Standard UUIDObject)
      | PDateTime \<Rightarrow> Some (Standard DateObject) | PDate \<Rightarrow> Some (Standard DateObject)
      | PTimeDelta \<Rightarrow> Some (Standard TimeObject) | PDecimal \<Rightarrow> Some (Standard DecimalObject)
      | _ \<Rightarrow> None)"

definition python_array_map :: "pytype \<Rightarrow> dtype option" where
  "python_array_map t =
     (case t of
        PInt \<Rightarrow> Some (PrimitiveArrayObject TLong) | PFloat \<Rightarrow> Some (PrimitiveArrayObject TDouble)
      | PStr \<Rightarrow> Some (StandardArrayObject String) | PBool \<Rightarrow> Some (PrimitiveArrayObject TBool)
      | PUUID \<Rightarrow> Some (StandardArrayObject UUIDObject)
      | PDateTime \<Rightarrow> Some (StandardArrayObject DateObject)
      | PDate \<Rightarrow> Some (StandardArrayObject DateObject)
      | PTimeDelta \<Rightarrow> Some (StandardArrayObject TimeObject)
      | PDecimal \<Rightarrow> Some (StandardArrayObject DecimalObject)
      | _ \<Rightarrow> None)"

definition object_array_python_types :: "pytype list" where
  "object_array_python_types = [PStr, PDateTime, PTimeDelta, PDecimal, PUUID]"

text \<open>The common element type, \<open>None\<close> (here \<open>Inr None\<close>) for a mixed sequence.\<close>

definition get_subtype :: "pyval list \<Rightarrow> pytype option res" where
  "get_subtype xs =
     (case dropWhile (\<lambda>x. x = VNone) xs of
        [] \<Rightarrow> Inl TypeError
      | x # rest \<Rightarrow>
          let t = pytype_of x; allow_none = (t \<in> set object_array_python_types)
          in Inr (if list_all (\<lambda>y. isinst y t \<or> (y = VNone \<and> allow_none)) rest then Some t else None))"

text \<open>\<open>value[i]\<close>; a dictionary looks the number up among its keys.\<close>

definition int_eq :: "int \<Rightarrow> pyval \<Rightarrow> bool" where
  "int_eq i k \<longleftrightarrow>
     (case k of
        VFloat w \<Rightarrow> i2d i = Inr w \<or> (i = 0 \<and> unat w mod 2 ^ 63 = 0)
      | VDecimal (sg, c, e) \<Rightarrow>
          strip10 c e = strip10 (nat \<bar>i\<bar>) 0 \<and> (i = 0 \<or> sg = (i < 0))
      | _ \<Rightarrow> py_index k = Some i)"

fun py_find :: "(pyval \<Rightarrow> bool) \<Rightarrow> (pyval \<times> pyval) list \<Rightarrow> pyval res" where
  "py_find p [] = Inl KeyError"
| "py_find p ((k, v) # kvs) = (if p k then Inr v else py_find p kvs)"

definition py_getitem :: "nat \<Rightarrow> pyval \<Rightarrow> pyval res" where
  "py_getitem i v =
     (case v of VDict ordered kvs \<Rightarrow> py_find (int_eq (int i)) kvs | _ \<Rightarrow> py_item i v)"

definition is_iterable :: "pyval \<Rightarrow> bool" where
  "is_iterable v = (case py_seq v of Inl e \<Rightarrow> False | Inr xs \<Rightarrow> True)"

definition is_binary :: "pyval \<Rightarrow> bool" where
  "is_binary v = (case v of VObject c ver attrs buf \<Rightarrow> True | _ \<Rightarrow> False)"

text \<open>
  The two-element heuristics are evaluated eagerly (\<open>all([...])\<close> builds its list first), so a
  sequence of one element with no array class raises IndexError.
\<close>

definition pair_heuristics :: "pyval \<Rightarrow> nat \<Rightarrow> pytype option \<Rightarrow> dtype res" where
  "pair_heuristics v n t =
     rbind (py_getitem 0 v) (\<lambda>a. rbind (py_getitem 1 v) (\<lambda>b.
       if t = None \<and> n = 2 \<and> isinst a PInt \<and> isinst b PDict then Inr MapObject
       else if t = None \<and> n = 2 \<and> isinst a PInt \<and> is_iterable b then Inr CollectionObject
       else Inl TypeError))"

definition map_python_type :: "pyval \<Rightarrow> dtype res" where
  "map_python_type v =
     (case python_map (pytype_of v) of
        Some d \<Rightarrow> Inr d
      | None \<Rightarrow>
          if is_iterable v then
            rbind (py_seq v) (\<lambda>xs. rbind (get_subtype xs) (\<lambda>t.
              case Option.bind t python_array_map of
                Some d \<Rightarrow> Inr d
              | None \<Rightarrow> pair_heuristics v (length xs) t))
          else if is_binary v then Inr BinaryObject
          else Inl TypeError)"

text \<open>
  \<open>__unpack_hinted\<close>: a pair of a value and a data class. \<open>AnyDataObject\<close> is not a subclass of
  \<open>GridGainDataType\<close>, so it is no hint.
\<close>

definition hinted :: "pyval \<Rightarrow> pyval \<times> dtype" where
  "hinted v =
     (case v of
        VTuple [x, VType d] \<Rightarrow> if d = AnyDataObject then (v, AnyDataObject) else (x, d)
      | _ \<Rightarrow> (v, AnyDataObject))"

lemma map_python_type_not_any: "map_python_type v \<noteq> Inr AnyDataObject"
  by (auto simp: map_python_type_def pair_heuristics_def python_map_def python_array_map_def
      rbind_eq_Inr_iff split: option.splits pytype.splits if_splits Option.bind_splits)

lemma hinted_cases: "hinted v = (v, AnyDataObject) \<or> (\<exists>x d. v = VTuple [x, VType d] \<and> hinted v = (x, d))"
  by (auto simp: hinted_def split: pyval.splits list.splits)

subsection \<open>The size of a value\<close>

text \<open>The measure by which the recursion of the encoders ends.\<close>

fun vsize :: "pyval \<Rightarrow> nat" where
  "vsize (VStr s) = Suc (length s)"
| "vsize (VBytes b) = Suc (length b)"
| "vsize (VByteArray b) = Suc (length b)"
| "vsize (VTuple xs) = Suc (sum_list (map vsize xs))"
| "vsize (VList xs) = Suc (sum_list (map vsize xs))"
| "vsize (VDict ordered kvs) = Suc (sum_list (map (\<lambda>kv. vsize (fst kv) + vsize (snd kv)) kvs))"
| "vsize (VObject c ver attrs buf) = Suc (sum_list (map (\<lambda>kv. vsize (snd kv)) attrs))"
| "vsize _ = 1"

lemma vsize_pos: "0 < vsize v"
  by (cases v) auto

lemma sum_list_member: "x \<in> set xs \<Longrightarrow> f x \<le> sum_list (map f xs)" for f :: "'a \<Rightarrow> nat"
  by (induction xs) auto

lemma vsize_pair: "py_seq v = Inr [a, b] \<Longrightarrow> vsize b < vsize v"
  by (cases v) (auto simp: map_eq_Cons_conv)

lemma vsize_seq: "py_seq v = Inr xs \<Longrightarrow> x \<in> set xs \<Longrightarrow> vsize x \<le> vsize v"
proof (cases v)
  case (VDict ordered kvs)
  assume "py_seq v = Inr xs" and "x \<in> set xs"
  with VDict obtain kv where "kv \<in> set kvs" "x = fst kv" by auto
  with VDict show ?thesis
    using sum_list_member [of kv kvs "\<lambda>kv. vsize (fst kv) + vsize (snd kv)"] by simp
next
  case (VTuple ys)
  assume "py_seq v = Inr xs" and "x \<in> set xs"
  with VTuple show ?thesis using sum_list_member [of x xs vsize] by simp
next
  case (VList ys)
  assume "py_seq v = Inr xs" and "x \<in> set xs"
  with VList show ?thesis using sum_list_member [of x xs vsize] by simp
next
  case (VStr s)
  assume "py_seq v = Inr xs" and "x \<in> set xs"
  with VStr show ?thesis by (cases s) auto
qed auto

lemma vsize_hinted:
  "hinted v = (x, d) \<Longrightarrow> 2 * vsize x + (if d = AnyDataObject then 1 else 0) \<le> 2 * vsize v + 1"
  using hinted_cases [of v] by auto

lemma vsize_dict:
  "(k, u) \<in> set kvs \<Longrightarrow> vsize k < vsize (VDict ordered kvs) \<and> vsize u < vsize (VDict ordered kvs)"
  using sum_list_member [of "(k, u)" kvs "\<lambda>kv. vsize (fst kv) + vsize (snd kv)"] by simp

lemma vsize_attr: "map_of attrs n = Some a \<Longrightarrow> vsize a < vsize (VObject c ver attrs buf)"
  using sum_list_member [of "(n, a)" attrs "\<lambda>kv. vsize (snd kv)"] by (auto dest: map_of_SomeD)

end
