(* ===== verification/Complex.thy ===== *)
theory Complex
  imports Infer
begin

section \<open>Complex objects: writing\<close>

text \<open>
  \<open>from_python\<close> of object arrays, collections, maps and complex objects
  (\<open>complex.py\<close>, \<open>binary.py\<close>), of every other data class through its encoder, and of
  \<open>AnyDataObject\<close> and hinted values (\<open>internal.py\<close>), as one recursive function on the stream:
  a complex object registers its class with the client, leaves room for its header, writes its
  fields, then its footer, and goes back to fill the header in. The \<open>async\<close> variants perform
  the same steps with awaited calls.
\<close>

subsection \<open>Classes without nested objects\<close>

definition leaf_from_python :: "dtype \<Rightarrow> pyval \<Rightarrow> byte list res" where
  "leaf_from_python d v =
     (if v = VNone \<or> d = Null then Inr [TC_NULL]
      else case d of
        DataObject p \<Rightarrow> data_object_from_python p v
      | Standard s \<Rightarrow> std_from_python_not_null s v
      | PrimitiveArrayObject p \<Rightarrow> prim_array_object_from_python p v
      | StandardArrayObject s \<Rightarrow> std_array_object_from_python s v
      | WrappedDataObject \<Rightarrow> Inl ParseError
      | _ \<Rightarrow> Inl TypeError)"

text \<open>The \<open>default\<close> of a class, \<open>datetime(1970, 1, 1)\<close> being taken in UTC.\<close>

fun prim_default :: "prim \<Rightarrow> pyval" where
  "prim_default TFloat = VFloat 0"
| "prim_default TDouble = VFloat 0"
| "prim_default TChar = VStr [32]"
| "prim_default TBool = VBool False"
| "prim_default _ = VInt 0"

definition default_value :: "dtype \<Rightarrow> pyval" where
  "default_value d =
     (case d of
        DataObject p \<Rightarrow> prim_default p
      | Standard DecimalObject \<Rightarrow> VDecimal (False, 0, - 2)
      | Standard TimestampObject \<Rightarrow> VTuple [VDateTime 0 0, VInt 0]
      | Standard DateObject \<Rightarrow> VDateTime 0 0
      | Standard TimeObject \<Rightarrow> VTimeDelta 0
      | PrimitiveArrayObject p \<Rightarrow> VList []
      | StandardArrayObject s \<Rightarrow> VList []
      | _ \<Rightarrow> VNone)"

subsection \<open>Headers of the containers\<close>

text \<open>\<open>type_id, value = value\<close>, and the length of \<open>value\<close> (1 if it has none).\<close>

definition py_pair :: "pyval \<Rightarrow> (pyval \<times> pyval) res" where
  "py_pair v = rbind (py_seq v) (\<lambda>xs. case xs of [a, b] \<Rightarrow> Inr (a, b) | _ \<Rightarrow> Inl ValueError)"

definition seq_or_single :: "pyval \<Rightarrow> pyval list" where
  "seq_or_single v = (case py_seq v of Inl e \<Rightarrow> [v] | Inr xs \<Rightarrow> xs)"

definition object_array_header :: "pyval \<Rightarrow> nat \<Rightarrow> byte list res" where
  "object_array_header type_id n =
     rbind (write_type_id 4 type_id) (\<lambda>t. rbind (write_length n) (\<lambda>l.
       Inr (TC_OBJECT_ARRAY # t @ l)))"

definition collection_header :: "pyval \<Rightarrow> nat \<Rightarrow> byte list res" where
  "collection_header type_id n =
     rbind (write_length n) (\<lambda>l. rbind (write_type_id 1 type_id) (\<lambda>t.
       Inr (TC_COLLECTION # l @ t)))"

definition map_header :: "pyval \<Rightarrow> nat \<Rightarrow> byte list res" where
  "map_header type_id n =
     rbind (write_length n) (\<lambda>l. rbind (write_type_id 1 type_id) (\<lambda>t. Inr (TC_MAP # l @ t)))"

definition py_items :: "pyval \<Rightarrow> (pyval \<times> pyval) list res" where
  "py_items v =
     (case v of
        VDict ordered kvs \<Rightarrow> Inr kvs
      | _ \<Rightarrow> (case py_seq v of Inl e \<Rightarrow> Inl TypeError | Inr xs \<Rightarrow> Inl AttributeError))"

subsection \<open>Header and footer of a complex object\<close>

definition USER_TYPE :: int where "USER_TYPE = 0x0001"
definition HAS_SCHEMA :: int where "HAS_SCHEMA = 0x0002"
definition OFFSET_ONE_BYTE :: int where "OFFSET_ONE_BYTE = 0x0008"
definition OFFSET_TWO_BYTES :: int where "OFFSET_TWO_BYTES = 0x0010"
definition COMPACT_FOOTER :: int where "COMPACT_FOOTER = 0x0020"

lemmas flag_defs = USER_TYPE_def HAS_SCHEMA_def OFFSET_ONE_BYTE_def OFFSET_TWO_BYTES_def
  COMPACT_FOOTER_def

definition header_fields :: "(fname \<times> ctype) list" where
  "header_fields =
     [(Nm ''type_code'', c_byte), (Nm ''version'', c_byte), (Nm ''flags'', c_short),
      (Nm ''type_id'', c_int), (Nm ''hash_code'', c_int), (Nm ''length'', c_int),
      (Nm ''schema_id'', c_int), (Nm ''schema_offset'', c_int)]"

abbreviation header_ct :: ctype where
  "header_ct \<equiv> CStruct header_fields"

definition header_obj :: "int \<Rightarrow> int \<Rightarrow> pyclass \<Rightarrow> int \<Rightarrow> int \<Rightarrow> int \<Rightarrow> cobj" where
  "header_obj version flags cl hash len schema_offset =
     OStruct
       [code_obj TC_COMPLEX_OBJECT, (Nm ''version'', OInt version), (Nm ''flags'', OInt flags),
        (Nm ''type_id'', OInt (class_type_id cl)), (Nm ''hash_code'', OInt hash),
        (Nm ''length'', OInt len), (Nm ''schema_id'', OInt (class_schema_id cl)),
        (Nm ''schema_offset'', OInt schema_offset)]"

definition header_flags :: "bool \<Rightarrow> int" where
  "header_flags cf =
     (USER_TYPE OR HAS_SCHEMA) OR (if cf then COMPACT_FOOTER else 0)"

text \<open>\<open>max(offsets, default=0)\<close>, and the flag the width of the offsets is recorded with.\<close>

definition max_offset :: "nat list \<Rightarrow> nat" where
  "max_offset offsets = fold max offsets 0"

definition offset_flag :: "nat list \<Rightarrow> int" where
  "offset_flag offsets =
     (if max_offset offsets < 255 then OFFSET_ONE_BYTE
      else if max_offset offsets < 65535 then OFFSET_TWO_BYTES else 0)"

definition offset_size :: "int \<Rightarrow> nat" where
  "offset_size flags =
     (if flags AND OFFSET_ONE_BYTE \<noteq> 0 then 1
      else if flags AND OFFSET_TWO_BYTES \<noteq> 0 then 2 else 4)"

definition schema_ct :: "int \<Rightarrow> ctype" where
  "schema_ct flags =
     (let offset = CInt (offset_size flags) False
      in if flags AND COMPACT_FOOTER \<noteq> 0 then offset
         else CStruct [(Nm ''field_id'', c_int), (Nm ''offset'', offset)])"

definition schema_element :: "bool \<Rightarrow> pystr \<Rightarrow> nat \<Rightarrow> cobj" where
  "schema_element cf name off =
     (if cf then OInt (int off)
      else OStruct [(Nm ''field_id'', OInt (hashcode_fallback (HStr (py_lower name)))),
                    (Nm ''offset'', OInt (int off))])"

definition write_footer ::
  "pyclass \<Rightarrow> int \<Rightarrow> int \<Rightarrow> nat \<Rightarrow> nat list \<Rightarrow> bstream \<Rightarrow> (int \<times> bstream) res" where
  "write_footer cl version flags0 initial_pos offsets0 st =
     (let offsets = butlast offsets0;
          flags = flags0 OR offset_flag offsets;
          elements = map2 (schema_element (compact_footer (sclient st)))
            (map fst (cls_schema cl)) offsets;
          schema = store_array (schema_ct flags) elements;
          fields_data_len = spos st - initial_pos - 24;
          schema_offset = fields_data_len + 24;
          len = schema_offset + length offsets * sizeof_ct (schema_ct flags);
          (hash, st1) = stream_hashcode (initial_pos + 24) fields_data_len st;
          header = store_ct header_ct
            (header_obj version flags cl hash (int len) (int schema_offset))
      in rbind (swrite header (seek_set initial_pos st1)) (\<lambda>st2.
           rbind (swrite schema (seek_set (initial_pos + schema_offset) st2)) (\<lambda>st3.
             Inr (hash, st3))))"

definition add_offset :: "nat \<Rightarrow> nat \<Rightarrow> nat list \<Rightarrow> nat list" where
  "add_offset start stop offsets = offsets @ [max_offset offsets + stop - start]"

definition write_leaf :: "dtype \<Rightarrow> pyval \<Rightarrow> bstream \<Rightarrow> bstream res" where
  "write_leaf d v st = rbind (leaf_from_python d v) (\<lambda>bs. swrite bs st)"

subsection \<open>The encoder\<close>

text \<open>
  Each class's \<open>from_python_not_null\<close> over the encoder \<open>enc\<close> of the elements
  (\<open>infer_from_python\<close>) or of the fields.
\<close>

definition object_array_from_python :: "(pyval \<Rightarrow> bstream \<Rightarrow> bstream res) \<Rightarrow> pyval \<Rightarrow> bstream \<Rightarrow> bstream res" where
  "object_array_from_python enc v st =
     rbind (py_pair v) (\<lambda>(type_id, value).
       rbind (object_array_header type_id (length (seq_or_single value))) (\<lambda>h.
         rbind (swrite h st) (rfold enc (seq_or_single value))))"

definition collection_from_python :: "(pyval \<Rightarrow> bstream \<Rightarrow> bstream res) \<Rightarrow> pyval \<Rightarrow> bstream \<Rightarrow> bstream res" where
  "collection_from_python enc v st =
     rbind (py_pair v) (\<lambda>(type_id, value).
       rbind (collection_header type_id (length (seq_or_single value))) (\<lambda>h.
         rbind (swrite h st) (rfold enc (seq_or_single value))))"

definition map_from_python :: "(pyval \<Rightarrow> bstream \<Rightarrow> bstream res) \<Rightarrow> pyval \<Rightarrow> bstream \<Rightarrow> bstream res" where
  "map_from_python enc v st =
     rbind (py_pair v) (\<lambda>(type_id, value).
       if value = VNone then swrite [TC_NULL] st
       else
         rbind (py_items value) (\<lambda>kvs.
           rbind (map_header type_id (length kvs)) (\<lambda>h.
             rbind (swrite h st)
               (rfold (\<lambda>x s. case x of (k, u) \<Rightarrow> rbind (enc k s) (enc u)) kvs))))"

definition object_write ::
  "(dtype \<Rightarrow> pyval \<Rightarrow> bstream \<Rightarrow> bstream res) \<Rightarrow> pyclass \<Rightarrow> int \<Rightarrow> (pystr \<times> pyval) list \<Rightarrow>
   bstream \<Rightarrow> (int \<times> bstream) res"
where
  "object_write enc cl version attrs st0 =
     rbind (rfold (\<lambda>(name, ft) (s, offsets).
         rbind (case map_of attrs name of
                  Some a \<Rightarrow> enc ft a s
                | None \<Rightarrow> write_leaf ft (default_value ft) s) (\<lambda>s'.
           Inr (s', add_offset (spos s) (spos s') offsets)))
         (cls_schema cl) (seek_cur 24 st0, [24])) (\<lambda>(st1, offsets).
       write_footer cl version (header_flags (compact_footer (sclient st0))) (spos st0) offsets st1)"

definition object_from_python ::
  "(dtype \<Rightarrow> pyval \<Rightarrow> bstream \<Rightarrow> bstream res) \<Rightarrow> pyval \<Rightarrow> bstream \<Rightarrow> bstream res"
where
  "object_from_python enc v st =
     (case v of
        VObject cl version attrs buf \<Rightarrow>
          if buf \<noteq> None \<and> buf \<noteq> Some [] then swrite (the buf) st
          else
            rbind (on_client (register_binary_type cl) st) (\<lambda>st0.
              rbind (object_write enc cl version attrs st0) (\<lambda>(hash, st2). Inr st2))
      | _ \<Rightarrow> Inl AttributeError)"

lemma py_pair_iff [simp]: "py_pair v = Inr (a, b) \<longleftrightarrow> py_seq v = Inr [a, b]"
proof (cases "py_seq v")
  case (Inr xs)
  have "(case xs of [a, b] \<Rightarrow> Inr (a, b) | _ \<Rightarrow> Inl ValueError) = Inr (a, b) \<longleftrightarrow> xs = [a, b]"
    by (cases xs rule: remdups_adj.cases) (auto split: list.splits)
  with Inr show ?thesis by (simp add: py_pair_def)
qed (simp add: py_pair_def)

lemma elements_cong [fundef_cong]:
  assumes "v = v'" and "st = st'"
    and "\<And>a b x s. py_seq v' = Inr [a, b] \<Longrightarrow> x \<in> set (seq_or_single b) \<Longrightarrow> f x s = g x s"
  shows "object_array_from_python f v st = object_array_from_python g v' st'"
    and "collection_from_python f v st = collection_from_python g v' st'"
  unfolding object_array_from_python_def collection_from_python_def using assms
  by (auto intro!: rbind_cong rfold_cong)

lemma map_from_python_cong [fundef_cong]:
  assumes "v = v'" and "st = st'"
    and "\<And>a b kvs k u x s. py_seq v' = Inr [a, b] \<Longrightarrow> py_items b = Inr kvs \<Longrightarrow> (k, u) \<in> set kvs \<Longrightarrow>
      x = k \<or> x = u \<Longrightarrow> f x s = g x s"
  shows "map_from_python f v st = map_from_python g v' st'"
  unfolding map_from_python_def using assms
  by (auto intro!: rbind_cong rfold_cong)

lemma object_write_cong [fundef_cong]:
  assumes "cl = cl'" and "version = version'" and "attrs = attrs'" and "st = st'"
    and "\<And>n ft a s. map_of attrs' n = Some a \<Longrightarrow> f ft a s = g ft a s"
  shows "object_write f cl version attrs st = object_write g cl' version' attrs' st'"
  unfolding object_write_def using assms
  by (auto intro!: rbind_cong rfold_cong split: option.splits)

lemma object_from_python_cong [fundef_cong]:
  assumes "v = v'" and "st = st'"
    and "\<And>cl version attrs buf n ft a s. v' = VObject cl version attrs buf \<Longrightarrow>
      map_of attrs n = Some a \<Longrightarrow> f ft a s = g ft a s"
  shows "object_from_python f v st = object_from_python g v' st'"
  unfolding object_from_python_def using assms
  by (auto intro!: rbind_cong object_write_cong split: pyval.splits)

function from_py :: "dtype \<Rightarrow> pyval \<Rightarrow> bstream \<Rightarrow> bstream res" where
  "from_py d v st =
     (if d = AnyDataObject then rbind (map_python_type v) (\<lambda>d'. from_py d' v st)
      else if v = VNone then write_leaf d v st
      else case d of
        ObjectArrayObject \<Rightarrow>
          object_array_from_python (\<lambda>x s. case hinted x of (y, d') \<Rightarrow> from_py d' y s) v st
      | CollectionObject \<Rightarrow>
          collection_from_python (\<lambda>x s. case hinted x of (y, d') \<Rightarrow> from_py d' y s) v st
      | MapObject \<Rightarrow> map_from_python (\<lambda>x s. case hinted x of (y, d') \<Rightarrow> from_py d' y s) v st
      | BinaryObject \<Rightarrow> object_from_python (\<lambda>ft a s. from_py ft a s) v st
      | _ \<Rightarrow> write_leaf d v st)"
  by pat_completeness auto

lemma seq_or_single_vsize: "x \<in> set (seq_or_single v) \<Longrightarrow> vsize x \<le> vsize v"
  by (auto simp: seq_or_single_def vsize_seq split: sum.splits)

lemma py_items_vsize:
  "py_items v = Inr kvs \<Longrightarrow> (k, u) \<in> set kvs \<Longrightarrow> vsize k < vsize v \<and> vsize u < vsize v"
  by (auto simp: py_items_def simp del: vsize.simps dest: vsize_dict split: pyval.splits sum.splits)

lemmas payload_from_python_defs =
  object_array_from_python_def collection_from_python_def map_from_python_def object_from_python_def

lemma hinted_le: "(y, d') = hinted x \<Longrightarrow> vsize y \<le> vsize x"
  using vsize_hinted [of x y d'] by (simp split: if_splits)

lemma element_less: "x \<in> set (seq_or_single b) \<Longrightarrow> py_seq v = Inr [a, b] \<Longrightarrow> vsize x < vsize v"
  using vsize_pair [of v a b] seq_or_single_vsize [of x b] by simp

lemma item_less:
  "py_items b = Inr kvs \<Longrightarrow> (k, u) \<in> set kvs \<Longrightarrow> py_seq v = Inr [a, b] \<Longrightarrow>
   vsize k < vsize v \<and> vsize u < vsize v"
  using vsize_pair [of v a b] py_items_vsize [of b kvs k u] by simp

termination from_py
proof (relation "measure (\<lambda>(d, v, st). 2 * vsize v + (if d = AnyDataObject then 1 else 0))", goal_cases)
  case (2 d v st x)
  then show ?case using map_python_type_not_any [of v] by auto
qed (auto simp del: vsize.simps dest!: hinted_le element_less item_less vsize_attr)

declare from_py.simps [simp del]

text \<open>\<open>infer_from_python\<close>, and the payload-only \<open>Map\<close> and \<open>AnyDataArray\<close>.\<close>

definition infer_from_python :: "pyval \<Rightarrow> bstream \<Rightarrow> bstream res" where
  "infer_from_python v st = (case hinted v of (x, d) \<Rightarrow> from_py d x st)"

definition map_payload_from_python :: "pyval \<Rightarrow> bstream \<Rightarrow> bstream res" where
  "map_payload_from_python v st =
     rbind (py_items v) (\<lambda>kvs. rbind (write_length (length kvs)) (\<lambda>n.
       rbind (swrite n st) (rfold (\<lambda>(k, u) s. rbind (infer_from_python k s) (infer_from_python u)) kvs)))"

definition any_array_from_python :: "pyval \<Rightarrow> bstream \<Rightarrow> bstream res" where
  "any_array_from_python v st =
     rbind (write_length (length (seq_or_single v))) (\<lambda>n.
       rbind (swrite n st) (rfold infer_from_python (seq_or_single v)))"

text \<open>
  \<open>BinaryObject.hashcode\<close> of an object with no cached hash code: it is serialised in a fresh
  stream with \<open>save_to_buf=True\<close>, which caches the bytes in the object. The class is not
  registered on this path.
\<close>

definition binary_write :: "pyclass \<Rightarrow> int \<Rightarrow> (pystr \<times> pyval) list \<Rightarrow> bstream \<Rightarrow> (int \<times> bstream) res" where
  "binary_write = object_write from_py"

definition binary_hashcode :: "pyval \<Rightarrow> client \<Rightarrow> (int \<times> pyval \<times> client) res" where
  "binary_hashcode v c =
     (case v of
        VObject cl version attrs buf \<Rightarrow>
          rbind (binary_write cl version attrs (new_stream c [])) (\<lambda>(hash, st).
            Inr (hash, VObject cl version attrs (Some (bslice (sbuf st) 0 (spos st))), sclient st))
      | _ \<Rightarrow> Inl AttributeError)"

lemma from_py_object:
  "buf = None \<or> buf = Some [] \<Longrightarrow>
   from_py BinaryObject (VObject cl version attrs buf) st =
     rbind (on_client (register_binary_type cl) st) (\<lambda>st0.
       rbind (binary_write cl version attrs st0) (\<lambda>(hash, st2). Inr st2))"
  by (auto simp: from_py.simps object_from_python_def binary_write_def)

end
