(* ===== verification/Layout.thy ===== *)
theory Layout
  imports Complex
begin

section \<open>What the encoders append and how a complex object is laid out\<close>

text \<open>
  Every encoder only appends: its output does not depend on what is in the stream before it,
  nor on the position. \<open>writable st\<close> is the state encoders run in (at the end of the buffer,
  or past it inside a complex object whose header is still to be written), \<open>grow st bs c\<close>
  the stream with \<open>bs\<close> appended, the gap filled with zeros, and client \<open>c\<close>.
\<close>

definition writable :: "bstream \<Rightarrow> bool" where
  "writable st \<longleftrightarrow> length (sbuf st) \<le> spos st \<and> sview st = None"

definition grow :: "bstream \<Rightarrow> byte list \<Rightarrow> client \<Rightarrow> bstream" where
  "grow st bs c =
     st\<lparr>sbuf := (if bs = [] then sbuf st else sbuf st @ replicate (spos st - length (sbuf st)) 0 @ bs),
        spos := spos st + length bs, sclient := c\<rparr>"

lemma grow_fields [simp]:
  "spos (grow st bs c) = spos st + length bs" "sview (grow st bs c) = sview st"
  "sclient (grow st bs c) = c"
  "sbuf (grow st bs c) =
     (if bs = [] then sbuf st else sbuf st @ replicate (spos st - length (sbuf st)) 0 @ bs)"
  by (simp_all add: grow_def)

lemma writable_grow [simp]: "writable st \<Longrightarrow> writable (grow st bs c)"
  by (auto simp: writable_def)

lemma grow_grow [simp]: "writable st \<Longrightarrow> grow (grow st bs c) cs d = grow st (bs @ cs) d"
  by (auto simp: grow_def writable_def)

lemma grow_Nil [simp]: "grow st [] (sclient st) = st"
  by (simp add: grow_def)

lemma swrite_writable: "writable st \<Longrightarrow> swrite bs st = Inr (grow st bs (sclient st))"
  by (simp add: writable_def swrite_def release_buffer_def overwrite_def grow_def Let_def)

text \<open>
  \<open>writes f st bs c\<close>: in every stream with the client of \<open>st\<close>, the encoder \<open>f\<close> appends \<open>bs\<close>
  and leaves client \<open>c\<close>. Only a completely empty stream may behave worse than another one
  (it cannot hold an object without fields).
\<close>

definition writes :: "(bstream \<Rightarrow> bstream res) \<Rightarrow> bstream \<Rightarrow> byte list \<Rightarrow> client \<Rightarrow> bool" where
  "writes f st bs c \<longleftrightarrow>
     (\<forall>st2. writable st2 \<longrightarrow> sclient st2 = sclient st \<longrightarrow> sbuf st = [] \<or> sbuf st2 \<noteq> [] \<longrightarrow>
        f st2 = Inr (grow st2 bs c))"

text \<open>
  \<open>appends Q f\<close>: whenever \<open>f\<close> succeeds it appends bytes satisfying \<open>Q\<close>, which may depend
  on the footer mode of the client; the mode does not change.
\<close>

definition appends :: "(bool \<Rightarrow> byte list \<Rightarrow> bool) \<Rightarrow> (bstream \<Rightarrow> bstream res) \<Rightarrow> bool" where
  "appends Q f \<longleftrightarrow>
     (\<forall>st st'. writable st \<longrightarrow> f st = Inr st' \<longrightarrow>
        (\<exists>bs c. st' = grow st bs c \<and> compact c = compact (sclient st) \<and> writes f st bs c \<and>
           Q (compact_footer (sclient st)) bs))"

lemma appendsI:
  assumes "\<And>st st'. writable st \<Longrightarrow> f st = Inr st' \<Longrightarrow>
     \<exists>bs c. st' = grow st bs c \<and> compact c = compact (sclient st) \<and> writes f st bs c \<and>
       Q (compact_footer (sclient st)) bs"
  shows "appends Q f"
  using assms by (simp add: appends_def)

lemma appendsE:
  assumes "appends Q f" and "writable st" and "f st = Inr st'"
  obtains bs c where "st' = grow st bs c" "compact c = compact (sclient st)" "writes f st bs c"
    "Q (compact_footer (sclient st)) bs"
  using assms unfolding appends_def by blast

lemma appends_mono: "appends Q f \<Longrightarrow> (\<And>b bs. Q b bs \<Longrightarrow> R b bs) \<Longrightarrow> appends R f"
  unfolding appends_def by blast

lemma writesD:
  "writes f st bs c \<Longrightarrow> writable st2 \<Longrightarrow> sclient st2 = sclient st \<Longrightarrow>
   sbuf st = [] \<or> sbuf st2 \<noteq> [] \<Longrightarrow> f st2 = Inr (grow st2 bs c)"
  unfolding writes_def by blast

lemma writes_self: "writes f st bs c \<Longrightarrow> writable st \<Longrightarrow> f st = Inr (grow st bs c)"
  unfolding writes_def by blast

lemma compact_footer_cong: "compact c = compact d \<Longrightarrow> compact_footer c = compact_footer d"
  by (simp add: compact_footer_def)

lemma appends_swrite: "appends (\<lambda>b x. x = bs) (swrite bs)"
  by (rule appendsI) (auto simp: swrite_writable writes_def)

lemma appends_Inr: "appends (\<lambda>b x. x = []) Inr"
proof (rule appendsI)
  fix st st' :: bstream
  assume "Inr st = (Inr st' :: bstream res)"
  then show "\<exists>bs c. st' = grow st bs c \<and> compact c = compact (sclient st) \<and> writes Inr st bs c \<and> bs = []"
    by (intro exI [of _ "[]"] exI [of _ "sclient st"]) (auto simp: writes_def grow_def)
qed

lemma writes_bind:
  assumes "writable st" and "writes f st bs c" and "writes g (grow st bs c) cs d"
  shows "writes (\<lambda>s. rbind (f s) g) st (bs @ cs) d"
  unfolding writes_def
proof (intro allI impI)
  fix st2
  assume st2: "writable st2" "sclient st2 = sclient st" "sbuf st = [] \<or> sbuf st2 \<noteq> []"
  with assms(2) have "f st2 = Inr (grow st2 bs c)" by (rule writesD)
  moreover have "g (grow st2 bs c) = Inr (grow (grow st2 bs c) cs d)"
    by (rule writesD [OF assms(3)]) (use st2 in auto)
  ultimately show "rbind (f st2) g = Inr (grow st2 (bs @ cs) d)" using st2(1) by simp
qed

lemma appends_bind:
  assumes "appends Q f" and "appends R g"
  shows "appends (\<lambda>b z. \<exists>x y. z = x @ y \<and> Q b x \<and> R b y) (\<lambda>s. rbind (f s) g)"
proof (rule appendsI)
  fix st st' assume st: "writable st" and "rbind (f st) g = Inr st'"
  then obtain s where s: "f st = Inr s" "g s = Inr st'" by (auto simp: rbind_eq_Inr_iff)
  from assms(1) st s(1) obtain bs c where 1: "s = grow st bs c"
    "compact c = compact (sclient st)" "writes f st bs c" "Q (compact_footer (sclient st)) bs"
    by (rule appendsE)
  from assms(2) _ s(2) obtain cs d where 2: "st' = grow s cs d"
    "compact d = compact (sclient s)" "writes g s cs d" "R (compact_footer (sclient s)) cs"
    by (rule appendsE) (use 1 st in simp)
  from writes_bind [OF st 1(3)] 2(3) 1(1)
  have "writes (\<lambda>s. rbind (f s) g) st (bs @ cs) d" by simp
  moreover have "R (compact_footer (sclient st)) cs"
    using 2(4) 1(1) compact_footer_cong [OF 1(2)] by simp
  ultimately show "\<exists>bs c. st' = grow st bs c \<and> compact c = compact (sclient st) \<and>
      writes (\<lambda>s. rbind (f s) g) st bs c \<and>
      (\<exists>x y. bs = x @ y \<and> Q (compact_footer (sclient st)) x \<and> R (compact_footer (sclient st)) y)"
    using 1 2 st by auto
qed

lemma appends_rfold:
  "(\<And>x. x \<in> set xs \<Longrightarrow> appends (Q x) (f x)) \<Longrightarrow>
   appends (\<lambda>b z. \<exists>bss. z = concat bss \<and> list_all2 (\<lambda>x. Q x b) xs bss) (rfold f xs)"
proof (induction xs)
  case Nil
  have "rfold f [] = Inr" by (simp add: fun_eq_iff)
  then show ?case by (auto intro: appends_mono [OF appends_Inr])
next
  case (Cons x xs)
  have r: "rfold f (x # xs) = (\<lambda>s. rbind (f x s) (rfold f xs))" by (simp add: fun_eq_iff)
  show ?case unfolding r
  proof (rule appends_mono [OF appends_bind [of "Q x"]])
    show "appends (Q x) (f x)" by (rule Cons.prems) simp
    show "appends (\<lambda>b z. \<exists>bss. z = concat bss \<and> list_all2 (\<lambda>x. Q x b) xs bss) (rfold f xs)"
      by (rule Cons.IH) (simp add: Cons.prems)
  next
    fix b z assume "\<exists>u y. z = u @ y \<and> Q x b u \<and> (\<exists>bss. y = concat bss \<and> list_all2 (\<lambda>x. Q x b) xs bss)"
    then obtain u bss where "z = concat (u # bss)" "list_all2 (\<lambda>x. Q x b) (x # xs) (u # bss)"
      by auto
    then show "\<exists>bss. z = concat bss \<and> list_all2 (\<lambda>x. Q x b) (x # xs) bss" by blast
  qed
qed

lemma appends_pure:
  "(\<And>x. m = Inr x \<Longrightarrow> appends Q (f x)) \<Longrightarrow> appends Q (\<lambda>s. rbind m (\<lambda>x. f x s))"
  by (cases m) (simp_all add: appends_def)

lemma appends_write_leaf: "appends (\<lambda>b x. leaf_from_python d v = Inr x) (write_leaf d v)"
  unfolding write_leaf_def
  by (rule appends_pure) (auto intro: appends_mono [OF appends_swrite])

lemma appends_register: "appends (\<lambda>b x. x = []) (on_client (register_binary_type cl))"
proof (rule appendsI)
  fix st st' assume "on_client (register_binary_type cl) st = Inr st'"
  then obtain c where c: "register_binary_type cl (sclient st) = Inr c" "st' = st\<lparr>sclient := c\<rparr>"
    by (auto simp: on_client_def rbind_eq_Inr_iff)
  then show "\<exists>bs c. st' = grow st bs c \<and> compact c = compact (sclient st) \<and>
      writes (on_client (register_binary_type cl)) st bs c \<and> bs = []"
    using register_binary_type_frame [OF c(1)]
    by (intro exI [of _ "[]"] exI [of _ c]) (auto simp: writes_def grow_def on_client_def)
qed

subsection \<open>The fields of an object\<close>

text \<open>The offsets of the field starts and ends, from the lengths of the fields.\<close>

fun starts :: "nat \<Rightarrow> byte list list \<Rightarrow> nat list" where
  "starts k [] = []"
| "starts k (b # bs) = k # starts (k + length b) bs"

fun ends :: "nat \<Rightarrow> byte list list \<Rightarrow> nat list" where
  "ends k [] = []"
| "ends k (b # bs) = (k + length b) # ends (k + length b) bs"

lemma butlast_ends: "butlast (k # ends k bss) = starts k bss"
  by (induction bss arbitrary: k) auto

lemma length_starts [simp]: "length (starts k bss) = length bss"
  by (induction bss arbitrary: k) auto

lemma starts_nth: "i < length bss \<Longrightarrow> starts k bss ! i = k + length (concat (take i bss))"
  by (induction bss arbitrary: k i) (auto simp: nth_Cons take_Cons split: nat.splits)

lemma max_offset_snoc: "max_offset (offs @ [max_offset offs + n]) = max_offset offs + n"
  by (simp add: max_offset_def)

definition field_step ::
  "('x \<Rightarrow> bstream \<Rightarrow> bstream res) \<Rightarrow> 'x \<Rightarrow> bstream \<times> nat list \<Rightarrow> (bstream \<times> nat list) res" where
  "field_step f x = (\<lambda>(s, offsets). rbind (f x s) (\<lambda>s'. Inr (s', add_offset (spos s) (spos s') offsets)))"

lemma field_step_pair:
  "field_step f x (s, offs) = rbind (f x s) (\<lambda>s'. Inr (s', add_offset (spos s) (spos s') offs))"
  by (simp add: field_step_def)

lemma fields_loop:
  assumes "\<forall>x \<in> set xs. appends (Q x) (f x)" and "writable st"
    and "rfold (field_step f) xs (st, offs) = Inr (st', offs')"
  shows "\<exists>bss c. st' = grow st (concat bss) c \<and> compact c = compact (sclient st) \<and>
    offs' = offs @ ends (max_offset offs) bss \<and>
    list_all2 (\<lambda>x. Q x (compact_footer (sclient st))) xs bss \<and>
    (\<forall>st2. writable st2 \<longrightarrow> sclient st2 = sclient st \<longrightarrow> sbuf st = [] \<or> sbuf st2 \<noteq> [] \<longrightarrow>
      rfold (field_step f) xs (st2, offs) = Inr (grow st2 (concat bss) c, offs'))"
  using assms
proof (induction xs arbitrary: st offs)
  case Nil
  then show ?case
    by (intro exI [of _ "[]"] exI [of _ "sclient st"]) (auto simp: grow_def)
next
  case (Cons x xs)
  from Cons.prems(3) obtain s where s: "f x st = Inr s"
    "rfold (field_step f) xs (s, add_offset (spos st) (spos s) offs) = Inr (st', offs')"
    by (auto simp: field_step_pair rbind_eq_Inr_iff)
  have "appends (Q x) (f x)" using Cons.prems(1) by simp
  from this Cons.prems(2) s(1) obtain bs c where 1: "s = grow st bs c"
    "compact c = compact (sclient st)" "writes (f x) st bs c" "Q x (compact_footer (sclient st)) bs"
    by (rule appendsE)
  let ?offs = "offs @ [max_offset offs + length bs]"
  have o: "add_offset p (p + length bs) offs = ?offs" for p
    by (simp add: add_offset_def)
  have r: "rfold (field_step f) xs (s, ?offs) = Inr (st', offs')" using s(2) o 1(1) by simp
  have w: "writable s" using 1(1) Cons.prems(2) by simp
  have h: "\<forall>y \<in> set xs. appends (Q y) (f y)" using Cons.prems(1) by simp
  from Cons.IH [OF h w r] obtain bss d where 2: "st' = grow s (concat bss) d"
    "compact d = compact (sclient s)" "offs' = ?offs @ ends (max_offset ?offs) bss"
    "list_all2 (\<lambda>x. Q x (compact_footer (sclient s))) xs bss"
    "\<forall>st2. writable st2 \<longrightarrow> sclient st2 = sclient s \<longrightarrow> sbuf s = [] \<or> sbuf st2 \<noteq> [] \<longrightarrow>
      rfold (field_step f) xs (st2, ?offs) = Inr (grow st2 (concat bss) d, offs')"
    by (elim exE conjE) (rule that, assumption+)
  have "rfold (field_step f) (x # xs) (st2, offs) = Inr (grow st2 (concat (bs # bss)) d, offs')"
    if st2: "writable st2" "sclient st2 = sclient st" "sbuf st = [] \<or> sbuf st2 \<noteq> []" for st2
  proof -
    have "f x st2 = Inr (grow st2 bs c)" using 1(3) st2 by (rule writesD)
    moreover have "rfold (field_step f) xs (grow st2 bs c, ?offs) =
        Inr (grow (grow st2 bs c) (concat bss) d, offs')"
      by (rule 2(5) [rule_format]) (use st2 1(1) in auto)
    ultimately show ?thesis using st2(1) by (simp add: field_step_pair o)
  qed
  moreover have "compact_footer (sclient s) = compact_footer (sclient st)"
    using 1(1,2) by (simp add: compact_footer_def)
  with 1(4) 2(4) have "list_all2 (\<lambda>x. Q x (compact_footer (sclient st))) (x # xs) (bs # bss)"
    by simp
  moreover have "offs' = offs @ ends (max_offset offs) (bs # bss)"
    using 2(3) by (simp add: max_offset_snoc)
  moreover have "st' = grow st (concat (bs # bss)) d" using 2(1) 1(1) Cons.prems(2) by simp
  moreover have "compact d = compact (sclient st)" using 2(2) 1(1,2) by simp
  ultimately show ?case by blast
qed

subsection \<open>The bytes of an object\<close>

definition object_flags :: "bool \<Rightarrow> byte list list \<Rightarrow> int" where
  "object_flags cf bss = header_flags cf OR offset_flag (starts 24 bss)"

definition object_schema :: "bool \<Rightarrow> pyclass \<Rightarrow> byte list list \<Rightarrow> byte list" where
  "object_schema cf cl bss =
     store_array (schema_ct (object_flags cf bss))
       (map2 (schema_element cf) (map fst (cls_schema cl)) (starts 24 bss))"

definition object_header :: "bool \<Rightarrow> pyclass \<Rightarrow> int \<Rightarrow> byte list list \<Rightarrow> cobj" where
  "object_header cf cl version bss =
     (let n = length (concat bss)
      in header_obj version (object_flags cf bss) cl (bytes_hashcode (concat bss))
           (int (n + 24 + length bss * sizeof_ct (schema_ct (object_flags cf bss)))) (int (n + 24)))"

definition object_bytes :: "bool \<Rightarrow> pyclass \<Rightarrow> int \<Rightarrow> byte list list \<Rightarrow> byte list" where
  "object_bytes cf cl version bss =
     store_ct header_ct (object_header cf cl version bss) @ concat bss @ object_schema cf cl bss"

lemma header_length [simp]: "length (store_ct header_ct (object_header cf cl version bss)) = 24"
  by (simp add: header_fields_def object_header_def header_obj_def code_obj_def Let_def)

lemma overwrite_gap:
  assumes "length buf \<le> p" and "length h = 24" and "st = (if fb = [] then buf else buf @ replicate (p + 24 - length buf) 0 @ fb)"
  shows "overwrite st p h = buf @ replicate (p - length buf) 0 @ h @ fb"
proof -
  from assms(2) have "h \<noteq> []" by auto
  moreover have "take p (buf @ replicate (p + 24 - length buf) 0 @ fb) = buf @ replicate (p - length buf) 0"
    using assms(1) by (simp add: take_replicate min_def)
  ultimately show ?thesis using assms by (auto simp: overwrite_def)
qed

lemma grow_after:
  assumes "length (sbuf st) \<le> spos st" and "length h = 24" and "sview st = None"
    and "st2 = st\<lparr>sbuf := sbuf st @ replicate (spos st - length (sbuf st)) 0 @ h @ fb,
      spos := spos st + (length fb + 24), sclient := c\<rparr>"
  shows "writable st2" and "grow st2 bs c = grow st (h @ fb @ bs) c"
proof -
  from assms(2) have "h \<noteq> []" by auto
  then show "writable st2" "grow st2 bs c = grow st (h @ fb @ bs) c"
    using assms by (simp_all add: writable_def grow_def)
qed

lemma write_footer_bytes:
  assumes w: "writable st0" and ne: "sbuf st0 \<noteq> [] \<or> concat bss \<noteq> []"
    and st1: "st1 = grow (seek_cur 24 st0) (concat bss) c" and cf: "compact_footer c = cf"
  shows "write_footer cl version (header_flags cf) (spos st0) (24 # ends 24 bss) st1 =
    Inr (bytes_hashcode (concat bss), grow st0 (object_bytes cf cl version bss) c)"
proof -
  define fb where "fb = concat bss"
  define h where "h = store_ct header_ct (object_header cf cl version bss)"
  define s where "s = object_schema cf cl bss"
  have le: "length (sbuf st0) \<le> spos st0" and v: "sview st0 = None" using w by (simp_all add: writable_def)
  have h24: "length h = 24" by (simp add: h_def)
  have st1': "st1 = grow (seek_cur 24 st0) fb c" and ne': "sbuf st0 \<noteq> [] \<or> fb \<noteq> []"
    using st1 ne by (simp_all add: fb_def)
  have b1: "sbuf st1 = (if fb = [] then sbuf st0
      else sbuf st0 @ replicate (spos st0 + 24 - length (sbuf st0)) 0 @ fb)"
    by (simp add: st1')
  have f1: "sview st1 = None" "sclient st1 = c" "spos st1 = spos st0 + 24 + length fb"
    using v by (simp_all add: st1')
  have ne1: "length (sbuf st1) \<noteq> 0" using ne' by (auto simp: b1)
  have hash: "bslice (sbuf st1) (spos st0 + 24) (length fb) = fb"
    using le by (simp add: b1 bslice_def)
  have sh: "stream_hashcode (spos st0 + 24) (length fb) st1 = (bytes_hashcode fb, getbuffer st1)"
    by (simp add: stream_hashcode_def hash)
  have rel: "release_buffer (seek_set (spos st0) (getbuffer st1)) = seek_set (spos st0) st1"
    using ne1 f1(1) by (simp add: getbuffer_def release_buffer_def seek_set_def)
  define st2 where "st2 = st1\<lparr>sbuf := sbuf st0 @ replicate (spos st0 - length (sbuf st0)) 0 @ h @ fb,
    spos := spos st0 + 24\<rparr>"
  have "overwrite (sbuf st1) (spos st0) h = sbuf st0 @ replicate (spos st0 - length (sbuf st0)) 0 @ h @ fb"
    by (rule overwrite_gap [OF le h24]) (rule b1)
  then have s2: "swrite h (seek_set (spos st0) (getbuffer st1)) = Inr st2"
    unfolding swrite_def Let_def rel using f1(1) h24 by (simp add: st2_def seek_set_def)
  define st3 where "st3 = seek_set (spos st0 + (length fb + 24)) st2"
  have "st3 = st0\<lparr>sbuf := sbuf st0 @ replicate (spos st0 - length (sbuf st0)) 0 @ h @ fb,
      spos := spos st0 + (length fb + 24), sclient := c\<rparr>"
    using v by (simp add: st3_def st2_def st1' grow_def seek_set_def seek_cur_def)
  note g = grow_after(1) [OF le h24 v this] grow_after(2) [OF le h24 v this, of s]
  have s3: "swrite s st3 = Inr (grow st0 (h @ fb @ s) c)"
    using swrite_writable [OF g(1)] g(2) by (simp add: st3_def st2_def f1)
  have off: "butlast (24 # ends 24 bss) = starts 24 bss" by (rule butlast_ends)
  have len: "spos st1 - spos st0 - 24 = length fb" by (simp add: f1)
  have hd: "header_obj version (header_flags cf OR offset_flag (starts 24 bss)) cl (bytes_hashcode fb)
      (int (length fb + 24 + length bss * sizeof_ct (schema_ct (header_flags cf OR offset_flag (starts 24 bss)))))
      (int (length fb + 24)) = object_header cf cl version bss"
    by (simp add: object_header_def object_flags_def fb_def Let_def)
  show ?thesis
    unfolding write_footer_def Let_def off len sh prod.case f1(2) cf length_starts hd
    unfolding h_def [symmetric] s2 rbind_Inr object_flags_def [symmetric]
      object_schema_def [symmetric] s_def [symmetric] st3_def [symmetric] s3
    by (simp add: object_bytes_def h_def s_def fb_def)
qed

text \<open>Nothing can be written after the hash of an empty buffer was taken.\<close>

lemma write_footer_empty:
  assumes "sbuf st1 = []" and "sview st1 = None"
  shows "write_footer cl version flags p offsets st1 = Inl BufferError"
proof -
  have "stream_hashcode i n st1 = (bytes_hashcode [], st1\<lparr>sview := Some 0\<rparr>)" for i n
    using assms by (simp add: stream_hashcode_def getbuffer_def bslice_def)
  then show ?thesis
    by (simp add: write_footer_def swrite_def release_buffer_def seek_set_def Let_def)
qed

definition write_field :: "(pystr \<times> pyval) list \<Rightarrow> pystr \<times> dtype \<Rightarrow> bstream \<Rightarrow> bstream res" where
  "write_field attrs x =
     (case map_of attrs (fst x) of
        Some a \<Rightarrow> from_py (snd x) a
      | None \<Rightarrow> write_leaf (snd x) (default_value (snd x)))"

lemma field_loop_eq0:
  "(\<lambda>(name, ft) (s, offsets).
      rbind (case map_of attrs name of
               Some a \<Rightarrow> from_py ft a s
             | None \<Rightarrow> write_leaf ft (default_value ft) s) (\<lambda>s'.
        Inr (s', add_offset (spos s) (spos s') offsets))) = field_step (write_field attrs)"
  by (auto simp: field_step_def write_field_def fun_eq_iff split: option.splits)

lemma binary_write_eq:
  "binary_write cl version attrs st0 =
     rbind (rfold (field_step (write_field attrs)) (cls_schema cl) (seek_cur 24 st0, [24]))
       (\<lambda>(st1, offsets). write_footer cl version (header_flags (compact_footer (sclient st0)))
          (spos st0) offsets st1)"
  by (simp add: binary_write_def object_write_def field_loop_eq0)

lemma binary_write_writes:
  assumes f: "\<forall>x \<in> set (cls_schema cl). appends (Q x) (write_field attrs x)"
    and w: "writable st" and ok: "binary_write cl version attrs st = Inr (hash, st')"
  shows "\<exists>bss c. st' = grow st (object_bytes (compact_footer (sclient st)) cl version bss) c \<and>
    compact c = compact (sclient st) \<and> hash = bytes_hashcode (concat bss) \<and>
    list_all2 (\<lambda>x. Q x (compact_footer (sclient st))) (cls_schema cl) bss \<and>
    (\<forall>st2. writable st2 \<longrightarrow> sclient st2 = sclient st \<longrightarrow> sbuf st = [] \<or> sbuf st2 \<noteq> [] \<longrightarrow>
      binary_write cl version attrs st2 =
        Inr (hash, grow st2 (object_bytes (compact_footer (sclient st)) cl version bss) c))"
proof -
  let ?cf = "compact_footer (sclient st)"
  from ok obtain st1 offs where
    loop: "rfold (field_step (write_field attrs)) (cls_schema cl) (seek_cur 24 st, [24]) = Inr (st1, offs)"
    and foot: "write_footer cl version (header_flags ?cf) (spos st) offs st1 = Inr (hash, st')"
    unfolding binary_write_eq by (auto simp: rbind_eq_Inr_iff)
  have w1: "writable (seek_cur 24 st)" using w by (simp add: writable_def)
  from fields_loop [OF f w1 loop] obtain bss c where
    st1: "st1 = grow (seek_cur 24 st) (concat bss) c" and c: "compact c = compact (sclient st)"
    and offs: "offs = 24 # ends 24 bss"
    and q: "list_all2 (\<lambda>x. Q x ?cf) (cls_schema cl) bss"
    and any: "\<forall>st2. writable st2 \<longrightarrow> sclient st2 = sclient (seek_cur 24 st) \<longrightarrow>
      sbuf (seek_cur 24 st) = [] \<or> sbuf st2 \<noteq> [] \<longrightarrow>
      rfold (field_step (write_field attrs)) (cls_schema cl) (st2, [24]) = Inr (grow st2 (concat bss) c, offs)"
    by (auto simp: max_offset_def)
  have cf: "compact_footer c = ?cf" using c by (simp add: compact_footer_def)
  have ne: "sbuf st \<noteq> [] \<or> concat bss \<noteq> []"
  proof (rule ccontr)
    assume "\<not> ?thesis"
    then have "sbuf st1 = []" "sview st1 = None" using w by (auto simp: st1 writable_def)
    from write_footer_empty [OF this] foot show False by simp
  qed
  have here: "hash = bytes_hashcode (concat bss) \<and> st' = grow st (object_bytes ?cf cl version bss) c"
    using write_footer_bytes [OF w ne st1 cf] foot offs by auto
  have there: "binary_write cl version attrs st2 = Inr (hash, grow st2 (object_bytes ?cf cl version bss) c)"
    if st2: "writable st2" "sclient st2 = sclient st" "sbuf st = [] \<or> sbuf st2 \<noteq> []" for st2
  proof -
    have "rfold (field_step (write_field attrs)) (cls_schema cl) (seek_cur 24 st2, [24]) =
        Inr (grow (seek_cur 24 st2) (concat bss) c, 24 # ends 24 bss)"
      using any [rule_format, of "seek_cur 24 st2"] st2 offs by (auto simp: writable_def)
    moreover have "sbuf st2 \<noteq> [] \<or> concat bss \<noteq> []" using ne st2(3) by blast
    ultimately show ?thesis
      unfolding binary_write_eq
      using write_footer_bytes [OF st2(1) _ refl cf] here st2(2) by simp
  qed
  from here c q there show ?thesis by blast
qed

text \<open>Every encoder appends.\<close>

lemma appends_cong: "(\<And>s. f s = g s) \<Longrightarrow> appends Q f = appends Q g"
  by (simp add: appends_def writes_def)

definition object_spec :: "pyclass \<Rightarrow> int \<Rightarrow> (pystr \<times> dtype \<Rightarrow> bool \<Rightarrow> byte list \<Rightarrow> bool) \<Rightarrow> bool \<Rightarrow> byte list \<Rightarrow> bool" where
  "object_spec cl version Q b z \<longleftrightarrow>
     (\<exists>bss. z = object_bytes b cl version bss \<and> list_all2 (\<lambda>x. Q x b) (cls_schema cl) bss)"

lemma appends_object:
  assumes f: "\<forall>x \<in> set (cls_schema cl). appends (Q x) (write_field attrs x)"
    and buf: "buf = None \<or> buf = Some []"
  shows "appends (object_spec cl version Q) (from_py BinaryObject (VObject cl version attrs buf))"
proof -
  let ?w = "\<lambda>st. rbind (binary_write cl version attrs st) (\<lambda>(hash, st2). Inr st2)"
  have "appends (object_spec cl version Q) ?w"
  proof (rule appendsI)
    fix st st' assume w: "writable st" and "?w st = Inr st'"
    then obtain hash where "binary_write cl version attrs st = Inr (hash, st')"
      by (auto simp: rbind_eq_Inr_iff)
    from binary_write_writes [OF f w this] obtain bss c where
      1: "st' = grow st (object_bytes (compact_footer (sclient st)) cl version bss) c"
      "compact c = compact (sclient st)"
      "list_all2 (\<lambda>x. Q x (compact_footer (sclient st))) (cls_schema cl) bss"
      "\<forall>st2. writable st2 \<longrightarrow> sclient st2 = sclient st \<longrightarrow> sbuf st = [] \<or> sbuf st2 \<noteq> [] \<longrightarrow>
        binary_write cl version attrs st2 =
          Inr (hash, grow st2 (object_bytes (compact_footer (sclient st)) cl version bss) c)"
      by (elim exE conjE) (rule that, assumption+)
    have "writes ?w st (object_bytes (compact_footer (sclient st)) cl version bss) c"
      unfolding writes_def using 1(4) by simp
    with 1 show "\<exists>bs c. st' = grow st bs c \<and> compact c = compact (sclient st) \<and> writes ?w st bs c \<and>
        object_spec cl version Q (compact_footer (sclient st)) bs"
      unfolding object_spec_def by blast
  qed
  from appends_bind [OF appends_register this]
  have "appends (object_spec cl version Q) (\<lambda>st. rbind (on_client (register_binary_type cl) st) ?w)"
    by (rule appends_mono) auto
  then show ?thesis
    using from_py_object [OF buf] by (subst appends_cong) auto
qed

lemma appends_container:
  assumes "\<forall>x \<in> set xs. appends (Q x) (f x)"
  shows "appends (\<lambda>b z. \<exists>bss. z = h @ concat bss \<and> list_all2 (\<lambda>x. Q x b) xs bss)
    (\<lambda>st. rbind (swrite h st) (rfold f xs))"
  by (rule appends_mono [OF appends_bind [OF appends_swrite [of h] appends_rfold]])
    (use assms in auto)

abbreviation infer :: "pyval \<Rightarrow> bstream \<Rightarrow> bstream res" where
  "infer x \<equiv> from_py (snd (hinted x)) (fst (hinted x))"

lemma infer_eq:
  "(\<lambda>x s. case hinted x of (y, d') \<Rightarrow> from_py d' y s) = infer"
  "infer_from_python = infer"
  by (simp_all add: fun_eq_iff case_prod_beta infer_from_python_def)

lemma from_py_any: "from_py AnyDataObject v = (\<lambda>st. rbind (map_python_type v) (\<lambda>d. from_py d v st))"
  by (simp add: fun_eq_iff from_py.simps [of AnyDataObject])

lemma from_py_leaf:
  "d \<notin> {AnyDataObject, ObjectArrayObject, CollectionObject, MapObject, BinaryObject} \<or>
   (v = VNone \<and> d \<noteq> AnyDataObject) \<Longrightarrow> from_py d v = write_leaf d v"
  by (rule ext, subst from_py.simps) (auto split: dtype.splits)

lemma from_py_array:
  assumes "v \<noteq> VNone"
  shows "from_py ObjectArrayObject v = (\<lambda>st. rbind (py_pair v) (\<lambda>(t, u).
      rbind (object_array_header t (length (seq_or_single u))) (\<lambda>h.
        rbind (swrite h st) (rfold infer (seq_or_single u)))))"
    and "from_py CollectionObject v = (\<lambda>st. rbind (py_pair v) (\<lambda>(t, u).
      rbind (collection_header t (length (seq_or_single u))) (\<lambda>h.
        rbind (swrite h st) (rfold infer (seq_or_single u)))))"
  using assms
  by (simp_all add: fun_eq_iff from_py.simps [of _ v] infer_eq object_array_from_python_def
      collection_from_python_def)

definition infer_pair :: "pyval \<times> pyval \<Rightarrow> bstream \<Rightarrow> bstream res" where
  "infer_pair kv st = rbind (infer (fst kv) st) (infer (snd kv))"

lemma from_py_map:
  assumes "v \<noteq> VNone"
  shows "from_py MapObject v = (\<lambda>st. rbind (py_pair v) (\<lambda>(t, u).
      if u = VNone then swrite [TC_NULL] st
      else rbind (py_items u) (\<lambda>kvs. rbind (map_header t (length kvs)) (\<lambda>h.
        rbind (swrite h st) (rfold infer_pair kvs)))))"
proof -
  have eq: "(\<lambda>x s. case x of (k, u) \<Rightarrow> rbind (infer k s) (infer u)) = infer_pair"
    by (auto simp: fun_eq_iff infer_pair_def)
  show ?thesis
    by (rule ext) (subst from_py.simps, unfold infer_eq(1) map_from_python_def eq, simp add: assms)
qed

lemma vsize_infer:
  "2 * vsize (fst (hinted x)) + (if snd (hinted x) = AnyDataObject then 1 else 0) \<le> 2 * vsize x + 1"
  using vsize_hinted [of x "fst (hinted x)" "snd (hinted x)"] by simp

lemma appends_any: "(\<And>b bs. Q b bs) \<Longrightarrow> appends R f \<Longrightarrow> appends Q f"
  by (rule appends_mono)

lemma from_py_appends: "appends (\<lambda>b bs. True) (from_py d v)"
proof (induction "2 * vsize v + (if d = AnyDataObject then 1 else 0)" arbitrary: d v rule: less_induct)
  case less
  have IH: "appends (\<lambda>b bs. True) (from_py d' v')"
    if "2 * vsize v' + (if d' = AnyDataObject then 1 else 0) < 2 * vsize v + (if d = AnyDataObject then 1 else 0)"
    for d' v' using less that by blast
  have inf: "appends (\<lambda>b bs. True) (infer x)" if "vsize x < vsize v" for x
    by (rule IH) (use vsize_infer [of x] that in \<open>auto split: if_splits\<close>)
  have seq: "appends (\<lambda>b bs. True) (\<lambda>st. rbind (swrite h st) (rfold infer (seq_or_single u)))"
    if "py_seq v = Inr [t, u]" for h t u
  proof (rule appends_any [OF _ appends_container])
    show "\<forall>x \<in> set (seq_or_single u). appends (\<lambda>b bs. True) (infer x)"
      using inf element_less that by blast
  qed simp
  show ?case
  proof (cases "d = AnyDataObject")
    case True
    show ?thesis unfolding True from_py_any
      by (rule appends_pure, rule IH) (use True map_python_type_not_any [of v] in auto)
  next
    case any: False
    show ?thesis
    proof (cases "v = VNone \<or> d \<notin> {ObjectArrayObject, CollectionObject, MapObject, BinaryObject}")
      case True
      then have "from_py d v = write_leaf d v" using any by (intro from_py_leaf) auto
      then show ?thesis by (auto intro: appends_mono [OF appends_write_leaf])
    next
      case False
      then have v: "v \<noteq> VNone" by simp
      consider "d = ObjectArrayObject" | "d = CollectionObject" | "d = MapObject" | "d = BinaryObject"
        using False by auto
      then show ?thesis
      proof cases
        case 1
        show ?thesis unfolding 1 from_py_array(1) [OF v]
          by (rule appends_pure) (auto intro!: appends_pure seq)
      next
        case 2
        show ?thesis unfolding 2 from_py_array(2) [OF v]
          by (rule appends_pure) (auto intro!: appends_pure seq)
      next
        case 3
        have "appends (\<lambda>b bs. True) (infer_pair kv)"
          if "py_seq v = Inr [t, u]" "py_items u = Inr kvs" "kv \<in> set kvs" for t u kvs kv
        proof -
          have "vsize (fst kv) < vsize v \<and> vsize (snd kv) < vsize v"
            using item_less [of u kvs "fst kv" "snd kv"] that by simp
          then show ?thesis unfolding infer_pair_def
            by (intro appends_any [OF _ appends_bind [OF inf inf]]) auto
        qed
        then have "appends (\<lambda>b bs. True) (\<lambda>st. rbind (swrite h st) (rfold infer_pair kvs))"
          if "py_seq v = Inr [t, u]" "py_items u = Inr kvs" for t u kvs h
          using that by (intro appends_any [OF _ appends_container [of kvs "\<lambda>x b bs. True"]]) auto
        then have m: "appends (\<lambda>b bs. True) (\<lambda>st. if u = VNone then swrite [TC_NULL] st
            else rbind (py_items u) (\<lambda>kvs. rbind (map_header t (length kvs)) (\<lambda>h.
              rbind (swrite h st) (rfold infer_pair kvs))))" if "py_seq v = Inr [t, u]" for t u
          using that by (cases "u = VNone")
            (auto intro!: appends_pure intro: appends_any [OF _ appends_swrite])
        show ?thesis unfolding 3 from_py_map [OF v]
        proof (rule appends_pure, clarify)
          fix t u assume "py_pair v = Inr (t, u)"
          then show "appends (\<lambda>b bs. True) (\<lambda>st. if u = VNone then swrite [TC_NULL] st
            else rbind (py_items u) (\<lambda>kvs. rbind (map_header t (length kvs)) (\<lambda>h.
              rbind (swrite h st) (rfold infer_pair kvs))))" by (intro m) simp
        qed
      next
        case 4
        show ?thesis
        proof (cases v)
          case (VObject cl version attrs buf)
          show ?thesis
          proof (cases "buf = None \<or> buf = Some []")
            case True
            have "appends (\<lambda>b bs. True) (write_field attrs x)" for x
            proof (cases "map_of attrs (fst x)")
              case None
              then show ?thesis by (auto simp: write_field_def intro: appends_mono [OF appends_write_leaf])
            next
              case (Some a)
              have "vsize a < vsize v" using vsize_attr [OF Some] VObject by simp
              with Some show ?thesis by (auto simp: write_field_def intro!: IH)
            qed
            then show ?thesis unfolding 4 VObject
              by (intro appends_any [OF _ appends_object [of cl "\<lambda>x b bs. True"]]) (use True in auto)
          next
            case False
            then have "from_py d v = swrite (the buf)"
              by (auto simp: fun_eq_iff 4 VObject from_py.simps object_from_python_def)
            then show ?thesis by (auto intro: appends_mono [OF appends_swrite])
          qed
        qed (use v in \<open>simp_all add: 4 appends_def from_py.simps object_from_python_def\<close>)
      qed
    qed
  qed
qed

end
