(* ===== verification/LayoutProps.thy ===== *)
theory LayoutProps
  imports Layout
begin

section \<open>Properties of the encoded form\<close>

text \<open>
  What the lemmas of \<open>Layout\<close> give for the encoder of the model: position independence, the
  byte layout of a complex object, and the cached serialised form of an object.
\<close>

lemma at_end_writable: "at_end st \<Longrightarrow> writable st"
  by (simp add: at_end_def writable_def)

lemma grow_at_end: "at_end st \<Longrightarrow> grow st bs c = (append_to st bs)\<lparr>sclient := c\<rparr>"
  by (auto simp: at_end_def grow_def append_to_def)

text \<open>
  C22. Encoding any value as any class appends bytes at the end of the stream and touches
  nothing before; the bytes, and what happens to the client, do not depend on the stream, so
  another stream of the same client gets the same bytes (unless only that one is empty).
\<close>

theorem encoding_position_independent:
  assumes "at_end st" and "from_py d v st = Inr st'"
    and "at_end st2" and "sclient st2 = sclient st" and "sbuf st = [] \<or> sbuf st2 \<noteq> []"
  shows "\<exists>bs c. st' = (append_to st bs)\<lparr>sclient := c\<rparr> \<and>
    from_py d v st2 = Inr ((append_to st2 bs)\<lparr>sclient := c\<rparr>) \<and> compact c = compact (sclient st)"
proof -
  from from_py_appends at_end_writable [OF assms(1)] assms(2) obtain bs c where
    "st' = grow st bs c" "compact c = compact (sclient st)" "writes (from_py d v) st bs c"
    by (rule appendsE)
  moreover from this(3) at_end_writable [OF assms(3)] assms(4,5)
  have "from_py d v st2 = Inr (grow st2 bs c)" by (rule writesD)
  ultimately show ?thesis using assms(1,3) grow_at_end by metis
qed

theorem encoding_position_independent_witness:
  "\<exists>bs. from_py AnyDataObject (VList [VInt 1, VBool True]) (new_stream (new_client None) []) =
      Inr (append_to (new_stream (new_client None) []) bs) \<and>
    from_py AnyDataObject (VList [VInt 1, VBool True])
      (append_to (new_stream (new_client None) []) [7]) =
      Inr (append_to (append_to (new_stream (new_client None) []) [7]) bs)"
proof -
  let ?s = "new_stream (new_client None) []" and ?v = "VList [VInt 1, VBool True]"
  let ?bs = "0x0f # ct_bytes 4 2 @ ct_bytes 8 1 @ ct_bytes 8 1"
  have m: "map_python_type ?v = Inr (PrimitiveArrayObject TLong)"
    by (simp add: map_python_type_def python_map_def is_iterable_def get_subtype_def isinst_def
        py_subclass_def python_array_map_def object_array_python_types_def)
  have l: "leaf_from_python (PrimitiveArrayObject TLong) ?v = Inr ?bs"
    by (simp add: leaf_from_python_def prim_array_object_from_python_def write_length_def
        int_to_bytes_def in_range_def pack_int_def struct_pack_def)
  have e: "at_end ?s" by (rule at_end_new_stream)
  then have f: "from_py AnyDataObject ?v ?s = Inr (append_to ?s ?bs)"
    by (simp add: from_py_any m from_py_leaf write_leaf_def l swrite_at_end)
  from encoding_position_independent [OF e f append_to_at_end [OF e], of "[7]"] f
  show ?thesis by (auto simp: append_to_def new_stream_def)
qed

subsection \<open>Reading the footer with the flags of the header\<close>

definition offset_bytes :: "byte list list \<Rightarrow> nat" where
  "offset_bytes bss =
     (if max_offset (starts 24 bss) < 255 then 1
      else if max_offset (starts 24 bss) < 65535 then 2 else 4)"

lemma object_flags_bits:
  "offset_size (object_flags cf bss) = offset_bytes bss"
  "object_flags cf bss AND COMPACT_FOOTER \<noteq> 0 \<longleftrightarrow> cf"
  "object_flags cf bss AND HAS_SCHEMA \<noteq> 0"
  "0 \<le> object_flags cf bss \<and> object_flags cf bss < 64"
  by (cases cf; simp add: object_flags_def header_flags_def offset_flag_def offset_size_def
      offset_bytes_def flag_defs)+

lemma schema_ct_object:
  "schema_ct (object_flags cf bss) =
     (if cf then CInt (offset_bytes bss) False
      else CStruct [(Nm ''field_id'', c_int), (Nm ''offset'', CInt (offset_bytes bss) False)])"
  by (simp add: schema_ct_def object_flags_bits Let_def)

definition entry_size :: "bool \<Rightarrow> byte list list \<Rightarrow> nat" where
  "entry_size cf bss = (if cf then offset_bytes bss else 4 + offset_bytes bss)"

lemma sizeof_schema_ct: "sizeof_ct (schema_ct (object_flags cf bss)) = entry_size cf bss"
  by (simp add: schema_ct_object entry_size_def)

lemma schema_entry:
  "length (store_ct (schema_ct (object_flags cf bss)) (schema_element cf nm off)) = entry_size cf bss"
  "drop (entry_size cf bss - offset_bytes bss)
     (store_ct (schema_ct (object_flags cf bss)) (schema_element cf nm off)) =
   ct_bytes (offset_bytes bss) (int off)"
  by (auto simp: schema_ct_object schema_element_def entry_size_def)

lemma concat_nth_const:
  assumes "\<And>x. x \<in> set xs \<Longrightarrow> length (f x) = n" and "i < length xs"
  shows "take n (drop (i * n) (concat (map f xs))) = f (xs ! i)"
  using assms
proof (induction xs arbitrary: i)
  case (Cons x xs)
  show ?case
  proof (cases i)
    case 0
    then show ?thesis using Cons.prems(1) [of x] by simp
  next
    case (Suc j)
    then show ?thesis using Cons.prems Cons.IH [of j] by (simp add: drop_append)
  qed
qed simp

lemma length_concat_const:
  "(\<And>x. x \<in> set xs \<Longrightarrow> length (f x) = n) \<Longrightarrow> length (concat (map f xs)) = length xs * n"
  by (induction xs) auto

lemma fold_max_ge: "m \<le> fold max xs m" for m :: nat
proof (induction xs arbitrary: m)
  case (Cons a xs)
  have "max a m \<le> fold max xs (max a m)" by (rule Cons.IH)
  then have "m \<le> fold max xs (max a m)" by linarith
  then show ?case by simp
qed simp

lemma max_offset_ge: "x \<in> set xs \<Longrightarrow> x \<le> max_offset xs"
proof -
  have "x \<in> set xs \<Longrightarrow> x \<le> fold max xs m" for m
  proof (induction xs arbitrary: m)
    case (Cons a xs)
    show ?case
    proof (cases "x = a")
      case True
      have "max a m \<le> fold max xs (max a m)" by (rule fold_max_ge)
      then have "a \<le> fold max xs (max a m)" by linarith
      with True show ?thesis by simp
    next
      case False
      with Cons show ?thesis by simp
    qed
  qed simp
  then show "x \<in> set xs \<Longrightarrow> x \<le> max_offset xs" by (simp add: max_offset_def)
qed

text \<open>The offset of field \<open>i\<close> stored in the footer, read with the width the flags announce.\<close>

definition footer_offset :: "bool \<Rightarrow> byte list list \<Rightarrow> byte list \<Rightarrow> nat \<Rightarrow> nat" where
  "footer_offset cf bss bs i =
     le_nat (take (offset_bytes bss)
       (drop (24 + length (concat bss) + (i * entry_size cf bss + (entry_size cf bss - offset_bytes bss))) bs))"

lemma footer_offset_start:
  assumes n: "length bss = length (cls_schema cl)" and i: "i < length bss"
    and small: "24 + length (concat bss) < 2 ^ 32"
  shows "footer_offset cf bss (object_bytes cf cl version bss) i = starts 24 bss ! i"
proof -
  let ?t = "schema_ct (object_flags cf bss)"
  let ?els = "map2 (schema_element cf) (map fst (cls_schema cl)) (starts 24 bss)"
  have sch: "object_schema cf cl bss = concat (map (store_ct ?t) ?els)"
    by (simp add: object_schema_def store_array_concat)
  have el: "?els ! i = schema_element cf (fst (cls_schema cl ! i)) (starts 24 bss ! i)"
    using i n by simp
  have "length (store_ct ?t x) = entry_size cf bss" if "x \<in> set ?els" for x
    using that schema_entry(1) by (auto simp: in_set_conv_nth)
  moreover have "i < length ?els" using i n by simp
  ultimately have "take (entry_size cf bss) (drop (i * entry_size cf bss)
      (concat (map (store_ct ?t) ?els))) = store_ct ?t (?els ! i)" by (rule concat_nth_const)
  then have e: "take (entry_size cf bss) (drop (i * entry_size cf bss) (object_schema cf cl bss)) =
      store_ct ?t (schema_element cf (fst (cls_schema cl ! i)) (starts 24 bss ! i))"
    by (simp only: sch el)
  let ?d = "entry_size cf bss - offset_bytes bss"
  have le: "?d + offset_bytes bss = entry_size cf bss" by (simp add: entry_size_def)
  have "drop (24 + length (concat bss) + (i * entry_size cf bss + ?d)) (object_bytes cf cl version bss) =
      drop (i * entry_size cf bss + ?d) (object_schema cf cl bss)"
    by (simp add: object_bytes_def)
  also have "\<dots> = drop ?d (drop (i * entry_size cf bss) (object_schema cf cl bss))"
    by (simp add: add.commute)
  finally have "footer_offset cf bss (object_bytes cf cl version bss) i =
      le_nat (take (offset_bytes bss) (drop ?d (drop (i * entry_size cf bss) (object_schema cf cl bss))))"
    by (simp only: footer_offset_def)
  also have "take (offset_bytes bss) (drop ?d (drop (i * entry_size cf bss) (object_schema cf cl bss))) =
      drop ?d (take (entry_size cf bss) (drop (i * entry_size cf bss) (object_schema cf cl bss)))"
    unfolding drop_take using le by simp
  also have "\<dots> = ct_bytes (offset_bytes bss) (int (starts 24 bss ! i))"
    unfolding e by (rule schema_entry(2))
  finally have f: "footer_offset cf bss (object_bytes cf cl version bss) i =
      starts 24 bss ! i mod 256 ^ offset_bytes bss"
    by (simp add: le_nat_ct_bytes nat_mod_distrib nat_power_eq)
  have "starts 24 bss ! i \<le> max_offset (starts 24 bss)" using i by (intro max_offset_ge) simp
  moreover have "starts 24 bss ! i < 2 ^ 32"
  proof -
    have "concat bss = concat (take i bss) @ concat (drop i bss)"
      by (simp flip: concat_append)
    then have "length (concat (take i bss)) \<le> length (concat bss)" by simp
    then show ?thesis using small starts_nth [OF i, of 24] by simp
  qed
  ultimately have "starts 24 bss ! i < 256 ^ offset_bytes bss" by (auto simp: offset_bytes_def)
  with f show ?thesis by simp
qed

lemma object_field_at:
  assumes "i < length bss"
  shows "take (length (bss ! i)) (drop (starts 24 bss ! i) (object_bytes cf cl version bss)) = bss ! i"
proof -
  have "concat bss = concat (take i bss) @ bss ! i @ concat (drop (Suc i) bss)"
    using assms by (metis append.assoc concat.simps(2) concat_append id_take_nth_drop)
  then show ?thesis
    using assms by (simp add: object_bytes_def starts_nth)
qed

lemma object_bytes_length:
  "length bss = length (cls_schema cl) \<Longrightarrow>
   length (object_bytes cf cl version bss) = length (concat bss) + 24 + length bss * entry_size cf bss"
proof -
  assume n: "length bss = length (cls_schema cl)"
  let ?els = "map2 (schema_element cf) (map fst (cls_schema cl)) (starts 24 bss)"
  have "length (store_ct (schema_ct (object_flags cf bss)) x) = entry_size cf bss" if "x \<in> set ?els" for x
    using that schema_entry(1) by (auto simp: in_set_conv_nth)
  from length_concat_const [of ?els, OF this] n
  have "length (object_schema cf cl bss) = length bss * entry_size cf bss"
    by (simp add: object_schema_def store_array_concat)
  then show ?thesis by (simp add: object_bytes_def)
qed

subsection \<open>The header\<close>

lemma class_ids_signed:
  "in_range 4 True (class_type_id cl)" "in_range 4 True (class_schema_id cl)"
  using str_hashcode_signed [of "py_lower (cls_type_name cl)"] schema_id_signed [of "map fst (cls_schema cl)"]
  by (simp_all add: class_type_id_def class_schema_id_def schema_arg_of_def in_range_def)

lemma object_header_fits:
  assumes "in_range 1 True version" and "length bss = length (cls_schema cl)"
    and "length (object_bytes cf cl version bss) < 2 ^ 31"
  shows "fits header_ct (object_header cf cl version bss)"
proof -
  have "length (concat bss) + 24 + length bss * entry_size cf bss < 2 ^ 31"
    using assms(3) object_bytes_length [OF assms(2), of cf version] by metis
  then have n: "in_range 4 True (int (length (concat bss) + 24 + length bss * entry_size cf bss))"
    "in_range 4 True (int (length (concat bss) + 24))"
    by (intro length_field(1), linarith)+
  have f: "in_range 2 True (object_flags cf bss)"
    using object_flags_bits(4) [of cf bss] by (simp add: in_range_def)
  have h: "in_range 4 True (bytes_hashcode (concat bss))"
    using bytes_hashcode_signed [of "concat bss"] by (simp add: in_range_def)
  have c: "in_range 1 True (int (unat TC_COMPLEX_OBJECT))"
    by (simp add: TC_COMPLEX_OBJECT_def in_range_def)
  show ?thesis
    using assms(1) n f h c class_ids_signed [of cl]
    by (simp add: header_fields_def object_header_def header_obj_def code_obj_def Let_def
        sizeof_schema_ct add.commute)
qed

lemma read_object_header:
  assumes "fits header_ct (object_header cf cl version bss)"
  shows "read_ct header_ct (object_bytes cf cl version bss @ post) = object_header cf cl version bss"
  using read_store(1) [OF assms, of "concat bss @ object_schema cf cl bss @ post"]
  by (simp add: object_bytes_def)

lemma object_header_fields:
  "getint ''type_code'' (object_header cf cl version bss) = Inr 103"
  "getint ''version'' (object_header cf cl version bss) = Inr version"
  "getint ''flags'' (object_header cf cl version bss) = Inr (object_flags cf bss)"
  "getint ''type_id'' (object_header cf cl version bss) = Inr (class_type_id cl)"
  "getint ''hash_code'' (object_header cf cl version bss) = Inr (bytes_hashcode (concat bss))"
  "getint ''length'' (object_header cf cl version bss) =
     Inr (int (length (concat bss) + 24 + length bss * entry_size cf bss))"
  "getint ''schema_id'' (object_header cf cl version bss) = Inr (class_schema_id cl)"
  "getint ''schema_offset'' (object_header cf cl version bss) = Inr (int (length (concat bss) + 24))"
  by (simp_all add: getint_def object_header_def header_obj_def code_obj_def Let_def
      TC_COMPLEX_OBJECT_def sizeof_schema_ct)

text \<open>What an encoder wrote for one field, somewhere.\<close>

definition field_bytes :: "(pystr \<times> pyval) list \<Rightarrow> pystr \<times> dtype \<Rightarrow> bool \<Rightarrow> byte list \<Rightarrow> bool" where
  "field_bytes attrs x b bs \<longleftrightarrow>
     (\<exists>s c. writable s \<and> compact_footer (sclient s) = b \<and> write_field attrs x s = Inr (grow s bs c))"

lemma appends_field: "appends (field_bytes attrs x) (write_field attrs x)"
proof -
  have "appends (\<lambda>b bs. True) (write_field attrs x)"
    by (auto simp: write_field_def from_py_appends split: option.splits
        intro: appends_mono [OF appends_write_leaf])
  then show ?thesis
    unfolding appends_def field_bytes_def by blast
qed


text \<open>A one-field object in a fresh stream of a fresh client, for the witnesses.\<close>

definition point_class :: pyclass where
  "point_class = PyClass [80] [([120], DataObject TInt)]"

definition point_object :: pyval where
  "point_object = VObject point_class 1 [([120], VInt 5)] None"

lemma register_new:
  assumes "registry c (class_type_id cl) = []" and "\<not> ti_exists (server_types c (class_type_id cl))"
  shows "register_binary_type cl c =
    Inr (reg_put (class_type_id cl) (class_schema_id cl) cl (c\<lparr>put_log := put_log c @ [cl]\<rparr>))"
proof -
  have "\<not> reg_found (get_from_registry (class_type_id cl) sid c)" for sid
    using assms(1) by (auto simp: get_from_registry_def reg_found_def split: option.splits)
  then show ?thesis
    using assms(2) by (simp add: register_binary_type_def query_binary_type_def
        sync_binary_registry_def Let_def)
qed

abbreviation point_field :: "byte list" where
  "point_field \<equiv> 0x03 # ct_bytes 4 5"

lemma point_writes:
  assumes w: "writable st" and cf: "compact_footer (sclient st) = True"
  shows "binary_write point_class 1 [([120], VInt 5)] st =
    Inr (bytes_hashcode point_field, grow st (object_bytes True point_class 1 [point_field]) (sclient st))"
proof -
  have w0: "writable (seek_cur 24 st)" using w by (simp add: writable_def)
  have l: "leaf_from_python (DataObject TInt) (VInt 5) = Inr point_field"
    by (simp add: leaf_from_python_def data_object_from_python_def ctypes_set_def data_object_ct_def
        code_obj_def ct_bytes_def)
  have f: "write_field [([120], VInt 5)] ([120], DataObject TInt) (seek_cur 24 st) =
      Inr (grow (seek_cur 24 st) point_field (sclient st))"
    using swrite_writable [OF w0, of point_field]
    by (simp add: write_field_def from_py_leaf write_leaf_def l)
  have "binary_write point_class 1 [([120], VInt 5)] st =
      write_footer point_class 1 (header_flags True) (spos st) (24 # ends 24 [point_field])
        (grow (seek_cur 24 st) (concat [point_field]) (sclient st))"
    unfolding binary_write_eq
    using f cf by (simp add: point_class_def field_step_pair add_offset_def max_offset_def)
  also have "\<dots> = Inr (bytes_hashcode (concat [point_field]),
      grow st (object_bytes True point_class 1 [point_field]) (sclient st))"
    by (rule write_footer_bytes [OF w _ refl cf]) simp
  finally show ?thesis by simp
qed

lemma point_encodes:
  assumes w: "writable st" and c: "sclient st = new_client None"
  shows "\<exists>c'. from_py BinaryObject point_object st =
    Inr (grow st (object_bytes True point_class 1 [point_field]) c')"
proof -
  let ?c' = "reg_put (class_type_id point_class) (class_schema_id point_class) point_class
    (new_client None\<lparr>put_log := [point_class]\<rparr>)"
  let ?st0 = "st\<lparr>sclient := ?c'\<rparr>" and ?b = "object_bytes True point_class 1 [point_field]"
  have w0: "writable ?st0" using w by (simp add: writable_def)
  have r: "on_client (register_binary_type point_class) st = Inr ?st0"
    using register_new [of "new_client None" point_class] c
    by (simp add: on_client_def new_client_def no_type_def)
  have "compact_footer (sclient ?st0) = True" by (simp add: compact_footer_def new_client_def)
  from point_writes [OF w0 this] have "from_py BinaryObject point_object st = Inr (grow ?st0 ?b ?c')"
    unfolding point_object_def by (subst from_py_object) (simp_all add: r)
  moreover have "grow ?st0 ?b ?c' = grow st ?b ?c'" by (simp add: grow_def)
  ultimately show ?thesis by auto
qed


text \<open>
  C38. The serialised form cached by \<open>BinaryObject.hashcode\<close> is what serialising the object
  again appends, and the hash code is the one in its header; but writing the object through
  the cache leaves the client untouched, so on this path its class is never registered.
\<close>

theorem cached_object_same_bytes:
  assumes "binary_hashcode (VObject cl version attrs None) c = Inr (hash, v, c')"
    and "at_end st" and "sclient st = c" and "sbuf st \<noteq> []"
  shows "\<exists>bs. v = VObject cl version attrs (Some bs) \<and> bs \<noteq> [] \<and>
    binary_write cl version attrs st = Inr (hash, (append_to st bs)\<lparr>sclient := c'\<rparr>) \<and>
    from_py BinaryObject v st = Inr (append_to st bs)"
proof -
  let ?s = "new_stream c []"
  have e: "at_end ?s" by (rule at_end_new_stream)
  from assms(1) obtain s' where s': "binary_write cl version attrs ?s = Inr (hash, s')"
    "v = VObject cl version attrs (Some (bslice (sbuf s') 0 (spos s')))" "c' = sclient s'"
    by (auto simp: binary_hashcode_def rbind_eq_Inr_iff)
  have f: "\<forall>x \<in> set (cls_schema cl). appends (field_bytes attrs x) (write_field attrs x)"
    by (simp add: appends_field)
  have sc: "sclient ?s = c" "sbuf ?s = []" "spos ?s = 0" by (simp_all add: new_stream_def)
  from binary_write_writes [OF f at_end_writable [OF e] s'(1)] obtain bss d where
    g: "s' = grow ?s (object_bytes (compact_footer (sclient ?s)) cl version bss) d"
    "\<forall>st2. writable st2 \<longrightarrow> sclient st2 = sclient ?s \<longrightarrow> sbuf ?s = [] \<or> sbuf st2 \<noteq> [] \<longrightarrow>
      binary_write cl version attrs st2 =
        Inr (hash, grow st2 (object_bytes (compact_footer (sclient ?s)) cl version bss) d)"
    by (elim exE conjE) (rule that, assumption+)
  define bs where "bs = object_bytes (compact_footer (sclient ?s)) cl version bss"
  have "24 \<le> length bs" by (simp add: bs_def object_bytes_def)
  then have ne: "bs \<noteq> []" by auto
  have s'': "s' = grow ?s bs d" using g(1) by (simp only: bs_def)
  have v: "v = VObject cl version attrs (Some bs)"
    unfolding s'(2) s'' using ne sc by (simp add: bslice_def)
  have "binary_write cl version attrs st = Inr (hash, grow st bs d)"
    using g(2) [rule_format, OF at_end_writable [OF assms(2)]] assms(3,4) sc by (simp add: bs_def)
  moreover have "from_py BinaryObject v st = Inr (append_to st bs)"
    using swrite_at_end [OF assms(2), of bs] ne by (subst from_py.simps) (simp add: v object_from_python_def)
  moreover have "c' = d" by (simp add: s'(3) s'')
  ultimately show ?thesis
    using v ne grow_at_end [OF assms(2), of bs d] by auto
qed

theorem cached_object_same_bytes_witness:
  "\<exists>hash bs c' st. binary_hashcode point_object (new_client None) =
      Inr (hash, VObject point_class 1 [([120], VInt 5)] (Some bs), c') \<and> sbuf st = [7] \<and>
    from_py BinaryObject (VObject point_class 1 [([120], VInt 5)] (Some bs)) st = Inr (append_to st bs)"
proof -
  let ?s = "new_stream (new_client None) []"
  have e: "at_end ?s" by (rule at_end_new_stream)
  have cf: "compact_footer (sclient ?s) = True"
    by (simp add: compact_footer_def new_client_def new_stream_def)
  obtain hash v c' where h: "binary_hashcode (VObject point_class 1 [([120], VInt 5)] None) (new_client None) =
      Inr (hash, v, c')"
    using point_writes [OF at_end_writable [OF e] cf] by (simp add: binary_hashcode_def)
  have a: "at_end (append_to ?s [7])" by (rule append_to_at_end [OF e])
  have c: "sclient (append_to ?s [7]) = new_client None" "sbuf (append_to ?s [7]) = [7]"
    by (simp_all add: new_stream_def)
  from cached_object_same_bytes [OF h a c(1)] c(2) obtain bs where
    "v = VObject point_class 1 [([120], VInt 5)] (Some bs)"
    "from_py BinaryObject v (append_to ?s [7]) = Inr (append_to (append_to ?s [7]) bs)" by auto
  with h c(2) show ?thesis unfolding point_object_def by blast
qed

text \<open>
  C39. A class without fields has schema identifier 0: its objects cannot be hashed (the view
  of the empty buffer is never released and blocks the write of the header), and no reader
  finds their class, since a lookup with identifier 0 yields the dictionary of all schemas.
\<close>

theorem empty_schema_unusable:
  assumes "cls_schema cl = []"
  shows "class_schema_id cl = 0 \<and>
    binary_hashcode (VObject cl version attrs buf) c = Inl BufferError \<and>
    (\<exists>e. get_dataclass tid (class_schema_id cl) c = Inl e)"
proof (intro conjI)
  show 0: "class_schema_id cl = 0" using assms by (simp add: class_schema_id_def schema_arg_of_def)
  have "write_footer cl version flags p offsets (seek_cur 24 (new_stream c [])) = Inl BufferError"
    for flags p offsets by (rule write_footer_empty) (simp_all add: new_stream_def)
  then show "binary_hashcode (VObject cl version attrs buf) c = Inl BufferError"
    using assms by (simp add: binary_hashcode_def binary_write_eq)
  have "\<nexists>x. get_dataclass tid 0 c = Inr x"
    by (auto simp: get_dataclass_def query_binary_type_def get_from_registry_def rbind_eq_Inr_iff
        Let_def split: if_splits)
  then show "\<exists>e. get_dataclass tid (class_schema_id cl) c = Inl e"
    using 0 by (cases "get_dataclass tid 0 c") auto
qed

theorem empty_schema_unusable_witness:
  "binary_hashcode (VObject (PyClass [69] []) 1 [] None) (new_client None) = Inl BufferError"
  using empty_schema_unusable [of "PyClass [69] []"] by simp

end
