(* ===== verification/Reading.thy ===== *)
theory Reading
  imports LayoutProps
begin

section \<open>Complex objects: reading\<close>

text \<open>
  \<open>parse\<close> and \<open>to_python\<close> of every data class (\<open>complex.py\<close>, \<open>internal.py\<close>,
  \<open>null_object.py\<close>). \<open>parse_obj n d\<close> parses an object of class \<open>d\<close>; \<open>n\<close> bounds the depth
  of the recursion, as the recursion limit of Python does, and running out of it is
  RecursionError. \<open>to_py d ob c\<close> converts an instance of the layout; it may query the
  client \<open>c\<close>, if it is given one, for the class of a complex object.
\<close>

subsection \<open>Classes without nested objects\<close>

definition wrapped_parse :: "bstream \<Rightarrow> (ctype \<times> bstream) res" where
  "wrapped_parse st =
     (let (b, st1) = slice (spos st + 1) 4 st;
          t = CStruct [(Nm ''type_code'', c_byte), (Nm ''length'', c_int),
                (Nm ''payload'', CArray c_byte (le_nat b)), (Nm ''offset'', c_int)]
      in Inr (t, seek_cur (sizeof_ct t) st1))"

definition wrapped_to_python :: "cobj \<Rightarrow> pyval res" where
  "wrapped_to_python ob =
     rbind (rbind (getattr (Nm ''payload'') ob) as_array) (\<lambda>xs.
       rbind (rmap raw_byte xs) (\<lambda>bs. rbind (getint ''offset'' ob) (\<lambda>o'.
         Inr (VTuple [VBytes bs, VInt o']))))"

definition leaf_parse :: "dtype \<Rightarrow> bstream \<Rightarrow> (ctype \<times> bstream) res" where
  "leaf_parse d =
     (case d of
        DataObject p \<Rightarrow> nullable_parse (data_object_parse p)
      | Standard s \<Rightarrow> std_parse s
      | PrimitiveArrayObject p \<Rightarrow> nullable_parse (prim_array_object_parse p)
      | StandardArrayObject s \<Rightarrow> nullable_parse (std_array_object_parse s)
      | WrappedDataObject \<Rightarrow> nullable_parse wrapped_parse
      | _ \<Rightarrow> null_parse)"

definition leaf_to_python :: "dtype \<Rightarrow> cobj \<Rightarrow> pyval res" where
  "leaf_to_python d =
     (case d of
        DataObject p \<Rightarrow> nullable_to_python (data_object_to_python p)
      | Standard s \<Rightarrow> std_to_python s
      | PrimitiveArrayObject p \<Rightarrow> nullable_to_python (prim_array_object_to_python p)
      | StandardArrayObject s \<Rightarrow> nullable_to_python (std_array_object_to_python s)
      | WrappedDataObject \<Rightarrow> nullable_to_python wrapped_to_python
      | _ \<Rightarrow> (\<lambda>ob. Inr VNone))"

subsection \<open>Parsing\<close>

definition object_array_fields :: "(fname \<times> ctype) list" where
  "object_array_fields = [(Nm ''type_code'', c_byte), (Nm ''type_id'', c_int), (Nm ''length'', c_int)]"

definition collection_fields :: "(fname \<times> ctype) list" where
  "collection_fields = [(Nm ''type_code'', c_byte), (Nm ''length'', c_int), (Nm ''type'', c_byte)]"

definition object_array_parse ::
  "(bstream \<Rightarrow> (ctype \<times> bstream) res) \<Rightarrow> bstream \<Rightarrow> (ctype \<times> bstream) res" where
  "object_array_parse p st =
     (let (b, st1) = slice (spos st + 5) 4 st
      in rbind (parse_elements p 0 (le_nat b) (seek_cur 9 st1))
           (\<lambda>(fs, st2). Inr (CStruct (object_array_fields @ fs), st2)))"

definition collection_parse ::
  "(bstream \<Rightarrow> (ctype \<times> bstream) res) \<Rightarrow> bstream \<Rightarrow> (ctype \<times> bstream) res" where
  "collection_parse p st =
     (let (b, st1) = slice (spos st + 1) 4 st
      in rbind (parse_elements p 0 (le_nat b) (seek_cur 6 st1))
           (\<lambda>(fs, st2). Inr (CStruct (collection_fields @ fs), st2)))"

definition map_parse ::
  "(bstream \<Rightarrow> (ctype \<times> bstream) res) \<Rightarrow> bstream \<Rightarrow> (ctype \<times> bstream) res" where
  "map_parse p st =
     (let (b, st1) = slice (spos st + 1) 4 st
      in rbind (parse_elements p 0 (2 * le_nat b) (seek_cur 6 st1))
           (\<lambda>(fs, st2). Inr (CStruct (collection_fields @ fs), st2)))"

text \<open>
  The named fields of a structure in their order (\<open>Struct.parse\<close> without conditionals); those of
  a complex object are named by its registered schema.
\<close>

fun parse_fields ::
  "('n \<Rightarrow> fname) \<Rightarrow> ('d \<Rightarrow> bstream \<Rightarrow> (ctype \<times> bstream) res) \<Rightarrow> ('n \<times> 'd) list \<Rightarrow> bstream \<Rightarrow>
   ((fname \<times> ctype) list \<times> bstream) res"
where
  "parse_fields nm p [] st = Inr ([], st)"
| "parse_fields nm p ((name, d) # sch) st =
     rbind (p d st) (\<lambda>(t, st1). rbind (parse_fields nm p sch st1) (\<lambda>(fs, st2).
       Inr ((nm name, t) # fs, st2)))"

definition binary_parse_header :: "bstream \<Rightarrow> ((int \<times> int \<times> int) \<times> bstream) res" where
  "binary_parse_header st =
     rbind (read_ctype header_ct st) (\<lambda>(header, st1).
       rbind (getint ''type_id'' header) (\<lambda>tid. rbind (getint ''schema_id'' header) (\<lambda>sid.
         rbind (getint ''flags'' header) (\<lambda>flags. Inr ((tid, sid, flags), seek_cur 24 st1)))))"

definition binary_final_class ::
  "int \<Rightarrow> nat \<Rightarrow> (fname \<times> ctype) list \<Rightarrow> bstream \<Rightarrow> (ctype \<times> bstream) res" where
  "binary_final_class flags n object_fields st =
     (let fields = CStruct object_fields;
          schema = CArray (schema_ct flags) n;
          (final, st1) =
            (if flags AND HAS_SCHEMA \<noteq> 0
             then ([(Nm ''object_fields'', fields), (Nm ''schema'', schema)],
                   seek_cur (sizeof_ct schema) st)
             else ([(Nm ''object_fields'', fields)], st))
      in rbind (on_client (set_compact_footer (flags AND COMPACT_FOOTER \<noteq> 0)) st1)
           (\<lambda>st2. Inr (CStruct (header_fields @ final), st2)))"

definition binary_parse ::
  "(dtype \<Rightarrow> bstream \<Rightarrow> (ctype \<times> bstream) res) \<Rightarrow> bstream \<Rightarrow> (ctype \<times> bstream) res" where
  "binary_parse p st =
     rbind (binary_parse_header st) (\<lambda>((tid, sid, flags), st1).
       rbind (stream_get_dataclass tid sid st1) (\<lambda>(cl, st2).
         rbind (parse_fields Fld p (cls_schema cl) st2) (\<lambda>(fs, st3).
           binary_final_class flags (length (cls_schema cl)) fs st3)))"

fun parse_obj :: "nat \<Rightarrow> dtype \<Rightarrow> bstream \<Rightarrow> (ctype \<times> bstream) res" where
  "parse_obj 0 d st = Inl RecursionError"
| "parse_obj (Suc n) d st =
     (case d of
        AnyDataObject \<Rightarrow>
          (let (code, st1) = slice (spos st) 1 st
           in case tc_map code of Inl e \<Rightarrow> Inl ParseError | Inr d' \<Rightarrow> parse_obj n d' st1)
      | ObjectArrayObject \<Rightarrow> nullable_parse (object_array_parse (parse_obj n AnyDataObject)) st
      | CollectionObject \<Rightarrow> nullable_parse (collection_parse (parse_obj n AnyDataObject)) st
      | MapObject \<Rightarrow> nullable_parse (map_parse (parse_obj n AnyDataObject)) st
      | BinaryObject \<Rightarrow> nullable_parse (binary_parse (parse_obj n)) st
      | _ \<Rightarrow> leaf_parse d st)"

subsection \<open>Conversion to Python\<close>

text \<open>Dictionary keys: equality across the numeric types, and the unhashable values.\<close>

definition py_eq :: "pyval \<Rightarrow> pyval \<Rightarrow> bool" where
  "py_eq a b \<longleftrightarrow>
     (case py_index a of
        Some i \<Rightarrow> int_eq i b
      | None \<Rightarrow> (case py_index b of Some i \<Rightarrow> int_eq i a | None \<Rightarrow> a = b))"

fun hashable :: "pyval \<Rightarrow> bool" where
  "hashable (VByteArray b) = False"
| "hashable (VList xs) = False"
| "hashable (VDict ordered kvs) = False"
| "hashable (VObject c v attrs buf) = False"
| "hashable (VTuple xs) = list_all hashable xs"
| "hashable _ = True"

fun dict_put :: "pyval \<Rightarrow> pyval \<Rightarrow> (pyval \<times> pyval) list \<Rightarrow> (pyval \<times> pyval) list" where
  "dict_put k v [] = [(k, v)]"
| "dict_put k v ((k', v') # kvs) = (if py_eq k k' then (k', v) # kvs else (k', v') # dict_put k v kvs)"

definition dict_set :: "pyval \<Rightarrow> pyval \<Rightarrow> (pyval \<times> pyval) list \<Rightarrow> (pyval \<times> pyval) list res" where
  "dict_set k v kvs = (if hashable k then Inr (dict_put k v kvs) else Inl TypeError)"

definition LINKED_HASH_MAP :: int where "LINKED_HASH_MAP = 2"

text \<open>Threading the client through the conversion of numbered elements and of fields.\<close>

definition element_step ::
  "(cobj \<Rightarrow> client option \<Rightarrow> (pyval \<times> client option) res) \<Rightarrow> cobj \<Rightarrow> nat \<Rightarrow> pyval list \<times> client option \<Rightarrow> (pyval list \<times> client option) res"
where
  "element_step f ob i acc =
     (case acc of (vs, c) \<Rightarrow> rbind (getattr (Element i) ob) (\<lambda>x.
        rbind (f x c) (\<lambda>(v, c'). Inr (vs @ [v], c'))))"

definition pair_step ::
  "(cobj \<Rightarrow> client option \<Rightarrow> (pyval \<times> client option) res) \<Rightarrow> cobj \<Rightarrow> nat \<Rightarrow>
   (pyval \<times> pyval) list \<times> client option \<Rightarrow> ((pyval \<times> pyval) list \<times> client option) res"
where
  "pair_step f ob i acc =
     (case acc of (kvs, c) \<Rightarrow>
        rbind (getattr (Element (2 * i)) ob) (\<lambda>x. rbind (f x c) (\<lambda>(k, c1).
          rbind (getattr (Element (2 * i + 1)) ob) (\<lambda>y. rbind (f y c1) (\<lambda>(v, c2).
            rbind (dict_set k v kvs) (\<lambda>kvs'. Inr (kvs', c2)))))))"

lemma getattr_size: "getattr f ob = Inr x \<Longrightarrow> size x < size ob"
proof (cases ob)
  case (OStruct os)
  assume "getattr f ob = Inr x"
  then have "getattr_fields f os = Inr x" by (simp add: OStruct)
  then have "\<exists>g. (g, x) \<in> set os"
    by (induction os) (auto split: if_splits)
  then obtain g where "(g, x) \<in> set os" by blast
  then have "size x < Suc (size_list (size_prod (\<lambda>_. 0) size) os)"
    by (induction os) auto
  then show ?thesis by (simp add: OStruct)
qed auto

lemma tc_map_not_any: "tc_map bs \<noteq> Inr AnyDataObject"
proof
  assume "tc_map bs = Inr AnyDataObject"
  then obtain b where "map_of tc_table b = Some AnyDataObject"
    by (cases bs rule: tc_map.cases) (auto split: option.splits)
  then have "(b, AnyDataObject) \<in> set tc_table" by (rule map_of_SomeD)
  then show False by (simp add: tc_table_def)
qed

lemma element_step_cong [fundef_cong]:
  "ob = ob' \<Longrightarrow> i = i' \<Longrightarrow> acc = acc' \<Longrightarrow>
   (\<And>x c. getattr (Element i') ob' = Inr x \<Longrightarrow> f x c = g x c) \<Longrightarrow>
   element_step f ob i acc = element_step g ob' i' acc'"
  by (auto simp: element_step_def split: prod.splits intro!: rbind_cong)

lemma pair_step_cong [fundef_cong]:
  "ob = ob' \<Longrightarrow> i = i' \<Longrightarrow> acc = acc' \<Longrightarrow>
   (\<And>j x c. getattr (Element j) ob' = Inr x \<Longrightarrow> f x c = g x c) \<Longrightarrow>
   pair_step f ob i acc = pair_step g ob' i' acc'"
  by (auto simp: pair_step_def split: prod.splits intro!: rbind_cong)

definition nullable_conv ::
  "(cobj \<Rightarrow> client option \<Rightarrow> (pyval \<times> client option) res) \<Rightarrow> cobj \<Rightarrow> client option \<Rightarrow> (pyval \<times> client option) res" where
  "nullable_conv f ob c =
     rbind (getint ''type_code'' ob) (\<lambda>tc. if tc = 101 then Inr (VNone, c) else f ob c)"

lemma nullable_conv_cong [fundef_cong]:
  "ob = ob' \<Longrightarrow> c = c' \<Longrightarrow> f ob' c' = g ob' c' \<Longrightarrow> nullable_conv f ob c = nullable_conv g ob' c'"
  by (auto simp: nullable_conv_def intro!: rbind_cong)

text \<open>
  The \<open>client\<close> keyword argument may be \<open>None\<close> (it is for the conversion of a response): then
  the class of a complex object cannot be found.
\<close>

definition query_class :: "int \<Rightarrow> int \<Rightarrow> client option \<Rightarrow> (pyclass \<times> client option) res" where
  "query_class tid sid c =
     (case c of
        None \<Rightarrow> Inl ParseError
      | Some c0 \<Rightarrow> rbind (query_binary_type tid (Some sid) c0) (\<lambda>(r, c').
          case r of RClass cl \<Rightarrow> Inr (cl, Some c') | _ \<Rightarrow> Inl TypeError))"

text \<open>Each class's \<open>to_python_not_null\<close> over the conversion \<open>f\<close> of its elements or fields.\<close>

definition object_array_to_python ::
  "(cobj \<Rightarrow> client option \<Rightarrow> (pyval \<times> client option) res) \<Rightarrow> cobj \<Rightarrow> client option \<Rightarrow> (pyval \<times> client option) res" where
  "object_array_to_python f ob c =
     rbind (getint ''length'' ob) (\<lambda>n.
       rbind (rfold (element_step f ob) [0..<nat n] ([], c)) (\<lambda>(vs, c').
         rbind (getint ''type_id'' ob) (\<lambda>t. Inr (VTuple [VInt t, VList vs], c'))))"

definition collection_to_python ::
  "(cobj \<Rightarrow> client option \<Rightarrow> (pyval \<times> client option) res) \<Rightarrow> cobj \<Rightarrow> client option \<Rightarrow> (pyval \<times> client option) res" where
  "collection_to_python f ob c =
     rbind (getint ''length'' ob) (\<lambda>n.
       rbind (rfold (element_step f ob) [0..<nat n] ([], c)) (\<lambda>(vs, c').
         rbind (getint ''type'' ob) (\<lambda>t. Inr (VTuple [VInt t, VList vs], c'))))"

definition map_to_python ::
  "(cobj \<Rightarrow> client option \<Rightarrow> (pyval \<times> client option) res) \<Rightarrow> cobj \<Rightarrow> client option \<Rightarrow> (pyval \<times> client option) res" where
  "map_to_python f ob c =
     rbind (getint ''type'' ob) (\<lambda>t. rbind (getint ''length'' ob) (\<lambda>n.
       rbind (rfold (pair_step f ob) [0..<nat n] ([], c)) (\<lambda>(kvs, c').
         Inr (VTuple [VInt t, VDict (t = LINKED_HASH_MAP) kvs], c'))))"

definition object_to_python ::
  "(dtype \<Rightarrow> cobj \<Rightarrow> client option \<Rightarrow> (pyval \<times> client option) res) \<Rightarrow> cobj \<Rightarrow> client option \<Rightarrow> (pyval \<times> client option) res"
where
  "object_to_python f ob c =
     rbind (getint ''type_id'' ob) (\<lambda>tid. rbind (getint ''schema_id'' ob) (\<lambda>sid.
       rbind (query_class tid sid c) (\<lambda>(cl, c0).
         rbind (getint ''version'' ob) (\<lambda>version.
           rbind (rfold (\<lambda>(name, ft) (fs, c).
               rbind (getattr (Nm ''object_fields'') ob) (\<lambda>fields.
                 rbind (getattr (Fld name) fields) (\<lambda>x.
                   rbind (f ft x c) (\<lambda>(v, c'). Inr (fs @ [(name, v)], c')))))
               (cls_schema cl) ([], c0)) (\<lambda>(attrs, c').
             Inr (VObject cl version attrs None, c'))))))"

lemma containers_to_python_cong [fundef_cong]:
  assumes "ob = ob'" and "c = c'"
    and "\<And>j x c. getattr (Element j) ob' = Inr x \<Longrightarrow> f x c = g x c"
  shows "object_array_to_python f ob c = object_array_to_python g ob' c'"
    and "collection_to_python f ob c = collection_to_python g ob' c'"
    and "map_to_python f ob c = map_to_python g ob' c'"
  unfolding object_array_to_python_def collection_to_python_def map_to_python_def using assms
  by (auto intro!: rbind_cong rfold_cong element_step_cong pair_step_cong)

lemma object_to_python_cong [fundef_cong]:
  assumes "ob = ob'" and "c = c'"
    and "\<And>ft n fields x c. getattr (Nm ''object_fields'') ob' = Inr fields \<Longrightarrow>
      getattr (Fld n) fields = Inr x \<Longrightarrow> f ft x c = g ft x c"
  shows "object_to_python f ob c = object_to_python g ob' c'"
  unfolding object_to_python_def using assms
  by (auto intro!: rbind_cong rfold_cong)

function to_py :: "dtype \<Rightarrow> cobj \<Rightarrow> client option \<Rightarrow> (pyval \<times> client option) res" where
  "to_py d ob c =
     (case d of
        AnyDataObject \<Rightarrow>
          rbind (getint ''type_code'' ob) (\<lambda>tc. rbind (int_to_bytes 1 False tc) (\<lambda>b.
            rbind (tc_map b) (\<lambda>d'. to_py d' ob c)))
      | ObjectArrayObject \<Rightarrow>
          nullable_conv (object_array_to_python (\<lambda>x c. to_py AnyDataObject x c)) ob c
      | CollectionObject \<Rightarrow>
          nullable_conv (collection_to_python (\<lambda>x c. to_py AnyDataObject x c)) ob c
      | MapObject \<Rightarrow> nullable_conv (map_to_python (\<lambda>x c. to_py AnyDataObject x c)) ob c
      | BinaryObject \<Rightarrow> nullable_conv (object_to_python (\<lambda>ft x c. to_py ft x c)) ob c
      | _ \<Rightarrow> rbind (leaf_to_python d ob) (\<lambda>v. Inr (v, c)))"
  by pat_completeness auto
termination
proof (relation "measure (\<lambda>(d, ob, c). 2 * size ob + (if d = AnyDataObject then 1 else 0))")
  show "((d', ob, c), d, ob, c) \<in> measure (\<lambda>(d, ob, c). 2 * size ob + (if d = AnyDataObject then 1 else 0))"
    if "d = AnyDataObject" "tc_map b = Inr d'" for d ob c b d'
    using that tc_map_not_any [of b] by auto
qed (auto dest!: getattr_size)

declare to_py.simps [simp del]

text \<open>\<open>AnyDataArray\<close> and \<open>Map\<close>: the payload-only sequences of the requests and responses.\<close>

definition any_array_parse :: "nat \<Rightarrow> bstream \<Rightarrow> (ctype \<times> bstream) res" where
  "any_array_parse n st =
     (let (b, st1) = slice (spos st) 4 st
      in rbind (parse_elements (parse_obj n AnyDataObject) 0 (le_nat b) (seek_cur 4 st1))
           (\<lambda>(fs, st2). Inr (CStruct ((Nm ''length'', c_int) # fs), st2)))"

definition any_array_to_python :: "cobj \<Rightarrow> client option \<Rightarrow> (pyval \<times> client option) res" where
  "any_array_to_python ob c =
     rbind (getint ''length'' ob) (\<lambda>n.
       rbind (rfold (element_step (to_py AnyDataObject) ob) [0..<nat n] ([], c))
         (\<lambda>(vs, c'). Inr (VList vs, c')))"

definition map_payload_parse :: "nat \<Rightarrow> bstream \<Rightarrow> (ctype \<times> bstream) res" where
  "map_payload_parse n st =
     (let (b, st1) = slice (spos st) 4 st
      in rbind (parse_elements (parse_obj n AnyDataObject) 0 (2 * le_nat b) (seek_cur 4 st1))
           (\<lambda>(fs, st2). Inr (CStruct ((Nm ''length'', c_int) # fs), st2)))"

definition map_payload_to_python :: "cobj \<Rightarrow> client option \<Rightarrow> (pyval \<times> client option) res" where
  "map_payload_to_python ob c =
     rbind (getint ''length'' ob) (\<lambda>n.
       rbind (rfold (pair_step (to_py AnyDataObject) ob) [0..<nat n] ([], c))
         (\<lambda>(kvs, c'). Inr (VDict False kvs, c')))"

end
