(* ===== verification/Depth.thy ===== *)
theory Depth
  imports Reading
begin

section \<open>Parsing ends on every input\<close>

text \<open>
  The element counts come from the input, so parsing recurses as the input says. A parser
  only moves forward, and it recurses only after it found a byte of its own, so a depth
  proportional to the bytes left is enough for every input, and more depth changes nothing.
\<close>

definition rem :: "bstream \<Rightarrow> nat" where
  "rem st = length (sbuf st) - spos st"

definition forward :: "bstream \<Rightarrow> bstream \<Rightarrow> bool" where
  "forward st st' \<longleftrightarrow> sbuf st' = sbuf st \<and> spos st \<le> spos st'"

text \<open>\<open>sane m p\<close>: on at most \<open>m\<close> remaining bytes \<open>p\<close> does not exhaust the depth and moves forward.\<close>

definition sane :: "nat \<Rightarrow> (bstream \<Rightarrow> ('a \<times> bstream) res) \<Rightarrow> bool" where
  "sane m p \<longleftrightarrow> (\<forall>st. rem st \<le> m \<longrightarrow> p st \<noteq> Inl RecursionError \<and>
     (\<forall>t st'. p st = Inr (t, st') \<longrightarrow> forward st st'))"

lemma forward_refl [simp]: "forward st st"
  by (simp add: forward_def)

lemma forward_trans: "forward st st1 \<Longrightarrow> forward st1 st2 \<Longrightarrow> forward st st2"
  by (simp add: forward_def)

lemma forward_rem: "forward st st' \<Longrightarrow> rem st' \<le> rem st"
  by (simp add: forward_def rem_def diff_le_mono2)

lemma forward_moves [simp]:
  "forward st (getbuffer st') = forward st st'"
  "forward (getbuffer st) st' = forward st st'"
  by (simp_all add: forward_def)

lemma forward_seek: "forward st st' \<Longrightarrow> forward st (seek_cur n st')"
  by (simp add: forward_def)

lemma rem_getbuffer [simp]: "rem (getbuffer st) = rem st"
  by (simp add: rem_def)

lemma rem_seek [simp]: "rem (seek_cur n st) = rem st - n"
  by (simp add: rem_def)

lemma saneI:
  "(\<And>st. rem st \<le> m \<Longrightarrow> p st \<noteq> Inl RecursionError \<and> (\<forall>t st'. p st = Inr (t, st') \<longrightarrow> forward st st')) \<Longrightarrow>
   sane m p"
  by (simp add: sane_def)

lemma saneD:
  "sane m p \<Longrightarrow> rem st \<le> m \<Longrightarrow> p st \<noteq> Inl RecursionError"
  "sane m p \<Longrightarrow> rem st \<le> m \<Longrightarrow> p st = Inr (t, st') \<Longrightarrow> forward st st'"
  by (auto simp: sane_def)

lemma sane_elements: "sane m p \<Longrightarrow> sane m (parse_elements p i n)"
proof (induction n arbitrary: i)
  case 0
  then show ?case by (simp add: sane_def)
next
  case (Suc n)
  show ?case
  proof (rule saneI)
    fix st assume r: "rem st \<le> m"
    show "parse_elements p i (Suc n) st \<noteq> Inl RecursionError \<and>
      (\<forall>t st'. parse_elements p i (Suc n) st = Inr (t, st') \<longrightarrow> forward st st')"
    proof (cases "p st")
      case (Inl e)
      with saneD(1) [OF Suc.prems r] show ?thesis by simp
    next
      case (Inr x)
      obtain t st1 where x: "x = (t, st1)" by (cases x)
      with Inr have f: "forward st st1" using saneD(2) [OF Suc.prems r] by simp
      then have r1: "rem st1 \<le> m" using r forward_rem by (meson le_trans)
      note s = Suc.IH [OF Suc.prems, of "Suc i"]
      from saneD [OF s r1] f show ?thesis
        by (cases "parse_elements p (Suc i) n st1")
          (auto simp: Inr x intro: forward_trans)
    qed
  qed
qed

lemma sane_nullable: "sane m p \<Longrightarrow> sane m (nullable_parse p)"
proof (rule saneI)
  fix st assume s: "sane m p" and r: "rem st \<le> m"
  then have "rem (getbuffer st) \<le> m" by simp
  with saneD [OF s this] show "nullable_parse p st \<noteq> Inl RecursionError \<and>
      (\<forall>t st'. nullable_parse p st = Inr (t, st') \<longrightarrow> forward st st')"
    by (auto simp: nullable_parse_def slice_def forward_seek)
qed

lemma sane_leaf: "sane m (leaf_parse d)"
proof -
  have prim: "sane m null_parse" "sane m (data_object_parse p)" "sane m (prim_array_object_parse p)"
    "sane m wrapped_parse" for p
    by (simp_all add: sane_def null_parse_def data_object_parse_def prim_array_object_parse_def
        wrapped_parse_def slice_def Let_def forward_seek)
  have std: "sane m (std_parse s)" for s
    unfolding std_parse_def
    by (rule sane_nullable, cases s)
      (simp_all add: std_parse_not_null_def string_parse_def decimal_parse_def fixed_parse_def
        slice_def Let_def sane_def forward_seek)
  have arr: "sane m (std_array_object_parse s)" for s
  proof (rule saneI)
    fix st assume r: "rem st \<le> m"
    let ?k = "if has_type_id s then 5 else 1"
    let ?n = "le_nat (bslice (sbuf st) (spos st + ?k) 4)"
    let ?st1 = "seek_cur (?k + 4) (getbuffer st)"
    have "rem ?st1 \<le> m" "forward st ?st1" using r by (simp_all add: forward_def)
    with saneD [OF sane_elements [OF std [of s]], of ?st1 0 ?n]
    show "std_array_object_parse s st \<noteq> Inl RecursionError \<and>
        (\<forall>t st'. std_array_object_parse s st = Inr (t, st') \<longrightarrow> forward st st')"
      unfolding std_array_object_parse_def slice_def Let_def prod.case
      by (cases "parse_elements (std_parse s) 0 ?n ?st1") (auto intro: forward_trans)
  qed
  show ?thesis
    by (cases d) (simp_all add: leaf_parse_def prim std arr sane_nullable)
qed

subsection \<open>Containers\<close>

lemma le_nat_bslice: "le_nat (bslice buf i 4) \<noteq> 0 \<Longrightarrow> i < length buf"
  by (rule ccontr) (simp add: bslice_def)

lemma sane_counted:
  assumes p: "0 < m \<Longrightarrow> sane (m - 1) p" and k: "0 < k" and f: "f 0 = 0"
  shows "sane m (\<lambda>st. let (b, st1) = slice (spos st + j) 4 st
    in rbind (parse_elements p 0 (f (le_nat b)) (seek_cur k st1)) (\<lambda>(fs, st2). Inr (CStruct (hs @ fs), st2)))"
proof (rule saneI)
  fix st assume r: "rem st \<le> m"
  let ?n = "f (le_nat (bslice (sbuf st) (spos st + j) 4))" and ?st1 = "seek_cur k (getbuffer st)"
  have st1: "forward st ?st1" by (simp add: forward_def)
  have "parse_elements p 0 ?n ?st1 \<noteq> Inl RecursionError \<and>
      (\<forall>t st'. parse_elements p 0 ?n ?st1 = Inr (t, st') \<longrightarrow> forward ?st1 st')"
  proof (cases "?n = 0")
    case False
    then have "spos st + j < length (sbuf st)" using f le_nat_bslice by metis
    then have "0 < rem st" by (simp add: rem_def)
    with r k have "0 < m" "rem ?st1 \<le> m - 1" by simp_all
    with saneD [OF sane_elements [OF p]] show ?thesis by blast
  qed simp
  with st1 show "(let (b, st1) = slice (spos st + j) 4 st
      in rbind (parse_elements p 0 (f (le_nat b)) (seek_cur k st1)) (\<lambda>(fs, st2). Inr (CStruct (hs @ fs), st2)))
        \<noteq> Inl RecursionError \<and>
      (\<forall>t st'. (let (b, st1) = slice (spos st + j) 4 st
      in rbind (parse_elements p 0 (f (le_nat b)) (seek_cur k st1)) (\<lambda>(fs, st2). Inr (CStruct (hs @ fs), st2)))
        = Inr (t, st') \<longrightarrow> forward st st')"
    unfolding slice_def Let_def prod.case
    by (cases "parse_elements p 0 ?n ?st1") (auto intro: forward_trans)
qed

lemma sane_fields:
  "(\<And>d. sane m (p d)) \<Longrightarrow> sane m (parse_fields nm p sch)"
proof (induction sch)
  case Nil
  then show ?case by (simp add: sane_def)
next
  case (Cons f sch)
  obtain name d where f: "f = (name, d)" by (cases f)
  show ?case
  proof (rule saneI)
    fix st assume r: "rem st \<le> m"
    show "parse_fields nm p (f # sch) st \<noteq> Inl RecursionError \<and>
      (\<forall>t st'. parse_fields nm p (f # sch) st = Inr (t, st') \<longrightarrow> forward st st')"
    proof (cases "p d st")
      case (Inl e)
      with saneD(1) [OF Cons.prems [of d] r] f show ?thesis by simp
    next
      case (Inr x)
      obtain t st1 where x: "x = (t, st1)" by (cases x)
      with Inr have fw: "forward st st1" using saneD(2) [OF Cons.prems [of d] r] by simp
      then have r1: "rem st1 \<le> m" using r forward_rem by (meson le_trans)
      from saneD [OF Cons.IH [OF Cons.prems] r1] fw show ?thesis
        by (cases "parse_fields nm p sch st1") (auto simp: Inr x f intro: forward_trans)
    qed
  qed
qed

text \<open>Lookups in the registry do not recurse.\<close>

lemma getint_no_recursion: "getint f ob \<noteq> Inl RecursionError"
proof -
  have "getattr_fields g os \<noteq> Inl RecursionError" for g os
    by (induction os) (auto split: if_splits)
  then have "getattr g ob \<noteq> Inl RecursionError" for g by (cases ob) auto
  moreover have "as_int x \<noteq> Inl RecursionError" for x by (cases x) auto
  ultimately show ?thesis by (cases "getattr (Nm f) ob") (auto simp: getint_def)
qed

lemma sync_schemas_no_recursion: "sync_schemas tid name schs c \<noteq> Inl RecursionError"
proof (induction tid name schs c rule: sync_schemas.induct)
  case (2 tid name sch rest c)
  show ?case
  proof (cases "map_of (registry c tid) (schema_id_fallback (schema_arg_of sch))")
    case None
    then show ?thesis
      using "2.IH"(1) [OF refl None] by (cases "make_class (create_type_name name) sch")
        (auto simp: Let_def make_class_def split: if_splits)
  next
    case (Some cl)
    then show ?thesis using "2.IH"(2) [OF refl Some] by (simp add: Let_def)
  qed
qed simp

lemma get_dataclass_no_recursion: "stream_get_dataclass tid sid st \<noteq> Inl RecursionError"
proof -
  have "query_binary_type tid s c \<noteq> Inl RecursionError" for s c
    using sync_schemas_no_recursion
    by (cases "sync_binary_registry tid (server_types c tid) c")
      (auto simp: query_binary_type_def sync_binary_registry_def Let_def split: if_splits)
  then have "get_dataclass tid sid c \<noteq> Inl RecursionError" for c
    by (cases "query_binary_type tid (Some sid) c") (auto simp: get_dataclass_def split: reg_result.splits if_splits)
  then show ?thesis
    by (cases "get_dataclass tid sid (sclient st)") (auto simp: stream_get_dataclass_def)
qed

lemma rbind_no_recursion:
  "m \<noteq> Inl RecursionError \<Longrightarrow> (\<And>x. m = Inr x \<Longrightarrow> f x \<noteq> Inl RecursionError) \<Longrightarrow>
   rbind m f \<noteq> Inl RecursionError"
  by (cases m) auto

lemma rbind_Inr_eq_Inl: "rbind m (\<lambda>x. Inr (f x)) = Inl e \<longleftrightarrow> m = Inl e"
  by (cases m) auto

lemma binary_header_moves:
  assumes "binary_parse_header st = Inr (h, st1)"
  shows "24 \<le> rem st" and "sbuf st1 = sbuf st" and "spos st1 = spos st + 24"
  using assms by (auto simp: binary_parse_header_def rbind_eq_Inr_iff read_ctype_def Let_def
      bslice_def rem_def header_fields_def split: if_splits)

lemma final_class_moves:
  "binary_final_class flags n fs st \<noteq> Inl RecursionError"
  "binary_final_class flags n fs st = Inr (t, st') \<Longrightarrow> sbuf st' = sbuf st \<and> spos st \<le> spos st'"
proof -
  have "on_client (set_compact_footer b) s \<noteq> Inl RecursionError" for b s
    by (auto simp: on_client_def set_compact_footer_def)
  then show "binary_final_class flags n fs st \<noteq> Inl RecursionError"
    by (auto simp: binary_final_class_def Let_def rbind_Inr_eq_Inl split: if_splits)
  show "binary_final_class flags n fs st = Inr (t, st') \<Longrightarrow> sbuf st' = sbuf st \<and> spos st \<le> spos st'"
    by (auto simp: binary_final_class_def Let_def rbind_eq_Inr_iff on_client_def split: if_splits)
qed

lemma binary_header_no_recursion: "binary_parse_header st \<noteq> Inl RecursionError"
proof -
  have "(case x of (h, st1) \<Rightarrow>
      rbind (getint ''type_id'' h) (\<lambda>tid. rbind (getint ''schema_id'' h) (\<lambda>sid.
        rbind (getint ''flags'' h) (\<lambda>flags. Inr ((tid, sid, flags), seek_cur 24 st1)))))
      \<noteq> Inl RecursionError" for x
    unfolding case_prod_beta by (intro rbind_no_recursion getint_no_recursion) simp
  moreover have "read_ctype header_ct st \<noteq> Inl RecursionError" by (simp add: read_ctype_def Let_def)
  ultimately show ?thesis unfolding binary_parse_header_def by (rule rbind_no_recursion [rotated])
qed

lemma sane_binary:
  assumes p: "\<And>d. 0 < m \<Longrightarrow> sane (m - 1) (p d)"
  shows "sane m (binary_parse p)"
proof (rule saneI)
  fix st assume r: "rem st \<le> m"
  have flds: "parse_fields Fld p sch st2 \<noteq> Inl RecursionError \<and>
      (\<forall>fs st3. parse_fields Fld p sch st2 = Inr (fs, st3) \<longrightarrow> forward st st3)"
    if "binary_parse_header st = Inr (h, st1)"
      "stream_get_dataclass tid sid st1 = Inr (cl, st2)" for h st1 st2 cl tid sid sch
  proof -
    note hdr = binary_header_moves [OF that(1)]
    have st2: "sbuf st2 = sbuf st" "spos st2 = spos st + 24"
      using that(2) hdr by (auto simp: stream_get_dataclass_def rbind_eq_Inr_iff)
    have m: "0 < m" "rem st2 \<le> m - 1" using hdr(1) r st2 by (auto simp: rem_def)
    have "forward st st2" using st2 by (simp add: forward_def)
    moreover have "sane (m - 1) (parse_fields Fld p sch)" by (rule sane_fields) (rule p [OF m(1)])
    note saneD [OF this m(2)]
    ultimately show ?thesis by (blast intro: forward_trans)
  qed
  show "binary_parse p st \<noteq> Inl RecursionError \<and>
      (\<forall>t st'. binary_parse p st = Inr (t, st') \<longrightarrow> forward st st')"
  proof (cases "binary_parse_header st")
    case (Inl e)
    then show ?thesis using binary_header_no_recursion [of st] by (simp add: binary_parse_def)
  next
    case (Inr x)
    obtain tid sid flags st1 where x: "x = ((tid, sid, flags), st1)" by (metis surj_pair)
    show ?thesis
    proof (cases "stream_get_dataclass tid sid st1")
      case (Inl e)
      then show ?thesis
        using get_dataclass_no_recursion [of tid sid st1] Inr x by (simp add: binary_parse_def)
    next
      case y: (Inr y)
      obtain cl st2 where c: "y = (cl, st2)" by (cases y)
      note f = flds [OF Inr [unfolded x] y [unfolded c], of "cls_schema cl"]
      show ?thesis
      proof (cases "parse_fields Fld p (cls_schema cl) st2")
        case (Inl e)
        with f Inr x y c show ?thesis by (simp add: binary_parse_def)
      next
        case z: (Inr z)
        obtain fs st3 where d: "z = (fs, st3)" by (cases z)
        have fw: "forward st st3" using f z d by simp
        have e: "binary_parse p st = binary_final_class flags (length (cls_schema cl)) fs st3"
          by (simp add: binary_parse_def Inr x y c z d)
        show ?thesis
          unfolding e using final_class_moves(1) final_class_moves(2) fw
          by (metis forward_def le_trans)
      qed
    qed
  qed
qed

lemma parse_obj_sane: "2 * m + 1 + (if d = AnyDataObject then 1 else 0) \<le> n \<Longrightarrow> sane m (parse_obj n d)"
proof (induction n arbitrary: d m)
  case (Suc n)
  have el: "0 < m \<Longrightarrow> sane (m - 1) (parse_obj n d')" if "d \<noteq> AnyDataObject" for d'
    by (rule Suc.IH) (use Suc.prems that in auto)
  show ?case
  proof (cases "d \<in> {AnyDataObject, ObjectArrayObject, CollectionObject, MapObject, BinaryObject}")
    case False
    then have "parse_obj (Suc n) d = leaf_parse d" by (cases d) (auto simp: fun_eq_iff)
    then show ?thesis using sane_leaf by simp
  next
    case True
    then consider "d = AnyDataObject" | "d = ObjectArrayObject" | "d = CollectionObject"
      | "d = MapObject" | "d = BinaryObject" by auto
    then show ?thesis
    proof cases
      case 1
      show ?thesis
      proof (rule saneI)
        fix st assume r: "rem st \<le> m"
        show "parse_obj (Suc n) d st \<noteq> Inl RecursionError \<and>
            (\<forall>t st'. parse_obj (Suc n) d st = Inr (t, st') \<longrightarrow> forward st st')"
        proof (cases "tc_map (bslice (sbuf st) (spos st) 1)")
          case (Inl e)
          then show ?thesis by (simp add: 1 slice_def)
        next
          case (Inr d')
          then have "d' \<noteq> AnyDataObject" using tc_map_not_any by metis
          then have "sane m (parse_obj n d')" using Suc.prems 1 by (intro Suc.IH) simp
          from saneD [OF this, of "getbuffer st"] r Inr show ?thesis by (simp add: 1 slice_def)
        qed
      qed
    next
      case 2
      have "sane m (object_array_parse (parse_obj n AnyDataObject))"
        unfolding object_array_parse_def
        by (rule sane_counted [where f = "\<lambda>x. x"]) (use el 2 in auto)
      then show ?thesis using sane_nullable by (simp add: 2 sane_def)
    next
      case 3
      have "sane m (collection_parse (parse_obj n AnyDataObject))"
        unfolding collection_parse_def
        by (rule sane_counted [where f = "\<lambda>x. x"]) (use el 3 in auto)
      then show ?thesis using sane_nullable by (simp add: 3 sane_def)
    next
      case 4
      have "sane m (map_parse (parse_obj n AnyDataObject))"
        unfolding map_parse_def
        by (rule sane_counted [where f = "\<lambda>x. 2 * x"]) (use el 4 in auto)
      then show ?thesis using sane_nullable by (simp add: 4 sane_def)
    next
      case 5
      have "sane m (binary_parse (parse_obj n))" by (rule sane_binary) (use el 5 in auto)
      then show ?thesis using sane_nullable by (simp add: 5 sane_def)
    qed
  qed
qed simp

subsection \<open>More depth changes nothing\<close>

definition refines :: "('a \<Rightarrow> 'b res) \<Rightarrow> ('a \<Rightarrow> 'b res) \<Rightarrow> bool" where
  "refines p q \<longleftrightarrow> (\<forall>st. p st \<noteq> Inl RecursionError \<longrightarrow> q st = p st)"

lemma refinesD: "refines p q \<Longrightarrow> p st \<noteq> Inl RecursionError \<Longrightarrow> q st = p st"
  by (simp add: refines_def)

lemma rbind_refines:
  assumes "rbind m f \<noteq> Inl RecursionError" and "m \<noteq> Inl RecursionError \<Longrightarrow> m' = m"
    and "\<And>x. m = Inr x \<Longrightarrow> f x \<noteq> Inl RecursionError \<Longrightarrow> f' x = f x"
  shows "rbind m' f' = rbind m f"
  using assms by (cases m) auto

lemma refines_elements: "refines p q \<Longrightarrow> refines (parse_elements p i n) (parse_elements q i n)"
proof (induction n arbitrary: i)
  case (Suc n)
  have "refines (parse_elements p (Suc i) n) (parse_elements q (Suc i) n)" using Suc by simp
  then show ?case
    unfolding refines_def parse_elements.simps
    by (intro allI impI rbind_refines)
      (use Suc.prems in \<open>auto simp: rbind_Inr_eq_Inl case_prod_beta refines_def cong: rbind_cong\<close>)
qed (simp add: refines_def)

lemma refines_fields: "(\<And>d. refines (p d) (q d)) \<Longrightarrow> refines (parse_fields nm p sch) (parse_fields nm q sch)"
proof (induction sch)
  case (Cons f sch)
  obtain name d where f: "f = (name, d)" by (cases f)
  have "refines (parse_fields nm p sch) (parse_fields nm q sch)" using Cons by simp
  then show ?case
    unfolding refines_def parse_fields.simps f
    by (intro allI impI rbind_refines)
      (use Cons.prems [of d] in \<open>auto simp: rbind_Inr_eq_Inl case_prod_beta refines_def cong: rbind_cong\<close>)
qed (simp add: refines_def)

lemma refines_nullable: "refines p q \<Longrightarrow> refines (nullable_parse p) (nullable_parse q)"
  by (auto simp: refines_def nullable_parse_def slice_def)

lemma rbind_pair_eq_Inl: "rbind m (\<lambda>(a, b). Inr (f a b)) = Inl e \<longleftrightarrow> m = Inl e"
  by (cases m) auto

lemma refines_counted:
  assumes "refines p q"
  shows "refines (object_array_parse p) (object_array_parse q)"
    and "refines (collection_parse p) (collection_parse q)"
    and "refines (map_parse p) (map_parse q)"
  using refines_elements [OF assms]
  by (auto simp: refines_def object_array_parse_def collection_parse_def map_parse_def slice_def
      Let_def rbind_pair_eq_Inl)

lemma refines_binary:
  assumes "\<And>d. refines (p d) (q d)"
  shows "refines (binary_parse p) (binary_parse q)"
  unfolding refines_def
proof (intro allI impI)
  fix st assume ne: "binary_parse p st \<noteq> Inl RecursionError"
  have f: "parse_fields Fld q sch s = parse_fields Fld p sch s" if "parse_fields Fld p sch s \<noteq> Inl RecursionError"
    for sch s using refinesD [OF refines_fields [OF assms] that] .
  show "binary_parse q st = binary_parse p st"
  proof (cases "binary_parse_header st")
    case (Inr x)
    obtain tid sid flags st1 where x: "x = ((tid, sid, flags), st1)" by (metis surj_pair)
    show ?thesis
    proof (cases "stream_get_dataclass tid sid st1")
      case y: (Inr y)
      obtain cl st2 where "y = (cl, st2)" by (cases y)
      with ne Inr x y f [of "cls_schema cl" st2] show ?thesis
        by (cases "parse_fields Fld p (cls_schema cl) st2 = Inl RecursionError") (auto simp: binary_parse_def)
    qed (simp add: binary_parse_def Inr x)
  qed (simp add: binary_parse_def)
qed

lemma refines_parse_obj: "refines (parse_obj n d) (parse_obj (Suc n) d)"
proof (induction n arbitrary: d)
  case 0
  then show ?case by (simp add: refines_def)
next
  case (Suc n)
  show ?case
  proof (cases "d = AnyDataObject")
    case True
    have "parse_obj (Suc (Suc n)) d st = parse_obj (Suc n) d st"
      if "parse_obj (Suc n) d st \<noteq> Inl RecursionError" for st
      using that Suc.IH [unfolded refines_def]
      by (cases "tc_map (bslice (sbuf st) (spos st) 1)") (simp_all add: True slice_def)
    then show ?thesis by (simp add: refines_def)
  next
    case False
    note r = refines_counted [OF Suc.IH, THEN refines_nullable]
      refines_binary [of "parse_obj n" "parse_obj (Suc n)", OF Suc.IH, THEN refines_nullable]
    have c: "parse_obj (Suc m) d = (case d of
        ObjectArrayObject \<Rightarrow> nullable_parse (object_array_parse (parse_obj m AnyDataObject))
      | CollectionObject \<Rightarrow> nullable_parse (collection_parse (parse_obj m AnyDataObject))
      | MapObject \<Rightarrow> nullable_parse (map_parse (parse_obj m AnyDataObject))
      | BinaryObject \<Rightarrow> nullable_parse (binary_parse (parse_obj m))
      | _ \<Rightarrow> leaf_parse d)" for m
      using False by (cases d) (simp_all add: fun_eq_iff)
    have same: "refines f f" for f :: "bstream \<Rightarrow> (ctype \<times> bstream) res" by (simp add: refines_def)
    show ?thesis
      unfolding c using False by (cases d) (simp_all only: dtype.case r same not_True_eq_False)
  qed
qed

lemma parse_obj_more: "parse_obj n d st \<noteq> Inl RecursionError \<Longrightarrow> parse_obj (n + k) d st = parse_obj n d st"
proof (induction k)
  case (Suc k)
  then have "parse_obj (n + k) d st \<noteq> Inl RecursionError" by simp
  with Suc refinesD [OF refines_parse_obj [of "n + k" d]] show ?case by simp
qed simp

text \<open>
  C19. Parsing any bytes as any class ends: a recursion depth of twice the number of bytes
  left, plus two, is never exhausted, whatever lengths and nesting the input announces; and a
  parser that succeeds only moved the position forward.
\<close>

theorem parse_depth_sufficient:
  assumes "2 * (length (sbuf st) - spos st) + 2 \<le> n"
  shows "parse_obj n d st \<noteq> Inl RecursionError \<and>
    parse_obj (n + k) d st = parse_obj n d st \<and>
    (\<forall>t st'. parse_obj n d st = Inr (t, st') \<longrightarrow> sbuf st' = sbuf st \<and> spos st \<le> spos st')"
proof -
  have "sane (rem st) (parse_obj n d)" using assms by (intro parse_obj_sane) (simp add: rem_def)
  note s = saneD(1) [OF this le_refl] saneD(2) [OF this le_refl]
  have f: "\<forall>t st'. parse_obj n d st = Inr (t, st') \<longrightarrow> sbuf st' = sbuf st \<and> spos st \<le> spos st'"
    using s(2) unfolding forward_def by blast
  show ?thesis by (intro conjI s(1) parse_obj_more [OF s(1)] f)
qed

theorem parse_depth_sufficient_witness:
  "parse_obj 8 AnyDataObject (new_stream (new_client None) [0x18, 1, 0]) \<noteq> Inl RecursionError"
proof -
  let ?s = "new_stream (new_client None) [0x18, 1, 0]"
  have "2 * (length (sbuf ?s) - spos ?s) + 2 \<le> 8" by (simp add: new_stream_def)
  from this show ?thesis by (rule parse_depth_sufficient [THEN conjunct1])
qed

end
