(* ===== verification/LeafTrip.thy ===== *)
theory LeafTrip
  imports Depth
begin

section \<open>Round trip of the classes without nested objects\<close>

text \<open>
  \<open>leaf_good d v w\<close>: the value \<open>v\<close> written as class \<open>d\<close> reads back as \<open>w\<close>. It is defined by
  what each class keeps of a value (wrapped integers, text up to its first NUL character,
  times in milliseconds, \<dots>), and \<open>leaf_codec\<close> proves that it is what the code does.
\<close>

definition prim_good :: "prim \<Rightarrow> pyval \<Rightarrow> pyval \<Rightarrow> bool" where
  "prim_good p v w \<longleftrightarrow>
     (int_prim p \<and> (\<exists>i. py_index v = Some i \<and> w = VInt (signed_wrap (sizeof_ct (prim_ct p)) i))) \<or>
     (p = TBool \<and> (\<exists>b. v = VBool b \<and> w = v)) \<or>
     (p = TDouble \<and> (\<exists>x. v = VFloat x \<and> w = v)) \<or>
     (p = TChar \<and> (\<exists>c. v = VStr [c] \<and> is_scalar c \<and> c < 0x8000 \<and> w = v))"

definition prim_array_good :: "prim \<Rightarrow> pyval \<Rightarrow> pyval \<Rightarrow> bool" where
  "prim_array_good p v w \<longleftrightarrow>
     (int_prim p \<and> p \<noteq> TByte \<and> (\<exists>is. length is < 2 ^ 31 \<and> v = VList (map VInt is) \<and> w = v)) \<or>
     (p = TByte \<and> (\<exists>b. length b < 2 ^ 31 \<and> (v = VBytes b \<or> v = VByteArray b) \<and> w = VBytes b)) \<or>
     (p = TBool \<and> (\<exists>bs. length bs < 2 ^ 31 \<and> v = VList (map VBool bs) \<and> w = v)) \<or>
     (p = TDouble \<and> (\<exists>xs. length xs < 2 ^ 31 \<and> v = VList (map VFloat xs) \<and> w = v))"

definition leaf_good :: "dtype \<Rightarrow> pyval \<Rightarrow> pyval \<Rightarrow> bool" where
  "leaf_good d v w \<longleftrightarrow>
     (if v = VNone \<or> d = Null then w = VNone
      else case d of
        DataObject p \<Rightarrow> prim_good p v w
      | Standard s \<Rightarrow> std_good s v w
      | PrimitiveArrayObject p \<Rightarrow> prim_array_good p v w
      | StandardArrayObject s \<Rightarrow> \<not> has_type_id s \<and>
          (\<exists>vs ws. v = VList vs \<and> list_all2 (std_good s) vs ws \<and> length vs < 2 ^ 31 \<and> w = VList ws)
      | _ \<Rightarrow> False)"

definition leaf_class :: "dtype \<Rightarrow> bool" where
  "leaf_class d \<longleftrightarrow> d \<notin> {AnyDataObject, ObjectArrayObject, CollectionObject, MapObject, BinaryObject}"

subsection \<open>The first byte\<close>

lemma std_tag_lt [simp]: "unat (std_code s) < 128" "std_code s \<noteq> TC_NULL"
  by (cases s; simp add: TC_NULL_def)+

lemma store_coded:
  "store_ct (CStruct ((Nm f, CInt (Suc 0) True) # fs)) (OStruct (code_obj c # os)) = c # store_fields fs os"
  by (simp add: code_obj_def)

lemma pair_case_Inr:
  "(case xs of [a, b] \<Rightarrow> f a b | _ \<Rightarrow> Inl e) = Inr y \<longleftrightarrow> (\<exists>a b. xs = [a, b] \<and> f a b = Inr y)"
  by (auto split: list.splits)

lemma ct_bytes_code [simp]: "ct_bytes (Suc 0) (int (unat c)) = [c]" for c :: byte
  by simp

lemma std_head:
  "std_from_python_not_null s v = Inr bs \<Longrightarrow> \<exists>t. bs = std_code s # t"
  by (cases s)
    (auto simp: std_from_python_not_null_def string_from_python_def decimal_from_python_def
      uuid_from_python_def timestamp_from_python_def date_from_python_def time_from_python_def
      enum_from_python_def pair_case_Inr string_ct_def decimal_ct_def uuid_ct_def timestamp_ct_def date_ct_def
      time_ct_def enum_ct_def string_obj_def Let_def store_coded rbind_eq_Inr_iff
      simp del: std_code.simps store_ct.simps split: pyval.splits prod.splits)

lemma prim_head: "data_object_from_python p v = Inr bs \<Longrightarrow> \<exists>t. bs = prim_code p # t"
  by (cases "p = TChar")
    (auto simp: data_object_from_python_def data_object_ct_def store_coded rbind_eq_Inr_iff
      simp del: prim_code.simps store_ct.simps)

lemma leaf_head:
  assumes "leaf_from_python d v = Inr bs" and "v \<noteq> VNone" and "d \<noteq> Null"
  shows "\<exists>c t. bs = c # t \<and> type_code d = Some c"
  using assms
  by (cases d)
    (auto simp: leaf_from_python_def dest!: prim_head std_head simp del: std_code.simps prim_code.simps
      simp: prim_array_object_from_python_def std_array_object_from_python_def rbind_eq_Inr_iff
      pair_case_Inr split: if_splits)

subsection \<open>The primitive objects\<close>

lemma char_object_decodes:
  assumes "is_scalar c" and "c < 0x8000"
  shows "decodes P (nullable_parse (data_object_parse TChar)) (nullable_to_python (data_object_to_python TChar))
     (prim_code TChar # ct_bytes 2 (int c)) (VStr [c])"
proof -
  let ?ob = "OStruct [code_obj (prim_code TChar), (Nm ''value'', OInt (int c))]"
  have d: "decode_char (OInt (int c)) = Inr (VStr [c])"
    using decode_char_value [OF assms(1)] assms(2) by simp
  have "decodes P (nullable_parse (data_object_parse TChar))
      (nullable_to_python (data_object_to_python TChar)) (store_ct (data_object_ct TChar) ?ob) (VStr [c])"
    by (rule nullable_fixed_decodes [where c = "prim_code TChar"])
      (use assms(2) in \<open>auto simp: data_object_parse_def data_object_ct_def data_object_to_python_def
        code_obj_def d in_range_def TC_NULL_def\<close>)
  moreover have "store_ct (data_object_ct TChar) ?ob = prim_code TChar # ct_bytes 2 (int c)"
    by (simp add: data_object_ct_def code_obj_def ct_bytes_def)
  ultimately show ?thesis by simp
qed

lemma prim_codec:
  assumes "data_object_from_python p v = Inr bs" and "prim_good p v w"
  shows "decodes P (nullable_parse (data_object_parse p)) (nullable_to_python (data_object_to_python p)) bs w"
  using assms(2) unfolding prim_good_def
proof (elim disjE conjE exE)
  fix i assume p: "int_prim p" and v: "py_index v = Some i"
    and w: "w = VInt (signed_wrap (sizeof_ct (prim_ct p)) i)"
  obtain k where k: "prim_ct p = CInt k True" "0 < k" using int_prim_ct [OF p] by auto
  have "bs = store_ct (data_object_ct p)
      (OStruct [code_obj (prim_code p), (Nm ''value'', OInt (signed_wrap k i))])"
    using assms(1) p k v
    by (auto simp: data_object_from_python_def ctypes_set_def int_prim_def data_object_ct_def
        ct_bytes_signed_wrap code_obj_def ct_bytes_def [of "Suc 0" 1] ct_bytes_def [of "Suc 0" 2]
        ct_bytes_def [of "Suc 0" 3] ct_bytes_def [of "Suc 0" 4])
  moreover have "in_range (sizeof_ct (prim_ct p)) True (signed_wrap k i)"
    using k by (simp add: signed_wrap_in_range)
  ultimately show ?thesis using int_object_decodes [OF p] k w by auto
next
  fix b assume "p = TBool" "v = VBool b" "w = v"
  with assms(1) show ?thesis
    using bool_object_decodes [of P b]
    by (auto simp: data_object_from_python_def ctypes_set_def data_object_ct_def code_obj_def
        ct_bytes_def split: if_splits)
next
  fix x assume "p = TDouble" "v = VFloat x" "w = v"
  with assms(1) show ?thesis
    using double_object_decodes [of P x]
    by (auto simp: data_object_from_python_def ctypes_set_def data_object_ct_def code_obj_def ct_bytes_def)
next
  fix c assume "p = TChar" "v = VStr [c]" "is_scalar c" "c < 0x8000" "w = v"
  with assms(1) show ?thesis
    using char_object_decodes [of c P] pack_char_bmp [of c]
    by (auto simp: data_object_from_python_def)
qed

subsection \<open>The arrays\<close>

lemma double_bytes: "simple_value (OReal (le_bytes 8 (unat (x :: 64 word)))) = Inr (VFloat x)"
proof -
  have "unat x < 256 ^ 8" using unsigned_less [of x, where ?'a = nat] by simp
  then show ?thesis by (simp add: le_nat_le_bytes)
qed

lemma prim_array_codec:
  assumes enc: "prim_array_object_from_python p v = Inr bs" and good: "prim_array_good p v w"
  shows "decodes P (nullable_parse (prim_array_object_parse p))
    (nullable_to_python (prim_array_object_to_python p)) bs w"
proof -
  from good consider
      (ints) "is" where "int_prim p" "p \<noteq> TByte" "length is < 2 ^ 31" "v = VList (map VInt is)" "w = v"
    | (bytes) b where "p = TByte" "length b < 2 ^ 31" "v = VBytes b \<or> v = VByteArray b" "w = VBytes b"
    | (bools) b where "p = TBool" "length b < 2 ^ 31" "v = VList (map VBool b)" "w = v"
    | (doubles) xs where "p = TDouble" "length xs < 2 ^ 31" "v = VList (map VFloat xs)" "w = v"
    unfolding prim_array_good_def by blast
  then show ?thesis
  proof cases
    case ints
    note p = ints(1,2) and l = ints(3) and v = ints(4) and w = ints(5)
    obtain k where k: "prim_ct p = CInt k True" "0 < k" "sizeof_ct (prim_ct p) = k"
      using int_prim_ct [OF p(1)] by auto
    let ?xs = "map OInt is"
    from enc v p l have r: "\<forall>i \<in> set is. in_range k True i" and
      bs: "bs = prim_array_code p # ct_bytes 4 (int (length is)) @ concat (map (ct_bytes k) is)"
      using k by (auto simp: prim_array_object_from_python_def rmap_pack_int length_field
          split: if_splits)
    have "rmap simple_value ?xs = Inr (map VInt is)" by (induction "is") auto
    then have "prim_array_object_to_python p (OStruct [code_obj (prim_array_code p),
        (Nm ''length'', OInt (int (length ?xs))), (Nm ''data'', OArr ?xs)]) = Inr w"
      using p by (auto simp: prim_array_object_to_python_def code_obj_def int_prim_def v w)
    moreover have "list_all (fits (prim_ct p)) ?xs" using r k by (simp add: list_all_iff)
    ultimately show ?thesis
      using prim_array_decodes [of p ?xs w P] l k by (simp add: bs comp_def)
  next
    case bytes
    with enc byte_array_decodes [of b P] show ?thesis
      by (auto simp: prim_array_object_from_python_def byte_array_payload_def length_field)
  next
    case bools
    note p = bools(1) and l = bools(2) and v = bools(3) and w = bools(4)
    let ?xs = "map (\<lambda>x. OInt (if x then 1 else 0)) b"
    have e: "rmap (prim_from_python TBool) (map VBool b) =
        Inr (map (\<lambda>x. ct_bytes 1 (if x then 1 else 0)) b)"
      by (induction b) (auto simp: struct_pack_def in_range_def)
    have "rmap decode_bool ?xs = Inr (map VBool b)" by (induction b) (auto simp: decode_bool_def)
    then have "prim_array_object_to_python p (OStruct [code_obj (prim_array_code p),
        (Nm ''length'', OInt (int (length ?xs))), (Nm ''data'', OArr ?xs)]) = Inr w"
      by (simp add: prim_array_object_to_python_def code_obj_def getint_def p v w)
    moreover have "list_all (fits (prim_ct p)) ?xs" by (simp add: list_all_iff p in_range_def)
    moreover have "bs = prim_array_code p # ct_bytes 4 (int (length b)) @
        concat (map (\<lambda>x. ct_bytes 1 (if x then 1 else 0)) b)"
      using enc p v l e by (auto simp: prim_array_object_from_python_def length_field)
    ultimately show ?thesis
      using prim_array_decodes [of p ?xs w P] l by (simp add: p comp_def)
  next
    case doubles
    note p = doubles(1) and l = doubles(2) and v = doubles(3) and w = doubles(4)
    let ?xs = "map (\<lambda>x. OReal (le_bytes 8 (unat x))) xs"
    have e: "rmap (prim_from_python TDouble) (map VFloat xs) =
        Inr (map (\<lambda>x. le_bytes 8 (unat x)) xs)"
      by (induction xs) (auto simp: pack_double_def)
    have "rmap simple_value ?xs = Inr (map VFloat xs)"
      by (induction xs) (simp_all only: list.map rmap.simps double_bytes rbind_Inr)
    then have "prim_array_object_to_python p (OStruct [code_obj (prim_array_code p),
        (Nm ''length'', OInt (int (length ?xs))), (Nm ''data'', OArr ?xs)]) = Inr w"
      by (simp add: prim_array_object_to_python_def code_obj_def p v w)
    moreover have "list_all (fits (prim_ct p)) ?xs" by (simp add: list_all_iff p)
    moreover have "bs = prim_array_code p # ct_bytes 4 (int (length xs)) @
        concat (map (\<lambda>x. le_bytes 8 (unat x)) xs)"
      using enc p v l e by (auto simp: prim_array_object_from_python_def length_field)
    ultimately show ?thesis
      using prim_array_decodes [of p ?xs w P] l by (simp add: p comp_def)
  qed
qed

subsection \<open>All of them\<close>

lemma null_decodes:
  "decodes P (nullable_parse p) (nullable_to_python f) [TC_NULL] VNone"
  "decodes P null_parse (\<lambda>ob. Inr VNone) [TC_NULL] VNone"
  by (rule nullable_null_decodes) (rule decodesI, simp add: null_parse_def null_ct_def advanced_def)

lemma leaf_codec:
  assumes enc: "leaf_from_python d v = Inr bs" and good: "leaf_good d v w" and d: "leaf_class d"
  shows "decodes P (leaf_parse d) (leaf_to_python d) bs w"
proof (cases "v = VNone \<or> d = Null")
  case True
  with enc good have "bs = [TC_NULL]" "w = VNone" by (auto simp: leaf_from_python_def leaf_good_def)
  with d show ?thesis
    by (cases d) (auto simp: leaf_parse_def leaf_to_python_def leaf_class_def null_decodes
        std_parse_def std_to_python_def)
next
  case False
  with enc good d show ?thesis
  proof (cases d)
    case (Standard s)
    with enc good False have "std_from_python s v = Inr bs" "std_good s v w"
      by (auto simp: leaf_from_python_def leaf_good_def std_from_python_def nullable_from_python_def)
    then show ?thesis using Standard by (simp add: leaf_parse_def leaf_to_python_def std_codec)
  next
    case (StandardArrayObject s)
    with enc good False obtain vs ws where "\<not> has_type_id s" "list_all2 (std_good s) vs ws"
      "length vs < 2 ^ 31" "std_array_object_from_python s (VList vs) = Inr bs" "w = VList ws"
      by (auto simp: leaf_from_python_def leaf_good_def)
    then show ?thesis
      using StandardArrayObject std_array_decodes by (simp add: leaf_parse_def leaf_to_python_def)
  qed (auto simp: leaf_from_python_def leaf_good_def leaf_parse_def leaf_to_python_def
      leaf_class_def prim_codec prim_array_codec)
qed

end
