(* ===== verification/RoundTrip.thy ===== *)
theory RoundTrip
  imports LeafTrip
begin

section \<open>Round trip of containers and complex objects\<close>

text \<open>
  \<open>good R d v w\<close>: \<open>v\<close> written as class \<open>d\<close> reads back as \<open>w\<close>, by a client that has the classes
  \<open>R\<close> in its registry. The decoding of containers is proved from the decoding of their elements
  with the lemmas of \<open>Codec\<close>; the class of an element is found again from the type code it
  starts with.
\<close>

definition knows :: "pyclass set \<Rightarrow> client \<Rightarrow> bool" where
  "knows R c \<longleftrightarrow> (\<forall>cl \<in> R. map_of (registry c (class_type_id cl)) (class_schema_id cl) = Some cl)"

definition reader :: "pyclass set \<Rightarrow> bool \<Rightarrow> client \<Rightarrow> bool" where
  "reader R b c \<longleftrightarrow> (compact c = None \<or> compact c = Some b) \<and> knows R c"

text \<open>The client passed to the conversion: none is needed when there are no complex objects.\<close>

definition finds :: "pyclass set \<Rightarrow> client option \<Rightarrow> bool" where
  "finds R c \<longleftrightarrow> (case c of None \<Rightarrow> R = {} | Some c0 \<Rightarrow> knows R c0)"

lemma finds_simps [simp]: "finds R None \<longleftrightarrow> R = {}" "finds R (Some c0) \<longleftrightarrow> knows R c0"
  by (simp_all add: finds_def)

subsection \<open>Every layout starts with the type code\<close>

definition coded_ct :: "ctype \<Rightarrow> bool" where
  "coded_ct t \<longleftrightarrow> (\<exists>fs. t = CStruct ((Nm ''type_code'', c_byte) # fs))"

lemma coded_ctI: "coded_ct (CStruct ((Nm ''type_code'', CInt (Suc 0) True) # fs))"
  by (simp add: coded_ct_def)

lemma coded_null: "coded_ct null_ct"
  by (simp add: null_ct_def coded_ct_def)

lemma coded_nullable:
  assumes "nullable_parse p st = Inr (t, st')" and "\<And>s. p s = Inr (t, st') \<Longrightarrow> coded_ct t"
  shows "coded_ct t"
  using assms by (auto simp: nullable_parse_def slice_def coded_null split: if_splits)

lemma leaf_coded: "leaf_parse d st = Inr (t, st') \<Longrightarrow> coded_ct t"
proof -
  have s: "coded_ct t" if "std_parse_not_null s st1 = Inr (t, st')" for s st1
    using that by (cases s)
      (auto simp: std_parse_not_null_def string_parse_def decimal_parse_def fixed_parse_def
        string_ct_def decimal_ct_def uuid_ct_def timestamp_ct_def date_ct_def time_ct_def enum_ct_def
        slice_def Let_def coded_ctI)
  assume "leaf_parse d st = Inr (t, st')"
  then show ?thesis
    by (cases d)
      (auto simp: leaf_parse_def std_parse_def null_parse_def coded_null data_object_parse_def
        data_object_ct_def prim_array_object_parse_def prim_array_object_ct_def slice_def Let_def
        std_array_object_parse_def std_array_fields_def wrapped_parse_def rbind_eq_Inr_iff coded_ctI
        elim!: coded_nullable s)
qed

lemma parse_obj_coded: "parse_obj n d st = Inr (t, st') \<Longrightarrow> coded_ct t"
proof (induction n arbitrary: d st)
  case (Suc n)
  have b: "coded_ct t" if "binary_parse p s = Inr (t, st')" for p s
    using that by (auto simp: binary_parse_def binary_final_class_def rbind_eq_Inr_iff Let_def
        header_fields_def coded_ctI split: if_splits)
  show ?case
  proof (cases d)
    case AnyDataObject
    with Suc show ?thesis by (auto simp: slice_def split: sum.splits)
  qed (use Suc.prems in \<open>auto simp: object_array_parse_def collection_parse_def map_parse_def
      object_array_fields_def collection_fields_def slice_def Let_def rbind_eq_Inr_iff coded_ctI
      elim!: coded_nullable b leaf_coded\<close>)
qed simp

lemma coded_code:
  assumes "coded_ct t" and "unat c < 128"
  shows "getint ''type_code'' (read_ct t (c # bs)) = Inr (int (unat c))"
proof -
  from assms(1) obtain fs where "t = CStruct ((Nm ''type_code'', c_byte) # fs)"
    unfolding coded_ct_def by blast
  moreover have "le_int True [c] = int (unat c)"
  proof -
    define n where "n = unat c"
    show ?thesis using assms(2) by (simp add: le_int_def Let_def n_def [symmetric])
  qed
  ultimately show ?thesis by (simp add: getint_def)
qed

subsection \<open>The conversion of elements\<close>

lemma rfold_elements:
  "rmap (\<lambda>i. rbind (getattr (Element i) ob) (\<lambda>x. f x c)) is = Inr (map (\<lambda>w. (w, c)) ws) \<Longrightarrow>
   rfold (element_step f ob) is (acc, c) = Inr (acc @ ws, c)"
proof (induction "is" arbitrary: ws acc)
  case (Cons i "is")
  then obtain w ws' where "ws = w # ws'"
    "rbind (getattr (Element i) ob) (\<lambda>x. f x c) = Inr (w, c)"
    "rmap (\<lambda>i. rbind (getattr (Element i) ob) (\<lambda>x. f x c)) is = Inr (map (\<lambda>w. (w, c)) ws')"
    by (auto simp: rbind_eq_Inr_iff Cons_eq_map_conv)
  with Cons.IH show ?case by (auto simp: element_step_def rbind_eq_Inr_iff)
qed simp

text \<open>Keys a dictionary keeps apart.\<close>

definition dict_keys :: "pyval list \<Rightarrow> bool" where
  "dict_keys ks \<longleftrightarrow> list_all hashable ks \<and> sorted_wrt (\<lambda>a b. \<not> py_eq b a) ks"

lemma dict_put_fresh: "(\<forall>k' \<in> fst ` set kvs. \<not> py_eq k k') \<Longrightarrow> dict_put k v kvs = kvs @ [(k, v)]"
  by (induction kvs) auto

lemma dict_set_next:
  assumes "dict_keys (map fst kvs)" and "i < length kvs"
  shows "dict_set (fst (kvs ! i)) (snd (kvs ! i)) (take i kvs) = Inr (take (Suc i) kvs)"
proof -
  have "hashable (fst (kvs ! i))" using assms by (auto simp: dict_keys_def list_all_length)
  moreover have "\<forall>k' \<in> fst ` set (take i kvs). \<not> py_eq (fst (kvs ! i)) k'"
    using assms by (auto simp: dict_keys_def sorted_wrt_iff_nth_less in_set_conv_nth) (metis fst_conv)
  ultimately show ?thesis
    using assms(2) by (simp add: dict_set_def dict_put_fresh take_Suc_conv_app_nth)
qed

definition flat_pairs :: "('a \<times> 'a) list \<Rightarrow> 'a list" where
  "flat_pairs kvs = concat (map (\<lambda>(k, v). [k, v]) kvs)"

lemma flat_pairs_simps [simp]:
  "flat_pairs [] = []" "flat_pairs (kv # kvs) = fst kv # snd kv # flat_pairs kvs"
  "length (flat_pairs kvs) = 2 * length kvs"
  by (simp_all add: flat_pairs_def case_prod_beta) (induction kvs, auto)

lemma flat_pairs_nth:
  "i < length kvs \<Longrightarrow> flat_pairs kvs ! (2 * i) = fst (kvs ! i)"
  "i < length kvs \<Longrightarrow> flat_pairs kvs ! (2 * i + 1) = snd (kvs ! i)"
  by (induction kvs arbitrary: i) (auto simp: less_Suc_eq_0_disj)

lemma rfold_pairs:
  assumes r: "rmap (\<lambda>i. rbind (getattr (Element i) ob) (\<lambda>x. f x c)) [0..<2 * length kvs] =
      Inr (map (\<lambda>w. (w, c)) (flat_pairs kvs))"
    and keys: "dict_keys (map fst kvs)"
  shows "rfold (pair_step f ob) [0..<length kvs] ([], c) = Inr (kvs, c)"
proof -
  have el: "rbind (getattr (Element i) ob) (\<lambda>x. f x c) = Inr (flat_pairs kvs ! i, c)"
    if "i < 2 * length kvs" for i using rmap_nth [OF r, of i] that by simp
  have "rfold (pair_step f ob) [0..<m] ([], c) = Inr (take m kvs, c)" if "m \<le> length kvs" for m
    using that
  proof (induction m)
    case (Suc m)
    then have m: "m < length kvs" by simp
    note e = el [of "2 * m"] el [of "2 * m + 1"]
    from e m obtain x y where "getattr (Element (2 * m)) ob = Inr x" "f x c = Inr (fst (kvs ! m), c)"
      "getattr (Element (2 * m + 1)) ob = Inr y" "f y c = Inr (snd (kvs ! m), c)"
      using flat_pairs_nth [OF m] by (auto simp: rbind_eq_Inr_iff)
    then have "pair_step f ob m (take m kvs, c) = Inr (take (Suc m) kvs, c)"
      using dict_set_next [OF keys m] by (simp add: pair_step_def)
    with Suc show ?case by (simp add: rfold_append)
  qed simp
  from this [of "length kvs"] show ?thesis by simp
qed

subsection \<open>What it means to read back\<close>

text \<open>
  The first byte of the bytes is the type code of the class (or the null code), and they decode
  to \<open>w\<close> with a recursion depth of twice their number.
\<close>

definition coded_as :: "dtype \<Rightarrow> byte list \<Rightarrow> pyval \<Rightarrow> bool" where
  "coded_as d bs w \<longleftrightarrow>
     bs \<noteq> [] \<and> (d = AnyDataObject \<or> (bs = [TC_NULL] \<and> w = VNone) \<or>
       (\<exists>c t. bs = c # t \<and> type_code d = Some c \<and> unat c < 128 \<and> d \<noteq> StandardArrayObject BinaryEnumObject))"

definition reads_back :: "pyclass set \<Rightarrow> dtype \<Rightarrow> pyval \<Rightarrow> bool \<Rightarrow> byte list \<Rightarrow> bool" where
  "reads_back R d w b bs \<longleftrightarrow> coded_as d bs w \<and>
     (\<forall>n c. 2 * length bs + (if d = AnyDataObject then 1 else 0) \<le> n \<longrightarrow> finds R c \<longrightarrow>
        decodes (reader R b) (parse_obj n d) (\<lambda>ob. to_py d ob c) bs (w, c))"

lemma to_py_null: "to_py Null ob c = Inr (VNone, c)"
  by (simp add: to_py.simps leaf_to_python_def)

lemma to_py_any:
  assumes "getint ''type_code'' ob = Inr (int (unat b))" and "unat b < 128" and "tc_map [b] = Inr d"
  shows "to_py AnyDataObject ob c = to_py d ob c"
proof -
  have "in_range 1 False (int (unat b))"
  proof -
    define k where "k = unat b"
    have "k < 256" using byte_less [of b] by (simp add: k_def)
    then show ?thesis by (simp add: in_range_def k_def [symmetric])
  qed
  moreover have "ct_bytes 1 (int (unat b)) = [b]" by simp
  ultimately have "int_to_bytes 1 False (int (unat b)) = Inr [b]" by (simp only: int_to_bytes_def) simp
  with assms(1,3) show ?thesis by (subst to_py.simps) simp
qed

lemma element_reads_back:
  assumes rb: "reads_back R d w b bs" and n: "2 * length bs + 1 \<le> n" and R: "finds R c"
  shows "decodes (reader R b) (parse_obj n AnyDataObject) (\<lambda>ob. to_py AnyDataObject ob c) bs (w, c)"
proof (cases "d = AnyDataObject")
  case True
  with rb n R show ?thesis by (simp add: reads_back_def)
next
  case d: False
  with rb have c: "bs = [TC_NULL] \<and> w = VNone \<or> (\<exists>x t. bs = x # t \<and> type_code d = Some x \<and> unat x < 128 \<and>
      d \<noteq> StandardArrayObject BinaryEnumObject)" and ne: "bs \<noteq> []"
    by (auto simp: reads_back_def coded_as_def)
  obtain m where m: "n = Suc m" "2 * length bs \<le> m" using n by (cases n) auto
  obtain k where k: "m = Suc k" using m(2) ne by (cases m) auto
  from c show ?thesis
  proof
    assume bs: "bs = [TC_NULL] \<and> w = VNone"
    show ?thesis
    proof (rule decodesI)
      fix st assume r: "reads st bs" and P: "reader R b (sclient st)"
      have "bslice (sbuf st) (spos st) 1 = [TC_NULL]" using reads_slice0 [OF r, of 1] bs by simp
      then have "parse_obj n AnyDataObject st = Inr (null_ct, seek_cur 1 (getbuffer st))"
        using tc_map_type_code [of Null]
        by (simp add: m(1) k slice_def leaf_parse_def null_parse_def)
      moreover have "to_py AnyDataObject (read_ct null_ct [TC_NULL]) c = Inr (VNone, c)"
        using to_py_any [OF coded_code [OF coded_null, of TC_NULL "[]"], of Null c] tc_map_type_code [of Null]
        by (simp add: TC_NULL_def to_py_null)
      ultimately show "\<exists>t st'. parse_obj n AnyDataObject st = Inr (t, st') \<and>
          advanced st (length bs) st' \<and> reader R b (sclient st') \<and> sizeof_ct t = length bs \<and>
          to_py AnyDataObject (read_ct t bs) c = Inr (w, c)"
        using bs P by (simp add: advanced_def null_ct_def)
    qed
  next
    assume "\<exists>x t. bs = x # t \<and> type_code d = Some x \<and> unat x < 128 \<and> d \<noteq> StandardArrayObject BinaryEnumObject"
    then obtain x bs' where x: "bs = x # bs'" "type_code d = Some x" "unat x < 128"
      "d \<noteq> StandardArrayObject BinaryEnumObject" by blast
    have tc: "tc_map [x] = Inr d" using x(2,4) by (rule tc_map_type_code)
    have dec: "decodes (reader R b) (parse_obj m d) (\<lambda>ob. to_py d ob c) bs (w, c)"
      using rb d m(2) R by (simp add: reads_back_def)
    show ?thesis
    proof (rule decodesI)
      fix st assume r: "reads st bs" and P: "reader R b (sclient st)"
      have "bslice (sbuf st) (spos st) 1 = [x]" using reads_slice0 [OF r, of 1] x(1) by simp
      then have p: "parse_obj n AnyDataObject st = parse_obj m d (getbuffer st)"
        using tc by (simp add: m(1) slice_def)
      have "reads (getbuffer st) bs" "reader R b (sclient (getbuffer st))" using r P by simp_all
      with dec obtain t st' where t: "parse_obj m d (getbuffer st) = Inr (t, st')"
        "advanced (getbuffer st) (length bs) st'" "reader R b (sclient st')"
        "sizeof_ct t = length bs" "to_py d (read_ct t bs) c = Inr (w, c)"
        by (rule decodesE)
      have "getint ''type_code'' (read_ct t bs) = Inr (int (unat x))"
        unfolding x(1) by (rule coded_code [OF parse_obj_coded [OF t(1)] x(3)])
      from to_py_any [OF this x(3) tc] t p
      show "\<exists>t st'. parse_obj n AnyDataObject st = Inr (t, st') \<and>
          advanced st (length bs) st' \<and> reader R b (sclient st') \<and> sizeof_ct t = length bs \<and>
          to_py AnyDataObject (read_ct t bs) c = Inr (w, c)" by simp
    qed
  qed
qed

subsection \<open>Counted sequences\<close>

lemma conv_elements_decode:
  assumes els: "list_all2 (decodes P p f) bss ws" and c: "c \<noteq> TC_NULL" "unat c < 128"
    and hs: "hs = (Nm ''type_code'', c_byte) # hs'" and hb: "hb = c # hb'"
    and parse: "\<And>st. reads st (hb @ concat bss) \<Longrightarrow> \<exists>st1. advanced st (length hb) st1 \<and>
      sclient st1 = sclient st \<and> parse st = rbind (parse_elements p 0 (length ws) st1)
        (\<lambda>(fs, st2). Inr (CStruct (hs @ fs), st2))"
    and size: "sum_list (map (\<lambda>f. sizeof_ct (snd f)) hs) = length hb"
    and names: "\<And>j. Element j \<notin> fst ` set hs"
    and conv: "\<And>ob. header_of hs hb ws f ob \<Longrightarrow> g ob c0 = Inr v"
  shows "decodes P (nullable_parse parse) (\<lambda>ob. nullable_conv g ob c0) (hb @ concat bss) v"
proof (rule header_elements_decode [OF els _ size names])
  fix st assume r: "reads st (hb @ concat bss)"
  have "bslice (sbuf st) (spos st) 1 = [c]" using reads_slice0 [OF r, of 1] hb by simp
  with parse [of "getbuffer st"] r c show "\<exists>st1. advanced st (length hb) st1 \<and>
      sclient st1 = sclient st \<and> nullable_parse parse st = rbind (parse_elements p 0 (length ws) st1)
        (\<lambda>(fs, st2). Inr (CStruct (hs @ fs), st2))"
    by (auto simp: nullable_parse_def slice_def)
next
  fix ob assume ob: "header_of hs hb ws f ob"
  have "getint ''type_code'' (read_ct (CStruct hs) hb) = Inr (le_int True [c])"
    by (simp add: hs hb getint_def)
  with header_ofD(2) [OF ob, of "''type_code''"] have "getint ''type_code'' ob = Inr (le_int True [c])"
    by (simp add: hs)
  with le_int_not_null [OF c(1)] conv [OF ob] show "nullable_conv g ob c0 = Inr v"
    by (simp add: nullable_conv_def)
qed

lemma header_elements:
  assumes ob: "header_of hs hb (map (\<lambda>w. (w, c)) ws) (\<lambda>ob. f ob c) ob"
  shows "rfold (element_step f ob) [0..<length ws] ([], c) = Inr (ws, c)"
proof -
  have "rmap (\<lambda>i. rbind (getattr (Element i) ob) (\<lambda>x. f x c)) [0..<length ws] = Inr (map (\<lambda>w. (w, c)) ws)"
    using header_ofD(1) [OF ob] by (simp add: elements_to_python_def)
  from rfold_elements [where f = f and c = c, OF this] show ?thesis by simp
qed

lemma header_pairs:
  assumes ob: "header_of hs hb (map (\<lambda>w. (w, c)) (flat_pairs kws)) (\<lambda>ob. f ob c) ob"
    and keys: "dict_keys (map fst kws)"
  shows "rfold (pair_step f ob) [0..<length kws] ([], c) = Inr (kws, c)"
proof -
  have "rmap (\<lambda>i. rbind (getattr (Element i) ob) (\<lambda>x. f x c)) [0..<2 * length kws] =
      Inr (map (\<lambda>w. (w, c)) (flat_pairs kws))"
    using header_ofD(1) [OF ob] by (simp add: elements_to_python_def)
  from rfold_pairs [where f = f and c = c, OF this keys] show ?thesis .
qed

text \<open>\<open>els_back R b bss ws\<close>: each of the byte strings \<open>bss\<close> reads back as an element of \<open>ws\<close>.\<close>

definition els_back :: "pyclass set \<Rightarrow> bool \<Rightarrow> byte list list \<Rightarrow> pyval list \<Rightarrow> bool" where
  "els_back R b bss ws \<longleftrightarrow>
     (\<forall>n c. 2 * length (concat bss) + 1 \<le> n \<longrightarrow> finds R c \<longrightarrow>
        list_all2 (decodes (reader R b) (parse_obj n AnyDataObject) (\<lambda>ob. to_py AnyDataObject ob c))
          bss (map (\<lambda>w. (w, c)) ws))"

lemma els_backD:
  "els_back R b bss ws \<Longrightarrow> 2 * length (concat bss) + 1 \<le> n \<Longrightarrow> finds R c \<Longrightarrow>
   list_all2 (decodes (reader R b) (parse_obj n AnyDataObject) (\<lambda>ob. to_py AnyDataObject ob c))
     bss (map (\<lambda>w. (w, c)) ws)"
  by (simp add: els_back_def)

lemma to_py_containers:
  "(\<lambda>ob. to_py ObjectArrayObject ob c) = (\<lambda>ob. nullable_conv (object_array_to_python (to_py AnyDataObject)) ob c)"
  "(\<lambda>ob. to_py CollectionObject ob c) = (\<lambda>ob. nullable_conv (collection_to_python (to_py AnyDataObject)) ob c)"
  "(\<lambda>ob. to_py MapObject ob c) = (\<lambda>ob. nullable_conv (map_to_python (to_py AnyDataObject)) ob c)"
  "(\<lambda>ob. to_py BinaryObject ob c) = (\<lambda>ob. nullable_conv (object_to_python to_py) ob c)"
  by (simp_all add: fun_eq_iff to_py.simps [of ObjectArrayObject] to_py.simps [of CollectionObject]
      to_py.simps [of MapObject] to_py.simps [of BinaryObject])

lemma parse_containers:
  "parse_obj (Suc n) ObjectArrayObject = nullable_parse (object_array_parse (parse_obj n AnyDataObject))"
  "parse_obj (Suc n) CollectionObject = nullable_parse (collection_parse (parse_obj n AnyDataObject))"
  "parse_obj (Suc n) MapObject = nullable_parse (map_parse (parse_obj n AnyDataObject))"
  "parse_obj (Suc n) BinaryObject = nullable_parse (binary_parse (parse_obj n))"
  by (simp_all add: fun_eq_iff)

lemma slice_length_field:
  assumes "reads st (h @ ct_bytes 4 (int n) @ r)" and "n < 2 ^ 31" and "k = spos st + length h"
  shows "le_nat (bslice (sbuf st) k 4) = n"
  using reads_slice [OF assms(1), of "length h" 4] length_field(2) [OF assms(2)] assms(3) by simp

lemma array_reads_back:
  assumes els: "els_back R b bss ws" and i: "in_range 4 True i" and l: "length ws < 2 ^ 31"
  shows "reads_back R ObjectArrayObject (VTuple [VInt i, VList ws]) b
    ((TC_OBJECT_ARRAY # ct_bytes 4 i @ ct_bytes 4 (int (length ws))) @ concat bss)"
proof -
  let ?h = "TC_OBJECT_ARRAY # ct_bytes 4 i @ ct_bytes 4 (int (length ws))"
  have "decodes (reader R b) (parse_obj n ObjectArrayObject) (\<lambda>ob. to_py ObjectArrayObject ob c)
      (?h @ concat bss) (VTuple [VInt i, VList ws], c)"
    if n: "2 * length (?h @ concat bss) \<le> n" and R: "finds R c" for n c
  proof -
    obtain m where m: "n = Suc m" "2 * length (concat bss) + 1 \<le> m" using n by (cases n) auto
    show ?thesis unfolding m(1) parse_containers to_py_containers
    proof (rule conv_elements_decode [OF els_backD [OF els m(2) R], where c = TC_OBJECT_ARRAY
          and hs = object_array_fields])
      fix st assume r: "reads st (?h @ concat bss)"
      then have "le_nat (bslice (sbuf st) (spos st + 5) 4) = length ws"
        by (intro slice_length_field [OF _ l, of _ "TC_OBJECT_ARRAY # ct_bytes 4 i" "concat bss"]) simp_all
      then show "\<exists>st1. advanced st (length ?h) st1 \<and> sclient st1 = sclient st \<and>
          object_array_parse (parse_obj m AnyDataObject) st =
            rbind (parse_elements (parse_obj m AnyDataObject) 0 (length (map (\<lambda>w. (w, c)) ws)) st1)
              (\<lambda>(fs, st2). Inr (CStruct (object_array_fields @ fs), st2))"
        by (intro exI [of _ "seek_cur 9 (getbuffer st)"])
          (simp add: object_array_parse_def slice_def advanced_def)
    next
      fix ob assume ob: "header_of object_array_fields ?h (map (\<lambda>w. (w, c)) ws) (\<lambda>ob. to_py AnyDataObject ob c) ob"
      have f: "getint ''length'' ob = Inr (int (length ws))" "getint ''type_id'' ob = Inr i"
        using header_ofD(2) [OF ob, of "''length''"] header_ofD(2) [OF ob, of "''type_id''"]
          i length_field(1) [OF l]
        by (simp_all add: object_array_fields_def getint_def le_int_ct_bytes)
      show "object_array_to_python (to_py AnyDataObject) ob c = Inr (VTuple [VInt i, VList ws], c)"
        using header_elements [where f = "to_py AnyDataObject" and c = c, OF ob] f
        by (simp add: object_array_to_python_def)
    qed (auto simp: object_array_fields_def TC_OBJECT_ARRAY_def TC_NULL_def)
  qed
  then show ?thesis
    by (simp add: reads_back_def coded_as_def TC_OBJECT_ARRAY_def)
qed

lemma collection_reads_back:
  assumes els: "els_back R b bss ws" and i: "in_range 1 True i" and l: "length ws < 2 ^ 31"
  shows "reads_back R CollectionObject (VTuple [VInt i, VList ws]) b
    ((TC_COLLECTION # ct_bytes 4 (int (length ws)) @ ct_bytes 1 i) @ concat bss)"
proof -
  let ?h = "TC_COLLECTION # ct_bytes 4 (int (length ws)) @ ct_bytes 1 i"
  have "decodes (reader R b) (parse_obj n CollectionObject) (\<lambda>ob. to_py CollectionObject ob c)
      (?h @ concat bss) (VTuple [VInt i, VList ws], c)"
    if n: "2 * length (?h @ concat bss) \<le> n" and R: "finds R c" for n c
  proof -
    obtain m where m: "n = Suc m" "2 * length (concat bss) + 1 \<le> m" using n by (cases n) auto
    show ?thesis unfolding m(1) parse_containers to_py_containers
    proof (rule conv_elements_decode [OF els_backD [OF els m(2) R], where c = TC_COLLECTION
          and hs = collection_fields])
      fix st assume r: "reads st (?h @ concat bss)"
      then have "le_nat (bslice (sbuf st) (spos st + 1) 4) = length ws"
        by (intro slice_length_field [OF _ l, of _ "[TC_COLLECTION]" "ct_bytes 1 i @ concat bss"]) simp_all
      then show "\<exists>st1. advanced st (length ?h) st1 \<and> sclient st1 = sclient st \<and>
          collection_parse (parse_obj m AnyDataObject) st =
            rbind (parse_elements (parse_obj m AnyDataObject) 0 (length (map (\<lambda>w. (w, c)) ws)) st1)
              (\<lambda>(fs, st2). Inr (CStruct (collection_fields @ fs), st2))"
        by (intro exI [of _ "seek_cur 6 (getbuffer st)"])
          (simp add: collection_parse_def slice_def advanced_def)
    next
      fix ob assume ob: "header_of collection_fields ?h (map (\<lambda>w. (w, c)) ws) (\<lambda>ob. to_py AnyDataObject ob c) ob"
      have f: "getint ''length'' ob = Inr (int (length ws))" "getint ''type'' ob = Inr i"
        using header_ofD(2) [OF ob, of "''length''"] header_ofD(2) [OF ob, of "''type''"]
          le_int_ct_bytes [OF i] length_field(1) [OF l]
        by (simp_all add: collection_fields_def getint_def le_int_ct_bytes)
      show "collection_to_python (to_py AnyDataObject) ob c = Inr (VTuple [VInt i, VList ws], c)"
        using header_elements [where f = "to_py AnyDataObject" and c = c, OF ob] f
        by (simp add: collection_to_python_def)
    qed (auto simp: collection_fields_def TC_COLLECTION_def TC_NULL_def)
  qed
  then show ?thesis
    by (simp add: reads_back_def coded_as_def TC_COLLECTION_def)
qed

lemma map_reads_back:
  assumes els: "els_back R b bss (flat_pairs kws)" and i: "in_range 1 True i"
    and l: "length kws < 2 ^ 31" and keys: "dict_keys (map fst kws)"
  shows "reads_back R MapObject (VTuple [VInt i, VDict (i = LINKED_HASH_MAP) kws]) b
    ((TC_MAP # ct_bytes 4 (int (length kws)) @ ct_bytes 1 i) @ concat bss)"
proof -
  let ?h = "TC_MAP # ct_bytes 4 (int (length kws)) @ ct_bytes 1 i"
  have "decodes (reader R b) (parse_obj n MapObject) (\<lambda>ob. to_py MapObject ob c)
      (?h @ concat bss) (VTuple [VInt i, VDict (i = LINKED_HASH_MAP) kws], c)"
    if n: "2 * length (?h @ concat bss) \<le> n" and R: "finds R c" for n c
  proof -
    obtain m where m: "n = Suc m" "2 * length (concat bss) + 1 \<le> m" using n by (cases n) auto
    show ?thesis unfolding m(1) parse_containers to_py_containers
    proof (rule conv_elements_decode [OF els_backD [OF els m(2) R], where c = TC_MAP
          and hs = collection_fields])
      fix st assume r: "reads st (?h @ concat bss)"
      then have "le_nat (bslice (sbuf st) (spos st + 1) 4) = length kws"
        by (intro slice_length_field [OF _ l, of _ "[TC_MAP]" "ct_bytes 1 i @ concat bss"]) simp_all
      then show "\<exists>st1. advanced st (length ?h) st1 \<and> sclient st1 = sclient st \<and>
          map_parse (parse_obj m AnyDataObject) st =
            rbind (parse_elements (parse_obj m AnyDataObject) 0
                (length (map (\<lambda>w. (w, c)) (flat_pairs kws))) st1)
              (\<lambda>(fs, st2). Inr (CStruct (collection_fields @ fs), st2))"
        by (intro exI [of _ "seek_cur 6 (getbuffer st)"])
          (simp add: map_parse_def slice_def advanced_def)
    next
      fix ob assume ob: "header_of collection_fields ?h (map (\<lambda>w. (w, c)) (flat_pairs kws))
        (\<lambda>ob. to_py AnyDataObject ob c) ob"
      have f: "getint ''length'' ob = Inr (int (length kws))" "getint ''type'' ob = Inr i"
        using header_ofD(2) [OF ob, of "''length''"] header_ofD(2) [OF ob, of "''type''"]
          le_int_ct_bytes [OF i] length_field(1) [OF l]
        by (simp_all add: collection_fields_def getint_def le_int_ct_bytes)
      show "map_to_python (to_py AnyDataObject) ob c =
          Inr (VTuple [VInt i, VDict (i = LINKED_HASH_MAP) kws], c)"
        using header_pairs [where f = "to_py AnyDataObject" and c = c, OF ob keys] f
        by (simp add: map_to_python_def)
    qed (auto simp: collection_fields_def TC_MAP_def TC_NULL_def)
  qed
  then show ?thesis
    by (simp add: reads_back_def coded_as_def TC_MAP_def)
qed

subsection \<open>The fields of an object\<close>

lemma fields_decode:
  assumes "list_all2 (\<lambda>x bw. decodes P (p (snd x)) (g (snd x)) (fst bw) (snd bw)) sch bws"
    and "inj nm" and "distinct (map fst sch)" and "reads st (concat (map fst bws))" and "P (sclient st)"
  shows "\<exists>fs st'. parse_fields nm p sch st = Inr (fs, st') \<and>
    advanced st (length (concat (map fst bws))) st' \<and> P (sclient st') \<and>
    sum_list (map (\<lambda>f. sizeof_ct (snd f)) fs) = length (concat (map fst bws)) \<and>
    map fst fs = map (\<lambda>x. nm (fst x)) sch \<and>
    list_all2 (\<lambda>x bw. \<exists>y. getattr_fields (nm (fst x)) (read_fields fs (concat (map fst bws))) = Inr y \<and>
      g (snd x) y = Inr (snd bw)) sch bws"
  using assms
proof (induction sch bws arbitrary: st rule: list_all2_induct)
  case Nil
  then show ?case by (auto simp: advanced_def)
next
  case (Cons x sch bw bws)
  obtain name d where x: "x = (name, d)" by (cases x)
  obtain bs w where bw: "bw = (bs, w)" by (cases bw)
  let ?rest = "concat (map fst bws)"
  from Cons.prems(3) bw have r: "reads st bs" by (auto dest: reads_append)
  have dec: "decodes P (p d) (g d) bs w" using Cons.hyps(1) x bw by simp
  from dec r Cons.prems(4) obtain t st1 where
    t: "p d st = Inr (t, st1)" "advanced st (length bs) st1" "P (sclient st1)"
    "sizeof_ct t = length bs" "g d (read_ct t bs) = Inr w"
    by (rule decodesE)
  from Cons.prems(3) t(2) bw have r1: "reads st1 ?rest" by (auto intro: reads_advanced)
  have ds: "distinct (map fst sch)" using Cons.prems(2) by simp
  from Cons.IH [OF Cons.prems(1) ds r1 t(3)] obtain fs st2 where
    fs: "parse_fields nm p sch st1 = Inr (fs, st2)" "advanced st1 (length ?rest) st2" "P (sclient st2)"
    "sum_list (map (\<lambda>f. sizeof_ct (snd f)) fs) = length ?rest"
    "map fst fs = map (\<lambda>x. nm (fst x)) sch"
    "list_all2 (\<lambda>x bw. \<exists>y. getattr_fields (nm (fst x)) (read_fields fs ?rest) = Inr y \<and>
      g (snd x) y = Inr (snd bw)) sch bws"
    by blast
  let ?all = "read_fields ((nm name, t) # fs) (bs @ ?rest)"
  have all: "?all = (nm name, read_ct t bs) # read_fields fs ?rest"
    using t(4) by (simp add: read_ct_prefix)
  have fresh0: "fst y \<noteq> name" if "y \<in> set sch" for y
    using Cons.prems(2) that x by (auto simp: image_iff)
  then have fresh: "nm (fst y) \<noteq> nm name" if "y \<in> set sch" for y
    using fresh0 [OF that] injD [OF Cons.prems(1)] by blast
  have "list_all2 (\<lambda>x bw. \<exists>y. getattr_fields (nm (fst x)) ?all = Inr y \<and> g (snd x) y = Inr (snd bw)) sch bws"
    using fs(6) unfolding all
    by (rule list.rel_mono_strong) (use fresh in auto)
  then have "list_all2 (\<lambda>x bw. \<exists>y. getattr_fields (nm (fst x)) ?all = Inr y \<and> g (snd x) y = Inr (snd bw))
      (x # sch) (bw # bws)"
    using t(5) x bw unfolding all by simp
  moreover have "parse_fields nm p (x # sch) st = Inr ((nm name, t) # fs, st2)"
    using t(1) fs(1) x by simp
  moreover have "advanced st (length (concat (map fst (bw # bws)))) st2"
    using t(2) fs(2) bw by (simp add: advanced_def)
  moreover have "map fst ((nm name, t) # fs) = map (\<lambda>x. nm (fst x)) (x # sch)" using fs(5) x by simp
  moreover have "sum_list (map (\<lambda>f. sizeof_ct (snd f)) ((nm name, t) # fs)) =
      length (concat (map fst (bw # bws)))" using fs(4) t(4) bw by simp
  ultimately show ?case
    using fs(3) bw by (intro exI [of _ "(nm name, t) # fs"] exI [of _ st2]) (simp only: list.map concat.simps fst_conv simp_thms)
qed

lemma fields_to_python:
  assumes "list_all2 (\<lambda>x bw. \<exists>y. getattr (Fld (fst x)) fobj = Inr y \<and> f (snd x) y c = Inr (snd bw, c)) sch bws"
    and "getattr (Nm ''object_fields'') ob = Inr fobj"
  shows "rfold (\<lambda>(name, ft) (fs, c).
      rbind (getattr (Nm ''object_fields'') ob) (\<lambda>fields.
        rbind (getattr (Fld name) fields) (\<lambda>x.
          rbind (f ft x c) (\<lambda>(v, c'). Inr (fs @ [(name, v)], c'))))) sch (acc, c) =
    Inr (acc @ zip (map fst sch) (map snd bws), c)"
  using assms
proof (induction sch bws arbitrary: acc rule: list_all2_induct)
  case (Cons x sch bw bws)
  obtain name d where x: "x = (name, d)" by (cases x)
  with Cons show ?case by auto
qed simp

lemma signed_version: "object_bytes b cl (signed_wrap 1 version) bss = object_bytes b cl version bss"
proof -
  have "ct_bytes 1 (signed_wrap 1 version) = ct_bytes 1 version" by (rule ct_bytes_signed_wrap) simp
  then show ?thesis
    by (simp add: object_bytes_def object_header_def header_obj_def header_fields_def code_obj_def Let_def)
qed

lemma reader_lookup:
  "reader R b c \<Longrightarrow> cl \<in> R \<Longrightarrow> map_of (registry c (class_type_id cl)) (class_schema_id cl) = Some cl"
  by (simp add: reader_def knows_def)

lemma reader_set_compact:
  "reader R b c \<Longrightarrow> set_compact_footer b c = Inr (c\<lparr>compact := Some b\<rparr>) \<and> reader R b (c\<lparr>compact := Some b\<rparr>)"
  by (auto simp: reader_def knows_def set_compact_footer_def)

lemma query_class_lookup:
  "finds R c \<Longrightarrow> cl \<in> R \<Longrightarrow> class_schema_id cl \<noteq> 0 \<Longrightarrow>
   query_class (class_type_id cl) (class_schema_id cl) c = Inr (cl, c)"
  by (cases c) (auto simp: query_class_def query_binary_type_def get_from_registry_def knows_def reg_found_def)

text \<open>The header, read from the start of the object.\<close>

lemma parse_header_object:
  assumes r: "reads st (object_bytes b cl version bss)" and f: "fits header_ct (object_header b cl version bss)"
  shows "binary_parse_header st = Inr ((class_type_id cl, class_schema_id cl, object_flags b bss),
    seek_cur 24 (getbuffer st))"
proof -
  let ?h = "store_ct header_ct (object_header b cl version bss)"
  have s: "sizeof_ct header_ct = 24" by (simp add: header_fields_def)
  have "bslice (sbuf st) (spos st) 24 = ?h"
    using reads_slice0 [OF r, of 24] by (simp add: object_bytes_def)
  moreover have "read_ct header_ct ?h = object_header b cl version bss"
    using read_store(1) [OF f, of "[]"] by simp
  ultimately have "read_ctype header_ct st = Inr (object_header b cl version bss, getbuffer st)"
    unfolding read_ctype_def s Let_def by (simp only: header_length) simp
  then show ?thesis by (simp add: binary_parse_header_def object_header_fields)
qed

definition object_layout_ct :: "int \<Rightarrow> nat \<Rightarrow> (fname \<times> ctype) list \<Rightarrow> ctype" where
  "object_layout_ct flags n fs =
     CStruct (header_fields @
       [(Nm ''object_fields'', CStruct fs), (Nm ''schema'', CArray (schema_ct flags) n)])"

lemma object_layout_read:
  assumes f: "fits header_ct (object_header b cl version bss)"
    and size: "sum_list (map (\<lambda>f. sizeof_ct (snd f)) fs) = length (concat bss)"
  shows "x \<in> {''type_code'', ''version'', ''type_id'', ''schema_id''} \<Longrightarrow>
      getint x (read_ct (object_layout_ct flags n fs) (object_bytes b cl version bss)) =
      getint x (object_header b cl version bss)"
    and "getattr (Nm ''object_fields'') (read_ct (object_layout_ct flags n fs) (object_bytes b cl version bss)) =
      Inr (OStruct (read_fields fs (concat bss)))"
proof -
  let ?h = "store_ct header_ct (object_header b cl version bss)"
  let ?rest = "[(Nm ''object_fields'', CStruct fs), (Nm ''schema'', CArray (schema_ct flags) n)]"
  let ?body = "concat bss @ object_schema b cl bss"
  have hs: "sum_list (map (\<lambda>f. sizeof_ct (snd f)) header_fields) = length ?h"
    by (simp only: header_length) (simp add: header_fields_def)
  have rh: "read_ct header_ct ?h = object_header b cl version bss"
    using read_store(1) [OF f, of "[]"] by simp
  have ob: "object_bytes b cl version bss = ?h @ ?body" by (simp only: object_bytes_def)
  {
    assume x: "x \<in> {''type_code'', ''version'', ''type_id'', ''schema_id''}"
    then have "Nm x \<in> fst ` set header_fields" by (auto simp: header_fields_def)
    from getint_header [OF this hs, of ?rest ?body] rh
    show "getint x (read_ct (object_layout_ct flags n fs) (object_bytes b cl version bss)) =
      getint x (object_header b cl version bss)"
      by (simp only: object_layout_ct_def ob)
  }
  have n: "Nm ''object_fields'' \<notin> fst ` set (read_fields header_fields bs)" for bs
  proof -
    have "fst ` set (read_fields header_fields bs) = set (map fst header_fields)"
      using fst_read_fields [of header_fields bs] by (metis set_map)
    then show ?thesis by (simp add: header_fields_def)
  qed
  have "read_fields (header_fields @ ?rest) (?h @ ?body) =
      read_fields header_fields (?h @ ?body) @ read_fields ?rest ?body"
    unfolding read_fields_append hs by simp
  moreover have "read_ct (CStruct fs) ?body = read_ct (CStruct fs) (concat bss)"
    by (rule read_ct_prefix) (simp add: size)
  ultimately show "getattr (Nm ''object_fields'') (read_ct (object_layout_ct flags n fs)
      (object_bytes b cl version bss)) = Inr (OStruct (read_fields fs (concat bss)))"
    by (simp add: object_layout_ct_def ob getattr_fields_append [OF n] del: header_length)
qed

lemma object_bytes_head: "\<exists>t. object_bytes b cl version bss = TC_COMPLEX_OBJECT # t"
  by (simp add: object_bytes_def object_header_def header_obj_def header_fields_def Let_def
      code_obj_def)

lemma object_reads_back:
  assumes cl: "cl \<in> R" "class_schema_id cl \<noteq> 0" "distinct (map fst (cls_schema cl))"
    and len: "length bss = length (cls_schema cl)" "length ws = length (cls_schema cl)"
    and v: "in_range 1 True version" and small: "length (object_bytes b cl version bss) < 2 ^ 31"
    and flds: "\<And>n c. 2 * length (concat bss) + 1 \<le> n \<Longrightarrow> finds R c \<Longrightarrow>
      list_all2 (\<lambda>x bw. decodes (reader R b) (parse_obj n (snd x)) (\<lambda>ob. to_py (snd x) ob c) (fst bw) (snd bw))
        (cls_schema cl) (zip bss (map (\<lambda>w. (w, c)) ws))"
  shows "reads_back R BinaryObject (VObject cl version (zip (map fst (cls_schema cl)) ws) None) b
    (object_bytes b cl version bss)"
proof -
  let ?bs = "object_bytes b cl version bss" and ?flags = "object_flags b bss"
  let ?v = "VObject cl version (zip (map fst (cls_schema cl)) ws) None"
  obtain t0 where t0: "?bs = TC_COMPLEX_OBJECT # t0" using object_bytes_head by blast
  have fits: "fits header_ct (object_header b cl version bss)"
    using object_header_fits [OF v len(1) small] .
  have total: "length ?bs = length (concat bss) + 24 + length bss * entry_size b bss"
    by (rule object_bytes_length [OF len(1)])
  have "decodes (reader R b) (parse_obj n BinaryObject) (\<lambda>ob. to_py BinaryObject ob c) ?bs (?v, c)"
    if n: "2 * length ?bs \<le> n" and R: "finds R c" for n c
  proof (rule decodesI)
    fix st assume r: "reads st ?bs" and P: "reader R b (sclient st)"
    obtain m where m: "n = Suc m" "2 * length (concat bss) + 1 \<le> m" using n total by (cases n) auto
    let ?st1 = "seek_cur 24 (getbuffer (getbuffer st))"
    let ?bws = "zip bss (map (\<lambda>w. (w, c)) ws)"
    have b: "map fst ?bws = bss" "map snd ?bws = map (\<lambda>w. (w, c)) ws" using len by simp_all
    have "bslice (sbuf st) (spos st) 1 = [TC_COMPLEX_OBJECT]" using reads_slice0 [OF r, of 1] t0 by simp
    then have p: "parse_obj n BinaryObject st = binary_parse (parse_obj m) (getbuffer st)"
      unfolding m(1) parse_containers by (simp add: nullable_parse_def slice_def TC_COMPLEX_OBJECT_def TC_NULL_def)
    have "reads (getbuffer st) ?bs" using r by simp
    note head = parse_header_object [OF this fits]
    have cls: "stream_get_dataclass (class_type_id cl) (class_schema_id cl) ?st1 = Inr (cl, ?st1)"
      using get_dataclass_lookup [OF cl(2) reader_lookup [OF P cl(1)]] by (simp add: stream_get_dataclass_def)
    have "reads ?st1 (concat bss @ object_schema b cl bss)"
    proof (rule reads_advanced)
      show "reads st (store_ct header_ct (object_header b cl version bss) @ concat bss @ object_schema b cl bss)"
        using r by (simp only: object_bytes_def)
    qed (simp add: advanced_def)
    then have r1: "reads ?st1 (concat (map fst ?bws))" unfolding b(1) by (rule reads_append)
    have P1: "reader R b (sclient ?st1)" using P by simp
    have inj: "inj Fld" by (simp add: inj_def)
    from fields_decode [where p = "parse_obj m" and g = "\<lambda>d ob. to_py d ob c" and nm = Fld,
        OF flds [OF m(2) R] inj cl(3) r1 P1]
    obtain fs st2 where fs: "parse_fields Fld (parse_obj m) (cls_schema cl) ?st1 = Inr (fs, st2)"
      "advanced ?st1 (length (concat bss)) st2" "reader R b (sclient st2)"
      "sum_list (map (\<lambda>f. sizeof_ct (snd f)) fs) = length (concat bss)"
      "list_all2 (\<lambda>x bw. \<exists>y. getattr_fields (Fld (fst x)) (read_fields fs (concat bss)) = Inr y \<and>
        to_py (snd x) y c = Inr (snd bw)) (cls_schema cl) ?bws"
      unfolding b by blast
    let ?t = "object_layout_ct ?flags (length (cls_schema cl)) fs"
    let ?st3 = "seek_cur (length (cls_schema cl) * entry_size b bss) st2"
    let ?st4 = "?st3\<lparr>sclient := (sclient st2)\<lparr>compact := Some b\<rparr>\<rparr>"
    have fin: "binary_final_class ?flags (length (cls_schema cl)) fs st2 = Inr (?t, ?st4)"
      using reader_set_compact [OF fs(3)] object_flags_bits(3) [of b bss]
      by (simp add: binary_final_class_def object_flags_bits(2) on_client_def sizeof_schema_ct
          object_layout_ct_def Let_def)
    have parse: "parse_obj n BinaryObject st = Inr (?t, ?st4)"
      unfolding p binary_parse_def head using cls fs(1) fin by simp
    have size: "sizeof_ct ?t = length ?bs"
      using total fs(4) len(1) by (simp add: object_layout_ct_def header_fields_def sizeof_schema_ct)
    note gi = object_layout_read(1) [OF fits fs(4), where flags = ?flags and n = "length (cls_schema cl)"]
    note ga = object_layout_read(2) [OF fits fs(4), where flags = ?flags and n = "length (cls_schema cl)"]
    have flds': "list_all2 (\<lambda>x bw. \<exists>y. getattr (Fld (fst x)) (OStruct (read_fields fs (concat bss))) = Inr y \<and>
        to_py (snd x) y c = Inr (snd bw, c)) (cls_schema cl) (zip bss ws)"
      using fs(5) by (auto simp: list_all2_conv_all_nth)
    have "to_py BinaryObject (read_ct ?t ?bs) c = Inr (?v, c)"
      using fields_to_python [where f = to_py and c = c, OF flds' ga, of "[]"] gi query_class_lookup [OF R cl(1,2)] len
      by (subst to_py.simps)
        (simp add: nullable_conv_def object_to_python_def object_header_fields)
    with parse size fs(2) total reader_set_compact [OF fs(3)] len(1)
    show "\<exists>t st'. parse_obj n BinaryObject st = Inr (t, st') \<and> advanced st (length ?bs) st' \<and>
        reader R b (sclient st') \<and> sizeof_ct t = length ?bs \<and>
        to_py BinaryObject (read_ct t ?bs) c = Inr (?v, c)"
      by (intro exI [of _ ?t] exI [of _ ?st4]) (simp add: advanced_def)
  qed
  then show ?thesis
    using t0 by (simp add: reads_back_def coded_as_def TC_COMPLEX_OBJECT_def)
qed

end
