(* ===== verification/AnyTrip.thy ===== *)
theory AnyTrip
  imports RoundTrip
begin

section \<open>Round trip of arbitrary values\<close>

text \<open>
  The relation between what is written and what is read back, for every class and any
  nesting, and the theorem that the encoder and the parser realise it.
\<close>

definition field_value :: "(pystr \<times> pyval) list \<Rightarrow> pystr \<times> dtype \<Rightarrow> pyval" where
  "field_value attrs x = (case map_of attrs (fst x) of Some a \<Rightarrow> a | None \<Rightarrow> default_value (snd x))"

inductive good :: "pyclass set \<Rightarrow> dtype \<Rightarrow> pyval \<Rightarrow> pyval \<Rightarrow> bool" for R where
  null: "d \<noteq> AnyDataObject \<Longrightarrow> good R d VNone VNone"
| leaf: "leaf_class d \<Longrightarrow> d \<noteq> StandardArrayObject BinaryEnumObject \<Longrightarrow> leaf_good d v w \<Longrightarrow> good R d v w"
| any: "map_python_type v = Inr d \<Longrightarrow> good R d v w \<Longrightarrow> good R AnyDataObject v w"
| array: "py_seq v = Inr [t, u] \<Longrightarrow> py_index t = Some i \<Longrightarrow>
    list_all2 (\<lambda>x w. good R (snd (hinted x)) (fst (hinted x)) w) (seq_or_single u) ws \<Longrightarrow>
    good R ObjectArrayObject v (VTuple [VInt i, VList ws])"
| collection: "py_seq v = Inr [t, u] \<Longrightarrow> py_index t = Some i \<Longrightarrow>
    list_all2 (\<lambda>x w. good R (snd (hinted x)) (fst (hinted x)) w) (seq_or_single u) ws \<Longrightarrow>
    good R CollectionObject v (VTuple [VInt i, VList ws])"
| map_null: "py_seq v = Inr [t, VNone] \<Longrightarrow> good R MapObject v VNone"
| map: "py_seq v = Inr [t, VDict o' kvs] \<Longrightarrow> py_index t = Some i \<Longrightarrow>
    list_all2 (\<lambda>x w. good R (snd (hinted x)) (fst (hinted x)) w) (flat_pairs kvs) (flat_pairs kws) \<Longrightarrow>
    dict_keys (map fst kws) \<Longrightarrow>
    good R MapObject v (VTuple [VInt i, VDict (i = LINKED_HASH_MAP) kws])"
| object: "cl \<in> R \<Longrightarrow> class_schema_id cl \<noteq> 0 \<Longrightarrow> distinct (map fst (cls_schema cl)) \<Longrightarrow>
    buf = None \<or> buf = Some [] \<Longrightarrow>
    list_all2 (\<lambda>x w. good R (snd x) (field_value attrs x) w) (cls_schema cl) ws \<Longrightarrow>
    good R BinaryObject (VObject cl version attrs buf)
      (VObject cl (signed_wrap 1 version) (zip (map fst (cls_schema cl)) ws) None)"

inductive_cases good_any: "good R AnyDataObject v w"
inductive_cases good_array: "good R ObjectArrayObject v w"
inductive_cases good_collection: "good R CollectionObject v w"
inductive_cases good_map: "good R MapObject v w"
inductive_cases good_object: "good R BinaryObject v w"

lemma good_null: "good R d VNone w \<Longrightarrow> d \<noteq> AnyDataObject \<Longrightarrow> w = VNone"
  by (erule good.cases) (auto simp: leaf_good_def)

lemma good_leaf: "good R d v w \<Longrightarrow> leaf_class d \<Longrightarrow> v \<noteq> VNone \<Longrightarrow>
  leaf_good d v w \<and> d \<noteq> StandardArrayObject BinaryEnumObject"
  by (erule good.cases) (auto simp: leaf_class_def)

lemma write_field_value: "write_field attrs x = from_py (snd x) (field_value attrs x)"
proof (cases "map_of attrs (fst x)")
  case (Some a)
  then show ?thesis by (simp add: write_field_def field_value_def)
next
  case None
  have "from_py d (default_value d) = write_leaf d (default_value d)" for d
  proof (cases d)
    case AnyDataObject
    have "map_python_type VNone = Inr Null" by (simp add: map_python_type_def python_map_def)
    then show ?thesis
      by (simp add: AnyDataObject default_value_def from_py_any from_py_leaf fun_eq_iff write_leaf_def
          leaf_from_python_def)
  qed (auto simp: default_value_def intro!: from_py_leaf)
  with None show ?thesis by (simp add: write_field_def field_value_def)
qed

text \<open>What the encoder of class \<open>d\<close> is to be proved to append for \<open>v\<close>.\<close>

definition wrote :: "pyclass set \<Rightarrow> dtype \<Rightarrow> pyval \<Rightarrow> bool \<Rightarrow> byte list \<Rightarrow> bool" where
  "wrote R d v b bs \<longleftrightarrow> bs \<noteq> [] \<and> (\<forall>w. good R d v w \<longrightarrow> length bs < 2 ^ 31 \<longrightarrow> reads_back R d w b bs)"

abbreviation wrote_el :: "pyclass set \<Rightarrow> pyval \<Rightarrow> bool \<Rightarrow> byte list \<Rightarrow> bool" where
  "wrote_el R x \<equiv> wrote R (snd (hinted x)) (fst (hinted x))"

lemma leaf_lift:
  assumes "decodes P (leaf_parse d) (leaf_to_python d) bs w" and "leaf_class d"
  shows "decodes P (parse_obj (Suc m) d) (\<lambda>ob. to_py d ob c) bs (w, c)"
proof -
  have "parse_obj (Suc m) d = leaf_parse d"
    "(\<lambda>ob. to_py d ob c) = (\<lambda>ob. rbind (leaf_to_python d ob) (\<lambda>v. Inr (v, c)))"
    using assms(2) by (auto simp: fun_eq_iff leaf_class_def to_py.simps split: dtype.splits)
  then show ?thesis using assms(1) by (simp add: decodes_def rbind_eq_Inr_iff)
qed

lemma conv_null_decodes: "decodes P (nullable_parse p) (\<lambda>ob. nullable_conv f ob c) [TC_NULL] (VNone, c)"
proof (rule decodesI)
  fix st assume r: "reads st [TC_NULL]" and "P (sclient st)"
  moreover have "bslice (sbuf st) (spos st) 1 = [TC_NULL]" using reads_slice0 [OF r, of 1] by simp
  moreover have "nullable_conv f (read_ct null_ct [TC_NULL]) c = Inr (VNone, c)"
    by (simp add: null_ct_def nullable_conv_def getint_def TC_NULL_def le_int_def Let_def)
  ultimately show "\<exists>t st'. nullable_parse p st = Inr (t, st') \<and> advanced st (length [TC_NULL]) st' \<and>
      P (sclient st') \<and> sizeof_ct t = length [TC_NULL] \<and>
      nullable_conv f (read_ct t [TC_NULL]) c = Inr (VNone, c)"
    by (simp add: nullable_parse_def slice_def null_ct_def advanced_def)
qed

lemma reads_backI:
  assumes "coded_as d bs w" and "d \<noteq> AnyDataObject"
    and "\<And>m c. 2 * length bs \<le> Suc m \<Longrightarrow> finds R c \<Longrightarrow>
      decodes (reader R b) (parse_obj (Suc m) d) (\<lambda>ob. to_py d ob c) bs (w, c)"
  shows "reads_back R d w b bs"
  unfolding reads_back_def
proof (intro conjI allI impI)
  fix n c assume n: "2 * length bs + (if d = AnyDataObject then 1 else 0) \<le> n" and "finds R c"
  have "bs \<noteq> []" using assms(1) by (simp add: coded_as_def)
  then obtain m where "n = Suc m" using n by (cases n) auto
  with assms(2,3) n \<open>finds R c\<close>
  show "decodes (reader R b) (parse_obj n d) (\<lambda>ob. to_py d ob c) bs (w, c)" by simp
qed (rule assms(1))

lemma reads_back_null:
  assumes "d \<noteq> AnyDataObject"
  shows "reads_back R d VNone b [TC_NULL]"
proof (rule reads_backI)
  fix m c
  show "decodes (reader R b) (parse_obj (Suc m) d) (\<lambda>ob. to_py d ob c) [TC_NULL] (VNone, c)"
  proof (cases "leaf_class d")
    case True
    then show ?thesis by (intro leaf_lift leaf_codec) (auto simp: leaf_from_python_def leaf_good_def)
  next
    case False
    with assms show ?thesis
      by (auto simp: leaf_class_def parse_containers to_py_containers conv_null_decodes)
  qed
qed (use assms in \<open>auto simp: coded_as_def\<close>)

lemma type_code_lt: "type_code d = Some c \<Longrightarrow> unat c < 128"
proof (cases d)
  case (StandardArrayObject s)
  then show "type_code d = Some c \<Longrightarrow> unat c < 128" by (cases s) auto
qed (auto simp: tc_defs simp del: std_code.simps prim_code.simps prim_array_code.simps)

lemma leaf_wrote:
  assumes enc: "leaf_from_python d v = Inr bs" and d: "leaf_class d \<or> v = VNone" "d \<noteq> AnyDataObject"
  shows "wrote R d v b bs"
proof (cases "v = VNone \<or> d = Null")
  case True
  with enc have bs: "bs = [TC_NULL]" by (auto simp: leaf_from_python_def)
  have "w = VNone" if "good R d v w" for w
    using True that good_null d(2) good_leaf [of R d v w]
    by (cases "v = VNone") (auto simp: leaf_class_def leaf_good_def)
  with reads_back_null [OF d(2)] show ?thesis by (auto simp: wrote_def bs)
next
  case False
  then have lc: "leaf_class d" using d by simp
  from leaf_head [OF enc] False obtain c t where c: "bs = c # t" "type_code d = Some c" by auto
  have "reads_back R d w b bs" if g: "good R d v w" for w
  proof (rule reads_backI)
    have lg: "leaf_good d v w" "d \<noteq> StandardArrayObject BinaryEnumObject"
      using good_leaf [OF g lc] False by auto
    then show "coded_as d bs w" using c type_code_lt [OF c(2)] by (simp add: coded_as_def)
    show "decodes (reader R b) (parse_obj (Suc m) d) (\<lambda>ob. to_py d ob c') bs (w, c')" for m c'
      by (rule leaf_lift [OF leaf_codec [OF enc lg(1) lc] lc])
  qed (rule d(2))
  with c(1) show ?thesis by (simp add: wrote_def)
qed

lemma any_wrote:
  assumes "map_python_type v = Inr d" and "wrote R d v b bs"
  shows "wrote R AnyDataObject v b bs"
proof -
  have "reads_back R AnyDataObject w b bs" if "good R AnyDataObject v w" "length bs < 2 ^ 31" for w
  proof -
    have "good R d v w" using that(1) assms(1) by (auto elim: good_any simp: leaf_class_def)
    then have r: "reads_back R d w b bs" using assms(2) that(2) by (simp add: wrote_def)
    then have "bs \<noteq> []" by (simp add: reads_back_def coded_as_def)
    with element_reads_back [OF r] show ?thesis by (simp add: reads_back_def coded_as_def)
  qed
  with assms(2) show ?thesis by (simp add: wrote_def)
qed

subsection \<open>The elements of a container\<close>

lemma length_in_concat: "z \<in> set bss \<Longrightarrow> length z \<le> length (concat bss)"
  by (induction bss) auto

lemma wrote_count: "list_all2 (\<lambda>x. wrote_el R x b) xs bss \<Longrightarrow> length xs \<le> length (concat bss)"
proof (induction xs bss rule: list_all2_induct)
  case (Cons x xs z bss)
  then have "z \<noteq> []" by (simp add: wrote_def)
  with Cons.IH show ?case by (cases z) auto
qed simp

lemma wrote_els:
  assumes w: "list_all2 (\<lambda>x. wrote_el R x b) xs bss"
    and g: "list_all2 (\<lambda>x w. good R (snd (hinted x)) (fst (hinted x)) w) xs ws"
    and small: "length (concat bss) < 2 ^ 31"
  shows "els_back R b bss ws"
  unfolding els_back_def
proof (intro allI impI)
  fix n c assume n: "2 * length (concat bss) + 1 \<le> n" and R: "finds R c"
  have l: "length xs = length bss" "length xs = length ws" using w g by (auto dest: list_all2_lengthD)
  have "decodes (reader R b) (parse_obj n AnyDataObject) (\<lambda>ob. to_py AnyDataObject ob c) (bss ! i) (ws ! i, c)"
    if i: "i < length bss" for i
  proof -
    have z: "length (bss ! i) \<le> length (concat bss)" using i by (intro length_in_concat) simp
    have "reads_back R (snd (hinted (xs ! i))) (ws ! i) b (bss ! i)"
      using w g i l z small by (auto simp: list_all2_conv_all_nth wrote_def)
    then show ?thesis using z n by (intro element_reads_back [OF _ _ R]) auto
  qed
  then show "list_all2 (decodes (reader R b) (parse_obj n AnyDataObject) (\<lambda>ob. to_py AnyDataObject ob c))
      bss (map (\<lambda>w. (w, c)) ws)"
    using l by (simp add: list_all2_conv_all_nth)
qed

lemma wrote_pairs:
  "list_all2 (\<lambda>kv z. \<exists>x y. z = x @ y \<and> wrote_el R (fst kv) b x \<and> wrote_el R (snd kv) b y) kvs bss \<Longrightarrow>
   \<exists>es. concat es = concat bss \<and> list_all2 (\<lambda>x. wrote_el R x b) (flat_pairs kvs) es"
proof (induction kvs bss rule: list_all2_induct)
  case (Cons kv kvs z bss)
  then obtain x y es where "z = x @ y" "wrote_el R (fst kv) b x" "wrote_el R (snd kv) b y"
    "concat es = concat bss" "list_all2 (\<lambda>x. wrote_el R x b) (flat_pairs kvs) es" by blast
  then show ?case by (intro exI [of _ "x # y # es"]) simp
qed auto

subsection \<open>Each class\<close>

lemma write_length_less: "write_length n = Inr l \<Longrightarrow> n < 2 ^ 31 \<Longrightarrow> l = ct_bytes 4 (int n)"
  by (simp add: length_field)

lemma write_type_id_index:
  "write_type_id k t = Inr l \<Longrightarrow> py_index t = Some i \<Longrightarrow> in_range k True i \<and> l = ct_bytes k i"
  by (simp add: write_type_id_def int_to_bytes_Inr_iff)

lemma array_wrote:
  assumes v: "py_seq v = Inr [t, u]" and h: "object_array_header t (length (seq_or_single u)) = Inr h"
    and els: "list_all2 (\<lambda>x. wrote_el R x b) (seq_or_single u) bss"
  shows "wrote R ObjectArrayObject v b (h @ concat bss)"
proof -
  have "reads_back R ObjectArrayObject w b (h @ concat bss)"
    if g: "good R ObjectArrayObject v w" and small: "length (h @ concat bss) < 2 ^ 31" for w
  proof -
    from g v obtain i ws where i: "py_index t = Some i"
      and ws: "list_all2 (\<lambda>x w. good R (snd (hinted x)) (fst (hinted x)) w) (seq_or_single u) ws"
      and w: "w = VTuple [VInt i, VList ws]"
      by (auto elim!: good_array simp: leaf_class_def)
    have n: "length ws = length (seq_or_single u)" "length ws < 2 ^ 31"
      using ws wrote_count [OF els] small by (auto dest: list_all2_lengthD)
    have "h = TC_OBJECT_ARRAY # ct_bytes 4 i @ ct_bytes 4 (int (length ws))" and r: "in_range 4 True i"
      using h i n by (auto simp: object_array_header_def rbind_eq_Inr_iff dest!: write_type_id_index
          write_length_less)
    then show ?thesis
      using array_reads_back [OF wrote_els [OF els ws] r n(2)] small by (simp add: w)
  qed
  moreover have "h \<noteq> []" using h by (auto simp: object_array_header_def rbind_eq_Inr_iff)
  ultimately show ?thesis by (simp add: wrote_def)
qed

lemma collection_wrote:
  assumes v: "py_seq v = Inr [t, u]" and h: "collection_header t (length (seq_or_single u)) = Inr h"
    and els: "list_all2 (\<lambda>x. wrote_el R x b) (seq_or_single u) bss"
  shows "wrote R CollectionObject v b (h @ concat bss)"
proof -
  have "reads_back R CollectionObject w b (h @ concat bss)"
    if g: "good R CollectionObject v w" and small: "length (h @ concat bss) < 2 ^ 31" for w
  proof -
    from g v obtain i ws where i: "py_index t = Some i"
      and ws: "list_all2 (\<lambda>x w. good R (snd (hinted x)) (fst (hinted x)) w) (seq_or_single u) ws"
      and w: "w = VTuple [VInt i, VList ws]"
      by (auto elim!: good_collection simp: leaf_class_def)
    have n: "length ws = length (seq_or_single u)" "length ws < 2 ^ 31"
      using ws wrote_count [OF els] small by (auto dest: list_all2_lengthD)
    have "h = TC_COLLECTION # ct_bytes 4 (int (length ws)) @ ct_bytes 1 i" and r: "in_range 1 True i"
      using h i n by (auto simp: collection_header_def rbind_eq_Inr_iff dest!: write_type_id_index
          write_length_less)
    then show ?thesis
      using collection_reads_back [OF wrote_els [OF els ws] r n(2)] small by (simp add: w)
  qed
  moreover have "h \<noteq> []" using h by (auto simp: collection_header_def rbind_eq_Inr_iff)
  ultimately show ?thesis by (simp add: wrote_def)
qed

lemma map_wrote:
  assumes v: "py_seq v = Inr [t, u]" and items: "py_items u = Inr kvs"
    and h: "map_header t (length kvs) = Inr h"
    and els: "list_all2 (\<lambda>kv z. \<exists>x y. z = x @ y \<and> wrote_el R (fst kv) b x \<and> wrote_el R (snd kv) b y) kvs bss"
  shows "wrote R MapObject v b (h @ concat bss)"
proof -
  from wrote_pairs [OF els] obtain es where es: "concat es = concat bss"
    "list_all2 (\<lambda>x. wrote_el R x b) (flat_pairs kvs) es" by blast
  have "reads_back R MapObject w b (h @ concat bss)"
    if g: "good R MapObject v w" and small: "length (h @ concat bss) < 2 ^ 31" for w
  proof -
    from g v items obtain i kws where i: "py_index t = Some i"
      and ws: "list_all2 (\<lambda>x w. good R (snd (hinted x)) (fst (hinted x)) w) (flat_pairs kvs) (flat_pairs kws)"
      and keys: "dict_keys (map fst kws)"
      and w: "w = VTuple [VInt i, VDict (i = LINKED_HASH_MAP) kws]"
      by (auto elim!: good_map simp: leaf_class_def py_items_def)
    have "length (flat_pairs kws) = length (flat_pairs kvs)"
      using list_all2_lengthD [OF ws] by (rule sym)
    then have n: "length kws = length kvs" "length kws < 2 ^ 31"
      using wrote_count [OF es(2)] es(1) small by auto
    have "h = TC_MAP # ct_bytes 4 (int (length kws)) @ ct_bytes 1 i" and r: "in_range 1 True i"
      using h i n by (auto simp: map_header_def rbind_eq_Inr_iff dest!: write_type_id_index
          write_length_less)
    then show ?thesis
      using map_reads_back [OF wrote_els [OF es(2) ws] r n(2) keys] small by (simp add: w es(1))
  qed
  moreover have "h \<noteq> []" using h by (auto simp: map_header_def rbind_eq_Inr_iff)
  ultimately show ?thesis by (simp add: wrote_def)
qed

lemma object_wrote:
  assumes f: "list_all2 (\<lambda>x. wrote R (snd x) (field_value attrs x) b) (cls_schema cl) bss"
    and buf: "buf = None \<or> buf = Some []"
  shows "wrote R BinaryObject (VObject cl version attrs buf) b (object_bytes b cl version bss)"
proof -
  let ?v = "signed_wrap 1 version"
  have "reads_back R BinaryObject w b (object_bytes b cl version bss)"
    if g: "good R BinaryObject (VObject cl version attrs buf) w"
      and small: "length (object_bytes b cl version bss) < 2 ^ 31" for w
  proof -
    from g obtain ws where cl: "cl \<in> R" "class_schema_id cl \<noteq> 0" "distinct (map fst (cls_schema cl))"
      and ws: "list_all2 (\<lambda>x w. good R (snd x) (field_value attrs x) w) (cls_schema cl) ws"
      and w: "w = VObject cl ?v (zip (map fst (cls_schema cl)) ws) None"
      by (auto elim!: good_object simp: leaf_class_def)
    have l: "length bss = length (cls_schema cl)" "length ws = length (cls_schema cl)"
      using f ws by (auto dest: list_all2_lengthD)
    have v: "in_range 1 True ?v" by (rule signed_wrap_in_range) simp
    have small': "length (object_bytes b cl ?v bss) < 2 ^ 31" using small by (simp only: signed_version)
    have cat: "length (concat bss) < 2 ^ 31"
      using small object_bytes_length [OF l(1), of b version] by simp
    have "reads_back R BinaryObject (VObject cl ?v (zip (map fst (cls_schema cl)) ws) None) b
        (object_bytes b cl ?v bss)"
    proof (rule object_reads_back [OF cl l v small'])
      fix n c assume n: "2 * length (concat bss) + 1 \<le> n" and R: "finds R c"
      have "decodes (reader R b) (parse_obj n (snd (cls_schema cl ! i)))
          (\<lambda>ob. to_py (snd (cls_schema cl ! i)) ob c) (bss ! i) (ws ! i, c)"
        if i: "i < length (cls_schema cl)" for i
      proof -
        have z: "length (bss ! i) \<le> length (concat bss)" using i l by (intro length_in_concat) simp
        have "reads_back R (snd (cls_schema cl ! i)) (ws ! i) b (bss ! i)"
          using f ws i z cat l by (auto simp: list_all2_conv_all_nth wrote_def)
        then show ?thesis using z n R by (simp add: reads_back_def)
      qed
      then show "list_all2 (\<lambda>x bw. decodes (reader R b) (parse_obj n (snd x)) (\<lambda>ob. to_py (snd x) ob c)
          (fst bw) (snd bw)) (cls_schema cl) (zip bss (map (\<lambda>w. (w, c)) ws))"
        using l by (simp add: list_all2_conv_all_nth)
    qed
    then show ?thesis by (simp only: signed_version w)
  qed
  moreover have "object_bytes b cl version bss \<noteq> []" using object_bytes_head [of b cl version bss] by auto
  ultimately show ?thesis by (simp add: wrote_def)
qed

subsection \<open>The encoder\<close>

lemma default_wrote: "appends (wrote R d (default_value d)) (from_py d (default_value d))"
proof (cases "d = AnyDataObject")
  case True
  have m: "map_python_type VNone = Inr Null" by (simp add: map_python_type_def python_map_def)
  have "appends (wrote R Null VNone) (from_py Null VNone)"
    by (auto simp: from_py_leaf leaf_class_def intro!: appends_mono [OF appends_write_leaf] leaf_wrote)
  then have "appends (wrote R AnyDataObject VNone) (from_py Null VNone)"
    by (rule appends_mono) (rule any_wrote [OF m])
  with m show ?thesis by (simp add: True default_value_def from_py_any)
next
  case False
  then have l: "leaf_class d \<or> default_value d = VNone"
    by (cases d) (auto simp: leaf_class_def default_value_def)
  then have "from_py d (default_value d) = write_leaf d (default_value d)"
    using False by (intro from_py_leaf) (auto simp: leaf_class_def)
  with l False show ?thesis by (auto intro!: appends_mono [OF appends_write_leaf] leaf_wrote)
qed

lemma from_py_wrote: "appends (wrote R d v) (from_py d v)"
proof (induction "2 * vsize v + (if d = AnyDataObject then 1 else 0)" arbitrary: d v rule: less_induct)
  case less
  have IH: "appends (wrote R d' v') (from_py d' v')"
    if "2 * vsize v' + (if d' = AnyDataObject then 1 else 0) < 2 * vsize v + (if d = AnyDataObject then 1 else 0)"
    for d' v' using less that by blast
  have inf: "appends (wrote_el R x) (infer x)" if "vsize x < vsize v" for x
    by (rule IH) (use vsize_infer [of x] that in \<open>auto split: if_splits\<close>)
  have seq: "appends (\<lambda>b z. \<exists>bss. z = h @ concat bss \<and> list_all2 (\<lambda>x. wrote_el R x b) (seq_or_single u) bss)
      (\<lambda>st. rbind (swrite h st) (rfold infer (seq_or_single u)))"
    if "py_seq v = Inr [t, u]" for h t u
    by (rule appends_container) (use inf element_less that in blast)
  show ?case
  proof (cases "d = AnyDataObject")
    case True
    show ?thesis unfolding True from_py_any
    proof (rule appends_pure)
      fix d' assume d': "map_python_type v = Inr d'"
      have "appends (wrote R d' v) (from_py d' v)"
        by (rule IH) (use True d' map_python_type_not_any [of v] in auto)
      then show "appends (wrote R AnyDataObject v) (from_py d' v)"
        by (rule appends_mono) (rule any_wrote [OF d'])
    qed
  next
    case any: False
    show ?thesis
    proof (cases "v = VNone \<or> leaf_class d")
      case True
      then have "from_py d v = write_leaf d v" using any by (intro from_py_leaf) (auto simp: leaf_class_def)
      then show ?thesis
        using True any by (auto intro!: appends_mono [OF appends_write_leaf] leaf_wrote)
    next
      case False
      then have v: "v \<noteq> VNone" by simp
      consider "d = ObjectArrayObject" | "d = CollectionObject" | "d = MapObject" | "d = BinaryObject"
        using False any by (auto simp: leaf_class_def)
      then show ?thesis
      proof cases
        case 1
        show ?thesis unfolding 1 from_py_array(1) [OF v]
          by (rule appends_pure)
            (auto intro!: appends_pure appends_mono [OF seq] array_wrote)
      next
        case 2
        show ?thesis unfolding 2 from_py_array(2) [OF v]
          by (rule appends_pure)
            (auto intro!: appends_pure appends_mono [OF seq] collection_wrote)
      next
        case 3
        have pair: "appends (\<lambda>b z. \<exists>x y. z = x @ y \<and> wrote_el R (fst kv) b x \<and> wrote_el R (snd kv) b y)
            (infer_pair kv)"
          if "py_seq v = Inr [t, u]" "py_items u = Inr kvs" "kv \<in> set kvs" for t u kvs kv
          unfolding infer_pair_def
          by (rule appends_bind) (use item_less [of u kvs "fst kv" "snd kv"] that inf in auto)
        have m: "appends (wrote R MapObject v) (\<lambda>st. if u = VNone then swrite [TC_NULL] st
            else rbind (py_items u) (\<lambda>kvs. rbind (map_header t (length kvs)) (\<lambda>h.
              rbind (swrite h st) (rfold infer_pair kvs))))" if vu: "py_seq v = Inr [t, u]" for t u
        proof (cases "u = VNone")
          case True
          have "w = VNone" if "good R MapObject v w" for w
            using that vu True by (auto elim!: good_map simp: leaf_class_def)
          then have "wrote R MapObject v b [TC_NULL]" for b
            using reads_back_null [of MapObject R b] by (auto simp: wrote_def)
          with True show ?thesis by (auto intro: appends_mono [OF appends_swrite])
        next
          case False
          have "appends (wrote R MapObject v) (\<lambda>st. rbind (swrite h st) (rfold infer_pair kvs))"
            if items: "py_items u = Inr kvs" and h: "map_header t (length kvs) = Inr h" for kvs h
            by (rule appends_mono [OF appends_container
                  [where Q = "\<lambda>kv b z. \<exists>x y. z = x @ y \<and> wrote_el R (fst kv) b x \<and> wrote_el R (snd kv) b y"]])
              (use pair [OF vu items] map_wrote [OF vu items h] in auto)
          with False show ?thesis by (auto intro!: appends_pure)
        qed
        show ?thesis unfolding 3 from_py_map [OF v]
        proof (rule appends_pure, clarify)
          fix t u assume "py_pair v = Inr (t, u)"
          then show "appends (wrote R MapObject v) (\<lambda>st. if u = VNone then swrite [TC_NULL] st
            else rbind (py_items u) (\<lambda>kvs. rbind (map_header t (length kvs)) (\<lambda>h.
              rbind (swrite h st) (rfold infer_pair kvs))))" by (intro m) simp
        qed
      next
        case 4
        show ?thesis
        proof (cases v)
          case (VObject cl version attrs buf)
          show ?thesis
          proof (cases "buf = None \<or> buf = Some []")
            case True
            have f: "appends (\<lambda>b. wrote R (snd x) (field_value attrs x) b) (write_field attrs x)" for x
            proof (cases "map_of attrs (fst x)")
              case None
              then show ?thesis unfolding write_field_value by (simp add: field_value_def default_wrote)
            next
              case (Some a)
              have "vsize a < vsize v" using vsize_attr [OF Some] VObject by simp
              with Some show ?thesis
                unfolding write_field_value by (auto simp: field_value_def intro!: IH)
            qed
            show ?thesis unfolding 4 VObject
              by (rule appends_mono [OF appends_object [OF _ True,
                    where Q = "\<lambda>x b. wrote R (snd x) (field_value attrs x) b"]])
                (use f object_wrote [OF _ True] in \<open>auto simp: object_spec_def\<close>)
          next
            case False
            then have e: "from_py d v = swrite (the buf)"
              by (auto simp: fun_eq_iff 4 VObject from_py.simps object_from_python_def)
            have "\<not> good R BinaryObject v w" for w
              using False VObject by (auto elim!: good_object simp: leaf_class_def)
            then have "wrote R BinaryObject v b (the buf)" for b using False by (auto simp: wrote_def)
            with e show ?thesis by (auto simp: 4 intro: appends_mono [OF appends_swrite])
          qed
        qed (use v in \<open>simp_all add: 4 appends_def from_py.simps object_from_python_def\<close>)
      qed
    qed
  qed
qed

subsection \<open>The round trip\<close>

text \<open>
  C1. Every value of every class, nested to any depth: if it is written without an exception
  (and the bytes fit the 31-bit lengths of the protocol), then any client with the same
  footer mode and the classes of its complex objects in the registry parses exactly the bytes
  written, wherever they stand in a stream, with a recursion depth proportional to their
  number, and converts them to the value \<open>good\<close> relates to the original (with no client at
  hand, as for the response of a query, when there are no complex objects): hinted and inferred
  classes are recovered from the type codes, collections, maps and object arrays keep their
  type and order, objects their class, version and fields.
\<close>

theorem any_value_roundtrip:
  assumes "good R d v w" and "at_end st" and "from_py d v st = Inr st'"
    and "length (sbuf st') < 2 ^ 31" and "finds R c"
  shows "\<exists>bs. sbuf st' = sbuf st @ bs \<and> bs \<noteq> [] \<and>
    decodes (reader R (compact_footer (sclient st))) (parse_obj (2 * length bs + 1) d)
      (\<lambda>ob. to_py d ob c) bs (w, c)"
proof -
  from from_py_wrote at_end_writable [OF assms(2)] assms(3) obtain bs c' where
    g: "st' = grow st bs c'" "wrote R d v (compact_footer (sclient st)) bs" by (rule appendsE)
  have b: "sbuf st' = sbuf st @ bs" using g(1) grow_at_end [OF assms(2), of bs c'] by simp
  then have "reads_back R d w (compact_footer (sclient st)) bs"
    using g(2) assms(1,4) by (simp add: wrote_def)
  then have "decodes (reader R (compact_footer (sclient st))) (parse_obj (2 * length bs + 1) d)
      (\<lambda>ob. to_py d ob c) bs (w, c)"
    using assms(5) by (simp add: reads_back_def)
  with b g(2) show ?thesis by (auto simp: wrote_def)
qed

definition sample :: pyval where
  "sample = VTuple [VInt 1, VList [VTuple [VInt 300, VType (DataObject TByte)], VNone, point_object]]"

definition sample_back :: pyval where
  "sample_back = VTuple [VInt 1, VList [VInt 44, VNone, point_object]]"

lemma point_schema_id: "class_schema_id point_class \<noteq> 0"
  by code_simp

lemma sample_class: "map_python_type sample = Inr CollectionObject"
  by (simp add: sample_def map_python_type_def python_map_def is_iterable_def get_subtype_def isinst_def
      py_subclass_def object_array_python_types_def pair_heuristics_def py_getitem_def py_item_def point_object_def)

lemma point_good: "good {point_class} BinaryObject point_object point_object"
proof -
  have w: "signed_wrap 4 5 = 5" "signed_wrap 1 1 = 1" by (simp_all add: signed_wrap_def)
  have "good {point_class} BinaryObject point_object (VObject point_class (signed_wrap 1 1)
      (zip (map fst (cls_schema point_class)) [VInt 5]) None)"
    unfolding point_object_def
  proof (rule good.object)
    show "list_all2 (\<lambda>x w. good {point_class} (snd x) (field_value [([120], VInt 5)] x) w)
        (cls_schema point_class) [VInt 5]"
      using w(1) by (auto simp: point_class_def field_value_def leaf_class_def leaf_good_def prim_good_def
          int_prim_def intro!: good.leaf)
  qed (simp_all add: point_schema_id, simp add: point_class_def)
  then show ?thesis using w(2) by (simp add: point_object_def point_class_def)
qed

lemma sample_good: "good {point_class} AnyDataObject sample sample_back"
proof (rule good.any [OF sample_class])
  have w: "signed_wrap 1 300 = 44" by (simp add: signed_wrap_def)
  have "good {point_class} AnyDataObject point_object point_object"
    by (rule good.any [rotated], rule point_good)
      (simp add: point_object_def map_python_type_def python_map_def is_iterable_def is_binary_def)
  moreover have "good {point_class} AnyDataObject VNone VNone"
    by (rule good.any [of _ Null]) (auto simp: map_python_type_def python_map_def intro: good.null)
  moreover have "good {point_class} (DataObject TByte) (VInt 300) (VInt 44)"
    using w by (auto simp: leaf_class_def leaf_good_def prim_good_def int_prim_def intro!: good.leaf)
  moreover have "hinted point_object = (point_object, AnyDataObject)"
    by (simp add: hinted_def point_object_def)
  ultimately show "good {point_class} CollectionObject sample sample_back"
    unfolding sample_def sample_back_def
    by (intro good.collection) (auto simp: hinted_def seq_or_single_def)
qed

lemma sample_encodes:
  assumes w: "writable st" and c: "sclient st = new_client None"
  shows "\<exists>bs c'. length bs < 100 \<and> from_py AnyDataObject sample st = Inr (grow st bs c')"
proof -
  let ?h = "TC_COLLECTION # ct_bytes 4 3 @ ct_bytes 1 1"
  let ?x = "VTuple [VInt 300, VType (DataObject TByte)]"
  let ?o = "object_bytes True point_class 1 [point_field]"
  have h: "collection_header (VInt 1) (Suc (Suc (Suc 0))) = Inr ?h"
    by (simp add: collection_header_def write_length_def write_type_id_def int_to_bytes_def in_range_def)
  have l: "leaf_from_python (DataObject TByte) (VInt 300) = Inr [1, 44]"
    by (simp add: leaf_from_python_def data_object_from_python_def ctypes_set_def data_object_ct_def
        code_obj_def ct_bytes_def)
  have e1: "infer ?x s = Inr (grow s [1, 44] (sclient s))" if "writable s" for s
    using that by (simp add: hinted_def from_py_leaf write_leaf_def l swrite_writable)
  have e2: "infer VNone s = Inr (grow s [TC_NULL] (sclient s))" if "writable s" for s
    using that by (simp add: hinted_def from_py_any map_python_type_def python_map_def from_py_leaf
        write_leaf_def leaf_from_python_def swrite_writable)
  have o: "infer point_object = from_py BinaryObject point_object"
    by (simp add: hinted_def point_object_def from_py_any map_python_type_def python_map_def
        is_iterable_def is_binary_def)
  let ?s = "grow (grow (grow st ?h (sclient st)) [1, 44] (sclient st)) [TC_NULL] (sclient st)"
  have ws: "writable ?s" using w by simp
  from point_encodes [OF ws] c obtain c' where p: "from_py BinaryObject point_object ?s = Inr (grow ?s ?o c')"
    by auto
  have "from_py AnyDataObject sample st = from_py CollectionObject sample st"
    by (simp only: from_py_any sample_class rbind_Inr)
  also have "\<dots> = rbind (swrite ?h st) (rfold infer [?x, VNone, point_object])"
    by (simp only: from_py_array sample_def pyval.distinct not_False_eq_True)
      (simp add: seq_or_single_def h py_pair_def del: rfold.simps)
  also have "\<dots> = Inr (grow ?s ?o c')"
    using w p by (simp add: swrite_writable e1 e2 o del: grow_grow)
  finally have "from_py AnyDataObject sample st = Inr (grow st (?h @ [1, 44] @ [TC_NULL] @ ?o) c')"
    using w by simp
  moreover have "length ?o = 30"
    by (subst object_bytes_length)
      (simp_all add: point_class_def entry_size_def offset_bytes_def max_offset_def)
  ultimately show ?thesis
    by (intro exI [of _ "?h @ [1, 44] @ [TC_NULL] @ ?o"] exI [of _ c']) simp
qed

theorem any_value_roundtrip_witness:
  "\<exists>bs c. decodes (reader {point_class} True) (parse_obj (2 * length bs + 1) AnyDataObject)
     (\<lambda>ob. to_py AnyDataObject ob (Some c)) bs (sample_back, Some c) \<and> reader {point_class} True c"
proof -
  let ?s = "new_stream (new_client None) []"
  let ?c = "reg_put (class_type_id point_class) (class_schema_id point_class) point_class (new_client None)"
  have e: "at_end ?s" by (rule at_end_new_stream)
  have sc: "sclient ?s = new_client None" "sbuf ?s = []" by (simp_all add: new_stream_def)
  obtain bs c' where f: "length bs < 100" "from_py AnyDataObject sample ?s = Inr (grow ?s bs c')"
    using sample_encodes [OF at_end_writable [OF e] sc(1)] by blast
  have k: "knows {point_class} ?c" by (simp add: knows_def)
  then have k': "finds {point_class} (Some ?c)" by simp
  have small: "length (sbuf (grow ?s bs c')) < 2 ^ 31"
    using f(1) grow_at_end [OF e, of bs c'] sc(2) by simp
  have "reader {point_class} True ?c" using k by (simp add: reader_def new_client_def)
  moreover have "compact_footer (sclient ?s) = True" using sc(1) by (simp only:) (simp add: compact_footer_def new_client_def)
  ultimately show ?thesis
    using any_value_roundtrip [OF sample_good e f(2) small k'] by auto
qed

end
