(* ===== verification/Protocol.thy ===== *)
theory Protocol
  imports CTypes
begin

section \<open>Protocol versions and features\<close>

text \<open>
  \<open>connection/bitmask_feature.py\<close>, \<open>connection/protocol_context.py\<close> and the protocol versions
  of \<open>constants.py\<close>. A feature set is an \<open>IntFlag\<close>, a non-negative integer of unbounded
  width; \<open>pc_features\<close> is \<open>None\<close> for the versions that have no feature masks.
\<close>

type_synonym version = "int \<times> int \<times> int"

definition version_ge :: "version \<Rightarrow> version \<Rightarrow> bool" where
  "version_ge v w \<longleftrightarrow>
     (case v of (a, b, c) \<Rightarrow> case w of (a', b', c') \<Rightarrow>
        a' < a \<or> (a' = a \<and> (b' < b \<or> (b' = b \<and> c' \<le> c))))"

definition PROTOCOLS :: "version list" where
  "PROTOCOLS = [(1, 7, 1), (1, 7, 0), (1, 6, 0), (1, 5, 0), (1, 4, 0), (1, 3, 0), (1, 2, 0)]"

text \<open>\<open>max(PROTOCOLS)\<close>, on the tuples of a non-empty set.\<close>

definition max_version :: "version list \<Rightarrow> version" where
  "max_version vs = fold (\<lambda>v m. if version_ge v m then v else m) (tl vs) (hd vs)"

subsection \<open>Feature masks\<close>

definition CLUSTER_API :: nat where "CLUSTER_API = 2 ^ 2"
definition QUERY_INDEX_VECTOR_SIMILARITY :: nat where "QUERY_INDEX_VECTOR_SIMILARITY = 2 ^ 33"

fun bit_length :: "nat \<Rightarrow> nat" where
  "bit_length n = (if n = 0 then 0 else Suc (bit_length (n div 2)))"

declare bit_length.simps [simp del]

definition features_bytes :: "nat \<Rightarrow> byte list" where
  "features_bytes f = le_bytes (bit_length f div 8 + 1) f"

definition all_supported :: nat where
  "all_supported = fold (\<lambda>feature supported. or supported feature)
     [CLUSTER_API, QUERY_INDEX_VECTOR_SIMILARITY] 0"

definition features_from_array :: "byte list option \<Rightarrow> nat option" where
  "features_from_array a = map_option le_nat a"

definition has_feature :: "nat \<Rightarrow> nat \<Rightarrow> bool" where
  "has_feature f fs \<longleftrightarrow> and fs f = f"

subsection \<open>Protocol context\<close>

record protocol_context =
  pc_version :: version
  pc_features :: "nat option"

definition is_partition_awareness_supported :: "protocol_context \<Rightarrow> bool" where
  "is_partition_awareness_supported pc \<longleftrightarrow> version_ge (pc_version pc) (1, 4, 0)"

definition is_status_flags_supported :: "protocol_context \<Rightarrow> bool" where
  "is_status_flags_supported pc \<longleftrightarrow> version_ge (pc_version pc) (1, 4, 0)"

definition is_transactions_supported :: "protocol_context \<Rightarrow> bool" where
  "is_transactions_supported pc \<longleftrightarrow> version_ge (pc_version pc) (1, 6, 0)"

definition is_feature_flags_supported :: "protocol_context \<Rightarrow> bool" where
  "is_feature_flags_supported pc \<longleftrightarrow> version_ge (pc_version pc) (1, 7, 0)"

definition is_user_attributes_supported :: "protocol_context \<Rightarrow> bool" where
  "is_user_attributes_supported pc \<longleftrightarrow> version_ge (pc_version pc) (1, 7, 1)"

definition is_expiry_policy_supported :: "protocol_context \<Rightarrow> bool" where
  "is_expiry_policy_supported pc \<longleftrightarrow> version_ge (pc_version pc) (1, 6, 0)"

definition feature_supported :: "nat \<Rightarrow> protocol_context \<Rightarrow> bool" where
  "feature_supported f pc \<longleftrightarrow>
     (case pc_features pc of None \<Rightarrow> False | Some fs \<Rightarrow> fs \<noteq> 0 \<and> has_feature f fs)"

definition is_cluster_api_supported :: "protocol_context \<Rightarrow> bool" where
  "is_cluster_api_supported = feature_supported CLUSTER_API"

definition is_query_index_vector_similarity_supported :: "protocol_context \<Rightarrow> bool" where
  "is_query_index_vector_similarity_supported = feature_supported QUERY_INDEX_VECTOR_SIMILARITY"

definition ensure_consistency :: "protocol_context \<Rightarrow> protocol_context" where
  "ensure_consistency pc =
     (if is_feature_flags_supported pc then pc else pc\<lparr>pc_features := None\<rparr>)"

definition new_protocol_context :: "version \<Rightarrow> nat option \<Rightarrow> protocol_context" where
  "new_protocol_context v fs = ensure_consistency \<lparr>pc_version = v, pc_features = fs\<rparr>"

definition copy_context :: "protocol_context \<Rightarrow> protocol_context" where
  "copy_context pc = new_protocol_context (pc_version pc) (pc_features pc)"

definition set_version :: "version \<Rightarrow> protocol_context \<Rightarrow> protocol_context" where
  "set_version v pc = ensure_consistency (pc\<lparr>pc_version := v\<rparr>)"

definition set_features :: "nat option \<Rightarrow> protocol_context \<Rightarrow> protocol_context" where
  "set_features fs pc = ensure_consistency (pc\<lparr>pc_features := fs\<rparr>)"

lemmas version_checks = is_partition_awareness_supported_def is_status_flags_supported_def
  is_transactions_supported_def is_feature_flags_supported_def is_user_attributes_supported_def
  is_expiry_policy_supported_def

subsection \<open>Lemmas\<close>

lemma version_ge_refl [simp]: "version_ge v v"
  by (simp add: version_ge_def split: prod.splits)

lemma version_ge_trans: "version_ge u v \<Longrightarrow> version_ge v w \<Longrightarrow> version_ge u w"
  by (auto simp: version_ge_def split: prod.splits)

lemma version_ge_total: "version_ge u v \<or> version_ge v u"
  by (auto simp: version_ge_def split: prod.splits)

lemma max_version_PROTOCOLS: "max_version PROTOCOLS = (1, 7, 1)"
  by (simp add: max_version_def PROTOCOLS_def version_ge_def)

lemma bit_length_bound: "n < 2 ^ bit_length n"
proof (induction n rule: bit_length.induct)
  case (1 n)
  show ?case
  proof (cases "n = 0")
    case False
    with 1 have "n div 2 < 2 ^ bit_length (n div 2)" by blast
    then have "n < 2 * 2 ^ bit_length (n div 2)" by linarith
    with False show ?thesis by (subst bit_length.simps) simp
  qed (simp add: bit_length.simps)
qed

lemma features_bytes_fit: "f < 256 ^ (bit_length f div 8 + 1)"
proof -
  define n where "n = bit_length f"
  define k where "k = n div 8 + 1"
  have "n \<le> 8 * k" unfolding k_def by presburger
  then have "(2 :: nat) ^ n \<le> 2 ^ (8 * k)" by (intro power_increasing) auto
  also have "\<dots> = (2 ^ 8) ^ k" by (rule power_mult)
  also have "\<dots> = 256 ^ k" by simp
  finally show ?thesis using bit_length_bound [of f] unfolding n_def k_def by linarith
qed

lemma features_back: "features_from_array (Some (features_bytes f)) = Some f"
proof -
  define k where "k = bit_length f div 8 + 1"
  have "f mod 256 ^ k = f" using features_bytes_fit [of f] by (simp add: k_def)
  then show ?thesis
    unfolding features_from_array_def features_bytes_def k_def [symmetric]
    by (simp add: le_nat_le_bytes)
qed

text \<open>
  The invariant of a context: features only with a version that has feature masks. The
  constructor and both setters establish it, whatever the context was before.
\<close>

definition context_ok :: "protocol_context \<Rightarrow> bool" where
  "context_ok pc \<longleftrightarrow> (pc_features pc \<noteq> None \<longrightarrow> is_feature_flags_supported pc)"

lemma ensure_consistency_ok [simp]: "context_ok (ensure_consistency pc)"
  by (simp add: context_ok_def ensure_consistency_def is_feature_flags_supported_def)

lemma ensure_consistency_id: "context_ok pc \<Longrightarrow> ensure_consistency pc = pc"
  by (cases pc) (auto simp: context_ok_def ensure_consistency_def is_feature_flags_supported_def)

lemma context_ops_ok:
  "context_ok (new_protocol_context v fs)" "context_ok (set_version v pc)"
  "context_ok (set_features fs pc)" "context_ok (copy_context pc)"
  by (simp_all add: new_protocol_context_def set_version_def set_features_def copy_context_def)

lemma copy_context_id: "context_ok pc \<Longrightarrow> copy_context pc = pc"
  using ensure_consistency_id [of pc] by (cases pc) (simp add: copy_context_def new_protocol_context_def)

lemma ensure_version [simp]: "pc_version (ensure_consistency pc) = pc_version pc"
  by (simp add: ensure_consistency_def)

text \<open>
  C32. A protocol context never claims a feature its version cannot negotiate: the constructor,
  \<open>copy\<close> and both setters keep features out of the versions before 1.7.0, switching the version
  down and up again forgets the features, and the feature checks are false without them, so the
  cluster and vector APIs are only offered from 1.7.0 on.
\<close>

theorem protocol_features_consistent:
  "context_ok (new_protocol_context v fs) \<and> context_ok (copy_context pc) \<and>
   context_ok (set_features fs pc) \<and> context_ok (set_version v pc) \<and> pc_version (set_version v pc) = v \<and>
   (\<not> version_ge v (1, 7, 0) \<longrightarrow> pc_features (set_version w (set_version v pc)) = None) \<and>
   (context_ok pc \<longrightarrow> feature_supported f pc \<longrightarrow> version_ge (pc_version pc) (1, 7, 0))"
  by (simp add: context_ops_ok)
    (auto simp: set_version_def ensure_consistency_def context_ok_def feature_supported_def
      is_feature_flags_supported_def split: option.splits)

theorem protocol_features_consistent_witness:
  "pc_features (set_version (1, 7, 1) (set_version (1, 6, 0)
     (new_protocol_context (1, 7, 1) (Some all_supported)))) = None \<and>
   version_ge (pc_version (new_protocol_context (1, 7, 1) (Some all_supported))) (1, 7, 0)"
proof -
  let ?pc = "new_protocol_context (1, 7, 1) (Some all_supported)"
  have "feature_supported CLUSTER_API ?pc"
    by (simp add: new_protocol_context_def ensure_consistency_def is_feature_flags_supported_def
        version_ge_def feature_supported_def all_supported_def CLUSTER_API_def
        QUERY_INDEX_VECTOR_SIMILARITY_def has_feature_def)
  moreover have "\<not> version_ge (1, 6, 0) (1, 7, 0)" by (simp add: version_ge_def)
  ultimately show ?thesis
    using protocol_features_consistent [of "(1, 6, 0)" None ?pc "(1, 7, 1)" CLUSTER_API] context_ops_ok(1) by blast
qed

text \<open>
  A feature set of any size is sent as the little-endian bytes of its mask, one byte more
  than its whole bytes, and \<open>from_array\<close> reads the same set back.
\<close>

theorem features_roundtrip:
  "features_from_array (Some (features_bytes f)) = Some f \<and>
   length (features_bytes f) = bit_length f div 8 + 1"
  by (simp add: features_back) (simp add: features_bytes_def)

end
