(* ===== verification/CacheInfo.thy ===== *)
theory CacheInfo
  imports AnyTrip Protocol
begin

section \<open>Expiry policies and the cache information of a request\<close>

text \<open>
  \<open>datatypes/expiry_policy.py\<close> and \<open>queries/cache_info.py\<close>. A duration is a number of
  milliseconds or a \<open>timedelta\<close>, here in microseconds. The id of the current transaction
  (\<open>get_tx_id()\<close>, a context variable) is the argument \<open>tx\<close> of the encoders.
\<close>

subsection \<open>Expiry policy\<close>

datatype duration = Millis int | Delta int

record expiry_policy =
  ep_create :: duration
  ep_update :: duration
  ep_access :: duration

definition UNCHANGED :: int where "UNCHANGED = - 2"
definition ETERNAL :: int where "ETERNAL = - 1"

text \<open>
  A \<open>timedelta\<close> is validated as the double \<open>total_seconds() * 1000\<close>, which may equal one of the
  two negative constants; it is written as the floor of that double.
\<close>

definition fl_is :: "fl \<Rightarrow> int \<Rightarrow> bool" where
  "fl_is x k = (case x of (m, e) \<Rightarrow> if 0 \<le> e then m * 2 ^ nat e = k else m = k * 2 ^ nat (- e))"

definition positive :: "duration \<Rightarrow> unit res" where
  "positive v =
     (case v of
        Millis i \<Rightarrow> if i < 0 \<and> i \<noteq> UNCHANGED \<and> i \<noteq> ETERNAL then Inl ValueError else Inr ()
      | Delta us \<Rightarrow>
          let x = fl_mul (fl_ratio us 1000000) 1000
          in if fst x < 0 \<and> \<not> fl_is x UNCHANGED \<and> \<not> fl_is x ETERNAL then Inl ValueError else Inr ())"

definition new_expiry_policy :: "duration \<Rightarrow> duration \<Rightarrow> duration \<Rightarrow> expiry_policy res" where
  "new_expiry_policy create update access =
     rbind (positive create) (\<lambda>_. rbind (positive update) (\<lambda>_. rbind (positive access) (\<lambda>_.
       Inr \<lparr>ep_create = create, ep_update = update, ep_access = access\<rparr>)))"

definition duration_ms :: "duration \<Rightarrow> int" where
  "duration_ms v = (case v of Millis i \<Rightarrow> i | Delta us \<Rightarrow> timedelta_ms_floor us)"

definition write_duration :: "duration \<Rightarrow> bstream \<Rightarrow> bstream res" where
  "write_duration v st = rbind (int_to_bytes 8 True (duration_ms v)) (\<lambda>b. swrite b st)"

definition write_policy :: "expiry_policy \<Rightarrow> bstream \<Rightarrow> bstream res" where
  "write_policy ep st =
     rbind (write_duration (ep_create ep) st) (\<lambda>st1.
       rbind (write_duration (ep_update ep) st1) (write_duration (ep_access ep)))"

definition policy_from_python :: "expiry_policy option \<Rightarrow> bstream \<Rightarrow> bstream res" where
  "policy_from_python ep st =
     (case ep of None \<Rightarrow> swrite [0] st | Some p \<Rightarrow> rbind (swrite [1] st) (write_policy p))"

definition policy_ct :: ctype where
  "policy_ct = CStruct [(Nm ''not_null'', c_byte), (Nm ''create'', c_longlong),
     (Nm ''update'', c_longlong), (Nm ''access'', c_longlong)]"

definition policy_parse :: "bstream \<Rightarrow> (ctype \<times> bstream) res" where
  "policy_parse st =
     (let (b, st1) = slice (spos st) 1 st
      in if le_nat b \<noteq> 0 then Inr (policy_ct, seek_cur (sizeof_ct policy_ct) st1)
         else Inr (c_byte, seek_cur 1 st1))"

definition policy_to_python :: "cobj \<Rightarrow> expiry_policy option res" where
  "policy_to_python ob =
     (if ob = OInt 0 then Inr None
      else rbind (getint ''create'' ob) (\<lambda>c. rbind (getint ''update'' ob) (\<lambda>u.
        rbind (getint ''access'' ob) (\<lambda>a.
          rbind (new_expiry_policy (Millis c) (Millis u) (Millis a)) (\<lambda>ep. Inr (Some ep))))))"

subsection \<open>Cache information\<close>

record cache_info =
  ci_cache_id :: int
  ci_expiry_policy :: "expiry_policy option"
  ci_protocol_context :: protocol_context

definition TRANSACTIONS_MASK :: int where "TRANSACTIONS_MASK = 2"
definition EXPIRY_POLICY_MASK :: int where "EXPIRY_POLICY_MASK = 4"

definition tx_active :: "int option \<Rightarrow> cache_info \<Rightarrow> bool" where
  "tx_active tx v \<longleftrightarrow>
     is_transactions_supported (ci_protocol_context v) \<and> tx \<noteq> None \<and> tx \<noteq> Some 0"

definition cache_info_from_python :: "int option \<Rightarrow> cache_info \<Rightarrow> bstream \<Rightarrow> bstream res" where
  "cache_info_from_python tx v st =
     rbind (int_to_bytes 4 True (ci_cache_id v)) (\<lambda>b.
     rbind (swrite b st) (\<lambda>st1.
     rbind (case ci_expiry_policy v of
              None \<Rightarrow> Inr 0
            | Some ep \<Rightarrow> if is_expiry_policy_supported (ci_protocol_context v)
                then Inr EXPIRY_POLICY_MASK else Inl NotSupportedByClusterError) (\<lambda>flags0.
       let flags = (if tx_active tx v then or flags0 TRANSACTIONS_MASK else flags0)
       in rbind (int_to_bytes 1 False flags) (\<lambda>fb.
          rbind (swrite fb st1) (\<lambda>st2.
          rbind (case ci_expiry_policy v of None \<Rightarrow> Inr st2 | Some ep \<Rightarrow> write_policy ep st2) (\<lambda>st3.
            if and flags TRANSACTIONS_MASK \<noteq> 0
            then rbind (int_to_bytes 4 True (the tx)) (\<lambda>tb. swrite tb st3)
            else Inr st3))))))"

subsection \<open>The bytes written\<close>

definition duration_bytes :: "duration \<Rightarrow> byte list" where
  "duration_bytes v = ct_bytes 8 (duration_ms v)"

definition policy_bytes :: "expiry_policy \<Rightarrow> byte list" where
  "policy_bytes ep =
     duration_bytes (ep_create ep) @ duration_bytes (ep_update ep) @ duration_bytes (ep_access ep)"

definition policy_in_range :: "expiry_policy \<Rightarrow> bool" where
  "policy_in_range ep \<longleftrightarrow> in_range 8 True (duration_ms (ep_create ep)) \<and>
     in_range 8 True (duration_ms (ep_update ep)) \<and> in_range 8 True (duration_ms (ep_access ep))"

definition cache_info_flags :: "int option \<Rightarrow> cache_info \<Rightarrow> byte" where
  "cache_info_flags tx v =
     (if ci_expiry_policy v = None then 0 else 4) + (if tx_active tx v then 2 else 0)"

definition cache_info_bytes :: "int option \<Rightarrow> cache_info \<Rightarrow> byte list" where
  "cache_info_bytes tx v =
     ct_bytes 4 (ci_cache_id v) @ [cache_info_flags tx v] @
     (case ci_expiry_policy v of None \<Rightarrow> [] | Some ep \<Rightarrow> policy_bytes ep) @
     (if tx_active tx v then ct_bytes 4 (the tx) else [])"

definition cache_info_ok :: "int option \<Rightarrow> cache_info \<Rightarrow> bool" where
  "cache_info_ok tx v \<longleftrightarrow> in_range 4 True (ci_cache_id v) \<and>
     (case ci_expiry_policy v of None \<Rightarrow> True
      | Some ep \<Rightarrow> is_expiry_policy_supported (ci_protocol_context v) \<and> policy_in_range ep) \<and>
     (tx_active tx v \<longrightarrow> in_range 4 True (the tx))"

lemma write_duration_writable:
  assumes "writable st"
  shows "write_duration v st = (if in_range 8 True (duration_ms v)
    then Inr (grow st (duration_bytes v) (sclient st)) else Inl OverflowError)"
  using assms by (simp add: write_duration_def int_to_bytes_def swrite_writable duration_bytes_def)

lemma write_policy_writable:
  assumes "writable st"
  shows "write_policy ep st = (if policy_in_range ep
    then Inr (grow st (policy_bytes ep) (sclient st)) else Inl OverflowError)"
  using assms by (simp add: write_policy_def write_duration_writable policy_in_range_def policy_bytes_def)

lemma int_to_bytes_flags:
  "int_to_bytes (Suc 0) False 0 = Inr [0]" "int_to_bytes (Suc 0) False 2 = Inr [2]"
  "int_to_bytes (Suc 0) False 4 = Inr [4]" "int_to_bytes (Suc 0) False 6 = Inr [6]"
  by (simp_all add: int_to_bytes_def in_range_def ct_bytes_def)

lemma or_and_masks: "or (4 :: int) 2 = 6" "and (6 :: int) 2 = 2" "and (4 :: int) 2 = 0"
  by (simp_all)

lemma cache_info_writable:
  assumes w: "writable st"
  shows "cache_info_from_python tx v st =
    (if cache_info_ok tx v then Inr (grow st (cache_info_bytes tx v) (sclient st))
     else if in_range 4 True (ci_cache_id v) \<and> ci_expiry_policy v \<noteq> None \<and>
       \<not> is_expiry_policy_supported (ci_protocol_context v) then Inl NotSupportedByClusterError
     else Inl OverflowError)"
proof (cases "in_range 4 True (ci_cache_id v)")
  case False
  then show ?thesis by (simp add: cache_info_from_python_def int_to_bytes_def cache_info_ok_def)
next
  case True
  note d = cache_info_from_python_def cache_info_ok_def cache_info_bytes_def cache_info_flags_def
    EXPIRY_POLICY_MASK_def TRANSACTIONS_MASK_def or_and_masks int_to_bytes_flags
    write_policy_writable swrite_writable
  have id: "int_to_bytes 4 True (ci_cache_id v) = Inr (ct_bytes 4 (ci_cache_id v))"
    using True by (simp add: int_to_bytes_def)
  have tb: "int_to_bytes 4 True i = (if in_range 4 True i then Inr (ct_bytes 4 i) else Inl OverflowError)" for i
    by (simp add: int_to_bytes_def)
  show ?thesis
    using w True
    by (cases "ci_expiry_policy v"; cases "tx_active tx v")
      (simp_all add: d id Let_def tb)
qed

text \<open>
  C31. \<open>CacheInfo.from_python\<close> either appends exactly the cache id, the flags byte, the three
  durations if there is a policy, and the transaction id if one is active and the protocol has
  transactions, or raises: the request is never written for a policy the protocol cannot
  express. Where in the request it is written does not matter.
\<close>

theorem cache_info_request:
  assumes "at_end st"
  shows "cache_info_from_python tx v st =
    (if cache_info_ok tx v then Inr (append_to st (cache_info_bytes tx v))
     else if in_range 4 True (ci_cache_id v) \<and> ci_expiry_policy v \<noteq> None \<and>
       \<not> is_expiry_policy_supported (ci_protocol_context v) then Inl NotSupportedByClusterError
     else Inl OverflowError)"
  using cache_info_writable [OF at_end_writable [OF assms]] grow_at_end [OF assms]
  by (simp add: append_to_def)

theorem cache_info_request_witness:
  "cache_info_from_python (Some 7) \<lparr>ci_cache_id = 5, ci_expiry_policy = None,
      ci_protocol_context = new_protocol_context (1, 7, 1) None\<rparr> (new_stream (new_client None) []) =
   Inr (append_to (new_stream (new_client None) []) [5, 0, 0, 0, 2, 7, 0, 0, 0])"
proof -
  let ?v = "\<lparr>ci_cache_id = 5, ci_expiry_policy = None,
      ci_protocol_context = new_protocol_context (1, 7, 1) None\<rparr>"
  have "cache_info_ok (Some 7) ?v" by code_simp
  moreover have "cache_info_bytes (Some 7) ?v = [5, 0, 0, 0, 2, 7, 0, 0, 0]" by code_simp
  ultimately show ?thesis using cache_info_request [OF at_end_new_stream, of "Some 7" ?v] by simp
qed

subsection \<open>Reading a policy back\<close>

lemma policy_decodes:
  assumes "policy_in_range ep"
    and "new_expiry_policy (Millis (duration_ms (ep_create ep))) (Millis (duration_ms (ep_update ep)))
      (Millis (duration_ms (ep_access ep))) = Inr ep'"
  shows "decodes P policy_parse policy_to_python (1 # policy_bytes ep) (Some ep')"
proof (rule decodesI)
  fix st assume r: "reads st (1 # policy_bytes ep)" and P: "P (sclient st)"
  have l: "length (policy_bytes ep) = 24" by (simp add: policy_bytes_def duration_bytes_def)
  have b: "bslice (sbuf st) (spos st) 1 = [1]" using reads_slice0 [OF r, of 1] by simp
  have c: "policy_to_python (read_ct policy_ct (1 # policy_bytes ep)) = Inr (Some ep')"
    using assms by (simp add: policy_to_python_def policy_ct_def getint_def policy_bytes_def
        duration_bytes_def policy_in_range_def le_simps)
  have "sizeof_ct policy_ct = length (1 # policy_bytes ep)" by (simp add: policy_ct_def l)
  with b c P show "\<exists>t st'. policy_parse st = Inr (t, st') \<and>
      advanced st (length (1 # policy_bytes ep)) st' \<and> P (sclient st') \<and>
      sizeof_ct t = length (1 # policy_bytes ep) \<and>
      policy_to_python (read_ct t (1 # policy_bytes ep)) = Inr (Some ep')"
    by (simp add: policy_parse_def slice_def advanced_def)
qed

lemma no_policy_decodes: "decodes P policy_parse policy_to_python [0] None"
proof (rule decodesI)
  fix st assume r: "reads st [0]" and P: "P (sclient st)"
  have b: "bslice (sbuf st) (spos st) 1 = [0]" using reads_slice0 [OF r, of 1] by simp
  with P show "\<exists>t st'. policy_parse st = Inr (t, st') \<and> advanced st (length [0 :: byte]) st' \<and>
      P (sclient st') \<and> sizeof_ct t = length [0 :: byte] \<and> policy_to_python (read_ct t [0]) = Inr None"
    by (simp add: policy_parse_def slice_def policy_to_python_def le_int_def Let_def advanced_def)
qed

end
