(* ===== verification/Structs.thy ===== *)
theory Structs
  imports CacheInfo
begin

section \<open>Structures\<close>

text \<open>
  The combinators requests and responses are described with (\<open>internal.py\<close>): \<open>Struct\<close>,
  \<open>StructArray\<close>, \<open>Conditional\<close>, over the payload classes, the object classes, \<open>AnyDataArray\<close>,
  \<open>Map\<close>, cache information, expiry policies and the cache properties
  (\<open>cache_properties.py\<close>). A class is a value of \<open>wtype\<close>; its three operations are the
  recursive functions \<open>put_w\<close> (\<open>from_python\<close>), \<open>get_w\<close> (\<open>parse\<close>) and \<open>conv_w\<close>
  (\<open>to_python\<close>). The values they exchange with the API functions are \<open>wval\<close>: Python values, the
  dicts with string keys of the structures, lists of them, the two client classes, dicts with
  integer keys (property codes) and function objects.
\<close>

datatype wval =
    WV pyval
  | WD "(string \<times> wval) list"
  | WL "wval list"
  | WPolicy expiry_policy
  | WInfo cache_info
  | WCodes "(int \<times> wval) list"
  | WFunction string

text \<open>
  \<open>Conditional\<close> has a predicate over the fields parsed so far and one over the values converted
  so far. \<open>WProp c timeout t\<close> is the property class with code \<open>c\<close> and data class \<open>t\<close>, a
  subclass of \<open>TimeoutProp\<close> if \<open>timeout\<close>.
\<close>

datatype wtype =
    WObject dtype
  | WPrim prim
  | WPrimArray prim
  | WStdArray std
  | WAnyArray
  | WMap
  | WCacheInfo
  | WExpiryPolicy
  | WStruct "(string \<times> wtype) list" "(string \<times> wval) list"
  | WStructArray "(string \<times> wtype) list" "(string \<times> wval) list"
  | WConditional "string list" "(string \<times> cobj option) list \<Rightarrow> bool" "(string \<times> wval) list \<Rightarrow> bool" wtype wtype
  | WProp int bool wtype

subsection \<open>Dictionaries\<close>

definition dget :: "string \<Rightarrow> (string \<times> 'a) list \<Rightarrow> 'a res" where
  "dget k d = (case map_of d k of None \<Rightarrow> Inl KeyError | Some v \<Rightarrow> Inr v)"

fun dput :: "string \<Rightarrow> 'a \<Rightarrow> (string \<times> 'a) list \<Rightarrow> (string \<times> 'a) list" where
  "dput k v [] = [(k, v)]"
| "dput k v ((k', v') # d) = (if k = k' then (k, v) # d else (k', v') # dput k v d)"

definition set_defaults :: "(string \<times> 'a) list \<Rightarrow> (string \<times> 'a) list \<Rightarrow> (string \<times> 'a) list" where
  "set_defaults defaults d =
     fold (\<lambda>(k, v) d. if map_of d k = None then d @ [(k, v)] else d) defaults d"

text \<open>\<open>v.setdefault(\<dots>)\<close> and \<open>v[name]\<close> on a value that is not a dict.\<close>

definition as_dict :: "(string \<times> wval) list \<Rightarrow> wval \<Rightarrow> (string \<times> wval) list res" where
  "as_dict defaults v =
     (case v of WD d \<Rightarrow> Inr (set_defaults defaults d)
      | _ \<Rightarrow> if defaults = [] then Inl TypeError else Inl AttributeError)"

definition as_val :: "wval \<Rightarrow> pyval res" where
  "as_val v = (case v of WV x \<Rightarrow> Inr x | _ \<Rightarrow> Inl TypeError)"

definition wseq :: "wval \<Rightarrow> wval list res" where
  "wseq v =
     (case v of
        WL xs \<Rightarrow> Inr xs
      | WV x \<Rightarrow> rbind (py_seq x) (\<lambda>xs. Inr (map WV xs))
      | WD d \<Rightarrow> Inr (map (\<lambda>(k, _). WV (VStr (map of_char k))) d)
      | _ \<Rightarrow> Inl TypeError)"

definition as_policy :: "wval \<Rightarrow> expiry_policy option res" where
  "as_policy v =
     (case v of
        WPolicy p \<Rightarrow> Inr (Some p)
      | WV x \<Rightarrow> if truthy x then Inl AttributeError else Inr None
      | WD [] \<Rightarrow> Inr None
      | WL [] \<Rightarrow> Inr None
      | _ \<Rightarrow> Inl AttributeError)"

definition timeout_ok :: "wval \<Rightarrow> bool" where
  "timeout_ok v =
     (case v of WV x \<Rightarrow> (case py_index x of Some i \<Rightarrow> 0 \<le> i | None \<Rightarrow> False) | _ \<Rightarrow> False)"

definition write_res :: "byte list res \<Rightarrow> bstream \<Rightarrow> bstream res" where
  "write_res r st = rbind r (\<lambda>b. swrite b st)"

subsection \<open>Writing\<close>

definition struct_array_from_python ::
  "(wval \<Rightarrow> bstream \<Rightarrow> bstream res) \<Rightarrow> wval \<Rightarrow> bstream \<Rightarrow> bstream res" where
  "struct_array_from_python f v st =
     rbind (wseq v) (\<lambda>xs. rbind (write_res (write_length (length xs)) st) (rfold f xs))"

definition prop_from_python ::
  "(wval \<Rightarrow> bstream \<Rightarrow> bstream res) \<Rightarrow> int \<Rightarrow> wval \<Rightarrow> bstream \<Rightarrow> bstream res" where
  "prop_from_python f code v st = rbind (swrite (ct_bytes 2 code) st) (f v)"

definition timeout_from_python ::
  "(wval \<Rightarrow> bstream \<Rightarrow> bstream res) \<Rightarrow> int \<Rightarrow> wval \<Rightarrow> bstream \<Rightarrow> bstream res" where
  "timeout_from_python f code v st =
     (if timeout_ok v then prop_from_python f code v st else Inl ValueError)"

lemma struct_array_from_python_cong [fundef_cong]:
  "v = v' \<Longrightarrow> st = st' \<Longrightarrow> (\<And>x s. f x s = g x s) \<Longrightarrow>
   struct_array_from_python f v st = struct_array_from_python g v' st'"
  unfolding struct_array_from_python_def by (auto intro!: rbind_cong rfold_cong)

lemma prop_from_python_cong [fundef_cong]:
  assumes "c = c'" and "v = v'" and "st = st'" and "\<And>s. f v' s = g v' s"
  shows "prop_from_python f c v st = prop_from_python g c' v' st'"
    and "timeout_from_python f c v st = timeout_from_python g c' v' st'"
  unfolding timeout_from_python_def prop_from_python_def using assms by (auto intro!: rbind_cong)

fun put_w :: "int option \<Rightarrow> wtype \<Rightarrow> wval \<Rightarrow> bstream \<Rightarrow> bstream res"
  and put_fields :: "int option \<Rightarrow> (string \<times> wtype) list \<Rightarrow> (string \<times> wval) list \<Rightarrow> bstream \<Rightarrow> bstream res"
where
  "put_w tx (WObject d) v st = rbind (as_val v) (\<lambda>x. from_py d x st)"
| "put_w tx (WPrim p) v st = rbind (as_val v) (\<lambda>x. write_res (prim_from_python p x) st)"
| "put_w tx (WPrimArray p) v st = rbind (as_val v) (\<lambda>x. write_res (prim_array_from_python p x) st)"
| "put_w tx (WStdArray s) v st = rbind (as_val v) (\<lambda>x. write_res (std_array_from_python s x) st)"
| "put_w tx WAnyArray v st = rbind (as_val v) (\<lambda>x. any_array_from_python x st)"
| "put_w tx WMap v st = rbind (as_val v) (\<lambda>x. map_payload_from_python x st)"
| "put_w tx WCacheInfo v st =
     (case v of WInfo ci \<Rightarrow> cache_info_from_python tx ci st | _ \<Rightarrow> Inl AttributeError)"
| "put_w tx WExpiryPolicy v st = rbind (as_policy v) (\<lambda>p. policy_from_python p st)"
| "put_w tx (WStruct fs defaults) v st =
     rbind (as_dict defaults v) (\<lambda>d. put_fields tx fs d st)"
| "put_w tx (WStructArray fs defaults) v st =
     struct_array_from_python (\<lambda>x s. rbind (as_dict defaults x) (\<lambda>d. put_fields tx fs d s)) v st"
| "put_w tx (WConditional names p1 p2 a b) v st = Inl AttributeError"
| "put_w tx (WProp c timeout t) v st =
     (if timeout then timeout_from_python (\<lambda>x s. put_w tx t x s) c v st
      else prop_from_python (\<lambda>x s. put_w tx t x s) c v st)"
| "put_fields tx [] d st = Inr st"
| "put_fields tx ((name, t) # fs) d st =
     rbind (dget name d) (\<lambda>v. rbind (put_w tx t v st) (put_fields tx fs d))"

subsection \<open>Parsing\<close>

text \<open>
  \<open>parse_depth\<close> bounds the recursion of \<open>AnyDataObject.parse\<close>. The context of a structure holds the
  fields its conditionals name; every structure starts with its own.
\<close>

definition cond_names :: "(string \<times> wtype) list \<Rightarrow> string list" where
  "cond_names fs = concat (map (\<lambda>(_, t). case t of WConditional names p1 p2 a b \<Rightarrow> names | _ \<Rightarrow> []) fs)"

definition new_context :: "(string \<times> wtype) list \<Rightarrow> (string \<times> cobj option) list" where
  "new_context fs = fold (\<lambda>n ctx. dput n None ctx) (cond_names fs) []"

definition update_context ::
  "string \<Rightarrow> ctype \<Rightarrow> (string \<times> cobj option) list \<Rightarrow> bstream \<Rightarrow> ((string \<times> cobj option) list \<times> bstream) res"
where
  "update_context name ct ctx st =
     (if map_of ctx name = None then Inr (ctx, st)
      else rbind (read_ctype_backward ct st) (\<lambda>(ob, st'). Inr (dput name (Some ob) ctx, st')))"

definition struct_array_parse ::
  "(bstream \<Rightarrow> (ctype \<times> bstream) res) \<Rightarrow> bstream \<Rightarrow> (ctype \<times> bstream) res" where
  "struct_array_parse p st =
     (let (b, st1) = slice (spos st) 4 st
      in rbind (parse_elements p 0 (le_nat b) (seek_cur 4 st1)) (\<lambda>(fs, st2).
           Inr (CStruct ((Nm ''length'', c_int) # fs), st2)))"

text \<open>\<open>PropBase.parse\<close> parses the data class without skipping the property code first.\<close>

definition prop_parse ::
  "(bstream \<Rightarrow> (ctype \<times> bstream) res) \<Rightarrow> bstream \<Rightarrow> (ctype \<times> bstream) res" where
  "prop_parse p st =
     rbind (p st) (\<lambda>(t, st1).
       let pt = CStruct [(Nm ''prop_code'', c_short), (Nm ''data'', t)]
       in Inr (pt, seek_set (spos st + sizeof_ct pt) st1))"

definition conditional_parse ::
  "((string \<times> cobj option) list \<Rightarrow> bool) \<Rightarrow> (bstream \<Rightarrow> (ctype \<times> bstream) res) \<Rightarrow>
   (bstream \<Rightarrow> (ctype \<times> bstream) res) \<Rightarrow> (string \<times> cobj option) list \<Rightarrow> bstream \<Rightarrow> (ctype \<times> bstream) res"
where
  "conditional_parse predicate1 var1 var2 ctx st = (if predicate1 ctx then var1 st else var2 st)"

lemma conditional_parse_cong [fundef_cong]:
  "p = q \<Longrightarrow> ctx = ctx' \<Longrightarrow> st = st' \<Longrightarrow> a st' = a' st' \<Longrightarrow> b st' = b' st' \<Longrightarrow>
   conditional_parse p a b ctx st = conditional_parse q a' b' ctx' st'"
  by (simp add: conditional_parse_def)

lemma parse_elements_cong [fundef_cong]:
  "(\<And>s. p s = q s) \<Longrightarrow> i = j \<Longrightarrow> n = m \<Longrightarrow> st = st' \<Longrightarrow> parse_elements p i n st = parse_elements q j m st'"
  by (simp add: ext [of p q])

lemma struct_array_parse_cong [fundef_cong]:
  "(\<And>s. p s = q s) \<Longrightarrow> st = st' \<Longrightarrow> struct_array_parse p st = struct_array_parse q st'"
  by (simp add: ext [of p q])

lemma prop_parse_cong [fundef_cong]:
  "st = st' \<Longrightarrow> p st' = q st' \<Longrightarrow> prop_parse p st = prop_parse q st'"
  by (simp add: prop_parse_def)

fun get_w :: "nat \<Rightarrow> (string \<times> cobj option) list \<Rightarrow> wtype \<Rightarrow> bstream \<Rightarrow> (ctype \<times> bstream) res"
  and get_fields :: "nat \<Rightarrow> (string \<times> cobj option) list \<Rightarrow> (string \<times> wtype) list \<Rightarrow> bstream \<Rightarrow>
    ((fname \<times> ctype) list \<times> bstream) res"
where
  "get_w n ctx (WObject d) st = parse_obj n d st"
| "get_w n ctx (WPrim p) st = prim_parse p st"
| "get_w n ctx (WPrimArray p) st = prim_array_parse p st"
| "get_w n ctx (WStdArray s) st = std_array_parse s st"
| "get_w n ctx WAnyArray st = any_array_parse n st"
| "get_w n ctx WMap st = map_payload_parse n st"
| "get_w n ctx WCacheInfo st = Inl AttributeError"
| "get_w n ctx WExpiryPolicy st = policy_parse st"
| "get_w n ctx (WStruct fs defaults) st =
     rbind (get_fields n (new_context fs) fs st) (\<lambda>(cs, st'). Inr (CStruct cs, st'))"
| "get_w n ctx (WStructArray fs defaults) st =
     struct_array_parse (\<lambda>s. rbind (get_fields n (new_context fs) fs s)
       (\<lambda>(cs, s'). Inr (CStruct cs, s'))) st"
| "get_w n ctx (WConditional names p1 p2 a b) st =
     conditional_parse p1 (get_w n [] a) (get_w n [] b) ctx st"
| "get_w n ctx (WProp c timeout t) st = prop_parse (get_w n [] t) st"
| "get_fields n ctx [] st = Inr ([], st)"
| "get_fields n ctx ((name, t) # fs) st =
     rbind (get_w n ctx t st) (\<lambda>(ct, st1).
       rbind (update_context name ct ctx st1) (\<lambda>(ctx', st2).
         rbind (get_fields n ctx' fs st2) (\<lambda>(cs, st3). Inr ((Nm name, ct) # cs, st3))))"

subsection \<open>Conversion to Python\<close>

text \<open>A response is converted without a client, so complex objects must have come wrapped.\<close>

definition no_client :: "(pyval \<times> client option) res \<Rightarrow> wval res" where
  "no_client r = rbind r (\<lambda>(v, c). Inr (WV v))"

definition wv :: "pyval res \<Rightarrow> wval res" where
  "wv r = rbind r (\<lambda>v. Inr (WV v))"

definition ob_length :: "cobj \<Rightarrow> nat" where
  "ob_length ob = (case getint ''length'' ob of Inl e \<Rightarrow> 0 | Inr n \<Rightarrow> nat n)"

definition conditional_to_python ::
  "((string \<times> wval) list \<Rightarrow> bool) \<Rightarrow> (cobj \<Rightarrow> wval res) \<Rightarrow> (cobj \<Rightarrow> wval res) \<Rightarrow>
   (string \<times> wval) list \<Rightarrow> cobj \<Rightarrow> wval res"
where
  "conditional_to_python predicate2 var1 var2 ctx ob = (if predicate2 ctx then var1 ob else var2 ob)"

definition struct_array_to_python :: "(cobj \<Rightarrow> wval res) \<Rightarrow> cobj \<Rightarrow> wval res" where
  "struct_array_to_python f ob =
     rbind (elements_to_python f (ob_length ob) ob) (\<lambda>vs. Inr (WL vs))"

lemma conditional_to_python_cong [fundef_cong]:
  "p = q \<Longrightarrow> ctx = ctx' \<Longrightarrow> ob = ob' \<Longrightarrow> a ob' = a' ob' \<Longrightarrow> b ob' = b' ob' \<Longrightarrow>
   conditional_to_python p a b ctx ob = conditional_to_python q a' b' ctx' ob'"
  by (simp add: conditional_to_python_def)

lemma struct_array_to_python_cong [fundef_cong]:
  "ob = ob' \<Longrightarrow> (\<And>x. f x = g x) \<Longrightarrow> struct_array_to_python f ob = struct_array_to_python g ob'"
  by (simp add: ext [of f g])

fun conv_w :: "(string \<times> wval) list \<Rightarrow> wtype \<Rightarrow> cobj \<Rightarrow> wval res"
  and conv_fields :: "(string \<times> wval) list \<Rightarrow> (string \<times> wtype) list \<Rightarrow> cobj \<Rightarrow> (string \<times> wval) list res"
where
  "conv_w r (WObject d) ob = no_client (to_py d ob None)"
| "conv_w r (WPrim p) ob = wv (prim_to_python p ob)"
| "conv_w r (WPrimArray p) ob = wv (prim_array_to_python p ob)"
| "conv_w r (WStdArray s) ob = wv (std_array_to_python s ob)"
| "conv_w r WAnyArray ob = no_client (any_array_to_python ob None)"
| "conv_w r WMap ob = no_client (map_payload_to_python ob None)"
| "conv_w r WCacheInfo ob = Inl AttributeError"
| "conv_w r WExpiryPolicy ob =
     rbind (policy_to_python ob) (\<lambda>p. Inr (case p of None \<Rightarrow> WV VNone | Some ep \<Rightarrow> WPolicy ep))"
| "conv_w r (WStruct fs defaults) ob = rbind (conv_fields [] fs ob) (\<lambda>d. Inr (WD d))"
| "conv_w r (WStructArray fs defaults) ob =
     struct_array_to_python (\<lambda>x. rbind (conv_fields [] fs x) (\<lambda>d. Inr (WD d))) ob"
| "conv_w r (WConditional names p1 p2 a b) ob = 
     conditional_to_python p2 (conv_w [] a) (conv_w [] b) r ob"
| "conv_w r (WProp p timeout t) ob = rbind (getattr (Nm ''data'') ob) (conv_w [] t)"
| "conv_fields r [] ob = Inr r"
| "conv_fields r ((name, t) # fs) ob =
     rbind (getattr (Nm name) ob) (\<lambda>x. rbind (conv_w r t x) (\<lambda>v. conv_fields (dput name v r) fs ob))"

end
