(* ===== verification/Query.thy ===== *)
theory Query
  imports Structs
begin

section \<open>Queries and responses\<close>

text \<open>
  \<open>queries/query.py\<close>, \<open>queries/response.py\<close> and \<open>api/result.py\<close>. A query writes a header and
  its fields into a fresh stream, hands the bytes to the connection and decodes the answer. The
  connection (\<open>conn.request\<close>) is the parameter \<open>net\<close>, a function on an abstract transport state.
  \<open>env\<close> holds what a query uses of the client and of the interpreter: the registry, the protocol
  context, the affinity version, the query counter, the current transaction id, the recursion
  limit, the log level and the event listener. An operation returns its result or the exception
  together with the state it leaves. The async variants await the same steps.
\<close>

type_synonym ('s, 'a) run = "'s \<Rightarrow> 'a res \<times> 's"

definition run_bind :: "('s, 'a) run \<Rightarrow> ('a \<Rightarrow> ('s, 'b) run) \<Rightarrow> ('s, 'b) run" where
  "run_bind m f s = (case m s of (Inl e, s') \<Rightarrow> (Inl e, s') | (Inr x, s') \<Rightarrow> f x s')"

definition run_res :: "'a res \<Rightarrow> ('s, 'a) run" where
  "run_res r s = (r, s)"

lemma run_bind_simps [simp]:
  "m s = (Inr x, s') \<Longrightarrow> run_bind m f s = f x s'"
  "m s = (Inl e, s') \<Longrightarrow> run_bind m f s = (Inl e, s')"
  by (simp_all add: run_bind_def)

subsection \<open>Queries\<close>

text \<open>\<open>q_config\<close> distinguishes a \<open>ConfigQuery\<close>.\<close>

record query =
  q_op_code :: int
  q_following :: "(string \<times> wtype) list"
  q_query_id :: int
  q_config :: bool

definition next_query_id :: "int \<Rightarrow> int \<times> int" where
  "next_query_id counter = (if MAX_LONG \<le> counter then (0, counter) else (counter + 1, counter + 1))"

definition query_ct :: "bool \<Rightarrow> ctype" where
  "query_ct config =
     CStruct ([(Nm ''length'', c_int), (Nm ''op_code'', c_short), (Nm ''query_id'', c_longlong)] @
       (if config then [(Nm ''config_length'', c_int)] else []))"

text \<open>
  \<open>_build_header\<close>; \<open>config_length\<close> is computed from the length field before that is set, so it
  is minus the size of the header.
\<close>

definition query_header :: "query \<Rightarrow> int \<Rightarrow> cobj" where
  "query_header q len =
     OStruct ([(Nm ''length'', OInt len), (Nm ''op_code'', OInt (q_op_code q)),
       (Nm ''query_id'', OInt (q_query_id q))] @
       (if q_config q then [(Nm ''config_length'', OInt (0 - int (sizeof_ct (query_ct True))))] else []))"

definition build_header :: "query \<Rightarrow> bstream \<Rightarrow> bstream" where
  "build_header q st = seek_cur (sizeof_ct (query_ct (q_config q))) st"

definition write_query_header :: "query \<Rightarrow> nat \<Rightarrow> bstream \<Rightarrow> bstream res" where
  "write_query_header q init_pos st =
     swrite (store_ct (query_ct (q_config q)) (query_header q (int (spos st) - int init_pos - 4)))
       (seek_set init_pos st)"

text \<open>Without values (\<open>None\<close> or an empty dict) a field has nothing to index.\<close>

definition query_from_python ::
  "int option \<Rightarrow> query \<Rightarrow> (string \<times> wval) list \<Rightarrow> bstream \<Rightarrow> bstream res" where
  "query_from_python tx q values st =
     rbind (if values = [] \<and> q_following q \<noteq> [] then Inl TypeError
            else put_fields tx (q_following q) values (build_header q st))
       (write_query_header q (spos st))"

subsection \<open>Parsing responses\<close>

text \<open>
  The three response classes: \<open>Response\<close> with its fields, \<open>SQLResponse\<close> with its two switches,
  \<open>BinaryTypeResponse\<close>.
\<close>

datatype response =
    Response "(string \<times> wtype) list"
  | SQLResponse bool bool
  | BinaryTypeResponse

definition RHF_ERROR :: int where "RHF_ERROR = 1"
definition RHF_TOPOLOGY_CHANGED :: int where "RHF_TOPOLOGY_CHANGED = 2"

definition status_flag_fields :: "(fname \<times> ctype) list" where
  "status_flag_fields =
     [(Nm ''length'', c_int), (Nm ''query_id'', c_longlong), (Nm ''flags'', c_short)]"

definition response_fields :: "(fname \<times> ctype) list" where
  "response_fields =
     [(Nm ''length'', c_int), (Nm ''query_id'', c_longlong), (Nm ''status_code'', c_int)]"

definition header_fields_of :: "protocol_context \<Rightarrow> (fname \<times> ctype) list" where
  "header_fields_of pc = (if is_status_flags_supported pc then status_flag_fields else response_fields)"

definition flag_fields :: "int \<Rightarrow> (fname \<times> ctype) list" where
  "flag_fields flags =
     (if and flags RHF_TOPOLOGY_CHANGED \<noteq> 0
      then [(Nm ''affinity_version'', c_longlong), (Nm ''affinity_minor'', c_int)] else []) @
     (if and flags RHF_ERROR \<noteq> 0 then [(Nm ''status_code'', c_int)] else [])"

definition parse_response_header ::
  "protocol_context \<Rightarrow> bstream \<Rightarrow> ((bool \<times> (fname \<times> ctype) list) \<times> bstream) res" where
  "parse_response_header pc st =
     rbind (read_ctype (CStruct (header_fields_of pc)) st) (\<lambda>(header, st1).
     rbind (if is_status_flags_supported pc
            then rbind (getint ''flags'' header) (\<lambda>flags.
              Inr (flag_fields flags, and flags RHF_ERROR \<noteq> 0))
            else rbind (getint ''status_code'' header) (\<lambda>code. Inr ([], code \<noteq> 0)))
       (\<lambda>(fields, has_error).
         let st2 = seek_cur (sizeof_ct (CStruct (header_fields_of pc)) + sizeof_ct (CStruct fields)) st1
         in if has_error
            then rbind (std_parse String st2) (\<lambda>(t, st3).
              Inr ((False, fields @ [(Nm ''error_message'', t)]), st3))
            else Inr ((True, fields), st2)))"

subsubsection \<open>SQL responses\<close>

definition sql_body :: "bool \<Rightarrow> bool \<Rightarrow> (string \<times> wtype) list" where
  "sql_body include_field_names has_cursor =
     (if has_cursor then [(''cursor'', WPrim TLong)] else []) @
     [if include_field_names then (''fields'', WStdArray String) else (''field_count'', WPrim TInt),
      (''row_count'', WPrim TInt)]"

definition get_fields_count :: "bool \<Rightarrow> cobj \<Rightarrow> int res" where
  "get_fields_count include_field_names body =
     (if include_field_names then rbind (getattr (Nm ''fields'') body) (getint ''length'')
      else getint ''field_count'' body)"

fun parse_columns :: "nat \<Rightarrow> nat \<Rightarrow> nat \<Rightarrow> bstream \<Rightarrow> ((fname \<times> ctype) list \<times> bstream) res" where
  "parse_columns n j 0 st = Inr ([], st)"
| "parse_columns n j (Suc k) st =
     rbind (parse_obj n AnyDataObject st) (\<lambda>(t, st1).
       rbind (parse_columns n (Suc j) k st1) (\<lambda>(fs, st2). Inr ((Column j, t) # fs, st2)))"

fun parse_rows :: "nat \<Rightarrow> nat \<Rightarrow> nat \<Rightarrow> nat \<Rightarrow> bstream \<Rightarrow> ((fname \<times> ctype) list \<times> bstream) res" where
  "parse_rows n cols i 0 st = Inr ([], st)"
| "parse_rows n cols i (Suc k) st =
     rbind (parse_columns n 0 cols st) (\<lambda>(row, st1).
       rbind (parse_rows n cols (Suc i) k st1) (\<lambda>(fs, st2). Inr ((Row i, CStruct row) # fs, st2)))"

definition sql_parse_success ::
  "nat \<Rightarrow> bool \<Rightarrow> bool \<Rightarrow> bstream \<Rightarrow> ((fname \<times> ctype) list \<times> bstream) res" where
  "sql_parse_success n names cursor st =
     rbind (get_fields n [] (sql_body names cursor) st) (\<lambda>(body_fields, st1).
     rbind (read_ctype_backward (CStruct body_fields) st1) (\<lambda>(body, st2).
     rbind (get_fields_count names body) (\<lambda>cols.
     rbind (getint ''row_count'' body) (\<lambda>rows.
     rbind (parse_rows n (nat cols) 0 (nat rows) st2) (\<lambda>(data, st3).
       Inr (body_fields @ [(Nm ''data'', CStruct data), (Nm ''more'', c_byte)], st3))))))"

subsubsection \<open>Binary type responses\<close>

definition binary_fields_struct :: wtype where
  "binary_fields_struct = WStructArray
     [(''field_name'', WObject (Standard String)), (''type_id'', WPrim TInt), (''field_id'', WPrim TInt)] []"

definition body_struct :: "(string \<times> wtype) list" where
  "body_struct =
     [(''type_id'', WPrim TInt), (''type_name'', WObject (Standard String)),
      (''affinity_key_field'', WObject (Standard String)),
      (''binary_fields'', binary_fields_struct), (''is_enum'', WPrim TBool)]"

definition enum_struct :: wtype where
  "enum_struct = WStructArray [(''literal'', WObject (Standard String)), (''type_id'', WPrim TInt)] []"

definition schema_fields_struct :: wtype where
  "schema_fields_struct = WStructArray [(''schema_field_id'', WPrim TInt)] []"

definition schema_struct :: wtype where
  "schema_struct = WStructArray
     [(''schema_id'', WPrim TInt), (''schema_fields'', schema_fields_struct)] []"

definition binary_type_parse_success :: "nat \<Rightarrow> bstream \<Rightarrow> ((fname \<times> ctype) list \<times> bstream) res" where
  "binary_type_parse_success n st =
     rbind (read_ctype c_byte st) (\<lambda>(type_exists, st0).
     let st1 = seek_cur 1 st0; exists_field = [(Nm ''type_exists'', c_byte)]
     in rbind (as_int type_exists) (\<lambda>e.
        if e = 0 then Inr (exists_field, st1)
        else
          rbind (get_w n [] (WStruct body_struct []) st1) (\<lambda>(body_t, st2).
          rbind (read_ctype_backward body_t st2) (\<lambda>(body, st3).
          rbind (getint ''is_enum'' body) (\<lambda>is_enum.
          rbind (if is_enum \<noteq> 0
                 then rbind (get_w n [] enum_struct st3) (\<lambda>(t, s). Inr ([(Nm ''enums'', t)], s))
                 else Inr ([], st3)) (\<lambda>(enums, st4).
          rbind (get_w n [] schema_struct st4) (\<lambda>(schema_t, st5).
            Inr (exists_field @ [(Nm ''body'', body_t)] @ enums @ [(Nm ''schema'', schema_t)], st5))))))))"

subsubsection \<open>The whole response\<close>

definition parse_success :: "nat \<Rightarrow> response \<Rightarrow> bstream \<Rightarrow> ((fname \<times> ctype) list \<times> bstream) res" where
  "parse_success n r st =
     (case r of
        Response following \<Rightarrow> get_fields n [] following st
      | SQLResponse names cursor \<Rightarrow> sql_parse_success n names cursor st
      | BinaryTypeResponse \<Rightarrow> binary_type_parse_success n st)"

definition response_parse ::
  "nat \<Rightarrow> protocol_context \<Rightarrow> response \<Rightarrow> bstream \<Rightarrow> (ctype \<times> bstream) res" where
  "response_parse n pc r st =
     rbind (parse_response_header pc st) (\<lambda>((success, fields), st1).
     rbind (if success then parse_success n r st1 else Inr ([], st1)) (\<lambda>(body, st2).
       let t = CStruct (header_fields_of pc @ fields @ body)
       in Inr (t, seek_set (spos st + sizeof_ct t) st2)))"

subsection \<open>Converting responses\<close>

definition has_attr :: "string \<Rightarrow> cobj \<Rightarrow> bool" where
  "has_attr f ob \<longleftrightarrow> (case getattr (Nm f) ob of Inl e \<Rightarrow> False | Inr x \<Rightarrow> True)"

definition status_of :: "cobj \<Rightarrow> int" where
  "status_of ob = (case getint ''status_code'' ob of Inl e \<Rightarrow> 0 | Inr i \<Rightarrow> i)"

fun struct_values :: "cobj \<Rightarrow> cobj list res" where
  "struct_values (OStruct os) = Inr (map snd os)"
| "struct_values _ = Inl AttributeError"

definition sql_result_header :: "cobj \<Rightarrow> (string \<times> wval) list res" where
  "sql_result_header ob =
     rbind (rbind (getattr (Nm ''more'') ob) decode_bool) (\<lambda>more.
     rbind (if has_attr ''fields'' ob
            then rbind (rbind (getattr (Nm ''fields'') ob) (std_array_to_python String)) (\<lambda>v. Inr (''fields'', WV v))
            else rbind (rbind (getattr (Nm ''field_count'') ob) simple_value) (\<lambda>v. Inr (''field_count'', WV v)))
       (\<lambda>fields.
     rbind (if has_attr ''cursor'' ob
            then rbind (rbind (getattr (Nm ''cursor'') ob) simple_value) (\<lambda>v. Inr [(''cursor'', WV v)])
            else Inr []) (\<lambda>cursor.
       Inr ([(''more'', WV more), (''data'', WL []), fields] @ cursor))))"

definition sql_to_python :: "cobj \<Rightarrow> wval res" where
  "sql_to_python ob =
     (if status_of ob = 0
      then rbind (sql_result_header ob) (\<lambda>result.
        rbind (rbind (getattr (Nm ''data'') ob) struct_values) (\<lambda>rows.
        rbind (rmap (\<lambda>row. rbind (struct_values row) (\<lambda>cols.
            rbind (rmap (conv_w [] (WObject AnyDataObject)) cols) (\<lambda>vs. Inr (WL vs)))) rows) (\<lambda>data.
          Inr (WD (dput ''data'' (WL data) result)))))
      else Inr (WV VNone))"

text \<open>\<open>{x['schema_id']: [z['schema_field_id'] for z in x['schema_fields']] for x in \<dots>}\<close>\<close>

definition wfield :: "string \<Rightarrow> wval \<Rightarrow> wval res" where
  "wfield k v = (case v of WD d \<Rightarrow> dget k d | _ \<Rightarrow> Inl TypeError)"

definition schema_entry_to_python :: "wval \<Rightarrow> (pyval \<times> pyval) res" where
  "schema_entry_to_python x =
     rbind (rbind (wfield ''schema_id'' x) as_val) (\<lambda>sid.
     rbind (rbind (wfield ''schema_fields'' x) wseq) (\<lambda>zs.
     rbind (rmap (\<lambda>z. rbind (wfield ''schema_field_id'' z) as_val) zs) (\<lambda>ids. Inr (sid, VList ids))))"

definition binary_type_to_python :: "cobj \<Rightarrow> wval res" where
  "binary_type_to_python ob =
     (if status_of ob = 0
      then
        rbind (rbind (getattr (Nm ''type_exists'') ob) decode_bool) (\<lambda>e.
        rbind (if has_attr ''body'' ob
               then rbind (getattr (Nm ''body'') ob) (conv_fields [] body_struct) else Inr []) (\<lambda>body.
        rbind (if has_attr ''enums'' ob
               then rbind (rbind (getattr (Nm ''enums'') ob) (conv_w [] enum_struct)) (\<lambda>v. Inr [(''enums'', v)])
               else Inr []) (\<lambda>enums.
        rbind (if has_attr ''schema'' ob
               then rbind (rbind (rbind (getattr (Nm ''schema'') ob) (conv_w [] schema_struct)) wseq) (\<lambda>xs.
                 rbind (rmap schema_entry_to_python xs) (\<lambda>kvs.
                   Inr [(''schema'', WV (VDict False (fold (\<lambda>(k, v). dict_put k v) kvs [])))]))
               else Inr []) (\<lambda>schema.
          Inr (WD ([(''type_exists'', WV e)] @ body @ enums @ schema))))))
      else Inr (WV VNone))"

definition response_to_python :: "response \<Rightarrow> cobj \<Rightarrow> wval res" where
  "response_to_python r ob =
     (case r of
        Response following \<Rightarrow>
          if following = [] then Inr (WV VNone)
          else rbind (conv_fields [] following ob) (\<lambda>d. Inr (WD d))
      | SQLResponse names cursor \<Rightarrow> sql_to_python ob
      | BinaryTypeResponse \<Rightarrow> binary_type_to_python ob)"

subsection \<open>Performing a query\<close>

record api_result =
  r_status :: int
  r_query_id :: int
  r_message :: pyval
  r_value :: wval

definition SUCCESS_MESSAGE :: pyval where
  "SUCCESS_MESSAGE = VStr (map of_char ''Success'')"

definition new_api_result :: "cobj \<Rightarrow> api_result res" where
  "new_api_result ob =
     rbind (getint ''query_id'' ob) (\<lambda>qid.
     rbind (if has_attr ''error_message'' ob
            then rbind (getattr (Nm ''error_message'') ob) (std_to_python String)
            else Inr SUCCESS_MESSAGE) (\<lambda>msg.
       Inr \<lparr>r_status = status_of ob, r_query_id = qid, r_message = msg, r_value = WV VNone\<rparr>))"

datatype query_event =
    QueryStart int int
  | QueryFail int int
  | QuerySuccess int int

record 's env =
  e_client :: client
  e_protocol :: protocol_context
  e_affinity_version :: "int \<times> int"
  e_query_counter :: int
  e_tx :: "int option"
  e_depth :: nat
  e_debug :: bool
  e_listener :: bool
  e_events :: "query_event list"
  e_net :: 's

definition publish :: "query_event \<Rightarrow> 's env \<Rightarrow> 's env" where
  "publish ev env = (if e_listener env then env\<lparr>e_events := e_events env @ [ev]\<rparr> else env)"

definition on_query_started :: "query \<Rightarrow> 's env \<Rightarrow> 's env" where
  "on_query_started q env = publish (QueryStart (q_query_id q) (q_op_code q)) env"

text \<open>The events of a finished query are published inside the check of the log level.\<close>

definition on_query_finished :: "query \<Rightarrow> api_result res \<Rightarrow> 's env \<Rightarrow> 's env" where
  "on_query_finished q outcome env =
     (if e_debug env then
        let err = (case outcome of Inl e \<Rightarrow> True
                   | Inr result \<Rightarrow> r_status result \<noteq> 0 \<and> truthy (r_message result))
        in publish (if err then QueryFail (q_query_id q) (q_op_code q)
                    else QuerySuccess (q_query_id q) (q_op_code q)) env
      else env)"

definition version_less :: "int \<times> int \<Rightarrow> int \<times> int \<Rightarrow> bool" where
  "version_less v w \<longleftrightarrow> fst v < fst w \<or> (fst v = fst w \<and> snd v < snd w)"

definition update_affinity_version :: "cobj \<Rightarrow> 's env \<Rightarrow> 's env res" where
  "update_affinity_version ob env =
     (if has_attr ''flags'' ob \<and> (case getint ''flags'' ob of Inl e \<Rightarrow> False
         | Inr flags \<Rightarrow> and flags RHF_TOPOLOGY_CHANGED \<noteq> 0)
      then rbind (getint ''affinity_version'' ob) (\<lambda>major. rbind (getint ''affinity_minor'' ob) (\<lambda>minor.
        Inr (if version_less (e_affinity_version env) (major, minor)
             then env\<lparr>e_affinity_version := (major, minor)\<rparr> else env)))
      else Inr env)"

type_synonym 's net = "byte list \<Rightarrow> ('s, byte list) run"

definition send_query ::
  "'s net \<Rightarrow> query \<Rightarrow> (string \<times> wval) list \<Rightarrow> ('s env, byte list) run" where
  "send_query net q params env =
     (case query_from_python (e_tx env) q params (new_stream (e_client env) []) of
        Inl e \<Rightarrow> (Inl e, env)
      | Inr st \<Rightarrow>
          (case net (sbuf st) (e_net env) of
             (r, s') \<Rightarrow> (r, env\<lparr>e_client := sclient st, e_net := s'\<rparr>)))"

definition receive_response :: "response \<Rightarrow> byte list \<Rightarrow> ('s env, api_result) run" where
  "receive_response r data env =
     (case rbind (response_parse (e_depth env) (e_protocol env) r (new_stream (e_client env) data))
             (\<lambda>(t, st). read_ctype_backward t st) of
        Inl e \<Rightarrow> (Inl e, env)
      | Inr (ob, st) \<Rightarrow>
          let env1 = env\<lparr>e_client := sclient st\<rparr>
          in (case rbind (update_affinity_version ob env1) (\<lambda>env2.
                     rbind (new_api_result ob) (\<lambda>result. Inr (result, env2))) of
                Inl e \<Rightarrow> (Inl e, env1)
              | Inr (result, env2) \<Rightarrow>
                  if r_status result = 0
                  then (case response_to_python r ob of
                          Inl e \<Rightarrow> (Inl e, env2)
                        | Inr v \<Rightarrow> (Inr (result\<lparr>r_value := v\<rparr>), env2))
                  else (Inr result, env2)))"

definition perform ::
  "'s net \<Rightarrow> query \<Rightarrow> (string \<times> wval) list \<Rightarrow> response \<Rightarrow> ('s env, api_result) run" where
  "perform net q params r env =
     (case run_bind (send_query net q params) (receive_response r) (on_query_started q env) of
        (outcome, env') \<Rightarrow> (outcome, on_query_finished q outcome env'))"

text \<open>
  Creating a query takes its identifier from the global counter; \<open>query_perform\<close> applies the
  post-processing function to the result.
\<close>

definition new_query :: "bool \<Rightarrow> int \<Rightarrow> (string \<times> wtype) list \<Rightarrow> ('s env, query) run" where
  "new_query config op following env =
     (case next_query_id (e_query_counter env) of
        (qid, counter) \<Rightarrow>
          (Inr \<lparr>q_op_code = op, q_following = following, q_query_id = qid, q_config = config\<rparr>,
           env\<lparr>e_query_counter := counter\<rparr>))"

definition query_perform ::
  "'s net \<Rightarrow> int \<Rightarrow> (string \<times> wtype) list \<Rightarrow> (string \<times> wval) list \<Rightarrow> response \<Rightarrow>
   (api_result \<Rightarrow> api_result res) \<Rightarrow> ('s env, api_result) run" where
  "query_perform net op following params r post =
     run_bind (new_query False op following) (\<lambda>q.
       run_bind (perform net q params r) (\<lambda>result. run_res (post result)))"

text \<open>
  The operations of \<open>api/\<close> only build the arguments of \<open>query_perform\<close>, which returns at once over a
  connection and a coroutine over an asynchronous one: a performer is either.
\<close>

type_synonym 'r performer =
  "int \<Rightarrow> (string \<times> wtype) list \<Rightarrow> (string \<times> wval) list \<Rightarrow> response \<Rightarrow> (api_result \<Rightarrow> api_result res) \<Rightarrow> 'r"

end
