(* ===== verification/StructTrip.thy ===== *)
theory StructTrip
  imports Query
begin

section \<open>Round trip of structures\<close>

text \<open>
  \<open>wgood t v w\<close>: the value \<open>v\<close> written by the class \<open>t\<close> is converted back to \<open>w\<close>. The
  conversion of a response has no client, so the values of the object classes are those without
  complex objects. The lemmas lift the round trip of \<open>AnyTrip\<close> to \<open>Struct\<close>, \<open>StructArray\<close>,
  \<open>Map\<close> and the payload classes; \<open>Conditional\<close> and properties are only read or only written.
\<close>

abbreviation good_el :: "pyval \<Rightarrow> pyval \<Rightarrow> bool" where
  "good_el x w \<equiv> good {} (snd (hinted x)) (fst (hinted x)) w"

inductive wgood :: "wtype \<Rightarrow> wval \<Rightarrow> wval \<Rightarrow> bool" where
  object: "good {} d v w \<Longrightarrow> wgood (WObject d) (WV v) (WV w)"
| int: "int_prim p \<Longrightarrow> py_index v = Some i \<Longrightarrow> wgood (WPrim p) (WV v) (WV (VInt i))"
| bool: "wgood (WPrim TBool) (WV v) (WV (VBool (truthy v)))"
| map: "py_items v = Inr kvs \<Longrightarrow> list_all2 good_el (flat_pairs kvs) (flat_pairs kws) \<Longrightarrow>
    dict_keys (map fst kws) \<Longrightarrow> wgood WMap (WV v) (WV (VDict False kws))"
| no_policy: "as_policy v = Inr None \<Longrightarrow> wgood WExpiryPolicy v (WV VNone)"
| policy: "new_expiry_policy (Millis (duration_ms (ep_create ep))) (Millis (duration_ms (ep_update ep)))
      (Millis (duration_ms (ep_access ep))) = Inr ep' \<Longrightarrow>
    wgood WExpiryPolicy (WPolicy ep) (WPolicy ep')"
| struct: "as_dict dfl v = Inr d \<Longrightarrow> distinct (map fst fs) \<Longrightarrow>
    list_all2 (\<lambda>x w. \<exists>u. dget (fst x) d = Inr u \<and> wgood (snd x) u w) fs ws \<Longrightarrow>
    wgood (WStruct fs dfl) v (WD (zip (map fst fs) ws))"
| struct_array: "wseq v = Inr xs \<Longrightarrow> distinct (map fst fs) \<Longrightarrow> length xs < 2 ^ 31 \<Longrightarrow>
    list_all2 (\<lambda>x y. \<exists>d ws. as_dict dfl x = Inr d \<and> y = WD (zip (map fst fs) ws) \<and>
      list_all2 (\<lambda>f w. \<exists>u. dget (fst f) d = Inr u \<and> wgood (snd f) u w) fs ws) xs ys \<Longrightarrow>
    wgood (WStructArray fs dfl) v (WL ys)"

subsection \<open>Structures without conditionals\<close>

definition plain :: "wtype \<Rightarrow> bool" where
  "plain t \<longleftrightarrow> (\<forall>names p1 p2 a b. t \<noteq> WConditional names p1 p2 a b)"

lemma wgood_plain: "wgood t v w \<Longrightarrow> plain t"
  by (erule wgood.cases) (auto simp: plain_def)

lemma plain_context: "list_all (\<lambda>x. plain (snd x)) fs \<Longrightarrow> new_context fs = []"
proof -
  assume "list_all (\<lambda>x. plain (snd x)) fs"
  then have "cond_names fs = []"
    by (induction fs) (auto simp: cond_names_def plain_def split: wtype.splits)
  then show ?thesis by (simp add: new_context_def)
qed

lemma plain_get: "plain t \<Longrightarrow> get_w n ctx t = get_w n [] t"
  by (rule ext) (cases t; simp add: plain_def)

lemma plain_conv: "plain t \<Longrightarrow> conv_w r t ob = conv_w [] t ob"
  by (cases t) (simp_all add: plain_def)

lemma plain_get_fields: "get_fields n [] fs = parse_fields Nm (get_w n []) fs"
proof (induction fs)
  case (Cons x fs)
  then show ?case by (cases x) (simp add: fun_eq_iff update_context_def case_prod_beta)
qed (simp add: fun_eq_iff)

lemma dput_fresh: "k \<notin> fst ` set d \<Longrightarrow> dput k v d = d @ [(k, v)]"
  by (induction d) auto

lemma plain_conv_fields:
  assumes "list_all2 (\<lambda>x w. \<exists>y. getattr (Nm (fst x)) ob = Inr y \<and> conv_w [] (snd x) y = Inr w) fs ws"
    and "list_all (\<lambda>x. plain (snd x)) fs" and "distinct (map fst fs)" and "fst ` set r \<inter> fst ` set fs = {}"
  shows "conv_fields r fs ob = Inr (r @ zip (map fst fs) ws)"
  using assms
proof (induction fs ws arbitrary: r rule: list_all2_induct)
  case (Cons x fs w ws)
  obtain name t where x: "x = (name, t)" by (cases x)
  from Cons.hyps(1) x obtain y where y: "getattr (Nm name) ob = Inr y" "conv_w [] t y = Inr w" by auto
  have "conv_w r t y = Inr w" using Cons.prems(1) y(2) x plain_conv [of t r] by simp
  moreover have "dput name w r = r @ [(name, w)]" using Cons.prems(3) x by (intro dput_fresh) auto
  moreover have "fst ` set (r @ [(name, w)]) \<inter> fst ` set fs = {}" using Cons.prems x by auto
  then have "conv_fields (r @ [(name, w)]) fs ob = Inr ((r @ [(name, w)]) @ zip (map fst fs) ws)"
    using Cons.prems x by (intro Cons.IH) auto
  ultimately show ?case using x y(1) by simp
qed simp

subsection \<open>Reading back\<close>

definition wback :: "wtype \<Rightarrow> wval \<Rightarrow> bool \<Rightarrow> byte list \<Rightarrow> bool" where
  "wback t w b bs \<longleftrightarrow>
     (\<forall>n. 2 * length bs + 1 \<le> n \<longrightarrow> decodes (reader {} b) (get_w n [] t) (conv_w [] t) bs w)"

definition small_back :: "wtype \<Rightarrow> wval \<Rightarrow> bool \<Rightarrow> byte list \<Rightarrow> bool" where
  "small_back t w b bs \<longleftrightarrow> (length bs < 2 ^ 31 \<longrightarrow> wback t w b bs)"

lemma wbackD: "wback t w b bs \<Longrightarrow> 2 * length bs + 1 \<le> n \<Longrightarrow>
    decodes (reader {} b) (get_w n [] t) (conv_w [] t) bs w"
  by (simp add: wback_def)

lemma wbackI: "(\<And>n. decodes (reader {} b) (get_w n [] t) (conv_w [] t) bs w) \<Longrightarrow> wback t w b bs"
  by (simp add: wback_def)

lemma decodes_map:
  "decodes P p f bs v \<Longrightarrow> (\<And>ob. f ob = Inr v \<Longrightarrow> g ob = Inr w) \<Longrightarrow> decodes P p g bs w"
  unfolding decodes_def by meson

lemma struct_decodes:
  assumes q: "list_all2 (\<lambda>x bw. decodes P (get_w n [] (snd x)) (conv_w [] (snd x)) (fst bw) (snd bw)) fs bws"
    and pl: "list_all (\<lambda>x. plain (snd x)) fs" and ds: "distinct (map fst fs)"
  shows "decodes P (\<lambda>s. rbind (get_fields n (new_context fs) fs s) (\<lambda>(cs, s'). Inr (CStruct cs, s')))
     (\<lambda>x. rbind (conv_fields [] fs x) (\<lambda>d. Inr (WD d)))
     (concat (map fst bws)) (WD (zip (map fst fs) (map snd bws)))"
proof (rule decodesI)
  fix st assume r: "reads st (concat (map fst bws))" and P: "P (sclient st)"
  have inj: "inj Nm" by (simp add: inj_def)
  from fields_decode [where p = "get_w n []" and g = "conv_w []" and nm = Nm, OF q inj ds r P]
  obtain cs st' where cs: "parse_fields Nm (get_w n []) fs st = Inr (cs, st')"
    "advanced st (length (concat (map fst bws))) st'" "P (sclient st')"
    "sum_list (map (\<lambda>f. sizeof_ct (snd f)) cs) = length (concat (map fst bws))"
    "list_all2 (\<lambda>x bw. \<exists>y. getattr_fields (Nm (fst x)) (read_fields cs (concat (map fst bws))) = Inr y \<and>
      conv_w [] (snd x) y = Inr (snd bw)) fs bws" by blast
  from cs(5) have "list_all2 (\<lambda>x w. \<exists>y. getattr (Nm (fst x)) (read_ct (CStruct cs) (concat (map fst bws))) = Inr y \<and>
      conv_w [] (snd x) y = Inr w) fs (map snd bws)"
    by (simp add: list_all2_map2)
  from plain_conv_fields [OF this pl ds, of "[]"]
  have "conv_fields [] fs (read_ct (CStruct cs) (concat (map fst bws))) = Inr (zip (map fst fs) (map snd bws))"
    by simp
  with cs show "\<exists>t st'. rbind (get_fields n (new_context fs) fs st) (\<lambda>(cs, s'). Inr (CStruct cs, s')) = Inr (t, st') \<and>
      advanced st (length (concat (map fst bws))) st' \<and> P (sclient st') \<and>
      sizeof_ct t = length (concat (map fst bws)) \<and>
      rbind (conv_fields [] fs (read_ct t (concat (map fst bws)))) (\<lambda>d. Inr (WD d)) =
        Inr (WD (zip (map fst fs) (map snd bws)))"
    by (simp add: plain_context [OF pl] plain_get_fields)
qed

lemma struct_functions:
  "get_w n ctx (WStruct fs dfl) =
     (\<lambda>s. rbind (get_fields n (new_context fs) fs s) (\<lambda>(cs, s'). Inr (CStruct cs, s')))"
  "conv_w r (WStruct fs dfl) = (\<lambda>x. rbind (conv_fields [] fs x) (\<lambda>d. Inr (WD d)))"
  "get_w n ctx (WStructArray fs dfl) = struct_array_parse
     (\<lambda>s. rbind (get_fields n (new_context fs) fs s) (\<lambda>(cs, s'). Inr (CStruct cs, s')))"
  "conv_w r (WStructArray fs dfl) = struct_array_to_python
     (\<lambda>x. rbind (conv_fields [] fs x) (\<lambda>d. Inr (WD d)))"
  by (simp_all add: fun_eq_iff)

subsection \<open>Payloads\<close>

lemma payload_decodes:
  assumes "fits t ob" and "f ob = Inr v"
  shows "decodes P (fixed_parse t) f (store_ct t ob) v"
  by (rule fixed_decodes [where to_py = f, OF assms]) (auto simp: fixed_parse_def)

lemma prim_parse_fixed: "prim_parse p = fixed_parse (prim_ct p)"
  by (simp add: fun_eq_iff prim_parse_def fixed_parse_def)

lemma int_payload:
  assumes p: "int_prim p" and i: "py_index v = Some i" and enc: "prim_from_python p v = Inr bs"
  shows "decodes P (prim_parse p) (prim_to_python p) bs (VInt i)"
proof -
  obtain k where c: "prim_ct p = CInt k True" "0 < k" and e: "prim_from_python p v = pack_int k v"
    and t: "prim_to_python p = simple_value"
    using p by (auto simp: int_prim_def fun_eq_iff)
  from enc i have b: "in_range k True i" "bs = store_ct (prim_ct p) (OInt i)"
    by (auto simp: e c(1) pack_int_def struct_pack_Inr_iff)
  then have "fits (prim_ct p) (OInt i)" using c by simp
  then show ?thesis unfolding prim_parse_fixed t b(2) by (rule payload_decodes) simp
qed

lemma bool_payload:
  assumes "prim_from_python TBool v = Inr bs"
  shows "decodes P (prim_parse TBool) (prim_to_python TBool) bs (VBool (truthy v))"
proof -
  let ?i = "if truthy v then 1 else 0 :: int"
  have b: "bs = store_ct (prim_ct TBool) (OInt ?i)" using assms by (simp add: struct_pack_Inr_iff)
  show ?thesis unfolding prim_parse_fixed b
    by (rule payload_decodes) (simp_all add: in_range_def decode_bool_def)
qed

lemma map_payload:
  assumes els: "els_back {} b bss (flat_pairs kws)" and keys: "dict_keys (map fst kws)"
    and l: "length kws < 2 ^ 31" and n: "2 * length (concat bss) + 1 \<le> n"
  shows "decodes (reader {} b) (map_payload_parse n) (\<lambda>ob. map_payload_to_python ob None)
    (ct_bytes 4 (int (length kws)) @ concat bss) (VDict False kws, None)"
proof (rule header_elements_decode [OF els_backD [OF els n], where hs = "[(Nm ''length'', c_int)]"])
  let ?h = "ct_bytes 4 (int (length kws))"
  fix st assume r: "reads st (?h @ concat bss)"
  then have "le_nat (bslice (sbuf st) (spos st) 4) = length kws"
    using reads_slice0 [OF r, of 4] length_field(2) [OF l] by simp
  then show "\<exists>st1. advanced st (length ?h) st1 \<and> sclient st1 = sclient st \<and>
      map_payload_parse n st = rbind (parse_elements (parse_obj n AnyDataObject) 0
          (length (map (\<lambda>w. (w, None)) (flat_pairs kws))) st1)
        (\<lambda>(fs, st2). Inr (CStruct ([(Nm ''length'', c_int)] @ fs), st2))"
    by (intro exI [of _ "seek_cur 4 (getbuffer st)"]) (simp add: map_payload_parse_def slice_def advanced_def)
next
  fix ob assume ob: "header_of [(Nm ''length'', c_int)] (ct_bytes 4 (int (length kws)))
    (map (\<lambda>w. (w, None)) (flat_pairs kws)) (\<lambda>ob. to_py AnyDataObject ob None) ob"
  have "getint ''length'' ob = Inr (int (length kws))"
    using header_ofD(2) [OF ob, of "''length''"] length_field(1) [OF l]
    by (simp add: getint_def le_int_ct_bytes)
  then show "map_payload_to_python ob None = Inr (VDict False kws, None)"
    using header_pairs [where f = "to_py AnyDataObject" and c = None, OF ob keys]
    by (simp add: map_payload_to_python_def)
qed simp_all

subsection \<open>Encoders\<close>

lemma appends_rfold2:
  "list_all2 (\<lambda>x y. appends (Q y) (f x)) xs ys \<Longrightarrow>
   appends (\<lambda>b z. \<exists>bss. z = concat bss \<and> list_all2 (\<lambda>y. Q y b) ys bss) (rfold f xs)"
proof (induction xs ys rule: list_all2_induct)
  case Nil
  have "rfold f [] = Inr" by (simp add: fun_eq_iff)
  then show ?case by (auto intro: appends_mono [OF appends_Inr])
next
  case (Cons x xs y ys)
  have r: "rfold f (x # xs) = (\<lambda>s. rbind (f x s) (rfold f xs))" by (simp add: fun_eq_iff)
  show ?case unfolding r
  proof (rule appends_mono [OF appends_bind [OF Cons.hyps(1) Cons.IH]])
    fix b z assume "\<exists>u v. z = u @ v \<and> Q y b u \<and> (\<exists>bss. v = concat bss \<and> list_all2 (\<lambda>y. Q y b) ys bss)"
    then obtain u bss where "z = concat (u # bss)" "list_all2 (\<lambda>y. Q y b) (y # ys) (u # bss)" by auto
    then show "\<exists>bss. z = concat bss \<and> list_all2 (\<lambda>y. Q y b) (y # ys) bss" by blast
  qed
qed

lemma appends_write_res: "appends (\<lambda>b x. r = Inr x) (write_res r)"
  unfolding write_res_def by (rule appends_pure) (auto intro: appends_mono [OF appends_swrite])

lemma put_fields_rfold:
  "put_fields tx fs d = rfold (\<lambda>x s. rbind (dget (fst x) d) (\<lambda>v. put_w tx (snd x) v s)) fs"
proof (induction fs)
  case (Cons x fs)
  show ?case by (rule ext, cases x) (simp add: Cons.IH rbind_assoc)
qed (simp add: fun_eq_iff)

definition field_back :: "(string \<times> wtype) \<times> wval \<Rightarrow> bool \<Rightarrow> byte list \<Rightarrow> bool" where
  "field_back xw = small_back (snd (fst xw)) (snd xw)"

lemma fields_append:
  assumes "list_all2 (\<lambda>x w. \<exists>u. dget (fst x) d = Inr u \<and> appends (small_back (snd x) w) (put_w tx (snd x) u)) fs ws"
  shows "appends (\<lambda>b z. \<exists>bss. z = concat bss \<and> list_all2 (\<lambda>xw. field_back xw b) (zip fs ws) bss)
    (put_fields tx fs d)"
proof -
  have l: "length fs = length ws" using assms by (rule list_all2_lengthD)
  have "list_all2 (\<lambda>x xw. appends (field_back xw) (\<lambda>s. rbind (dget (fst x) d) (\<lambda>v. put_w tx (snd x) v s)))
      fs (zip fs ws)"
    using assms l by (auto simp: list_all2_conv_all_nth field_back_def intro!: appends_pure)
  from appends_rfold2 [OF this] show ?thesis unfolding put_fields_rfold .
qed

lemma field_decodes_list:
  assumes b: "list_all2 (\<lambda>xw. field_back xw b) (zip fs ws) bss" and l: "length fs = length ws"
    and small: "length (concat bss) < 2 ^ 31" and n: "2 * length (concat bss) + 1 \<le> n"
  shows "list_all2 (\<lambda>x bw. decodes (reader {} b) (get_w n [] (snd x)) (conv_w [] (snd x)) (fst bw) (snd bw))
      fs (zip bss ws)"
proof -
  have lb: "length bss = length fs" using list_all2_lengthD [OF b] l by simp
  have "decodes (reader {} b) (get_w n [] (snd (fs ! i))) (conv_w [] (snd (fs ! i))) (bss ! i) (ws ! i)"
    if i: "i < length fs" for i
  proof -
    have z: "length (bss ! i) \<le> length (concat bss)" using i lb by (intro length_in_concat) simp
    have "field_back (zip fs ws ! i) b (bss ! i)" using b i l lb by (auto simp: list_all2_conv_all_nth)
    then have "wback (snd (fs ! i)) (ws ! i) b (bss ! i)"
      using z small i l by (simp add: field_back_def small_back_def)
    then show ?thesis by (rule wbackD) (use z n in simp)
  qed
  then show ?thesis using l lb by (simp add: list_all2_conv_all_nth)
qed

lemma fields_decodes:
  assumes b: "list_all2 (\<lambda>xw. field_back xw b) (zip fs ws) bss" and l: "length fs = length ws"
    and small: "length (concat bss) < 2 ^ 31" and n: "2 * length (concat bss) + 1 \<le> n"
    and pl: "list_all (\<lambda>x. plain (snd x)) fs" and ds: "distinct (map fst fs)"
  shows "decodes (reader {} b) (\<lambda>s. rbind (get_fields n (new_context fs) fs s) (\<lambda>(cs, s'). Inr (CStruct cs, s')))
     (\<lambda>x. rbind (conv_fields [] fs x) (\<lambda>d. Inr (WD d))) (concat bss) (WD (zip (map fst fs) ws))"
  using struct_decodes [OF field_decodes_list [OF b l small n] pl ds] list_all2_lengthD [OF b] l by simp

lemma struct_back:
  assumes b: "list_all2 (\<lambda>xw. field_back xw b) (zip fs ws) bss" and l: "length fs = length ws"
    and pl: "list_all (\<lambda>x. plain (snd x)) fs" and ds: "distinct (map fst fs)"
  shows "small_back (WStruct fs dfl) (WD (zip (map fst fs) ws)) b (concat bss)"
proof -
  have "decodes (reader {} b) (get_w n [] (WStruct fs dfl)) (conv_w [] (WStruct fs dfl)) (concat bss)
      (WD (zip (map fst fs) ws))" if "length (concat bss) < 2 ^ 31" "2 * length (concat bss) + 1 \<le> n" for n
    unfolding struct_functions by (rule fields_decodes [OF b l that pl ds])
  then show ?thesis by (simp add: small_back_def wback_def)
qed

lemma struct_array_back:
  assumes b: "list_all2 (\<lambda>y bs. \<forall>n. length bs < 2 ^ 31 \<longrightarrow> 2 * length bs + 1 \<le> n \<longrightarrow>
      decodes (reader {} b) (\<lambda>s. rbind (get_fields n (new_context fs) fs s) (\<lambda>(cs, s'). Inr (CStruct cs, s')))
        (\<lambda>x. rbind (conv_fields [] fs x) (\<lambda>d. Inr (WD d))) bs y) ys bss"
    and l: "length ys < 2 ^ 31"
  shows "small_back (WStructArray fs dfl) (WL ys) b (ct_bytes 4 (int (length ys)) @ concat bss)"
  unfolding small_back_def wback_def
proof (intro impI allI)
  let ?h = "ct_bytes 4 (int (length ys))"
  let ?p = "\<lambda>n s. rbind (get_fields n (new_context fs) fs s) (\<lambda>(cs, s'). Inr (CStruct cs, s'))"
  let ?f = "\<lambda>x. rbind (conv_fields [] fs x) (\<lambda>d. Inr (WD d))"
  fix n assume small: "length (?h @ concat bss) < 2 ^ 31" and n: "2 * length (?h @ concat bss) + 1 \<le> n"
  have lb: "length bss = length ys" using list_all2_lengthD [OF b] by simp
  have "decodes (reader {} b) (?p n) ?f (bss ! i) (ys ! i)" if i: "i < length ys" for i
  proof -
    have "length (bss ! i) \<le> length (concat bss)" using i lb by (intro length_in_concat) simp
    then show ?thesis using b i lb small n by (auto simp: list_all2_conv_all_nth)
  qed
  then have els: "list_all2 (decodes (reader {} b) (?p n) ?f) bss ys"
    using lb by (simp add: list_all2_conv_all_nth)
  have "decodes (reader {} b) (struct_array_parse (?p n)) (struct_array_to_python ?f) (?h @ concat bss) (WL ys)"
  proof (rule header_elements_decode [OF els, where hs = "[(Nm ''length'', c_int)]"])
    fix st assume r: "reads st (?h @ concat bss)"
    then have "le_nat (bslice (sbuf st) (spos st) 4) = length ys"
      using reads_slice0 [OF r, of 4] length_field(2) [OF l] by simp
    then show "\<exists>st1. advanced st (length ?h) st1 \<and> sclient st1 = sclient st \<and>
        struct_array_parse (?p n) st = rbind (parse_elements (?p n) 0 (length ys) st1)
          (\<lambda>(fs, st2). Inr (CStruct ([(Nm ''length'', c_int)] @ fs), st2))"
      by (intro exI [of _ "seek_cur 4 (getbuffer st)"]) (simp add: struct_array_parse_def slice_def advanced_def)
  next
    fix ob assume ob: "header_of [(Nm ''length'', c_int)] ?h ys ?f ob"
    have "getint ''length'' ob = Inr (int (length ys))"
      using header_ofD(2) [OF ob, of "''length''"] length_field(1) [OF l]
      by (simp add: getint_def le_int_ct_bytes)
    then have "ob_length ob = length ys" by (simp add: ob_length_def)
    then show "struct_array_to_python ?f ob = Inr (WL ys)"
      using header_ofD(1) [OF ob] by (simp add: struct_array_to_python_def)
  qed simp_all
  then show "decodes (reader {} b) (get_w n [] (WStructArray fs dfl)) (conv_w [] (WStructArray fs dfl))
      (?h @ concat bss) (WL ys)" unfolding struct_functions .
qed

lemma object_back: "wrote {} d v b bs \<Longrightarrow> good {} d v w \<Longrightarrow> small_back (WObject d) (WV w) b bs"
proof -
  assume wr: "wrote {} d v b bs" and g: "good {} d v w"
  have "decodes (reader {} b) (get_w n [] (WObject d)) (conv_w [] (WObject d)) bs (WV w)"
    if "length bs < 2 ^ 31" "2 * length bs + 1 \<le> n" for n
  proof -
    have "get_w n [] (WObject d) = parse_obj n d" by (rule ext) simp
    moreover have "decodes (reader {} b) (parse_obj n d) (\<lambda>ob. to_py d ob None) bs (w, None)"
      using wr g that by (auto simp: wrote_def reads_back_def split: if_splits)
    ultimately show ?thesis by (simp add: decodes_map no_client_def)
  qed
  then show ?thesis by (simp add: small_back_def wback_def)
qed

lemma map_payload_append:
  "py_items v = Inr kvs \<Longrightarrow> appends (\<lambda>b z. \<exists>h bss. write_length (length kvs) = Inr h \<and> z = h @ concat bss \<and>
     list_all2 (\<lambda>kv z. \<exists>x y. z = x @ y \<and> wrote_el {} (fst kv) b x \<and> wrote_el {} (snd kv) b y) kvs bss)
     (map_payload_from_python v)"
proof -
  assume kvs: "py_items v = Inr kvs"
  have eq: "(\<lambda>(k, u) s. rbind (infer_from_python k s) (infer_from_python u)) = infer_pair"
    by (auto simp: fun_eq_iff infer_pair_def infer_eq)
  have m: "map_payload_from_python v =
      (\<lambda>st. rbind (write_length (length kvs)) (\<lambda>n. rbind (swrite n st) (rfold infer_pair kvs)))"
    by (rule ext) (simp add: map_payload_from_python_def kvs eq)
  have "appends (\<lambda>b z. \<exists>x y. z = x @ y \<and> wrote_el {} (fst kv) b x \<and> wrote_el {} (snd kv) b y) (infer_pair kv)"
    for kv
    unfolding infer_pair_def by (rule appends_bind [OF from_py_wrote from_py_wrote])
  then have c: "appends (\<lambda>b z. \<exists>bss. z = h @ concat bss \<and>
      list_all2 (\<lambda>kv z. \<exists>x y. z = x @ y \<and> wrote_el {} (fst kv) b x \<and> wrote_el {} (snd kv) b y) kvs bss)
      (\<lambda>st. rbind (swrite h st) (rfold infer_pair kvs))" for h
    by (intro appends_container) blast
  show ?thesis unfolding m
    by (rule appends_pure, rule appends_mono [OF c]) blast
qed

lemma map_back:
  assumes h: "write_length (length kvs) = Inr h"
    and els: "list_all2 (\<lambda>kv z. \<exists>x y. z = x @ y \<and> wrote_el {} (fst kv) b x \<and> wrote_el {} (snd kv) b y) kvs bss"
    and g: "list_all2 good_el (flat_pairs kvs) (flat_pairs kws)" and keys: "dict_keys (map fst kws)"
  shows "small_back WMap (WV (VDict False kws)) b (h @ concat bss)"
  unfolding small_back_def wback_def
proof (intro impI allI)
  fix n assume small: "length (h @ concat bss) < 2 ^ 31" and n: "2 * length (h @ concat bss) + 1 \<le> n"
  from wrote_pairs [OF els] obtain es where es: "concat es = concat bss"
    "list_all2 (\<lambda>x. wrote_el {} x b) (flat_pairs kvs) es" by blast
  have "length (flat_pairs kws) = length (flat_pairs kvs)" using list_all2_lengthD [OF g] by (rule sym)
  then have l: "length kws = length kvs" "length kws < 2 ^ 31"
    using wrote_count [OF es(2)] es(1) small by auto
  have e: "h = ct_bytes 4 (int (length kws))" using write_length_less [OF h] l by simp
  have "els_back {} b es (flat_pairs kws)" by (rule wrote_els [OF es(2) g]) (use small es(1) in simp)
  from map_payload [OF this keys l(2)] n
  have "decodes (reader {} b) (map_payload_parse n) (\<lambda>ob. map_payload_to_python ob None)
      (h @ concat bss) (VDict False kws, None)" by (simp add: e es(1))
  moreover have "get_w n [] WMap = map_payload_parse n" by (rule ext) simp
  ultimately show "decodes (reader {} b) (get_w n [] WMap) (conv_w [] WMap) (h @ concat bss) (WV (VDict False kws))"
    by (simp add: decodes_map no_client_def)
qed

lemma payload_back:
  assumes "decodes (reader {} b) (prim_parse p) (prim_to_python p) bs w"
  shows "small_back (WPrim p) (WV w) b bs"
proof -
  have "get_w n [] (WPrim p) = prim_parse p" for n by (rule ext) simp
  with assms show ?thesis by (simp add: small_back_def wback_def decodes_map wv_def)
qed

lemma policy_back:
  assumes "decodes (reader {} b) policy_parse policy_to_python bs p"
  shows "small_back WExpiryPolicy (case p of None \<Rightarrow> WV VNone | Some ep \<Rightarrow> WPolicy ep) b bs"
proof -
  have "get_w n [] WExpiryPolicy = policy_parse" for n by (rule ext) simp
  with assms show ?thesis by (simp add: small_back_def wback_def decodes_map)
qed

lemma policy_append:
  "appends (\<lambda>b bs. bs = 1 # policy_bytes ep \<and> policy_in_range ep) (policy_from_python (Some ep))"
proof (rule appendsI)
  fix st st' assume w: "writable st" and "policy_from_python (Some ep) st = Inr st'"
  moreover have e: "writable s \<Longrightarrow> policy_from_python (Some ep) s =
      (if policy_in_range ep then Inr (grow s (1 # policy_bytes ep) (sclient s)) else Inl OverflowError)" for s
    by (simp add: policy_from_python_def swrite_writable write_policy_writable)
  ultimately have "policy_in_range ep" "st' = grow st (1 # policy_bytes ep) (sclient st)"
    by (auto split: if_splits)
  then show "\<exists>bs c. st' = grow st bs c \<and> compact c = compact (sclient st) \<and>
      writes (policy_from_python (Some ep)) st bs c \<and> bs = 1 # policy_bytes ep \<and> policy_in_range ep"
    using e by (auto simp: writes_def)
qed

subsection \<open>Every class\<close>

lemma put_w_appends: "wgood t v w \<Longrightarrow> appends (small_back t w) (put_w tx t v)"
proof (induction t v w rule: wgood.induct)
  case (object d v w)
  have "put_w tx (WObject d) (WV v) = from_py d v" by (rule ext) (simp add: as_val_def)
  with object show ?case by (auto intro: appends_mono [OF from_py_wrote] object_back)
next
  case (int p v i)
  have "put_w tx (WPrim p) (WV v) = write_res (prim_from_python p v)" by (rule ext) (simp add: as_val_def)
  with int show ?case by (auto intro!: appends_mono [OF appends_write_res] payload_back int_payload)
next
  case (bool v)
  have "put_w tx (WPrim TBool) (WV v) = write_res (prim_from_python TBool v)" by (rule ext) (simp add: as_val_def)
  then show ?case
    by (simp only:) (rule appends_mono [OF appends_write_res], rule payload_back, rule bool_payload)
next
  case (map v kvs kws)
  have "put_w tx WMap (WV v) = map_payload_from_python v" by (rule ext) (simp add: as_val_def)
  with map show ?case by (auto intro!: appends_mono [OF map_payload_append] map_back)
next
  case (no_policy v)
  have "put_w tx WExpiryPolicy v = swrite [0]" using no_policy by (intro ext) (simp add: policy_from_python_def)
  moreover have "small_back WExpiryPolicy (WV VNone) b [0]" for b
    using policy_back [OF no_policy_decodes] by simp
  ultimately show ?case by (auto intro: appends_mono [OF appends_swrite])
next
  case (policy ep ep')
  have "put_w tx WExpiryPolicy (WPolicy ep) = policy_from_python (Some ep)"
    by (rule ext) (simp add: as_policy_def)
  moreover have "small_back WExpiryPolicy (WPolicy ep') b (1 # policy_bytes ep)" if "policy_in_range ep" for b
    using policy_back [OF policy_decodes [OF that policy]] by simp
  ultimately show ?case by (auto intro: appends_mono [OF policy_append])
next
  case (struct dfl v d fs ws)
  have "put_w tx (WStruct fs dfl) v = put_fields tx fs d" using struct(1) by (intro ext) simp
  moreover have l: "length fs = length ws" using struct(3) by (rule list_all2_lengthD)
  moreover have "list_all (\<lambda>x. plain (snd x)) fs"
    using struct(3) wgood_plain by (auto simp: list_all2_conv_all_nth list_all_length)
  moreover have "list_all2 (\<lambda>x w. \<exists>u. dget (fst x) d = Inr u \<and> appends (small_back (snd x) w) (put_w tx (snd x) u)) fs ws"
    using struct(3) by (rule list_all2_mono) blast
  ultimately show ?case
    using struct(2) by (auto intro!: appends_mono [OF fields_append] struct_back)
next
  case (struct_array v xs fs dfl ys)
  let ?f = "\<lambda>x s. rbind (as_dict dfl x) (\<lambda>d. put_fields tx fs d s)"
  let ?Q = "\<lambda>y b bs. \<forall>n. length bs < 2 ^ 31 \<longrightarrow> 2 * length bs + 1 \<le> n \<longrightarrow>
      decodes (reader {} b) (\<lambda>s. rbind (get_fields n (new_context fs) fs s) (\<lambda>(cs, s'). Inr (CStruct cs, s')))
        (\<lambda>x. rbind (conv_fields [] fs x) (\<lambda>d. Inr (WD d))) bs y"
  have l: "length xs = length ys" using struct_array(4) by (rule list_all2_lengthD)
  have h: "write_length (length xs) = Inr (ct_bytes 4 (int (length xs)))"
    using struct_array(3) by (rule length_field(3))
  have eq: "put_w tx (WStructArray fs dfl) v =
      (\<lambda>st. rbind (swrite (ct_bytes 4 (int (length ys))) st) (rfold ?f xs))"
    using struct_array(1) h l by (intro ext) (simp add: struct_array_from_python_def write_res_def)
  have "appends (?Q y) (?f x)" if i: "i < length xs" "x = xs ! i" "y = ys ! i" for i x y
  proof -
    from struct_array(4) i obtain d ws where d: "as_dict dfl x = Inr d" "y = WD (zip (map fst fs) ws)"
      and ws: "list_all2 (\<lambda>f w. \<exists>u. dget (fst f) d = Inr u \<and> wgood (snd f) u w \<and>
        appends (small_back (snd f) w) (put_w tx (snd f) u)) fs ws"
      by (auto simp: list_all2_conv_all_nth)
    have pl: "list_all (\<lambda>x. plain (snd x)) fs"
      using ws wgood_plain by (auto simp: list_all2_conv_all_nth list_all_length)
    have lf: "length fs = length ws" using ws by (rule list_all2_lengthD)
    have "list_all2 (\<lambda>x w. \<exists>u. dget (fst x) d = Inr u \<and> appends (small_back (snd x) w) (put_w tx (snd x) u)) fs ws"
      using ws by (rule list_all2_mono) blast
    then have "appends (?Q y) (put_fields tx fs d)"
      by (rule appends_mono [OF fields_append]) (use fields_decodes [OF _ lf _ _ pl struct_array(2)] d(2) in blast)
    then show ?thesis by (simp add: d(1))
  qed
  then have "list_all2 (\<lambda>x y. appends (?Q y) (?f x)) xs ys" using l by (simp add: list_all2_conv_all_nth)
  from appends_rfold2 [OF this]
  have "appends (\<lambda>b z. \<exists>bss. z = ct_bytes 4 (int (length ys)) @ concat bss \<and> list_all2 (\<lambda>y. ?Q y b) ys bss)
      (put_w tx (WStructArray fs dfl) v)"
    unfolding eq by (rule appends_mono [OF appends_bind [OF appends_swrite]]) blast
  then show ?case
    by (rule appends_mono) (use struct_array_back struct_array(3) l in auto)
qed


definition schema_value :: wval where
  "schema_value = WL [WD [(''schema_id'', WV (VInt 5)), (''schema_fields'', WL [WD [(''schema_field_id'', WV (VInt 7))]])]]"

lemma schema_value_good: "wgood schema_struct schema_value schema_value"
proof -
  have i: "wgood (WPrim TInt) (WV (VInt n)) (WV (VInt n))" for n by (simp add: wgood.int int_prim_def)
  have f: "wgood schema_fields_struct (WL [WD [(''schema_field_id'', WV (VInt 7))]])
      (WL [WD [(''schema_field_id'', WV (VInt 7))]])"
    unfolding schema_fields_struct_def
    by (rule wgood.struct_array)
      (auto simp: wseq_def as_dict_def set_defaults_def dget_def i intro!: exI [of _ "[WV (VInt 7)]"])
  show ?thesis unfolding schema_struct_def schema_value_def
    by (rule wgood.struct_array)
      (auto simp: wseq_def as_dict_def set_defaults_def dget_def i f
        intro!: exI [of _ "[WV (VInt 5), WL [WD [(''schema_field_id'', WV (VInt 7))]]]"])
qed


end
