(* ===== verification/KeyValue.thy ===== *)
theory KeyValue
  imports Query
begin

section \<open>Key-value operations\<close>

text \<open>
  \<open>api/key_value.py\<close>: every operation as the query it builds, its parameters, its response and
  the post-processing that picks the value out of it. A key hint is the class to encode the key
  with, \<open>None\<close> to infer it. The \<open>async\<close> functions build the same queries.
\<close>

subsection \<open>Operation codes\<close>

definition OP_CACHE_GET :: int where "OP_CACHE_GET = 1000"
definition OP_CACHE_PUT :: int where "OP_CACHE_PUT = 1001"
definition OP_CACHE_PUT_IF_ABSENT :: int where "OP_CACHE_PUT_IF_ABSENT = 1002"
definition OP_CACHE_GET_ALL :: int where "OP_CACHE_GET_ALL = 1003"
definition OP_CACHE_PUT_ALL :: int where "OP_CACHE_PUT_ALL = 1004"
definition OP_CACHE_GET_AND_PUT :: int where "OP_CACHE_GET_AND_PUT = 1005"
definition OP_CACHE_GET_AND_REPLACE :: int where "OP_CACHE_GET_AND_REPLACE = 1006"
definition OP_CACHE_GET_AND_REMOVE :: int where "OP_CACHE_GET_AND_REMOVE = 1007"
definition OP_CACHE_GET_AND_PUT_IF_ABSENT :: int where "OP_CACHE_GET_AND_PUT_IF_ABSENT = 1008"
definition OP_CACHE_REPLACE :: int where "OP_CACHE_REPLACE = 1009"
definition OP_CACHE_REPLACE_IF_EQUALS :: int where "OP_CACHE_REPLACE_IF_EQUALS = 1010"
definition OP_CACHE_CONTAINS_KEY :: int where "OP_CACHE_CONTAINS_KEY = 1011"
definition OP_CACHE_CONTAINS_KEYS :: int where "OP_CACHE_CONTAINS_KEYS = 1012"
definition OP_CACHE_CLEAR :: int where "OP_CACHE_CLEAR = 1013"
definition OP_CACHE_CLEAR_KEY :: int where "OP_CACHE_CLEAR_KEY = 1014"
definition OP_CACHE_CLEAR_KEYS :: int where "OP_CACHE_CLEAR_KEYS = 1015"
definition OP_CACHE_REMOVE_KEY :: int where "OP_CACHE_REMOVE_KEY = 1016"
definition OP_CACHE_REMOVE_IF_EQUALS :: int where "OP_CACHE_REMOVE_IF_EQUALS = 1017"
definition OP_CACHE_REMOVE_KEYS :: int where "OP_CACHE_REMOVE_KEYS = 1018"
definition OP_CACHE_REMOVE_ALL :: int where "OP_CACHE_REMOVE_ALL = 1019"
definition OP_CACHE_GET_SIZE :: int where "OP_CACHE_GET_SIZE = 1020"
definition OP_CACHE_LOCAL_PEEK :: int where "OP_CACHE_LOCAL_PEEK = 1021"

lemmas key_value_op_codes =
  OP_CACHE_GET_def OP_CACHE_PUT_def OP_CACHE_PUT_IF_ABSENT_def OP_CACHE_GET_ALL_def
  OP_CACHE_PUT_ALL_def OP_CACHE_GET_AND_PUT_def OP_CACHE_GET_AND_REPLACE_def
  OP_CACHE_GET_AND_REMOVE_def OP_CACHE_GET_AND_PUT_IF_ABSENT_def OP_CACHE_REPLACE_def
  OP_CACHE_REPLACE_IF_EQUALS_def OP_CACHE_CONTAINS_KEY_def OP_CACHE_CONTAINS_KEYS_def
  OP_CACHE_CLEAR_def OP_CACHE_CLEAR_KEY_def OP_CACHE_CLEAR_KEYS_def OP_CACHE_REMOVE_KEY_def
  OP_CACHE_REMOVE_IF_EQUALS_def OP_CACHE_REMOVE_KEYS_def OP_CACHE_REMOVE_ALL_def
  OP_CACHE_GET_SIZE_def OP_CACHE_LOCAL_PEEK_def

subsection \<open>Shared steps\<close>

definition hint_or_any :: "wtype option \<Rightarrow> wtype" where
  "hint_or_any h = (case h of None \<Rightarrow> WObject AnyDataObject | Some t \<Rightarrow> t)"

definition post_process_value_by_key :: "string \<Rightarrow> api_result \<Rightarrow> api_result res" where
  "post_process_value_by_key key result =
     (if r_status result = 0
      then rbind (wfield key (r_value result)) (\<lambda>v. Inr (result\<lparr>r_value := v\<rparr>))
      else Inr result)"

definition no_post_process :: "api_result \<Rightarrow> api_result res" where
  "no_post_process result = Inr result"

text \<open>The normalisation of \<open>peek_modes\<close>.\<close>

definition peek_modes_list :: "pyval \<Rightarrow> pyval" where
  "peek_modes_list v =
     (case v of VNone \<Rightarrow> VList [] | VList xs \<Rightarrow> v | VTuple xs \<Rightarrow> v | _ \<Rightarrow> VList [v])"

subsection \<open>The operations\<close>

definition cache_put ::
  "'r performer \<Rightarrow> cache_info \<Rightarrow> pyval \<Rightarrow> pyval \<Rightarrow> wtype option \<Rightarrow> wtype option \<Rightarrow> 'r"
where
  "cache_put perf cache_info key value key_hint value_hint =
     perf OP_CACHE_PUT
      [(''cache_info'', WCacheInfo), (''key'', hint_or_any key_hint),
       (''value'', hint_or_any value_hint)]
      [(''cache_info'', WInfo cache_info), (''key'', WV key), (''value'', WV value)]
      (Response []) no_post_process"

definition cache_get ::
  "'r performer \<Rightarrow> cache_info \<Rightarrow> pyval \<Rightarrow> wtype option \<Rightarrow> 'r"
where
  "cache_get perf cache_info key key_hint =
     perf OP_CACHE_GET
      [(''cache_info'', WCacheInfo), (''key'', hint_or_any key_hint)]
      [(''cache_info'', WInfo cache_info), (''key'', WV key)]
      (Response [(''value'', WObject AnyDataObject)]) (post_process_value_by_key ''value'')"

definition cache_get_all ::
  "'r performer \<Rightarrow> cache_info \<Rightarrow> pyval \<Rightarrow> 'r"
where
  "cache_get_all perf cache_info keys =
     perf OP_CACHE_GET_ALL
      [(''cache_info'', WCacheInfo), (''keys'', WAnyArray)]
      [(''cache_info'', WInfo cache_info), (''keys'', WV keys)]
      (Response [(''data'', WMap)]) (post_process_value_by_key ''data'')"

definition cache_put_all ::
  "'r performer \<Rightarrow> cache_info \<Rightarrow> pyval \<Rightarrow> 'r"
where
  "cache_put_all perf cache_info pairs =
     perf OP_CACHE_PUT_ALL
      [(''cache_info'', WCacheInfo), (''data'', WMap)]
      [(''cache_info'', WInfo cache_info), (''data'', WV pairs)]
      (Response []) no_post_process"

definition cache_contains_key ::
  "'r performer \<Rightarrow> cache_info \<Rightarrow> pyval \<Rightarrow> wtype option \<Rightarrow> 'r"
where
  "cache_contains_key perf cache_info key key_hint =
     perf OP_CACHE_CONTAINS_KEY
      [(''cache_info'', WCacheInfo), (''key'', hint_or_any key_hint)]
      [(''cache_info'', WInfo cache_info), (''key'', WV key)]
      (Response [(''value'', WPrim TBool)]) (post_process_value_by_key ''value'')"

definition cache_contains_keys ::
  "'r performer \<Rightarrow> cache_info \<Rightarrow> pyval \<Rightarrow> 'r"
where
  "cache_contains_keys perf cache_info keys =
     perf OP_CACHE_CONTAINS_KEYS
      [(''cache_info'', WCacheInfo), (''keys'', WAnyArray)]
      [(''cache_info'', WInfo cache_info), (''keys'', WV keys)]
      (Response [(''value'', WPrim TBool)]) (post_process_value_by_key ''value'')"

definition cache_get_and_put ::
  "'r performer \<Rightarrow> cache_info \<Rightarrow> pyval \<Rightarrow> pyval \<Rightarrow> wtype option \<Rightarrow> wtype option \<Rightarrow> 'r"
where
  "cache_get_and_put perf cache_info key value key_hint value_hint =
     perf OP_CACHE_GET_AND_PUT
      [(''cache_info'', WCacheInfo), (''key'', hint_or_any key_hint),
       (''value'', hint_or_any value_hint)]
      [(''cache_info'', WInfo cache_info), (''key'', WV key), (''value'', WV value)]
      (Response [(''value'', WObject AnyDataObject)]) (post_process_value_by_key ''value'')"

definition cache_get_and_replace ::
  "'r performer \<Rightarrow> cache_info \<Rightarrow> pyval \<Rightarrow> pyval \<Rightarrow> wtype option \<Rightarrow> wtype option \<Rightarrow> 'r"
where
  "cache_get_and_replace perf cache_info key value key_hint value_hint =
     perf OP_CACHE_GET_AND_REPLACE
      [(''cache_info'', WCacheInfo), (''key'', hint_or_any key_hint),
       (''value'', hint_or_any value_hint)]
      [(''cache_info'', WInfo cache_info), (''key'', WV key), (''value'', WV value)]
      (Response [(''value'', WObject AnyDataObject)]) (post_process_value_by_key ''value'')"

definition cache_get_and_remove ::
  "'r performer \<Rightarrow> cache_info \<Rightarrow> pyval \<Rightarrow> wtype option \<Rightarrow> 'r"
where
  "cache_get_and_remove perf cache_info key key_hint =
     perf OP_CACHE_GET_AND_REMOVE
      [(''cache_info'', WCacheInfo), (''key'', hint_or_any key_hint)]
      [(''cache_info'', WInfo cache_info), (''key'', WV key)]
      (Response [(''value'', WObject AnyDataObject)]) (post_process_value_by_key ''value'')"

definition cache_put_if_absent ::
  "'r performer \<Rightarrow> cache_info \<Rightarrow> pyval \<Rightarrow> pyval \<Rightarrow> wtype option \<Rightarrow> wtype option \<Rightarrow> 'r"
where
  "cache_put_if_absent perf cache_info key value key_hint value_hint =
     perf OP_CACHE_PUT_IF_ABSENT
      [(''cache_info'', WCacheInfo), (''key'', hint_or_any key_hint),
       (''value'', hint_or_any value_hint)]
      [(''cache_info'', WInfo cache_info), (''key'', WV key), (''value'', WV value)]
      (Response [(''success'', WPrim TBool)]) (post_process_value_by_key ''success'')"

definition cache_get_and_put_if_absent ::
  "'r performer \<Rightarrow> cache_info \<Rightarrow> pyval \<Rightarrow> pyval \<Rightarrow> wtype option \<Rightarrow> wtype option \<Rightarrow> 'r"
where
  "cache_get_and_put_if_absent perf cache_info key value key_hint value_hint =
     perf OP_CACHE_GET_AND_PUT_IF_ABSENT
      [(''cache_info'', WCacheInfo), (''key'', hint_or_any key_hint),
       (''value'', hint_or_any value_hint)]
      [(''cache_info'', WInfo cache_info), (''key'', WV key), (''value'', WV value)]
      (Response [(''value'', WObject AnyDataObject)]) (post_process_value_by_key ''value'')"

definition cache_replace ::
  "'r performer \<Rightarrow> cache_info \<Rightarrow> pyval \<Rightarrow> pyval \<Rightarrow> wtype option \<Rightarrow> wtype option \<Rightarrow> 'r"
where
  "cache_replace perf cache_info key value key_hint value_hint =
     perf OP_CACHE_REPLACE
      [(''cache_info'', WCacheInfo), (''key'', hint_or_any key_hint),
       (''value'', hint_or_any value_hint)]
      [(''cache_info'', WInfo cache_info), (''key'', WV key), (''value'', WV value)]
      (Response [(''success'', WPrim TBool)]) (post_process_value_by_key ''success'')"

definition cache_replace_if_equals ::
  "'r performer \<Rightarrow> cache_info \<Rightarrow> pyval \<Rightarrow> pyval \<Rightarrow> pyval \<Rightarrow> wtype option \<Rightarrow> wtype option \<Rightarrow> wtype option \<Rightarrow> 'r"
where
  "cache_replace_if_equals perf cache_info key sample_value value key_hint sample_hint value_hint =
     perf OP_CACHE_REPLACE_IF_EQUALS
      [(''cache_info'', WCacheInfo), (''key'', hint_or_any key_hint),
       (''sample'', hint_or_any sample_hint), (''value'', hint_or_any value_hint)]
      [(''cache_info'', WInfo cache_info), (''key'', WV key), (''sample'', WV sample_value),
       (''value'', WV value)]
      (Response [(''success'', WPrim TBool)]) (post_process_value_by_key ''success'')"

definition cache_clear ::
  "'r performer \<Rightarrow> cache_info \<Rightarrow> 'r"
where
  "cache_clear perf cache_info =
     perf OP_CACHE_CLEAR
      [(''cache_info'', WCacheInfo)]
      [(''cache_info'', WInfo cache_info)]
      (Response []) no_post_process"

definition cache_clear_key ::
  "'r performer \<Rightarrow> cache_info \<Rightarrow> pyval \<Rightarrow> wtype option \<Rightarrow> 'r"
where
  "cache_clear_key perf cache_info key key_hint =
     perf OP_CACHE_CLEAR_KEY
      [(''cache_info'', WCacheInfo), (''key'', hint_or_any key_hint)]
      [(''cache_info'', WInfo cache_info), (''key'', WV key)]
      (Response []) no_post_process"

definition cache_clear_keys ::
  "'r performer \<Rightarrow> cache_info \<Rightarrow> pyval \<Rightarrow> 'r"
where
  "cache_clear_keys perf cache_info keys =
     perf OP_CACHE_CLEAR_KEYS
      [(''cache_info'', WCacheInfo), (''keys'', WAnyArray)]
      [(''cache_info'', WInfo cache_info), (''keys'', WV keys)]
      (Response []) no_post_process"

definition cache_remove_key ::
  "'r performer \<Rightarrow> cache_info \<Rightarrow> pyval \<Rightarrow> wtype option \<Rightarrow> 'r"
where
  "cache_remove_key perf cache_info key key_hint =
     perf OP_CACHE_REMOVE_KEY
      [(''cache_info'', WCacheInfo), (''key'', hint_or_any key_hint)]
      [(''cache_info'', WInfo cache_info), (''key'', WV key)]
      (Response [(''success'', WPrim TBool)]) (post_process_value_by_key ''success'')"

definition cache_remove_if_equals ::
  "'r performer \<Rightarrow> cache_info \<Rightarrow> pyval \<Rightarrow> pyval \<Rightarrow> wtype option \<Rightarrow> wtype option \<Rightarrow> 'r"
where
  "cache_remove_if_equals perf cache_info key sample_value key_hint sample_hint =
     perf OP_CACHE_REMOVE_IF_EQUALS
      [(''cache_info'', WCacheInfo), (''key'', hint_or_any key_hint),
       (''sample'', hint_or_any sample_hint)]
      [(''cache_info'', WInfo cache_info), (''key'', WV key), (''sample'', WV sample_value)]
      (Response [(''success'', WPrim TBool)]) (post_process_value_by_key ''success'')"

definition cache_remove_keys ::
  "'r performer \<Rightarrow> cache_info \<Rightarrow> pyval \<Rightarrow> 'r"
where
  "cache_remove_keys perf cache_info keys =
     perf OP_CACHE_REMOVE_KEYS
      [(''cache_info'', WCacheInfo), (''keys'', WAnyArray)]
      [(''cache_info'', WInfo cache_info), (''keys'', WV keys)]
      (Response []) no_post_process"

definition cache_remove_all ::
  "'r performer \<Rightarrow> cache_info \<Rightarrow> 'r"
where
  "cache_remove_all perf cache_info =
     perf OP_CACHE_REMOVE_ALL
      [(''cache_info'', WCacheInfo)]
      [(''cache_info'', WInfo cache_info)]
      (Response []) no_post_process"

definition cache_get_size ::
  "'r performer \<Rightarrow> cache_info \<Rightarrow> pyval \<Rightarrow> 'r"
where
  "cache_get_size perf cache_info peek_modes =
     perf OP_CACHE_GET_SIZE
      [(''cache_info'', WCacheInfo), (''peek_modes'', WPrimArray TByte)]
      [(''cache_info'', WInfo cache_info), (''peek_modes'', WV (peek_modes_list peek_modes))]
      (Response [(''count'', WPrim TLong)]) (post_process_value_by_key ''count'')"

definition cache_local_peek ::
  "'r performer \<Rightarrow> cache_info \<Rightarrow> pyval \<Rightarrow> pyval \<Rightarrow> wtype option \<Rightarrow> 'r"
where
  "cache_local_peek perf cache_info key peek_modes key_hint =
     perf OP_CACHE_LOCAL_PEEK
      [(''cache_info'', WCacheInfo), (''key'', hint_or_any key_hint),
       (''peek_modes'', WPrimArray TByte)]
      [(''cache_info'', WInfo cache_info), (''key'', WV key),
       (''peek_modes'', WV (peek_modes_list peek_modes))]
      (Response [(''value'', WObject AnyDataObject)]) (post_process_value_by_key ''value'')"

end
