(* ===== verification/Requests.thy ===== *)
theory Requests
  imports StructTrip KeyValue
begin

section \<open>Properties of requests and responses\<close>

text \<open>
  The framing of requests, the decoding of responses, and what a put followed by a get returns.
  \<open>server_response\<close> is the response format of the protocol, seen from the server.
\<close>

subsection \<open>Every encoder appends\<close>

lemma put_fields_any:
  assumes "\<And>x v. x \<in> set fs \<Longrightarrow> appends (\<lambda>b bs. True) (put_w tx (snd x) v)"
  shows "appends (\<lambda>b bs. True) (put_fields tx fs d)"
  unfolding put_fields_rfold
  by (rule appends_mono [OF appends_rfold [where Q = "\<lambda>x b bs. True"]])
    (auto intro!: appends_pure assms)

lemma cache_info_appends: "appends (\<lambda>b bs. True) (cache_info_from_python tx ci)"
proof (rule appendsI)
  fix st st' assume w: "writable st" and e: "cache_info_from_python tx ci st = Inr st'"
  have ok: "cache_info_ok tx ci" using e cache_info_writable [OF w] by (auto split: if_splits)
  then show "\<exists>bs c. st' = grow st bs c \<and> compact c = compact (sclient st) \<and>
      writes (cache_info_from_python tx ci) st bs c \<and> True"
    using e cache_info_writable [OF w]
    by (intro exI [of _ "cache_info_bytes tx ci"] exI [of _ "sclient st"])
      (auto simp: writes_def cache_info_writable)
qed

lemma infer_pair_appends: "appends (\<lambda>b bs. True) (infer_pair kv)"
  unfolding infer_pair_def
  by (rule appends_mono [OF appends_bind [OF from_py_appends from_py_appends]]) simp

lemma sequence_appends:
  "appends (\<lambda>b bs. True) (any_array_from_python v)"
  "appends (\<lambda>b bs. True) (map_payload_from_python v)"
proof -
  have "any_array_from_python v = (\<lambda>st. rbind (write_length (length (seq_or_single v))) (\<lambda>n.
      rbind (swrite n st) (rfold infer (seq_or_single v))))"
    by (rule ext) (simp add: any_array_from_python_def infer_eq)
  then show "appends (\<lambda>b bs. True) (any_array_from_python v)"
    by (simp only:) (auto intro!: appends_pure
        appends_mono [OF appends_container [where Q = "\<lambda>x b bs. True"]] from_py_appends)
  have eq: "(\<lambda>(k, u) s. rbind (infer_from_python k s) (infer_from_python u)) = infer_pair"
    by (auto simp: fun_eq_iff infer_pair_def infer_eq)
  have "map_payload_from_python v = (\<lambda>st. rbind (py_items v) (\<lambda>kvs. rbind (write_length (length kvs)) (\<lambda>n.
      rbind (swrite n st) (rfold infer_pair kvs))))"
    by (rule ext) (simp add: map_payload_from_python_def eq)
  then show "appends (\<lambda>b bs. True) (map_payload_from_python v)"
    by (simp only:) (auto intro!: appends_pure
        appends_mono [OF appends_container [where Q = "\<lambda>x b bs. True"]] infer_pair_appends)
qed

lemma policy_appends: "appends (\<lambda>b bs. True) (policy_from_python p)"
proof (cases p)
  case None
  have "policy_from_python None = swrite [0]" by (rule ext) (simp add: policy_from_python_def)
  then show ?thesis using None by (auto intro: appends_mono [OF appends_swrite])
next
  case (Some ep)
  then show ?thesis by (auto intro: appends_mono [OF policy_append])
qed

lemma put_w_any: "appends (\<lambda>b bs. True) (put_w tx t v)"
proof (induction t arbitrary: v)
  case (WObject d)
  have "put_w tx (WObject d) v = (\<lambda>st. rbind (as_val v) (\<lambda>x. from_py d x st))" by (rule ext) simp
  then show ?case by (simp only:) (auto intro: appends_pure from_py_appends)
next
  case (WPrim p)
  have "put_w tx (WPrim p) v = (\<lambda>st. rbind (as_val v) (\<lambda>x. write_res (prim_from_python p x) st))"
    by (rule ext) simp
  then show ?case by (simp only:) (auto intro!: appends_pure appends_mono [OF appends_write_res])
next
  case (WPrimArray p)
  have "put_w tx (WPrimArray p) v = (\<lambda>st. rbind (as_val v) (\<lambda>x. write_res (prim_array_from_python p x) st))"
    by (rule ext) simp
  then show ?case by (simp only:) (auto intro!: appends_pure appends_mono [OF appends_write_res])
next
  case (WStdArray s)
  have "put_w tx (WStdArray s) v = (\<lambda>st. rbind (as_val v) (\<lambda>x. write_res (std_array_from_python s x) st))"
    by (rule ext) simp
  then show ?case by (simp only:) (auto intro!: appends_pure appends_mono [OF appends_write_res])
next
  case WAnyArray
  have "put_w tx WAnyArray v = (\<lambda>st. rbind (as_val v) (\<lambda>x. any_array_from_python x st))" by (rule ext) simp
  then show ?case by (simp only:) (auto intro: appends_pure sequence_appends)
next
  case WMap
  have "put_w tx WMap v = (\<lambda>st. rbind (as_val v) (\<lambda>x. map_payload_from_python x st))" by (rule ext) simp
  then show ?case by (simp only:) (auto intro: appends_pure sequence_appends)
next
  case WCacheInfo
  have "put_w tx WCacheInfo v = (case v of WInfo ci \<Rightarrow> cache_info_from_python tx ci | _ \<Rightarrow> (\<lambda>st. Inl AttributeError))"
    by (rule ext) (simp split: wval.splits)
  then show ?case by (cases v) (simp_all add: cache_info_appends, simp_all add: appends_def)
next
  case WExpiryPolicy
  have "put_w tx WExpiryPolicy v = (\<lambda>st. rbind (as_policy v) (\<lambda>p. policy_from_python p st))" by (rule ext) simp
  then show ?case by (simp only:) (auto intro: appends_pure policy_appends)
next
  case (WStruct fs dfl)
  have f: "appends (\<lambda>b bs. True) (put_fields tx fs d)" for d
    by (rule put_fields_any) (use WStruct in force)
  have "put_w tx (WStruct fs dfl) v = (\<lambda>st. rbind (as_dict dfl v) (\<lambda>d. put_fields tx fs d st))" by (rule ext) simp
  then show ?case by (simp only:) (auto intro: appends_pure f)
next
  case (WStructArray fs dfl)
  have f: "appends (\<lambda>b bs. True) (put_fields tx fs d)" for d
    by (rule put_fields_any) (use WStructArray in force)
  let ?f = "\<lambda>x s. rbind (as_dict dfl x) (\<lambda>d. put_fields tx fs d s)"
  have "put_w tx (WStructArray fs dfl) v =
      (\<lambda>st. rbind (wseq v) (\<lambda>xs. rbind (write_length (length xs)) (\<lambda>n. rbind (swrite n st) (rfold ?f xs))))"
    by (rule ext) (simp add: struct_array_from_python_def write_res_def rbind_assoc)
  then show ?case
    by (simp only:) (auto intro!: appends_pure
        appends_mono [OF appends_container [where Q = "\<lambda>x b bs. True"]] f)
next
  case (WConditional names p1 p2 a b)
  then show ?case by (simp add: appends_def)
next
  case (WProp c timeout t)
  have p: "appends (\<lambda>b bs. True) (prop_from_python (\<lambda>x s. put_w tx t x s) c v)"
    unfolding prop_from_python_def
    by (rule appends_mono [OF appends_bind [OF appends_swrite WProp]]) simp
  have t: "appends (\<lambda>b bs. True) (timeout_from_python (\<lambda>x s. put_w tx t x s) c v)"
  proof (cases "timeout_ok v")
    case True
    then have "timeout_from_python (\<lambda>x s. put_w tx t x s) c v = prop_from_python (\<lambda>x s. put_w tx t x s) c v"
      by (intro ext) (simp add: timeout_from_python_def)
    with p show ?thesis by simp
  next
    case False
    then show ?thesis by (simp add: appends_def timeout_from_python_def)
  qed
  have "put_w tx (WProp c timeout t) v = (if timeout then timeout_from_python (\<lambda>x s. put_w tx t x s) c v
      else prop_from_python (\<lambda>x s. put_w tx t x s) c v)" by (rule ext) simp
  then show ?case using p t by simp
qed

lemma put_fields_appends: "appends (\<lambda>b bs. True) (put_fields tx fs d)"
  by (rule put_fields_any) (rule put_w_any)

subsection \<open>Requests\<close>

definition request_header :: "query \<Rightarrow> int \<Rightarrow> byte list" where
  "request_header q len = store_ct (query_ct (q_config q)) (query_header q len)"

lemma request_header_length: "length (request_header q len) = sizeof_ct (query_ct (q_config q))"
  by (simp add: request_header_def query_ct_def query_header_def)

lemma request_header_bytes:
  "\<not> q_config q \<Longrightarrow> request_header q len =
     ct_bytes 4 len @ ct_bytes 2 (q_op_code q) @ ct_bytes 8 (q_query_id q)"
  by (simp add: request_header_def query_ct_def query_header_def)

lemma request_header_prefix: "take 4 (request_header q len) = ct_bytes 4 len"
  by (simp add: request_header_def query_ct_def query_header_def)

definition request :: "query \<Rightarrow> byte list \<Rightarrow> byte list" where
  "request q body =
     request_header q (int (sizeof_ct (query_ct (q_config q)) + length body) - 4) @ body"

lemma header_written:
  assumes "st1 = grow (build_header q (new_stream c [])) body c'"
  shows "\<exists>st. write_query_header q 0 st1 = Inr st \<and> sbuf st = request q body \<and> sclient st = c'"
proof -
  let ?k = "sizeof_ct (query_ct (q_config q))"
  let ?h = "request_header q (int (?k + length body) - 4)"
  have k: "0 < ?k" by (simp add: query_ct_def)
  have p: "spos st1 = ?k + length body" "sbuf st1 = (if body = [] then [] else replicate ?k 0 @ body)"
    "sview st1 = None" "sclient st1 = c'"
    using assms by (simp_all add: build_header_def new_stream_def)
  have "swrite ?h (seek_set 0 st1) = Inr (st1\<lparr>sbuf := ?h @ body, spos := ?k\<rparr>)"
    using request_header_length [of q "int (?k + length body) - 4"] p(2,3) k
    by (auto simp: swrite_def release_buffer_def overwrite_def seek_set_def Let_def)
  then have "write_query_header q 0 st1 = Inr (st1\<lparr>sbuf := ?h @ body, spos := ?k\<rparr>)"
    using p(1) by (simp add: write_query_header_def request_header_def)
  then show ?thesis using p(4) by (simp add: request_def)
qed

lemma request_length: "length (request q body) = sizeof_ct (query_ct (q_config q)) + length body"
  by (simp add: request_def request_header_length)

lemma build_header_writable: "writable (build_header q (new_stream c []))"
  by (simp add: writable_def build_header_def new_stream_def)

lemma query_bytes:
  assumes "query_from_python tx q values (new_stream c []) = Inr st"
  shows "\<exists>body c'. sbuf st = request q body \<and> sclient st = c' \<and> compact c' = compact c \<and>
    writes (put_fields tx (q_following q) values) (new_stream c []) body c'"
proof -
  let ?s0 = "build_header q (new_stream c [])"
  from assms obtain st1 where st1: "put_fields tx (q_following q) values ?s0 = Inr st1"
    and st: "write_query_header q 0 st1 = Inr st"
    by (auto simp: query_from_python_def rbind_eq_Inr_iff new_stream_def split: if_splits)
  from put_fields_appends build_header_writable st1 obtain body c' where
    b: "st1 = grow ?s0 body c'" "compact c' = compact (sclient ?s0)"
    "writes (put_fields tx (q_following q) values) ?s0 body c'"
    by (rule appendsE)
  from header_written [OF b(1)] st have "sbuf st = request q body" "sclient st = c'" by simp_all
  then show ?thesis using b(2,3)
    by (auto simp: writes_def build_header_def new_stream_def)
qed

lemma query_encodes:
  assumes wr: "writes (put_fields tx (q_following q) values) (new_stream c []) body c'"
    and ne: "values \<noteq> [] \<or> q_following q = []"
  shows "\<exists>st. query_from_python tx q values (new_stream c []) = Inr st \<and>
    sbuf st = request q body \<and> sclient st = c'"
proof -
  let ?s0 = "build_header q (new_stream c [])"
  have "put_fields tx (q_following q) values ?s0 = Inr (grow ?s0 body c')"
    by (rule writesD [OF wr build_header_writable]) (simp_all add: build_header_def new_stream_def)
  with header_written [OF refl] ne show ?thesis
    by (auto simp: query_from_python_def new_stream_def)
qed

text \<open>
  C21. A request is a header followed by exactly the bytes its fields append, one after the other,
  to any stream: the header is the size of its structure, and its first four bytes hold the number
  of bytes that follow them, so the server finds the end of every request below 2 GB.
\<close>

theorem request_framing:
  assumes "query_from_python tx q values (new_stream c []) = Inr st"
  shows "\<exists>body c'. sbuf st = request_header q (int (length (sbuf st)) - 4) @ body \<and>
    length (request_header q (int (length (sbuf st)) - 4)) = (if q_config q then 18 else 14) \<and>
    (\<forall>st2. at_end st2 \<longrightarrow> sclient st2 = c \<longrightarrow>
      put_fields tx (q_following q) values st2 = Inr ((append_to st2 body)\<lparr>sclient := c'\<rparr>)) \<and>
    (length (sbuf st) < 2 ^ 31 \<longrightarrow> le_int True (take 4 (sbuf st)) = int (length (sbuf st)) - 4)"
proof -
  from query_bytes [OF assms] obtain body c' where r: "sbuf st = request q body"
    and w: "writes (put_fields tx (q_following q) values) (new_stream c []) body c'" by blast
  have b: "sbuf st = request_header q (int (length (sbuf st)) - 4) @ body"
    by (simp only: r request_length) (simp only: request_def)
  let ?h = "request_header q (int (length (sbuf st)) - 4)"
  have h: "length ?h = (if q_config q then 18 else 14)"
    by (simp add: request_header_length query_ct_def)
  have "put_fields tx (q_following q) values st2 = Inr ((append_to st2 body)\<lparr>sclient := c'\<rparr>)"
    if "at_end st2" "sclient st2 = c" for st2
    using writesD [OF w at_end_writable [OF that(1)]] that grow_at_end [OF that(1)]
    by (simp add: new_stream_def)
  moreover have "le_int True (take 4 (sbuf st)) = int (length (sbuf st)) - 4" if "length (sbuf st) < 2 ^ 31"
  proof -
    have "take 4 (sbuf st) = ct_bytes 4 (int (length (sbuf st)) - 4)"
      by (subst b) (use h in \<open>simp add: request_header_prefix split: if_splits\<close>)
    moreover have "in_range 4 True (int (length (sbuf st)) - 4)" using that by (simp add: in_range_def)
    ultimately show ?thesis by (simp add: le_int_ct_bytes)
  qed
  ultimately show ?thesis using b h by blast
qed

theorem request_framing_witness:
  "\<exists>st. query_from_python None \<lparr>q_op_code = 1020, q_following = [(''value'', WPrim TInt)],
      q_query_id = 6, q_config = False\<rparr> [(''value'', WV (VInt 5))] (new_stream (new_client None) []) = Inr st \<and>
     sbuf st = [14, 0, 0, 0, 252, 3, 6, 0, 0, 0, 0, 0, 0, 0, 5, 0, 0, 0] \<and> le_int True (take 4 (sbuf st)) = 14"
proof -
  let ?q = "\<lparr>q_op_code = 1020, q_following = [(''value'', WPrim TInt)], q_query_id = 6, q_config = False\<rparr>"
  let ?s = "new_stream (new_client None) []"
  let ?d = "[(''value'', WV (VInt 5))]"
  have c: "ct_bytes 4 5 = [5, 0, 0, 0]" "ct_bytes 4 14 = [14, 0, 0, 0]" "ct_bytes 2 1020 = [252, 3]"
    "ct_bytes 8 6 = [6, 0, 0, 0, 0, 0, 0, 0]" by code_simp+
  have "writes (put_fields None [(''value'', WPrim TInt)] ?d) ?s [5, 0, 0, 0] (new_client None)"
    by (simp add: writes_def dget_def as_val_def write_res_def pack_int_def struct_pack_def in_range_def c
        swrite_writable new_stream_def)
  with query_encodes [of None ?q ?d "new_client None"] obtain st where
    st: "query_from_python None ?q ?d ?s = Inr st" "sbuf st = request ?q [5, 0, 0, 0]" by auto
  have b: "sbuf st = [14, 0, 0, 0, 252, 3, 6, 0, 0, 0, 0, 0, 0, 0, 5, 0, 0, 0]"
    unfolding st(2) by (simp add: request_def request_header_bytes query_ct_def c)
  from request_framing [OF st(1)] b have "le_int True (take 4 (sbuf st)) = 14" by auto
  with st(1) b show ?thesis by blast
qed

end
