(* ===== verification/Responses.thy ===== *)
theory Responses
  imports Requests
begin

section \<open>Responses of the server\<close>

text \<open>
  \<open>server_response\<close> is the response format of the protocol, seen from the server: a header with
  the length and the query id, then with status flags the flags, the new affinity version if the
  topology changed, the error code and message if the query failed; without them just the status
  code. The lemmas show what the client makes of such bytes.
\<close>

definition response_flags :: "(int \<times> int) option \<Rightarrow> int option \<Rightarrow> int" where
  "response_flags topology err = (if topology = None then 0 else 2) + (if err = None then 0 else 1)"

definition response_head ::
  "protocol_context \<Rightarrow> int \<Rightarrow> int \<Rightarrow> (int \<times> int) option \<Rightarrow> int option \<Rightarrow> byte list" where
  "response_head pc len qid topology err =
     ct_bytes 4 len @ ct_bytes 8 qid @
     (if is_status_flags_supported pc
      then ct_bytes 2 (response_flags topology err) @
        (case topology of None \<Rightarrow> [] | Some (major, minor) \<Rightarrow> ct_bytes 8 major @ ct_bytes 4 minor) @
        (case err of None \<Rightarrow> [] | Some code \<Rightarrow> ct_bytes 4 code)
      else ct_bytes 4 (case err of None \<Rightarrow> 0 | Some code \<Rightarrow> code))"

definition server_response ::
  "protocol_context \<Rightarrow> int \<Rightarrow> (int \<times> int) option \<Rightarrow> int option \<Rightarrow> byte list \<Rightarrow> byte list" where
  "server_response pc qid topology err body =
     response_head pc (int (length (response_head pc 0 qid topology err)) + int (length body) - 4)
       qid topology err @ body"

definition head_ok :: "int \<Rightarrow> (int \<times> int) option \<Rightarrow> int option \<Rightarrow> bool" where
  "head_ok qid topology err \<longleftrightarrow> in_range 8 True qid \<and>
     (case topology of None \<Rightarrow> True | Some (major, minor) \<Rightarrow> in_range 8 True major \<and> in_range 4 True minor) \<and>
     (case err of None \<Rightarrow> True | Some code \<Rightarrow> in_range 4 True code \<and> code \<noteq> 0)"

definition head_fields :: "protocol_context \<Rightarrow> (int \<times> int) option \<Rightarrow> int option \<Rightarrow> (fname \<times> ctype) list" where
  "head_fields pc topology err =
     header_fields_of pc @
     (if is_status_flags_supported pc then flag_fields (response_flags topology err) else [])"

definition head_object ::
  "protocol_context \<Rightarrow> int \<Rightarrow> int \<Rightarrow> (int \<times> int) option \<Rightarrow> int option \<Rightarrow> (fname \<times> cobj) list" where
  "head_object pc len qid topology err =
     [(Nm ''length'', OInt (le_int True (ct_bytes 4 len))), (Nm ''query_id'', OInt qid)] @
     (if is_status_flags_supported pc
      then [(Nm ''flags'', OInt (response_flags topology err))] @
        (case topology of None \<Rightarrow> [] | Some (major, minor) \<Rightarrow>
          [(Nm ''affinity_version'', OInt major), (Nm ''affinity_minor'', OInt minor)]) @
        (case err of None \<Rightarrow> [] | Some code \<Rightarrow> [(Nm ''status_code'', OInt code)])
      else [(Nm ''status_code'', OInt (case err of None \<Rightarrow> 0 | Some code \<Rightarrow> code))])"

lemma response_flags_cases:
  "response_flags topology err \<in> {0, 1, 2, 3}" "in_range 2 True (response_flags topology err)"
  "and (response_flags topology err) 2 \<noteq> 0 \<longleftrightarrow> topology \<noteq> None"
  "and (response_flags topology err) 1 \<noteq> 0 \<longleftrightarrow> err \<noteq> None"
  by (simp_all add: response_flags_def in_range_def)

lemma read_fields_app:
  "sum_list (map (\<lambda>f. sizeof_ct (snd f)) hs) = length hb \<Longrightarrow>
   read_fields (hs @ fs) (hb @ bs) = read_fields hs hb @ read_fields fs bs"
  using read_ct_prefix [of "CStruct hs" hb bs] by (simp add: read_fields_append)

lemma flag_fields_eq:
  "flag_fields (response_flags topology err) =
     (if topology = None then [] else [(Nm ''affinity_version'', c_longlong), (Nm ''affinity_minor'', c_int)]) @
     (if err = None then [] else [(Nm ''status_code'', c_int)])"
  using response_flags_cases(3,4) [of topology err]
  by (simp add: flag_fields_def RHF_TOPOLOGY_CHANGED_def RHF_ERROR_def)

lemma head_size:
  "sum_list (map (\<lambda>f. sizeof_ct (snd f)) (head_fields pc topology err)) =
     length (response_head pc len qid topology err)"
  by (cases topology; cases err)
    (auto simp: head_fields_def header_fields_of_def status_flag_fields_def response_fields_def
      flag_fields_eq response_head_def)

lemma head_read:
  assumes "head_ok qid topology err"
  shows "read_fields (head_fields pc topology err) (response_head pc len qid topology err) =
    head_object pc len qid topology err"
  using assms response_flags_cases(2) [of topology err]
  by (cases topology; cases err)
    (auto simp: head_ok_def head_fields_def header_fields_of_def status_flag_fields_def
      response_fields_def flag_fields_eq response_head_def head_object_def le_int_ct_bytes in_range_def
      split: if_splits)

definition extra_fields :: "protocol_context \<Rightarrow> (int \<times> int) option \<Rightarrow> int option \<Rightarrow> (fname \<times> ctype) list" where
  "extra_fields pc topology err =
     (if is_status_flags_supported pc then flag_fields (response_flags topology err) else [])"

lemma head_fields_extra: "head_fields pc topology err = header_fields_of pc @ extra_fields pc topology err"
  by (simp add: head_fields_def extra_fields_def)

lemma header_read:
  assumes ok: "head_ok qid topology err"
    and d: "sbuf st = response_head pc len qid topology err @ rest" and p: "spos st = 0"
  shows "\<exists>ob. read_ctype (CStruct (header_fields_of pc)) st = Inr (ob, getbuffer st) \<and>
    (if is_status_flags_supported pc then getint ''flags'' ob = Inr (response_flags topology err)
     else getint ''status_code'' ob = Inr (case err of None \<Rightarrow> 0 | Some code \<Rightarrow> code))"
proof -
  let ?k = "sizeof_ct (CStruct (header_fields_of pc))"
  let ?h = "response_head pc len qid topology err"
  have k: "?k \<le> length ?h"
    using head_size [of pc topology err len qid] by (simp add: head_fields_extra)
  have b: "bslice (sbuf st) 0 ?k = take ?k ?h" using k d by (simp add: bslice_def)
  have t: "take ?k ?h = ct_bytes 4 len @ ct_bytes 8 qid @ (if is_status_flags_supported pc
      then ct_bytes 2 (response_flags topology err) else ct_bytes 4 (case err of None \<Rightarrow> 0 | Some code \<Rightarrow> code))"
    by (simp add: header_fields_of_def status_flag_fields_def response_fields_def response_head_def)
  have r: "read_ctype (CStruct (header_fields_of pc)) st =
      Inr (read_ct (CStruct (header_fields_of pc)) (take ?k ?h), getbuffer st)"
    using b k p by (simp add: read_ctype_def Let_def)
  show ?thesis
    unfolding r t using ok response_flags_cases(2) [of topology err]
    by (auto simp: header_fields_of_def status_flag_fields_def response_fields_def getint_def
        le_int_ct_bytes head_ok_def in_range_def split: option.splits)
qed

lemma parse_head:
  assumes ok: "head_ok qid topology err"
    and d: "sbuf st = response_head pc len qid topology err @ rest" and p: "spos st = 0"
  shows "\<exists>st1. advanced st (length (response_head pc len qid topology err)) st1 \<and> sclient st1 = sclient st \<and>
    parse_response_header pc st =
      (if err = None then Inr ((True, extra_fields pc topology err), st1)
       else rbind (std_parse String st1) (\<lambda>(t, st2).
         Inr ((False, extra_fields pc topology err @ [(Nm ''error_message'', t)]), st2)))"
proof -
  let ?h = "response_head pc len qid topology err"
  from header_read [OF ok d p] obtain ob where ob:
    "read_ctype (CStruct (header_fields_of pc)) st = Inr (ob, getbuffer st)"
    "if is_status_flags_supported pc then getint ''flags'' ob = Inr (response_flags topology err)
     else getint ''status_code'' ob = Inr (case err of None \<Rightarrow> 0 | Some code \<Rightarrow> code)" by blast
  let ?st1 = "seek_cur (sizeof_ct (CStruct (header_fields_of pc)) +
      sizeof_ct (CStruct (extra_fields pc topology err))) (getbuffer st)"
  have k: "sizeof_ct (CStruct (header_fields_of pc)) + sizeof_ct (CStruct (extra_fields pc topology err)) = length ?h"
    using head_size [of pc topology err len qid] by (simp add: head_fields_extra)
  have "parse_response_header pc st =
      (if err = None then Inr ((True, extra_fields pc topology err), ?st1)
       else rbind (std_parse String ?st1) (\<lambda>(t, st2).
         Inr ((False, extra_fields pc topology err @ [(Nm ''error_message'', t)]), st2)))"
    using ob ok response_flags_cases(4) [of topology err]
    by (cases err) (auto simp: parse_response_header_def extra_fields_def RHF_ERROR_def head_ok_def)
  moreover have "advanced st (length ?h) ?st1" unfolding k by (simp add: advanced_def)
  ultimately show ?thesis by (intro exI [of _ ?st1]) simp
qed

text \<open>The instance read from the response: the header fields, then those of the body.\<close>

lemma response_object:
  assumes ok: "head_ok qid topology err"
    and size: "sum_list (map (\<lambda>f. sizeof_ct (snd f)) cs) = length body"
  shows "read_ct (CStruct (head_fields pc topology err @ cs)) (response_head pc len qid topology err @ body) =
    OStruct (head_object pc len qid topology err @ read_fields cs body)"
  using head_read [OF ok, of pc len]
  by (simp add: read_fields_app [OF head_size [of pc topology err len qid]])

definition reserved :: "string list" where
  "reserved = [''length'', ''query_id'', ''flags'', ''status_code'', ''affinity_version'',
     ''affinity_minor'', ''error_message'']"

lemma head_names: "f \<in> fst ` set (head_object pc len qid topology err) \<Longrightarrow> \<exists>x \<in> set reserved. f = Nm x"
  by (auto simp: head_object_def reserved_def split: if_splits option.splits prod.splits)

lemma head_attrs:
  assumes ok: "head_ok qid topology err"
  shows "getint ''query_id'' (OStruct (head_object pc len qid topology err @ os)) = Inr qid"
    and "is_status_flags_supported pc \<Longrightarrow>
      getint ''flags'' (OStruct (head_object pc len qid topology err @ os)) = Inr (response_flags topology err)"
    and "is_status_flags_supported pc \<Longrightarrow> topology = Some (major, minor) \<Longrightarrow>
      getint ''affinity_version'' (OStruct (head_object pc len qid topology err @ os)) = Inr major \<and>
      getint ''affinity_minor'' (OStruct (head_object pc len qid topology err @ os)) = Inr minor"
    and "err = Some code \<Longrightarrow>
      status_of (OStruct (head_object pc len qid topology err @ os)) = code"
  by (auto simp: head_object_def getint_def status_of_def split: option.splits)

definition new_affinity :: "protocol_context \<Rightarrow> (int \<times> int) option \<Rightarrow> int \<times> int \<Rightarrow> int \<times> int" where
  "new_affinity pc topology old =
     (case topology of
        None \<Rightarrow> old
      | Some new \<Rightarrow> if is_status_flags_supported pc \<and> version_less old new then new else old)"

lemma affinity_update:
  assumes ok: "head_ok qid topology err" and os: "Nm ''flags'' \<notin> fst ` set os"
  shows "update_affinity_version (OStruct (head_object pc len qid topology err @ os)) env =
    Inr (env\<lparr>e_affinity_version := new_affinity pc topology (e_affinity_version env)\<rparr>)"
proof (cases "is_status_flags_supported pc")
  case False
  then have "getattr_fields (Nm ''flags'') (head_object pc len qid topology err @ os) = Inl AttributeError"
    using os by (induction os) (auto simp: head_object_def)
  with False show ?thesis
    by (simp add: update_affinity_version_def has_attr_def new_affinity_def split: option.splits)
next
  case True
  have "has_attr ''flags'' (OStruct (head_object pc len qid topology err @ os))"
    using True by (simp add: has_attr_def head_object_def)
  then show ?thesis
    using True head_attrs(2) [OF ok True, of len os] response_flags_cases(3) [of topology err]
      head_attrs(3) [OF ok True, of "fst (the topology)" "snd (the topology)" len os]
    by (cases topology) (auto simp: update_affinity_version_def RHF_TOPOLOGY_CHANGED_def new_affinity_def)
qed


subsection \<open>Successful responses\<close>

definition success_result :: "int \<Rightarrow> wval \<Rightarrow> api_result" where
  "success_result qid v = \<lparr>r_status = 0, r_query_id = qid, r_message = SUCCESS_MESSAGE, r_value = v\<rparr>"

definition fields_result :: "(string \<times> wtype) list \<Rightarrow> wval list \<Rightarrow> wval" where
  "fields_result fs ws = (if fs = [] then WV VNone else WD (zip (map fst fs) ws))"

lemma getattr_skip:
  "f \<notin> fst ` set hs \<Longrightarrow> getattr_fields f (hs @ os) = getattr_fields f os"
  by (induction hs) auto

lemma no_attr: "f \<notin> fst ` set os \<Longrightarrow> getattr_fields f os = Inl AttributeError"
  by (induction os) auto

lemma success_names:
  "Nm ''error_message'' \<notin> fst ` set (head_object pc len qid topology err)"
  "is_status_flags_supported pc \<Longrightarrow> Nm ''status_code'' \<notin> fst ` set (head_object pc len qid topology None)"
  by (auto simp: head_object_def split: if_splits option.splits)

lemma read_fields_names: "map fst (read_fields fs bs) = map fst fs"
  by (induction fs arbitrary: bs) auto

lemma success_api_result:
  assumes ok: "head_ok qid topology None" and os: "\<forall>x \<in> set reserved. Nm x \<notin> fst ` set os"
  shows "new_api_result (OStruct (head_object pc len qid topology None @ os)) = Inr (success_result qid (WV VNone))"
proof -
  let ?ob = "OStruct (head_object pc len qid topology None @ os)"
  have h: "getattr (Nm x) ?ob = Inl AttributeError"
    if "x \<in> set reserved" "Nm x \<notin> fst ` set (head_object pc len qid topology None)" for x
    using that os by (simp add: getattr_skip no_attr)
  have "\<not> has_attr ''error_message'' ?ob"
    using h [OF _ success_names(1)] by (simp add: has_attr_def reserved_def)
  moreover have "status_of ?ob = 0"
  proof (cases "is_status_flags_supported pc")
    case True
    then show ?thesis
      using h [OF _ success_names(2)] by (simp add: status_of_def getint_def reserved_def)
  qed (simp add: status_of_def getint_def head_object_def)
  ultimately show ?thesis
    using head_attrs(1) [OF ok, of pc len os] by (simp add: new_api_result_def success_result_def)
qed

lemma response_success_parse:
  assumes ok: "head_ok qid topology None"
    and q: "list_all2 (\<lambda>x bw. decodes P (get_w n [] (snd x)) (conv_w [] (snd x)) (fst bw) (snd bw)) fs bws"
    and ds: "distinct (map fst fs)" and P: "P c"
  shows "\<exists>t st cs. P (sclient st) \<and>
    response_parse n pc (Response fs) (new_stream c (response_head pc len qid topology None @ concat (map fst bws) @ rest)) =
      Inr (t, st) \<and>
    read_ctype_backward t st = Inr (OStruct (head_object pc len qid topology None @
      read_fields cs (concat (map fst bws))), getbuffer st) \<and>
    map fst cs = map (\<lambda>x. Nm (fst x)) fs \<and>
    list_all2 (\<lambda>x bw. \<exists>y. getattr_fields (Nm (fst x)) (read_fields cs (concat (map fst bws))) = Inr y \<and>
      conv_w [] (snd x) y = Inr (snd bw)) fs bws"
proof -
  let ?h = "response_head pc len qid topology None"
  let ?B = "concat (map fst bws)"
  let ?s = "new_stream c (?h @ ?B @ rest)"
  have s: "sbuf ?s = ?h @ ?B @ rest" "spos ?s = 0" by (simp_all add: new_stream_def)
  from parse_head [OF ok s] obtain st1 where st1: "advanced ?s (length ?h) st1" "sclient st1 = c"
    "parse_response_header pc ?s = Inr ((True, extra_fields pc topology None), st1)"
    by (auto simp: new_stream_def)
  have r: "reads st1 ?B" using st1(1) s by (simp add: reads_def advanced_def)
  have inj: "inj Nm" by (simp add: inj_def)
  have "P (sclient st1)" using P st1(2) by simp
  from fields_decode [where p = "get_w n []" and g = "conv_w []" and nm = Nm, OF q inj ds r this]
  obtain cs st2 where cs: "parse_fields Nm (get_w n []) fs st1 = Inr (cs, st2)"
    "advanced st1 (length ?B) st2" "P (sclient st2)"
    "sum_list (map (\<lambda>f. sizeof_ct (snd f)) cs) = length ?B"
    "map fst cs = map (\<lambda>x. Nm (fst x)) fs"
    "list_all2 (\<lambda>x bw. \<exists>y. getattr_fields (Nm (fst x)) (read_fields cs ?B) = Inr y \<and>
      conv_w [] (snd x) y = Inr (snd bw)) fs bws" by blast
  let ?t = "CStruct (head_fields pc topology None @ cs)"
  have k: "sizeof_ct ?t = length (?h @ ?B)"
    using head_size [of pc topology None len qid] cs(4) by simp
  have "response_parse n pc (Response fs) ?s = Inr (?t, seek_set (sizeof_ct ?t) st2)"
    using st1(3) cs(1) s(2)
    by (simp add: response_parse_def parse_success_def plain_get_fields Let_def head_fields_extra)
  moreover have "read_ctype_backward ?t (seek_set (sizeof_ct ?t) st2) =
      Inr (OStruct (head_object pc len qid topology None @ read_fields cs ?B), getbuffer (seek_set (sizeof_ct ?t) st2))"
  proof -
    have "sbuf st2 = (?h @ ?B) @ rest" using cs(2) st1(1) s(1) by (simp add: advanced_def)
    then have "read_ctype_backward ?t (seek_set (sizeof_ct ?t) st2) =
        Inr (read_ct ?t (?h @ ?B), getbuffer (seek_set (sizeof_ct ?t) st2))"
      unfolding k by (simp add: read_ctype_backward_def k seek_set_def bslice_def del: sizeof_ct.simps)
    then show ?thesis using response_object [OF ok cs(4)] by simp
  qed
  ultimately show ?thesis
    using cs(3,5,6) by (intro exI [of _ ?t] exI [of _ "seek_set (sizeof_ct ?t) st2"] exI [of _ cs]) simp
qed

lemma fresh_names:
  "set (map fst fs) \<inter> set rs = {} \<Longrightarrow> \<forall>x \<in> set rs. Nm x \<notin> (\<lambda>x. Nm (fst x)) ` set fs"
  by force

lemma receive_fields:
  assumes ok: "head_ok qid topology None"
    and q: "list_all2 (\<lambda>x bw. decodes P (get_w (e_depth env) [] (snd x)) (conv_w [] (snd x)) (fst bw) (snd bw)) fs bws"
    and pl: "list_all (\<lambda>x. plain (snd x)) fs" and ds: "distinct (map fst fs)"
    and names: "set (map fst fs) \<inter> set reserved = {}" and P: "P (e_client env)"
  shows "\<exists>c'. P c' \<and> receive_response (Response fs)
      (server_response (e_protocol env) qid topology None (concat (map fst bws)) @ rest) env =
    (Inr (success_result qid (fields_result fs (map snd bws))),
     env\<lparr>e_client := c', e_affinity_version := new_affinity (e_protocol env) topology (e_affinity_version env)\<rparr>)"
proof -
  let ?pc = "e_protocol env" and ?B = "concat (map fst bws)"
  define len where "len = int (length (response_head ?pc 0 qid topology None)) + int (length ?B) - 4"
  have len: "server_response ?pc qid topology None ?B = response_head ?pc len qid topology None @ ?B"
    by (simp only: server_response_def len_def)
  from response_success_parse [OF ok q ds P, of ?pc len rest] obtain t st cs where st: "P (sclient st)"
    "response_parse (e_depth env) ?pc (Response fs) (new_stream (e_client env)
       (response_head ?pc len qid topology None @ ?B @ rest)) = Inr (t, st)"
    "read_ctype_backward t st = Inr (OStruct (head_object ?pc len qid topology None @ read_fields cs ?B), getbuffer st)"
    "map fst cs = map (\<lambda>x. Nm (fst x)) fs"
    "list_all2 (\<lambda>x bw. \<exists>y. getattr_fields (Nm (fst x)) (read_fields cs ?B) = Inr y \<and>
      conv_w [] (snd x) y = Inr (snd bw)) fs bws" by blast
  let ?os = "read_fields cs ?B"
  let ?ob = "OStruct (head_object ?pc len qid topology None @ ?os)"
  have n: "map fst ?os = map (\<lambda>x. Nm (fst x)) fs" using st(4) by (simp add: read_fields_names)
  then have "fst ` set ?os = (\<lambda>x. Nm (fst x)) ` set fs" by (simp only: set_map [symmetric])
  then have os: "\<forall>x \<in> set reserved. Nm x \<notin> fst ` set ?os" using names by (metis fresh_names)
  have "list_all2 (\<lambda>x w. \<exists>y. getattr (Nm (fst x)) ?ob = Inr y \<and> conv_w [] (snd x) y = Inr w) fs (map snd bws)"
  proof (rule list_all2_all_nthI)
    show "length fs = length (map snd bws)" using list_all2_lengthD [OF q] by simp
    fix i assume i: "i < length fs"
    then have "fst (fs ! i) \<notin> set reserved" using names by (simp add: disjoint_iff)
    then have "Nm (fst (fs ! i)) \<notin> fst ` set (head_object ?pc len qid topology None)"
      using head_names by blast
    then show "\<exists>y. getattr (Nm (fst (fs ! i))) ?ob = Inr y \<and> conv_w [] (snd (fs ! i)) y = Inr (map snd bws ! i)"
      using list_all2_nthD [OF st(5) i] i list_all2_lengthD [OF q] by (simp add: getattr_skip)
  qed
  from plain_conv_fields [OF this pl ds, of "[]"]
  have "response_to_python (Response fs) ?ob = Inr (fields_result fs (map snd bws))"
    by (simp add: response_to_python_def fields_result_def)
  note conv = this
  let ?env1 = "env\<lparr>e_client := sclient st\<rparr>"
  have "Nm ''flags'' \<notin> fst ` set ?os" using os by (simp add: reserved_def)
  note upd = affinity_update [OF ok this, of ?pc len ?env1]
  note res = success_api_result [OF ok os, of ?pc len]
  have "receive_response (Response fs) (response_head ?pc len qid topology None @ ?B @ rest) env =
      (Inr (success_result qid (fields_result fs (map snd bws))),
       ?env1\<lparr>e_affinity_version := new_affinity ?pc topology (e_affinity_version ?env1)\<rparr>)"
    unfolding receive_response_def st(2) rbind_Inr split_conv st(3)
    by (simp add: conv upd res Let_def, simp add: success_result_def)
  with st(1) show ?thesis by (auto simp: len)
qed


lemma server_body:
  assumes body: "put_fields tx fs d (new_stream c []) = Inr body"
    and vals: "list_all2 (\<lambda>x w. \<exists>u. dget (fst x) d = Inr u \<and> wgood (snd x) u w) fs ws"
    and small: "length (sbuf body) < 2 ^ 31" "2 * length (sbuf body) + 1 \<le> n"
  shows "\<exists>bss. list_all2 (\<lambda>x bw. decodes (reader {} (compact_footer c)) (get_w n [] (snd x))
       (conv_w [] (snd x)) (fst bw) (snd bw)) fs (zip bss ws) \<and>
    concat bss = sbuf body \<and> map fst (zip bss ws) = bss \<and> map snd (zip bss ws) = ws \<and>
    list_all (\<lambda>x. plain (snd x)) fs"
proof -
  have l: "length fs = length ws" using vals by (rule list_all2_lengthD)
  have "list_all2 (\<lambda>x w. \<exists>u. dget (fst x) d = Inr u \<and> appends (small_back (snd x) w) (put_w tx (snd x) u)) fs ws"
    using vals by (rule list_all2_mono) (use put_w_appends in blast)
  from fields_append [OF this] at_end_writable [OF at_end_new_stream] body obtain bs c' where
    b: "body = grow (new_stream c []) bs c'"
    "\<exists>bss. bs = concat bss \<and> list_all2 (\<lambda>xw. field_back xw (compact_footer (sclient (new_stream c [])))) (zip fs ws) bss"
    by (rule appendsE)
  then obtain bss where bss: "bs = concat bss"
    "list_all2 (\<lambda>xw. field_back xw (compact_footer c)) (zip fs ws) bss" by (auto simp: new_stream_def)
  have e: "sbuf body = concat bss" using b(1) bss(1) by (simp add: new_stream_def)
  have pl: "list_all (\<lambda>x. plain (snd x)) fs"
    using vals wgood_plain by (auto simp: list_all2_conv_all_nth list_all_length)
  have lb: "length bss = length fs" using list_all2_lengthD [OF bss(2)] l by simp
  show ?thesis
    using field_decodes_list [OF bss(2) l] small e pl l lb by (intro exI [of _ bss]) simp
qed

text \<open>
  C16. The round trip of a response: the fields a server writes after the header with the classes the
  client reads them with, of any class and nesting, arrive as the dictionary of their converted
  values, with status 0 and the query id of the header; a query without response fields yields
  \<open>None\<close>. The affinity version becomes the one in the header if that is newer, and nothing
  else of the client's state changes but its settled footer mode.
\<close>

theorem response_roundtrip:
  assumes body: "put_fields tx fs d (new_stream c []) = Inr body"
    and vals: "list_all2 (\<lambda>x w. \<exists>u. dget (fst x) d = Inr u \<and> wgood (snd x) u w) fs ws"
    and names: "distinct (map fst fs)" "set (map fst fs) \<inter> set reserved = {}"
    and small: "length (sbuf body) < 2 ^ 31" "2 * length (sbuf body) + 1 \<le> e_depth env"
    and header: "head_ok qid topology None"
    and footer: "reader {} (compact_footer c) (e_client env)"
  shows "\<exists>c'. reader {} (compact_footer c) c' \<and>
    receive_response (Response fs) (server_response (e_protocol env) qid topology None (sbuf body)) env =
      (Inr \<lparr>r_status = 0, r_query_id = qid, r_message = SUCCESS_MESSAGE,
        r_value = (if fs = [] then WV VNone else WD (zip (map fst fs) ws))\<rparr>,
       env\<lparr>e_client := c', e_affinity_version := new_affinity (e_protocol env) topology (e_affinity_version env)\<rparr>)"
proof -
  from server_body [OF body vals small] obtain bss where
    "list_all2 (\<lambda>x bw. decodes (reader {} (compact_footer c)) (get_w (e_depth env) [] (snd x))
       (conv_w [] (snd x)) (fst bw) (snd bw)) fs (zip bss ws)"
    "concat bss = sbuf body" "map fst (zip bss ws) = bss" "map snd (zip bss ws) = ws"
    "list_all (\<lambda>x. plain (snd x)) fs" by blast
  with receive_fields [OF header, where P = "reader {} (compact_footer c)" and env = env and fs = fs
      and bws = "zip bss ws" and rest = "[]"] names footer
  show ?thesis by (simp add: success_result_def fields_result_def)
qed

subsection \<open>Failed queries\<close>

lemma response_error_parse:
  assumes ok: "head_ok qid topology (Some code)"
    and dec: "decodes P (std_parse String) (std_to_python String) bs m" and P: "P c"
  shows "\<exists>t st y. P (sclient st) \<and>
    response_parse n pc r (new_stream c (response_head pc len qid topology (Some code) @ bs @ rest)) = Inr (t, st) \<and>
    read_ctype_backward t st = Inr (OStruct (head_object pc len qid topology (Some code) @
      [(Nm ''error_message'', y)]), getbuffer st) \<and> std_to_python String y = Inr m"
proof -
  let ?h = "response_head pc len qid topology (Some code)"
  let ?s = "new_stream c (?h @ bs @ rest)"
  have s: "sbuf ?s = ?h @ bs @ rest" "spos ?s = 0" by (simp_all add: new_stream_def)
  from parse_head [OF ok s] obtain st1 where st1: "advanced ?s (length ?h) st1" "sclient st1 = c"
    "parse_response_header pc ?s = rbind (std_parse String st1) (\<lambda>(t, st2).
         Inr ((False, extra_fields pc topology (Some code) @ [(Nm ''error_message'', t)]), st2))"
    by (auto simp: new_stream_def)
  have rd: "reads st1 bs" using st1(1) s by (simp add: reads_def advanced_def)
  with dec P st1(2) obtain t st2 where t: "std_parse String st1 = Inr (t, st2)" "advanced st1 (length bs) st2"
    "P (sclient st2)" "sizeof_ct t = length bs" "std_to_python String (read_ct t bs) = Inr m"
    unfolding decodes_def by blast
  let ?cs = "[(Nm ''error_message'', t)]"
  let ?t = "CStruct (head_fields pc topology (Some code) @ ?cs)"
  have k: "sizeof_ct ?t = length (?h @ bs)"
    using head_size [of pc topology "Some code" len qid] t(4) by simp
  have "response_parse n pc r ?s = Inr (?t, seek_set (sizeof_ct ?t) st2)"
    using st1(3) t(1) s(2) by (simp add: response_parse_def Let_def head_fields_extra)
  moreover have "read_ctype_backward ?t (seek_set (sizeof_ct ?t) st2) =
      Inr (OStruct (head_object pc len qid topology (Some code) @ read_fields ?cs bs), getbuffer (seek_set (sizeof_ct ?t) st2))"
  proof -
    have "sbuf st2 = (?h @ bs) @ rest" using t(2) st1(1) s(1) by (simp add: advanced_def)
    then have "read_ctype_backward ?t (seek_set (sizeof_ct ?t) st2) =
        Inr (read_ct ?t (?h @ bs), getbuffer (seek_set (sizeof_ct ?t) st2))"
      unfolding k by (simp add: read_ctype_backward_def k seek_set_def bslice_def del: sizeof_ct.simps)
    then show ?thesis using response_object [OF ok, of ?cs bs] t(4) by simp
  qed
  ultimately show ?thesis
    using t(3,5) by (intro exI [of _ ?t] exI [of _ "seek_set (sizeof_ct ?t) st2"] exI [of _ "read_ct t bs"]) simp
qed

lemma receive_error:
  assumes ok: "head_ok qid topology (Some code)"
    and dec: "decodes P (std_parse String) (std_to_python String) bs m"
    and P: "P (e_client env)"
  shows "\<exists>c'. P c' \<and> receive_response r
      (server_response (e_protocol env) qid topology (Some code) (bs @ rest)) env =
    (Inr \<lparr>r_status = code, r_query_id = qid, r_message = m, r_value = WV VNone\<rparr>,
     env\<lparr>e_client := c', e_affinity_version := new_affinity (e_protocol env) topology (e_affinity_version env)\<rparr>)"
proof -
  let ?pc = "e_protocol env"
  define len where "len = int (length (response_head ?pc 0 qid topology (Some code))) + int (length (bs @ rest)) - 4"
  have len: "server_response ?pc qid topology (Some code) (bs @ rest) =
      response_head ?pc len qid topology (Some code) @ bs @ rest"
    by (simp only: server_response_def len_def)
  from response_error_parse [OF ok dec P] obtain t st y where st: "P (sclient st)"
    "response_parse (e_depth env) ?pc r (new_stream (e_client env)
       (response_head ?pc len qid topology (Some code) @ bs @ rest)) = Inr (t, st)"
    "read_ctype_backward t st = Inr (OStruct (head_object ?pc len qid topology (Some code) @
      [(Nm ''error_message'', y)]), getbuffer st)" "std_to_python String y = Inr m" by blast
  let ?os = "[(Nm ''error_message'', y)]"
  let ?ob = "OStruct (head_object ?pc len qid topology (Some code) @ ?os)"
  let ?env1 = "env\<lparr>e_client := sclient st\<rparr>"
  have upd: "update_affinity_version ?ob ?env1 = Inr (?env1\<lparr>e_affinity_version := new_affinity ?pc topology (e_affinity_version ?env1)\<rparr>)"
    using affinity_update [OF ok, of ?os ?pc len ?env1] by simp
  have msg: "getattr (Nm ''error_message'') ?ob = Inr y" "has_attr ''error_message'' ?ob"
    using success_names(1) by (simp_all add: has_attr_def getattr_skip)
  have "new_api_result ?ob = Inr \<lparr>r_status = code, r_query_id = qid, r_message = m, r_value = WV VNone\<rparr>"
    unfolding new_api_result_def head_attrs(1) [OF ok] head_attrs(4) [OF ok refl]
    using st(4) msg by simp
  moreover have "code \<noteq> 0" using ok by (simp add: head_ok_def)
  ultimately have "receive_response r (response_head ?pc len qid topology (Some code) @ bs @ rest) env =
      (Inr \<lparr>r_status = code, r_query_id = qid, r_message = m, r_value = WV VNone\<rparr>,
       ?env1\<lparr>e_affinity_version := new_affinity ?pc topology (e_affinity_version ?env1)\<rparr>)"
    unfolding receive_response_def st(2) rbind_Inr split_conv st(3)
    by (simp add: upd Let_def)
  with st(1) show ?thesis by (auto simp: len)
qed


text \<open>
  C17. A query that the server rejects, whatever its kind, ends with the status code and the message
  the server sent (up to a NUL character) and no value, however many bytes follow the message; the
  client is left as it was, with the affinity version of the header if that is newer.
\<close>

theorem error_response:
  assumes "head_ok qid topology (Some code)" and "utf8_encode msg = Inr b" and "length b < 2 ^ 31"
    and "std_from_python String (VStr msg) = Inr bs"
  shows "receive_response r (server_response (e_protocol env) qid topology (Some code) (bs @ rest)) env =
    (Inr \<lparr>r_status = code, r_query_id = qid, r_message = VStr (takeWhile (\<lambda>c. c \<noteq> 0) msg), r_value = WV VNone\<rparr>,
     env\<lparr>e_affinity_version := new_affinity (e_protocol env) topology (e_affinity_version env)\<rparr>)"
proof -
  have "std_good String (VStr msg) (VStr (takeWhile (\<lambda>c. c \<noteq> 0) msg))"
    using assms(2,3) by (auto simp: std_good_def)
  with assms(4) have "decodes (\<lambda>c. c = e_client env) (std_parse String) (std_to_python String) bs
      (VStr (takeWhile (\<lambda>c. c \<noteq> 0) msg))" by (rule std_codec)
  from receive_error [OF assms(1) this, of env r rest] show ?thesis by auto
qed

definition demo_env :: "'s \<Rightarrow> 's env" where
  "demo_env s = \<lparr>e_client = new_client None, e_protocol = new_protocol_context (1, 7, 0) None,
     e_affinity_version = (0, 0), e_query_counter = 0, e_tx = None, e_depth = 100, e_debug = False,
     e_listener = False, e_events = [], e_net = s\<rparr>"

lemma demo_head: "head_ok 3 (Some (5, 1)) None" "head_ok 3 None (Some 1001)"
  by (simp_all add: head_ok_def in_range_def)

theorem response_roundtrip_witness:
  "\<exists>env'. receive_response (Response [(''value'', WPrim TInt)])
      (server_response (e_protocol (demo_env ())) 3 (Some (5, 1)) None [7, 0, 0, 0]) (demo_env ()) =
    (Inr \<lparr>r_status = 0, r_query_id = 3, r_message = SUCCESS_MESSAGE,
      r_value = WD [(''value'', WV (VInt 7))]\<rparr>, env') \<and> e_affinity_version env' = (5, 1)"
proof -
  let ?s = "new_stream (new_client None) []"
  let ?fs = "[(''value'', WPrim TInt)]"
  let ?d = "[(''value'', WV (VInt 7))]"
  have "ct_bytes 4 7 = [7, 0, 0, 0]" by code_simp
  then have p: "put_fields None ?fs ?d ?s = Inr (append_to ?s [7, 0, 0, 0])"
    by (simp add: dget_def as_val_def write_res_def pack_int_def struct_pack_def in_range_def
        swrite_at_end at_end_new_stream)
  have b: "sbuf (append_to ?s [7, 0, 0, 0]) = [7, 0, 0, 0]" by (simp add: new_stream_def append_to_def)
  have "wgood (WPrim TInt) (WV (VInt 7)) (WV (VInt 7))" by (simp add: wgood.int int_prim_def)
  then have v: "list_all2 (\<lambda>x w. \<exists>u. dget (fst x) ?d = Inr u \<and> wgood (snd x) u w) ?fs [WV (VInt 7)]"
    by (simp add: dget_def)
  have r: "reader {} (compact_footer (new_client None)) (e_client (demo_env ()))"
    by (simp add: reader_def demo_env_def new_client_def knows_def)
  have a: "new_affinity (e_protocol (demo_env ())) (Some (5, 1)) (e_affinity_version (demo_env ())) = (5, 1)"
    by (simp add: demo_env_def new_affinity_def new_protocol_context_def ensure_consistency_def
        is_feature_flags_supported_def is_status_flags_supported_def version_ge_def version_less_def)
  from response_roundtrip [OF p v _ _ _ _ demo_head(1) r, unfolded b a]
  show ?thesis by (auto simp: reserved_def demo_env_def)
qed

theorem error_response_witness:
  "\<exists>bs. std_from_python String (VStr [98, 97, 100]) = Inr bs \<and>
     receive_response (SQLResponse True True) (server_response (e_protocol (demo_env ())) 3 None (Some 1001) (bs @ [1, 2]))
       (demo_env ()) =
     (Inr \<lparr>r_status = 1001, r_query_id = 3, r_message = VStr [98, 97, 100], r_value = WV VNone\<rparr>, (demo_env ()))"
proof -
  have e: "utf8_encode [98, 97, 100] = Inr (map of_nat [98, 97, 100])" by (rule utf8_encode_ascii) auto
  have f: "std_from_python String (VStr [98, 97, 100]) = Inr (store_ct (string_ct (length [98 :: nat, 97, 100])) (string_obj (map of_nat [98, 97, 100])))"
    using e by (simp add: std_from_python_def nullable_from_python_def
        std_from_python_not_null_def string_from_python_def)
  from error_response [OF demo_head(2) e _ f, of "SQLResponse True True" "demo_env ()" "[1, 2]"]
  show ?thesis by (simp add: f new_affinity_def)
qed

end
