(* ===== verification/PutGet.thy ===== *)
theory PutGet
  imports Responses
begin

section \<open>Operations against a server\<close>

text \<open>
  What the operations of \<open>api/key_value.py\<close> return when the server answers: the request bytes,
  the bytes of the answer and the value, composed from the encoder, the header, the transport, the
  parser and the post-processing.
\<close>

lemma publish_keeps [simp]:
  "e_client (publish ev env) = e_client env" "e_protocol (publish ev env) = e_protocol env"
  "e_affinity_version (publish ev env) = e_affinity_version env"
  "e_query_counter (publish ev env) = e_query_counter env" "e_tx (publish ev env) = e_tx env"
  "e_depth (publish ev env) = e_depth env" "e_net (publish ev env) = e_net env"
  "e_debug (publish ev env) = e_debug env" "e_listener (publish ev env) = e_listener env"
  by (simp_all add: publish_def)

lemma on_query_keeps [simp]:
  "e_client (on_query_started q env) = e_client env" "e_protocol (on_query_started q env) = e_protocol env"
  "e_affinity_version (on_query_started q env) = e_affinity_version env"
  "e_query_counter (on_query_started q env) = e_query_counter env" "e_tx (on_query_started q env) = e_tx env"
  "e_depth (on_query_started q env) = e_depth env" "e_net (on_query_started q env) = e_net env"
  "e_client (on_query_finished q r env) = e_client env" "e_protocol (on_query_finished q r env) = e_protocol env"
  "e_affinity_version (on_query_finished q r env) = e_affinity_version env"
  "e_query_counter (on_query_finished q r env) = e_query_counter env" "e_tx (on_query_finished q r env) = e_tx env"
  "e_depth (on_query_finished q r env) = e_depth env" "e_net (on_query_finished q r env) = e_net env"
  by (simp_all add: on_query_started_def on_query_finished_def Let_def)

definition same_session :: "'s env \<Rightarrow> 's env \<Rightarrow> bool" where
  "same_session env env' \<longleftrightarrow> e_protocol env' = e_protocol env \<and> e_tx env' = e_tx env \<and>
     e_depth env' = e_depth env"

text \<open>A request as the server receives it: length, operation code, query id, body.\<close>

definition request_bytes :: "int \<Rightarrow> int \<Rightarrow> byte list \<Rightarrow> byte list" where
  "request_bytes op qid body = ct_bytes 4 (10 + int (length body)) @ ct_bytes 2 op @ ct_bytes 8 qid @ body"

lemma request_eq:
  "\<not> q_config q \<Longrightarrow> request q body = request_bytes (q_op_code q) (q_query_id q) body"
  by (simp add: request_def request_header_bytes request_bytes_def query_ct_def)

text \<open>The transport may return more bytes than the answer, as the buffer of a connection does.\<close>

lemma query_performs_padded:
  assumes wr: "writes (put_fields (e_tx env) following params) (new_stream (e_client env) []) body c"
    and ne: "params \<noteq> [] \<or> following = []" and cnt: "e_query_counter env < MAX_LONG" "0 \<le> e_query_counter env"
    and net: "net (request_bytes op (e_query_counter env + 1) body) (e_net env) =
      (Inr (server_response (e_protocol env) (e_query_counter env + 1) topology None (concat (map fst bws)) @ rest), s')"
    and topology: "head_ok 0 topology None"
    and q: "list_all2 (\<lambda>x bw. decodes P (get_w (e_depth env) [] (snd x)) (conv_w [] (snd x)) (fst bw) (snd bw)) fs bws"
    and pl: "list_all (\<lambda>x. plain (snd x)) fs" and ds: "distinct (map fst fs)"
    and names: "set (map fst fs) \<inter> set reserved = {}" and P: "P c"
  shows "\<exists>env'. query_perform net op following params (Response fs) post env =
      (post (success_result (e_query_counter env + 1) (fields_result fs (map snd bws))), env') \<and>
    P (e_client env') \<and> e_net env' = s' \<and> e_query_counter env' = e_query_counter env + 1 \<and>
    same_session env env' \<and>
    e_affinity_version env' = new_affinity (e_protocol env) topology (e_affinity_version env)"
proof -
  let ?qid = "e_query_counter env + 1"
  let ?q = "\<lparr>q_op_code = op, q_following = following, q_query_id = ?qid, q_config = False\<rparr>"
  let ?env1 = "env\<lparr>e_query_counter := ?qid\<rparr>"
  let ?env2 = "on_query_started ?q ?env1"
  let ?env3 = "?env2\<lparr>e_client := c, e_net := s'\<rparr>"
  have ok: "head_ok ?qid topology None"
    using topology cnt by (auto simp: head_ok_def in_range_def MAX_LONG_def)
  have "writes (put_fields (e_tx env) (q_following ?q) params) (new_stream (e_client env) []) body c"
    using wr by simp
  from query_encodes [OF this] ne obtain st where
    st: "query_from_python (e_tx env) ?q params (new_stream (e_client env) []) = Inr st"
      "sbuf st = request ?q body" "sclient st = c" by auto
  have send: "send_query net ?q params ?env2 =
      (Inr (server_response (e_protocol env) ?qid topology None (concat (map fst bws)) @ rest), ?env3)"
    using st net by (simp add: send_query_def request_eq)
  have keep: "P (e_client ?env3)" "e_depth ?env3 = e_depth env" "e_protocol ?env3 = e_protocol env"
    "e_affinity_version ?env3 = e_affinity_version env" using P by simp_all
  have "list_all2 (\<lambda>x bw. decodes P (get_w (e_depth ?env3) [] (snd x)) (conv_w [] (snd x)) (fst bw) (snd bw)) fs bws"
    unfolding keep by (rule q)
  from receive_fields [OF ok this pl ds names keep(1), of rest, unfolded keep] obtain c' where
    c': "P c'" "receive_response (Response fs)
      (server_response (e_protocol env) ?qid topology None (concat (map fst bws)) @ rest) ?env3 =
      (Inr (success_result ?qid (fields_result fs (map snd bws))),
       ?env3\<lparr>e_client := c', e_affinity_version := new_affinity (e_protocol env) topology (e_affinity_version env)\<rparr>)"
    by blast
  let ?env4 = "?env3\<lparr>e_client := c', e_affinity_version := new_affinity (e_protocol env) topology (e_affinity_version env)\<rparr>"
  let ?r = "success_result ?qid (fields_result fs (map snd bws))"
  have "perform net ?q params (Response fs) ?env1 = (Inr ?r, on_query_finished ?q (Inr ?r) ?env4)"
    using send c'(2) by (simp add: perform_def)
  moreover have "new_query False op following env = (Inr ?q, ?env1)"
    using cnt by (simp add: new_query_def next_query_id_def)
  ultimately have "query_perform net op following params (Response fs) post env =
      (post ?r, on_query_finished ?q (Inr ?r) ?env4)"
    by (simp add: query_perform_def run_res_def)
  with c'(1) show ?thesis by (simp add: same_session_def)
qed


lemma query_performs:
  assumes wr: "writes (put_fields (e_tx env) following params) (new_stream (e_client env) []) body c"
    and ne: "params \<noteq> [] \<or> following = []" and cnt: "e_query_counter env < MAX_LONG" "0 \<le> e_query_counter env"
    and net: "net (request_bytes op (e_query_counter env + 1) body) (e_net env) =
      (Inr (server_response (e_protocol env) (e_query_counter env + 1) topology None (concat (map fst bws))), s')"
    and topology: "head_ok 0 topology None"
    and q: "list_all2 (\<lambda>x bw. decodes P (get_w (e_depth env) [] (snd x)) (conv_w [] (snd x)) (fst bw) (snd bw)) fs bws"
    and pl: "list_all (\<lambda>x. plain (snd x)) fs" and ds: "distinct (map fst fs)"
    and names: "set (map fst fs) \<inter> set reserved = {}" and P: "P c"
  shows "\<exists>env'. query_perform net op following params (Response fs) post env =
      (post (success_result (e_query_counter env + 1) (fields_result fs (map snd bws))), env') \<and>
    P (e_client env') \<and> e_net env' = s' \<and> e_query_counter env' = e_query_counter env + 1 \<and>
    same_session env env' \<and>
    e_affinity_version env' = new_affinity (e_protocol env) topology (e_affinity_version env)"
  using query_performs_padded [where rest = "[]" and net = net, OF wr ne cnt _ topology q pl ds names P] net by simp


subsection \<open>Put and get\<close>

text \<open>The encoders of the fields of these requests, one after the other.\<close>

lemma writes_Nil: "writes Inr st [] (sclient st)"
  by (auto simp: writes_def grow_def)

lemma put_field_writes:
  assumes "dget name d = Inr v" and "writes (put_w tx t v) (new_stream c []) x c1"
    and "writes (put_fields tx fs d) (new_stream c1 []) y c2"
  shows "writes (put_fields tx ((name, t) # fs) d) (new_stream c []) (x @ y) c2"
  unfolding writes_def
proof (intro allI impI)
  fix st assume st: "writable st" "sclient st = sclient (new_stream c [])"
  have "put_w tx t v st = Inr (grow st x c1)"
    by (rule writesD [OF assms(2) st]) (simp add: new_stream_def)
  moreover have "put_fields tx fs d (grow st x c1) = Inr (grow (grow st x c1) y c2)"
    by (rule writesD [OF assms(3)]) (use st in \<open>simp_all add: new_stream_def\<close>)
  ultimately show "put_fields tx ((name, t) # fs) d st = Inr (grow st (x @ y) c2)"
    using st(1) assms(1) by simp
qed

lemma cache_info_field_writes:
  assumes "cache_info_ok tx ci"
  shows "writes (put_w tx WCacheInfo (WInfo ci)) (new_stream c []) (cache_info_bytes tx ci) c"
  using assms by (simp add: writes_def cache_info_writable new_stream_def)

lemma put_fields_Nil_writes: "writes (put_fields tx [] d) (new_stream c []) [] c"
  by (auto simp: writes_def grow_def new_stream_def)


lemma key_writes:
  assumes "from_py d k (new_stream c []) = Inr (append_to (new_stream c []) kb)"
  shows "writes (from_py d k) (new_stream c []) kb c"
proof -
  from appendsE [OF from_py_appends at_end_writable [OF at_end_new_stream] assms] obtain bs c' where
    b: "append_to (new_stream c []) kb = grow (new_stream c []) bs c'"
    "writes (from_py d k) (new_stream c []) bs c'" by blast
  have "bs = kb" "c' = c"
    using arg_cong [OF b(1), of sbuf] arg_cong [OF b(1), of sclient]
    by (simp_all add: append_to_def new_stream_def split: if_splits)
  with b(2) show ?thesis by simp
qed

lemma value_written:
  assumes "from_py d v (new_stream c []) = Inr vs"
  shows "writes (from_py d v) (new_stream c []) (sbuf vs) (sclient vs) \<and>
    compact (sclient vs) = compact c \<and> wrote {} d v (compact_footer c) (sbuf vs)"
proof -
  from appendsE [OF from_py_wrote [where R = "{}"] at_end_writable [OF at_end_new_stream] assms] obtain bs c' where
    b: "vs = grow (new_stream c []) bs c'" "compact c' = compact (sclient (new_stream c []))"
    "writes (from_py d v) (new_stream c []) bs c'"
    "wrote {} d v (compact_footer (sclient (new_stream c []))) bs" by blast
  then show ?thesis by (auto simp: new_stream_def)
qed

lemma object_writes:
  "writes (from_py d v) st bs c \<Longrightarrow> writes (put_w tx (WObject d) (WV v)) st bs c"
  by (simp add: writes_def as_val_def)

text \<open>
  C3. A value that was put comes back: if the server acknowledges the request of \<open>cache_put\<close> and
  answers the request of \<open>cache_get\<close> for the same key, byte for byte the one described here,
  with the bytes the first request carried after the key, then \<open>cache_get\<close> returns the value
  in its decoded form. Each request is the header, the cache information, the key and the value,
  with consecutive query ids.
\<close>

theorem put_then_get:
  fixes env :: "'s env" and ci :: cache_info
  defines "n \<equiv> e_query_counter env" and "info \<equiv> cache_info_bytes (e_tx env) ci"
  assumes key: "\<And>c. from_py AnyDataObject k (new_stream c []) = Inr (append_to (new_stream c []) kb)"
    and val: "from_py AnyDataObject v (new_stream (e_client env) []) = Inr vst"
    and good: "good {} AnyDataObject v w"
    and small: "length (sbuf vst) < 2 ^ 31" "2 * length (sbuf vst) + 1 \<le> e_depth env"
    and ci: "cache_info_ok (e_tx env) ci" and count: "0 \<le> n" "n + 1 < MAX_LONG"
    and top: "head_ok 0 top1 None" "head_ok 0 top2 None"
    and put: "net (request_bytes OP_CACHE_PUT (n + 1) (info @ kb @ sbuf vst)) (e_net env) =
      (Inr (server_response (e_protocol env) (n + 1) top1 None []), s1)"
    and get: "net (request_bytes OP_CACHE_GET (n + 2) (info @ kb)) s1 =
      (Inr (server_response (e_protocol env) (n + 2) top2 None (sbuf vst)), s2)"
  shows "\<exists>r1 env1 r2 env2. cache_put (query_perform net) ci k v None None env = (Inr r1, env1) \<and> r_status r1 = 0 \<and>
    cache_get (query_perform net) ci k None env1 = (Inr r2, env2) \<and> r_status r2 = 0 \<and> r_value r2 = WV w"
proof -
  let ?b = "compact_footer (e_client env)"
  let ?params = "[(''cache_info'', WInfo ci), (''key'', WV k), (''value'', WV v)]"
  let ?put = "[(''cache_info'', WCacheInfo), (''key'', WObject AnyDataObject), (''value'', WObject AnyDataObject)]"
  let ?get = "[(''cache_info'', WCacheInfo), (''key'', WObject AnyDataObject)]"
  let ?fs = "[(''value'', WObject AnyDataObject)]"
  from value_written [OF val] have vw: "writes (from_py AnyDataObject v) (new_stream (e_client env) []) (sbuf vst) (sclient vst)"
    and vc: "compact (sclient vst) = compact (e_client env)" and wr: "wrote {} AnyDataObject v ?b (sbuf vst)" by auto
  have P: "reader {} ?b (sclient vst)"
    using vc by (auto simp: reader_def knows_def compact_footer_def split: option.splits)
  note kw = object_writes [OF key_writes [OF key]] and iw = cache_info_field_writes [OF ci]
  have "writes (put_fields (e_tx env) ?put ?params) (new_stream (e_client env) [])
      (info @ kb @ sbuf vst @ []) (sclient vst)"
    unfolding info_def
    by (rule put_field_writes [OF _ iw put_field_writes [OF _ kw put_field_writes
      [OF _ object_writes [OF vw] put_fields_Nil_writes]]]) (simp_all add: dget_def)
  then have "writes (put_fields (e_tx env) ?put ?params) (new_stream (e_client env) [])
      (info @ kb @ sbuf vst) (sclient vst)" by simp
  from query_performs [OF this, where P = "reader {} ?b" and fs = "[]" and bws = "[]" and post = no_post_process
      and net = net and op = OP_CACHE_PUT and s' = s1 and topology = top1]
  obtain env1 where env1: "cache_put (query_perform net) ci k v None None env = (Inr (success_result (n + 1) (WV VNone)), env1)"
    "reader {} ?b (e_client env1)" "e_net env1 = s1" "e_query_counter env1 = n + 1" "same_session env env1"
    using put P top(1) count
    by (auto simp: cache_put_def hint_or_any_def n_def no_post_process_def fields_result_def)
  have e: "e_protocol env1 = e_protocol env" "e_tx env1 = e_tx env" "e_depth env1 = e_depth env"
    using env1(5) by (simp_all add: same_session_def)
  have "writes (put_fields (e_tx env1) ?get [(''cache_info'', WInfo ci), (''key'', WV k)])
      (new_stream (e_client env1) []) (info @ kb @ []) (e_client env1)"
    unfolding info_def e
    by (rule put_field_writes [OF _ iw put_field_writes [OF _ kw put_fields_Nil_writes]]) (simp_all add: dget_def)
  then have g: "writes (put_fields (e_tx env1) ?get [(''cache_info'', WInfo ci), (''key'', WV k)])
      (new_stream (e_client env1) []) (info @ kb) (e_client env1)" by simp
  have "small_back (WObject AnyDataObject) (WV w) ?b (sbuf vst)" using wr good by (rule object_back)
  then have "decodes (reader {} ?b) (get_w (e_depth env1) [] (WObject AnyDataObject))
      (conv_w [] (WObject AnyDataObject)) (sbuf vst) (WV w)"
    using small by (simp add: small_back_def wback_def e)
  then have "list_all2 (\<lambda>x bw. decodes (reader {} ?b) (get_w (e_depth env1) [] (snd x)) (conv_w [] (snd x))
      (fst bw) (snd bw)) ?fs [(sbuf vst, WV w)]" by simp
  from query_performs [OF g _ _ _ _ _ this, where net = net and op = OP_CACHE_GET and s' = s2 and topology = top2
      and post = "post_process_value_by_key ''value''"] get top(2) count env1(2-4)
  obtain env2 where "cache_get (query_perform net) ci k None env1 = (Inr ((success_result (n + 2) (WD [(''value'', WV w)]))\<lparr>r_value := WV w\<rparr>), env2)"
    by (auto simp: cache_get_def hint_or_any_def e plain_def reserved_def fields_result_def
        post_process_value_by_key_def success_result_def wfield_def dget_def add.commute)
  with env1(1) show ?thesis by (auto simp: success_result_def)
qed


text \<open>A server of one value, and the encoding of two integers.\<close>

definition one_value_net :: "protocol_context \<Rightarrow> nat \<Rightarrow> (byte list) net" where
  "one_value_net pc k req stored =
     (let qid = le_int True (take 8 (drop 6 req))
      in if le_int True (take 2 (drop 4 req)) = OP_CACHE_PUT
         then (Inr (server_response pc qid None None []), drop k req)
         else (Inr (server_response pc qid None None stored), stored))"

lemma one_value_request:
  assumes "in_range 2 True op" and "in_range 8 True qid"
  shows "one_value_net pc (14 + length pre) (request_bytes op qid (pre @ post)) stored =
    (if op = OP_CACHE_PUT then (Inr (server_response pc qid None None []), post)
     else (Inr (server_response pc qid None None stored), stored))"
  using assms by (simp add: one_value_net_def request_bytes_def le_int_ct_bytes Let_def)

definition int_bytes :: "int \<Rightarrow> byte list" where
  "int_bytes i = prim_code TLong # ct_bytes 8 i"

lemma int_encoding:
  assumes "in_range 8 True i"
  shows "from_py AnyDataObject (VInt i) (new_stream c []) = Inr (append_to (new_stream c []) (int_bytes i))"
    and "good R AnyDataObject (VInt i) (VInt i)"
proof -
  have m: "map_python_type (VInt i) = Inr (DataObject TLong)"
    by (simp add: map_python_type_def python_map_def)
  have "signed_wrap 8 i = i" using assms by (simp add: signed_wrap_id)
  then have "leaf_from_python (DataObject TLong) (VInt i) = Inr (int_bytes i)"
    by (simp add: leaf_from_python_def data_object_from_python_def ctypes_set_def data_object_ct_def
        code_obj_def int_bytes_def del: prim_code.simps)
  then show "from_py AnyDataObject (VInt i) (new_stream c []) = Inr (append_to (new_stream c []) (int_bytes i))"
    by (simp add: from_py_any m from_py_leaf write_leaf_def swrite_at_end at_end_new_stream)
  have "leaf_good (DataObject TLong) (VInt i) (VInt i)"
    using \<open>signed_wrap 8 i = i\<close> by (simp add: leaf_good_def prim_good_def int_prim_def)
  then show "good R AnyDataObject (VInt i) (VInt i)"
    by (intro good.any [OF m] good.leaf) (simp_all add: leaf_class_def)
qed

definition demo_cache :: cache_info where
  "demo_cache = \<lparr>ci_cache_id = 5, ci_expiry_policy = None,
     ci_protocol_context = new_protocol_context (1, 7, 0) None\<rparr>"

theorem put_then_get_witness:
  "\<exists>r1 env1 r2 env2.
     cache_put (query_perform (one_value_net (e_protocol (demo_env [] :: (byte list) env)) 28)) demo_cache (VInt 7) (VInt 9) None None
       (demo_env []) = (Inr r1, env1) \<and>
     cache_get (query_perform (one_value_net (e_protocol (demo_env [] :: (byte list) env)) 28)) demo_cache (VInt 7) None env1 = (Inr r2, env2) \<and>
     r_value r2 = WV (VInt 9)"
proof -
  let ?env = "demo_env [] :: (byte list) env"
  let ?info = "cache_info_bytes (e_tx ?env) demo_cache"
  have k: "in_range 8 True 7" "in_range 8 True 9" by (simp_all add: in_range_def)
  note key = int_encoding(1) [OF k(1)] and val = int_encoding(1) [OF k(2)]
  have sb: "sbuf (append_to (new_stream c []) bs) = bs" for c bs by (simp add: append_to_def new_stream_def)
  have ci: "cache_info_ok (e_tx ?env) demo_cache"
    by (simp add: demo_env_def demo_cache_def cache_info_ok_def in_range_def tx_active_def)
  have f: "e_query_counter ?env = 0" "e_net ?env = []" "e_depth ?env = 100" by (simp_all add: demo_env_def)
  have "length ?info = 5" by (simp add: demo_env_def demo_cache_def cache_info_bytes_def tx_active_def)
  then have l: "28 = 14 + length (?info @ int_bytes 7)" by (simp add: int_bytes_def)
  have h: "head_ok 0 None None" by (simp add: head_ok_def in_range_def)
  note req = one_value_request [where pre = "?info @ int_bytes 7" and pc = "e_protocol ?env", folded l, simplified append_assoc]
  let ?v = "append_to (new_stream (e_client ?env) []) (int_bytes 9)"
  have put: "one_value_net (e_protocol ?env) 28 (request_bytes OP_CACHE_PUT (e_query_counter ?env + 1)
      (?info @ int_bytes 7 @ sbuf ?v)) (e_net ?env) =
    (Inr (server_response (e_protocol ?env) (e_query_counter ?env + 1) None None []), int_bytes 9)"
    unfolding f sb by (subst req) (simp_all add: OP_CACHE_PUT_def in_range_def)
  have get: "one_value_net (e_protocol ?env) 28 (request_bytes OP_CACHE_GET (e_query_counter ?env + 2)
      (?info @ int_bytes 7)) (int_bytes 9) =
    (Inr (server_response (e_protocol ?env) (e_query_counter ?env + 2) None None (sbuf ?v)), int_bytes 9)"
    unfolding f sb
    using req [of OP_CACHE_GET 2 "[]"] by (simp add: OP_CACHE_PUT_def OP_CACHE_GET_def in_range_def)
  have "length (sbuf ?v) < 2 ^ 31" "2 * length (sbuf ?v) + 1 \<le> e_depth ?env"
    "0 \<le> e_query_counter ?env" "e_query_counter ?env + 1 < MAX_LONG"
    unfolding f sb by (simp_all add: int_bytes_def MAX_LONG_def)
  from put_then_get [OF key val int_encoding(2) [OF k(2)] this(1,2) ci this(3,4) h h put get]
  show ?thesis by blast
qed

end
