(* ===== verification/Sql.thy ===== *)
theory Sql
  imports KeyValue
begin

section \<open>Scan, SQL and vector queries\<close>

text \<open>
  \<open>api/sql.py\<close>: the queries that open a cursor, the requests for its next pages, and
  \<open>resource_close\<close>. \<open>scan\<close>, \<open>sql\<close> and \<open>vector\<close> answer with a dict of keys and values,
  \<open>sql_fields\<close> with an \<open>SQLResponse\<close>, its further pages with a \<open>StructArray\<close> of as many fields
  as the caller says. The arguments are any Python values.
\<close>

definition OP_RESOURCE_CLOSE :: int where "OP_RESOURCE_CLOSE = 0"
definition OP_QUERY_SCAN :: int where "OP_QUERY_SCAN = 2000"
definition OP_QUERY_SCAN_CURSOR_GET_PAGE :: int where "OP_QUERY_SCAN_CURSOR_GET_PAGE = 2001"
definition OP_QUERY_SQL :: int where "OP_QUERY_SQL = 2002"
definition OP_QUERY_SQL_CURSOR_GET_PAGE :: int where "OP_QUERY_SQL_CURSOR_GET_PAGE = 2003"
definition OP_QUERY_SQL_FIELDS :: int where "OP_QUERY_SQL_FIELDS = 2004"
definition OP_QUERY_SQL_FIELDS_CURSOR_GET_PAGE :: int where "OP_QUERY_SQL_FIELDS_CURSOR_GET_PAGE = 2005"
definition OP_QUERY_VECTOR :: int where "OP_QUERY_VECTOR = 30000"
definition OP_QUERY_VECTOR_CURSOR_GET_PAGE :: int where "OP_QUERY_VECTOR_CURSOR_GET_PAGE = 30001"

definition as_bit :: "pyval \<Rightarrow> wval" where
  "as_bit v = WV (VInt (if truthy v then 1 else 0))"

definition or_empty_list :: "pyval \<Rightarrow> pyval" where
  "or_empty_list v = (if v = VNone then VList [] else v)"

definition string_object :: wtype where "string_object = WObject (Standard String)"

text \<open>\<open>dict(result.value)\<close> copies a dict.\<close>

definition query_result_post_process :: "api_result \<Rightarrow> api_result res" where
  "query_result_post_process result =
     (if r_status result = 0
      then (case r_value result of WD d \<Rightarrow> Inr result | _ \<Rightarrow> Inl TypeError)
      else Inr result)"

definition cursor_response :: "(string \<times> wtype) list" where
  "cursor_response = [(''cursor'', WPrim TLong), (''data'', WMap), (''more'', WPrim TBool)]"

definition page_response :: "(string \<times> wtype) list" where
  "page_response = [(''data'', WMap), (''more'', WPrim TBool)]"

text \<open>A query whose only parameter is a cursor.\<close>

definition cursor_query ::
  "'r performer \<Rightarrow> int \<Rightarrow> pyval \<Rightarrow> (string \<times> wtype) list \<Rightarrow> (api_result \<Rightarrow> api_result res) \<Rightarrow> 'r"
where
  "cursor_query perf op cursor following post =
     perf op [(''cursor'', WPrim TLong)] [(''cursor'', WV cursor)] (Response following) post"

subsection \<open>Scan queries\<close>

definition scan ::
  "'r performer \<Rightarrow> cache_info \<Rightarrow> pyval \<Rightarrow> pyval \<Rightarrow> pyval \<Rightarrow> 'r"
where
  "scan perf cache_info page_size partitions local =
     perf OP_QUERY_SCAN
       [(''cache_info'', WCacheInfo), (''filter'', WObject Null), (''page_size'', WPrim TInt),
        (''partitions'', WPrim TInt), (''local'', WPrim TBool)]
       [(''cache_info'', WInfo cache_info), (''filter'', WV VNone), (''page_size'', WV page_size),
        (''partitions'', WV partitions), (''local'', as_bit local)]
       (Response cursor_response) query_result_post_process"

definition scan_cursor_get_page :: "'r performer \<Rightarrow> pyval \<Rightarrow> 'r" where
  "scan_cursor_get_page perf cursor =
     cursor_query perf OP_QUERY_SCAN_CURSOR_GET_PAGE cursor page_response query_result_post_process"

subsection \<open>SQL queries over whole records\<close>

definition sql ::
  "'r performer \<Rightarrow> cache_info \<Rightarrow> pyval \<Rightarrow> pyval \<Rightarrow> pyval \<Rightarrow> pyval \<Rightarrow> pyval \<Rightarrow> pyval \<Rightarrow> pyval \<Rightarrow> pyval \<Rightarrow>
   'r"
where
  "sql perf cache_info table_name query_str page_size query_args distributed_joins replicated_only local timeout =
     perf OP_QUERY_SQL
       [(''cache_info'', WCacheInfo), (''table_name'', string_object), (''query_str'', string_object),
        (''query_args'', WAnyArray), (''distributed_joins'', WPrim TBool), (''local'', WPrim TBool),
        (''replicated_only'', WPrim TBool), (''page_size'', WPrim TInt), (''timeout'', WPrim TLong)]
       [(''cache_info'', WInfo cache_info), (''table_name'', WV table_name), (''query_str'', WV query_str),
        (''query_args'', WV (or_empty_list query_args)), (''distributed_joins'', as_bit distributed_joins),
        (''local'', as_bit local), (''replicated_only'', as_bit replicated_only), (''page_size'', WV page_size),
        (''timeout'', WV timeout)]
       (Response cursor_response) query_result_post_process"

definition sql_cursor_get_page :: "'r performer \<Rightarrow> pyval \<Rightarrow> 'r" where
  "sql_cursor_get_page perf cursor =
     cursor_query perf OP_QUERY_SQL_CURSOR_GET_PAGE cursor page_response query_result_post_process"

subsection \<open>SQL queries over fields\<close>

record sql_fields_args =
  a_query_str :: pyval
  a_page_size :: pyval
  a_query_args :: pyval
  a_schema :: pyval
  a_statement_type :: pyval
  a_distributed_joins :: pyval
  a_local :: pyval
  a_replicated_only :: pyval
  a_enforce_join_order :: pyval
  a_collocated :: pyval
  a_lazy :: pyval
  a_include_field_names :: pyval
  a_max_rows :: pyval
  a_timeout :: pyval

definition sql_fields :: "'r performer \<Rightarrow> cache_info \<Rightarrow> sql_fields_args \<Rightarrow> 'r" where
  "sql_fields perf cache_info a =
     perf OP_QUERY_SQL_FIELDS
       [(''cache_info'', WCacheInfo), (''schema'', string_object), (''page_size'', WPrim TInt),
        (''max_rows'', WPrim TInt), (''query_str'', string_object), (''query_args'', WAnyArray),
        (''statement_type'', WPrim TByte), (''distributed_joins'', WPrim TBool), (''local'', WPrim TBool),
        (''replicated_only'', WPrim TBool), (''enforce_join_order'', WPrim TBool),
        (''collocated'', WPrim TBool), (''lazy'', WPrim TBool), (''timeout'', WPrim TLong),
        (''include_field_names'', WPrim TBool)]
       [(''cache_info'', WInfo cache_info), (''schema'', WV (a_schema a)),
        (''page_size'', WV (a_page_size a)), (''max_rows'', WV (a_max_rows a)),
        (''query_str'', WV (a_query_str a)), (''query_args'', WV (or_empty_list (a_query_args a))),
        (''statement_type'', WV (a_statement_type a)), (''distributed_joins'', WV (a_distributed_joins a)),
        (''local'', WV (a_local a)), (''replicated_only'', WV (a_replicated_only a)),
        (''enforce_join_order'', WV (a_enforce_join_order a)), (''collocated'', WV (a_collocated a)),
        (''lazy'', WV (a_lazy a)), (''timeout'', WV (a_timeout a)),
        (''include_field_names'', WV (a_include_field_names a))]
       (SQLResponse (truthy (a_include_field_names a)) True) no_post_process"

text \<open>The decimal digits of an index, for the names \<open>field_0\<close>, \<open>field_1\<close>, \<dots> and \<open>property_0\<close>, \<dots>\<close>

fun nat_string :: "nat \<Rightarrow> string" where
  "nat_string n =
     (if n < 10 then [char_of (48 + n)] else nat_string (n div 10) @ [char_of (48 + n mod 10)])"

declare nat_string.simps [simp del]

definition row_fields :: "int \<Rightarrow> (string \<times> wtype) list" where
  "row_fields field_count =
     map (\<lambda>i. (''field_'' @ nat_string i, WObject AnyDataObject)) [0..<nat field_count]"

definition row_values :: "wval \<Rightarrow> wval res" where
  "row_values v = (case v of WD d \<Rightarrow> Inr (WL (map snd d)) | _ \<Rightarrow> Inl AttributeError)"

definition post_process_sql_fields_cursor :: "api_result \<Rightarrow> api_result res" where
  "post_process_sql_fields_cursor result =
     (if r_status result \<noteq> 0 then Inr result
      else
        rbind (wfield ''more'' (r_value result)) (\<lambda>more.
        rbind (rbind (wfield ''data'' (r_value result)) wseq) (\<lambda>rows.
        rbind (rmap row_values rows) (\<lambda>data.
          Inr (result\<lparr>r_value := WD [(''data'', WL data), (''more'', more)]\<rparr>)))))"

definition sql_fields_cursor_get_page :: "'r performer \<Rightarrow> pyval \<Rightarrow> int \<Rightarrow> 'r" where
  "sql_fields_cursor_get_page perf cursor field_count =
     cursor_query perf OP_QUERY_SQL_FIELDS_CURSOR_GET_PAGE cursor
       [(''data'', WStructArray (row_fields field_count) []), (''more'', WPrim TBool)]
       post_process_sql_fields_cursor"

subsection \<open>Vector queries and closing\<close>

definition vector ::
  "'r performer \<Rightarrow> cache_info \<Rightarrow> pyval \<Rightarrow> pyval \<Rightarrow> pyval \<Rightarrow> pyval \<Rightarrow> pyval \<Rightarrow> pyval \<Rightarrow> 'r"
where
  "vector perf cache_info page_size type_name field clause_vector k threshold =
     perf OP_QUERY_VECTOR
       [(''cache_info'', WCacheInfo), (''page_size'', WPrim TInt), (''type_name'', string_object),
        (''field'', string_object), (''clause_vector'', WObject (PrimitiveArrayObject TFloat)),
        (''k'', WPrim TInt), (''threshold'', WPrim TFloat)]
       [(''cache_info'', WInfo cache_info), (''page_size'', WV page_size), (''type_name'', WV type_name),
        (''field'', WV field), (''clause_vector'', WV clause_vector), (''k'', WV k),
        (''threshold'', WV threshold)]
       (Response cursor_response) query_result_post_process"

definition vector_cursor_get_page :: "'r performer \<Rightarrow> pyval \<Rightarrow> 'r" where
  "vector_cursor_get_page perf cursor =
     cursor_query perf OP_QUERY_VECTOR_CURSOR_GET_PAGE cursor page_response query_result_post_process"

definition resource_close :: "'r performer \<Rightarrow> pyval \<Rightarrow> 'r" where
  "resource_close perf cursor =
     cursor_query perf OP_RESOURCE_CLOSE cursor [] no_post_process"

lemmas sql_op_codes = OP_RESOURCE_CLOSE_def OP_QUERY_SCAN_def OP_QUERY_SCAN_CURSOR_GET_PAGE_def
  OP_QUERY_SQL_def OP_QUERY_SQL_CURSOR_GET_PAGE_def OP_QUERY_SQL_FIELDS_def
  OP_QUERY_SQL_FIELDS_CURSOR_GET_PAGE_def OP_QUERY_VECTOR_def OP_QUERY_VECTOR_CURSOR_GET_PAGE_def

end
