(* ===== verification/CacheConfig.thy ===== *)
theory CacheConfig
  imports Sql
begin

section \<open>Cache configuration\<close>

text \<open>
  \<open>api/cache_config.py\<close> with the structures of \<open>datatypes/cache_config.py\<close>, the property codes
  of \<open>prop_codes.py\<close> and the property classes of \<open>cache_properties.py\<close>: reading the
  configuration of a cache, and creating caches by name or from properties.
\<close>

subsection \<open>Property codes\<close>

definition PROP_NAME :: int where "PROP_NAME = 0"
definition PROP_CACHE_MODE :: int where "PROP_CACHE_MODE = 1"
definition PROP_CACHE_ATOMICITY_MODE :: int where "PROP_CACHE_ATOMICITY_MODE = 2"
definition PROP_BACKUPS_NUMBER :: int where "PROP_BACKUPS_NUMBER = 3"
definition PROP_WRITE_SYNCHRONIZATION_MODE :: int where "PROP_WRITE_SYNCHRONIZATION_MODE = 4"
definition PROP_COPY_ON_READ :: int where "PROP_COPY_ON_READ = 5"
definition PROP_READ_FROM_BACKUP :: int where "PROP_READ_FROM_BACKUP = 6"
definition PROP_DATA_REGION_NAME :: int where "PROP_DATA_REGION_NAME = 100"
definition PROP_IS_ONHEAP_CACHE_ENABLED :: int where "PROP_IS_ONHEAP_CACHE_ENABLED = 101"
definition PROP_QUERY_ENTITIES :: int where "PROP_QUERY_ENTITIES = 200"
definition PROP_QUERY_PARALLELISM :: int where "PROP_QUERY_PARALLELISM = 201"
definition PROP_QUERY_DETAIL_METRIC_SIZE :: int where "PROP_QUERY_DETAIL_METRIC_SIZE = 202"
definition PROP_SQL_SCHEMA :: int where "PROP_SQL_SCHEMA = 203"
definition PROP_SQL_INDEX_INLINE_MAX_SIZE :: int where "PROP_SQL_INDEX_INLINE_MAX_SIZE = 204"
definition PROP_SQL_ESCAPE_ALL :: int where "PROP_SQL_ESCAPE_ALL = 205"
definition PROP_MAX_QUERY_ITERATORS :: int where "PROP_MAX_QUERY_ITERATORS = 206"
definition PROP_REBALANCE_MODE :: int where "PROP_REBALANCE_MODE = 300"
definition PROP_REBALANCE_DELAY :: int where "PROP_REBALANCE_DELAY = 301"
definition PROP_REBALANCE_TIMEOUT :: int where "PROP_REBALANCE_TIMEOUT = 302"
definition PROP_REBALANCE_BATCH_SIZE :: int where "PROP_REBALANCE_BATCH_SIZE = 303"
definition PROP_REBALANCE_BATCHES_PREFETCH_COUNT :: int where "PROP_REBALANCE_BATCHES_PREFETCH_COUNT = 304"
definition PROP_REBALANCE_ORDER :: int where "PROP_REBALANCE_ORDER = 305"
definition PROP_REBALANCE_THROTTLE :: int where "PROP_REBALANCE_THROTTLE = 306"
definition PROP_GROUP_NAME :: int where "PROP_GROUP_NAME = 400"
definition PROP_CACHE_KEY_CONFIGURATION :: int where "PROP_CACHE_KEY_CONFIGURATION = 401"
definition PROP_DEFAULT_LOCK_TIMEOUT :: int where "PROP_DEFAULT_LOCK_TIMEOUT = 402"
definition PROP_MAX_CONCURRENT_ASYNC_OPERATIONS :: int where "PROP_MAX_CONCURRENT_ASYNC_OPERATIONS = 403"
definition PROP_PARTITION_LOSS_POLICY :: int where "PROP_PARTITION_LOSS_POLICY = 404"
definition PROP_EAGER_TTL :: int where "PROP_EAGER_TTL = 405"
definition PROP_STATISTICS_ENABLED :: int where "PROP_STATISTICS_ENABLED = 406"
definition PROP_EXPIRY_POLICY :: int where "PROP_EXPIRY_POLICY = 407"

lemmas prop_codes =
  PROP_NAME_def PROP_CACHE_MODE_def PROP_CACHE_ATOMICITY_MODE_def PROP_BACKUPS_NUMBER_def
  PROP_WRITE_SYNCHRONIZATION_MODE_def PROP_COPY_ON_READ_def PROP_READ_FROM_BACKUP_def
  PROP_DATA_REGION_NAME_def PROP_IS_ONHEAP_CACHE_ENABLED_def PROP_QUERY_ENTITIES_def
  PROP_QUERY_PARALLELISM_def PROP_QUERY_DETAIL_METRIC_SIZE_def PROP_SQL_SCHEMA_def
  PROP_SQL_INDEX_INLINE_MAX_SIZE_def PROP_SQL_ESCAPE_ALL_def PROP_MAX_QUERY_ITERATORS_def
  PROP_REBALANCE_MODE_def PROP_REBALANCE_DELAY_def PROP_REBALANCE_TIMEOUT_def
  PROP_REBALANCE_BATCH_SIZE_def PROP_REBALANCE_BATCHES_PREFETCH_COUNT_def
  PROP_REBALANCE_ORDER_def PROP_REBALANCE_THROTTLE_def PROP_GROUP_NAME_def
  PROP_CACHE_KEY_CONFIGURATION_def PROP_DEFAULT_LOCK_TIMEOUT_def
  PROP_MAX_CONCURRENT_ASYNC_OPERATIONS_def PROP_PARTITION_LOSS_POLICY_def PROP_EAGER_TTL_def
  PROP_STATISTICS_ENABLED_def PROP_EXPIRY_POLICY_def

text \<open>The names of the module \<open>prop_codes\<close>, as \<open>getattr\<close> finds them.\<close>

definition prop_code_names :: "(string \<times> int) list" where
  "prop_code_names =
     [(''PROP_NAME'', PROP_NAME),
      (''PROP_CACHE_MODE'', PROP_CACHE_MODE),
      (''PROP_CACHE_ATOMICITY_MODE'', PROP_CACHE_ATOMICITY_MODE),
      (''PROP_BACKUPS_NUMBER'', PROP_BACKUPS_NUMBER),
      (''PROP_WRITE_SYNCHRONIZATION_MODE'', PROP_WRITE_SYNCHRONIZATION_MODE),
      (''PROP_COPY_ON_READ'', PROP_COPY_ON_READ),
      (''PROP_READ_FROM_BACKUP'', PROP_READ_FROM_BACKUP),
      (''PROP_DATA_REGION_NAME'', PROP_DATA_REGION_NAME),
      (''PROP_IS_ONHEAP_CACHE_ENABLED'', PROP_IS_ONHEAP_CACHE_ENABLED),
      (''PROP_QUERY_ENTITIES'', PROP_QUERY_ENTITIES),
      (''PROP_QUERY_PARALLELISM'', PROP_QUERY_PARALLELISM),
      (''PROP_QUERY_DETAIL_METRIC_SIZE'', PROP_QUERY_DETAIL_METRIC_SIZE),
      (''PROP_SQL_SCHEMA'', PROP_SQL_SCHEMA),
      (''PROP_SQL_INDEX_INLINE_MAX_SIZE'', PROP_SQL_INDEX_INLINE_MAX_SIZE),
      (''PROP_SQL_ESCAPE_ALL'', PROP_SQL_ESCAPE_ALL),
      (''PROP_MAX_QUERY_ITERATORS'', PROP_MAX_QUERY_ITERATORS),
      (''PROP_REBALANCE_MODE'', PROP_REBALANCE_MODE),
      (''PROP_REBALANCE_DELAY'', PROP_REBALANCE_DELAY),
      (''PROP_REBALANCE_TIMEOUT'', PROP_REBALANCE_TIMEOUT),
      (''PROP_REBALANCE_BATCH_SIZE'', PROP_REBALANCE_BATCH_SIZE),
      (''PROP_REBALANCE_BATCHES_PREFETCH_COUNT'', PROP_REBALANCE_BATCHES_PREFETCH_COUNT),
      (''PROP_REBALANCE_ORDER'', PROP_REBALANCE_ORDER),
      (''PROP_REBALANCE_THROTTLE'', PROP_REBALANCE_THROTTLE),
      (''PROP_GROUP_NAME'', PROP_GROUP_NAME),
      (''PROP_CACHE_KEY_CONFIGURATION'', PROP_CACHE_KEY_CONFIGURATION),
      (''PROP_DEFAULT_LOCK_TIMEOUT'', PROP_DEFAULT_LOCK_TIMEOUT),
      (''PROP_MAX_CONCURRENT_ASYNC_OPERATIONS'', PROP_MAX_CONCURRENT_ASYNC_OPERATIONS),
      (''PROP_PARTITION_LOSS_POLICY'', PROP_PARTITION_LOSS_POLICY),
      (''PROP_EAGER_TTL'', PROP_EAGER_TTL),
      (''PROP_STATISTICS_ENABLED'', PROP_STATISTICS_ENABLED),
      (''PROP_EXPIRY_POLICY'', PROP_EXPIRY_POLICY)]"

subsection \<open>Structures of the cache configuration\<close>

definition cache_mode :: wtype where "cache_mode = WPrim TInt"
definition partition_loss_policy :: wtype where "partition_loss_policy = WPrim TInt"
definition rebalance_mode :: wtype where "rebalance_mode = WPrim TInt"
definition write_synchronization_mode :: wtype where "write_synchronization_mode = WPrim TInt"
definition cache_atomicity_mode :: wtype where "cache_atomicity_mode = WPrim TInt"
definition index_type :: wtype where "index_type = WPrim TByte"

definition query_fields :: wtype where
  "query_fields = WStructArray
     [(''name'', string_object),
      (''type_name'', string_object),
      (''is_key_field'', WPrim TBool),
      (''is_notnull_constraint_field'', WPrim TBool),
      (''default_value'', WObject AnyDataObject),
      (''precision'', WPrim TInt),
      (''scale'', WPrim TInt)]
     [(''is_key_field'', WV (VBool False)), (''is_notnull_constraint_field'', WV (VBool False)),
      (''default_value'', WV VNone), (''precision'', WV (VInt (- 1))), (''scale'', WV (VInt (- 1)))]"

definition field_name_aliases :: wtype where
  "field_name_aliases = WStructArray
     [(''field_name'', string_object),
      (''alias'', string_object)]
     []"

definition fields_struct :: wtype where
  "fields_struct = WStructArray
     [(''name'', string_object),
      (''is_descending'', WPrim TBool)]
     [(''is_descending'', WV (VBool False))]"

definition query_indexes :: wtype where
  "query_indexes = WStructArray
     [(''index_name'', string_object),
      (''index_type'', index_type),
      (''inline_size'', WPrim TInt),
      (''fields'', fields_struct),
      (''similarity_function'', WPrim TInt)]
     [(''similarity_function'', WV (VInt 0))]"

definition query_indexes_no_similarity :: wtype where
  "query_indexes_no_similarity = WStructArray
     [(''index_name'', string_object),
      (''index_type'', index_type),
      (''inline_size'', WPrim TInt),
      (''fields'', fields_struct)]
     []"

definition query_entities :: wtype where
  "query_entities = WStructArray
     [(''key_type_name'', string_object),
      (''value_type_name'', string_object),
      (''table_name'', string_object),
      (''key_field_name'', string_object),
      (''value_field_name'', string_object),
      (''query_fields'', query_fields),
      (''field_name_aliases'', field_name_aliases),
      (''query_indexes'', query_indexes)]
     []"

definition query_entities_no_similarity :: wtype where
  "query_entities_no_similarity = WStructArray
     [(''key_type_name'', string_object),
      (''value_type_name'', string_object),
      (''table_name'', string_object),
      (''key_field_name'', string_object),
      (''value_field_name'', string_object),
      (''query_fields'', query_fields),
      (''field_name_aliases'', field_name_aliases),
      (''query_indexes'', query_indexes_no_similarity)]
     []"

definition cache_key_configuration :: wtype where
  "cache_key_configuration = WStructArray
     [(''type_name'', string_object),
      (''affinity_key_field_name'', string_object)]
     []"

definition cache_config_fields :: "protocol_context \<Rightarrow> (string \<times> wtype) list" where
  "cache_config_fields pc =
     [(''length'', WPrim TInt),
      (''cache_atomicity_mode'', cache_atomicity_mode),
      (''backups_number'', WPrim TInt),
      (''cache_mode'', cache_mode),
      (''copy_on_read'', WPrim TBool),
      (''data_region_name'', string_object),
      (''eager_ttl'', WPrim TBool),
      (''statistics_enabled'', WPrim TBool),
      (''group_name'', string_object),
      (''default_lock_timeout'', WPrim TLong),
      (''max_concurrent_async_operations'', WPrim TInt),
      (''max_query_iterators'', WPrim TInt),
      (''name'', string_object),
      (''is_onheap_cache_enabled'', WPrim TBool),
      (''partition_loss_policy'', partition_loss_policy),
      (''query_detail_metric_size'', WPrim TInt),
      (''query_parallelism'', WPrim TInt),
      (''read_from_backup'', WPrim TBool),
      (''rebalance_batch_size'', WPrim TInt),
      (''rebalance_batches_prefetch_count'', WPrim TLong),
      (''rebalance_delay'', WPrim TLong),
      (''rebalance_mode'', rebalance_mode),
      (''rebalance_order'', WPrim TInt),
      (''rebalance_throttle'', WPrim TLong),
      (''rebalance_timeout'', WPrim TLong),
      (''sql_escape_all'', WPrim TBool),
      (''sql_index_inline_max_size'', WPrim TInt),
      (''sql_schema'', string_object),
      (''write_synchronization_mode'', write_synchronization_mode),
      (''cache_key_configuration'', cache_key_configuration)] @
     [(''query_entities'', if is_query_index_vector_similarity_supported pc then query_entities
        else query_entities_no_similarity)] @
     (if is_expiry_policy_supported pc then [(''expiry_policy'', WExpiryPolicy)] else [])"

definition get_cache_config_struct :: "protocol_context \<Rightarrow> wtype" where
  "get_cache_config_struct pc = WStruct (cache_config_fields pc) []"

subsection \<open>Property classes\<close>

text \<open>\<open>prop_map\<close>: the property class of a code, as its code, whether it is a \<open>TimeoutProp\<close>, and its data class.\<close>

definition prop_table :: "(int \<times> wtype) list" where
  "prop_table =
     [(PROP_NAME, WProp PROP_NAME False string_object),
      (PROP_CACHE_MODE, WProp PROP_CACHE_MODE False cache_mode),
      (PROP_CACHE_ATOMICITY_MODE, WProp PROP_CACHE_ATOMICITY_MODE False cache_atomicity_mode),
      (PROP_BACKUPS_NUMBER, WProp PROP_BACKUPS_NUMBER False (WPrim TInt)),
      (PROP_WRITE_SYNCHRONIZATION_MODE, WProp PROP_WRITE_SYNCHRONIZATION_MODE False write_synchronization_mode),
      (PROP_COPY_ON_READ, WProp PROP_COPY_ON_READ False (WPrim TBool)),
      (PROP_READ_FROM_BACKUP, WProp PROP_READ_FROM_BACKUP False (WPrim TBool)),
      (PROP_DATA_REGION_NAME, WProp PROP_DATA_REGION_NAME False string_object),
      (PROP_IS_ONHEAP_CACHE_ENABLED, WProp PROP_IS_ONHEAP_CACHE_ENABLED False (WPrim TBool)),
      (PROP_QUERY_ENTITIES, WProp PROP_QUERY_ENTITIES False query_entities),
      (PROP_QUERY_PARALLELISM, WProp PROP_QUERY_PARALLELISM False (WPrim TInt)),
      (PROP_QUERY_DETAIL_METRIC_SIZE, WProp PROP_QUERY_DETAIL_METRIC_SIZE False (WPrim TInt)),
      (PROP_SQL_SCHEMA, WProp PROP_SQL_SCHEMA False string_object),
      (PROP_SQL_INDEX_INLINE_MAX_SIZE, WProp PROP_SQL_INDEX_INLINE_MAX_SIZE False (WPrim TInt)),
      (PROP_SQL_ESCAPE_ALL, WProp PROP_SQL_ESCAPE_ALL False (WPrim TBool)),
      (PROP_MAX_QUERY_ITERATORS, WProp PROP_MAX_QUERY_ITERATORS False (WPrim TInt)),
      (PROP_REBALANCE_MODE, WProp PROP_REBALANCE_MODE False rebalance_mode),
      (PROP_REBALANCE_DELAY, WProp PROP_REBALANCE_DELAY False (WPrim TLong)),
      (PROP_REBALANCE_TIMEOUT, WProp PROP_REBALANCE_TIMEOUT True (WPrim TLong)),
      (PROP_REBALANCE_BATCH_SIZE, WProp PROP_REBALANCE_BATCH_SIZE False (WPrim TInt)),
      (PROP_REBALANCE_BATCHES_PREFETCH_COUNT, WProp PROP_REBALANCE_BATCHES_PREFETCH_COUNT False (WPrim TLong)),
      (PROP_REBALANCE_ORDER, WProp PROP_REBALANCE_ORDER False (WPrim TInt)),
      (PROP_REBALANCE_THROTTLE, WProp PROP_REBALANCE_THROTTLE False (WPrim TLong)),
      (PROP_GROUP_NAME, WProp PROP_GROUP_NAME False string_object),
      (PROP_CACHE_KEY_CONFIGURATION, WProp PROP_CACHE_KEY_CONFIGURATION False cache_key_configuration),
      (PROP_DEFAULT_LOCK_TIMEOUT, WProp PROP_DEFAULT_LOCK_TIMEOUT True (WPrim TLong)),
      (PROP_MAX_CONCURRENT_ASYNC_OPERATIONS, WProp PROP_MAX_CONCURRENT_ASYNC_OPERATIONS False (WPrim TInt)),
      (PROP_PARTITION_LOSS_POLICY, WProp PROP_PARTITION_LOSS_POLICY False partition_loss_policy),
      (PROP_EAGER_TTL, WProp PROP_EAGER_TTL False (WPrim TBool)),
      (PROP_STATISTICS_ENABLED, WProp PROP_STATISTICS_ENABLED False (WPrim TBool)),
      (PROP_EXPIRY_POLICY, WProp PROP_EXPIRY_POLICY False WExpiryPolicy)]"

definition prop_map :: "int \<Rightarrow> protocol_context \<Rightarrow> wtype res" where
  "prop_map code pc =
     (if code = PROP_QUERY_ENTITIES \<and> \<not> is_query_index_vector_similarity_supported pc
      then Inr (WProp PROP_QUERY_ENTITIES False query_entities_no_similarity)
      else case map_of prop_table code of None \<Rightarrow> Inl KeyError | Some t \<Rightarrow> Inr t)"

subsection \<open>Operations\<close>

definition OP_CACHE_GET_NAMES :: int where "OP_CACHE_GET_NAMES = 1050"
definition OP_CACHE_CREATE_WITH_NAME :: int where "OP_CACHE_CREATE_WITH_NAME = 1051"
definition OP_CACHE_GET_OR_CREATE_WITH_NAME :: int where "OP_CACHE_GET_OR_CREATE_WITH_NAME = 1052"
definition OP_CACHE_CREATE_WITH_CONFIGURATION :: int where "OP_CACHE_CREATE_WITH_CONFIGURATION = 1053"
definition OP_CACHE_GET_OR_CREATE_WITH_CONFIGURATION :: int where
  "OP_CACHE_GET_OR_CREATE_WITH_CONFIGURATION = 1054"
definition OP_CACHE_GET_CONFIGURATION :: int where "OP_CACHE_GET_CONFIGURATION = 1055"
definition OP_CACHE_DESTROY :: int where "OP_CACHE_DESTROY = 1056"

text \<open>The names of configuration fields are ASCII, where \<open>str.upper\<close> maps letter by letter.\<close>

definition upper_char :: "char \<Rightarrow> char" where
  "upper_char c =
     (case map_of (zip ''abcdefghijklmnopqrstuvwxyz'' ''ABCDEFGHIJKLMNOPQRSTUVWXYZ'') c of
        None \<Rightarrow> c | Some d \<Rightarrow> d)"

definition prop_code_of :: "string \<Rightarrow> int res" where
  "prop_code_of k =
     (case map_of prop_code_names (''PROP_'' @ map upper_char k) of
        None \<Rightarrow> Inl AttributeError | Some c \<Rightarrow> Inr c)"

fun code_put :: "int \<Rightarrow> 'a \<Rightarrow> (int \<times> 'a) list \<Rightarrow> (int \<times> 'a) list" where
  "code_put k v [] = [(k, v)]"
| "code_put k v ((k', v') # d) = (if k = k' then (k, v) # d else (k', v') # code_put k v d)"

fun compact_cache_config :: "(int \<times> wval) list \<Rightarrow> (string \<times> wval) list \<Rightarrow> (int \<times> wval) list res" where
  "compact_cache_config result [] = Inr result"
| "compact_cache_config result ((k, v) # items) =
     (if k = ''length'' then compact_cache_config result items
      else rbind (prop_code_of k) (\<lambda>prop_code. compact_cache_config (code_put prop_code v result) items))"

definition post_process_cache_config :: "api_result \<Rightarrow> api_result res" where
  "post_process_cache_config result =
     (if r_status result = 0
      then rbind (wfield ''cache_config'' (r_value result)) (\<lambda>v.
        case v of WD d \<Rightarrow> rbind (compact_cache_config [] d) (\<lambda>cs. Inr (result\<lparr>r_value := WCodes cs\<rparr>))
        | _ \<Rightarrow> Inl AttributeError)
      else Inr result)"

definition cache_get_configuration :: "'r performer \<Rightarrow> protocol_context \<Rightarrow> cache_info \<Rightarrow> 'r" where
  "cache_get_configuration perf pc cache_info =
     perf OP_CACHE_GET_CONFIGURATION
       [(''cache_info'', WCacheInfo)] [(''cache_info'', WInfo cache_info)]
       (Response [(''cache_config'', get_cache_config_struct pc)])
       post_process_cache_config"

definition cache_create_with_name :: "'r performer \<Rightarrow> int \<Rightarrow> pyval \<Rightarrow> 'r" where
  "cache_create_with_name perf op_code name =
     perf op_code [(''cache_name'', string_object)] [(''cache_name'', WV name)]
       (Response []) no_post_process"

definition cache_create :: "'r performer \<Rightarrow> pyval \<Rightarrow> 'r" where
  "cache_create perf name = cache_create_with_name perf OP_CACHE_CREATE_WITH_NAME name"

definition cache_get_or_create :: "'r performer \<Rightarrow> pyval \<Rightarrow> 'r" where
  "cache_get_or_create perf name = cache_create_with_name perf OP_CACHE_GET_OR_CREATE_WITH_NAME name"

definition cache_destroy :: "'r performer \<Rightarrow> ident \<Rightarrow> 'r" where
  "cache_destroy perf cache =
     perf OP_CACHE_DESTROY [(''cache_id'', WPrim TInt)]
       [(''cache_id'', WV (VInt (cache_id cache)))] (Response []) no_post_process"

definition cache_get_names :: "'r performer \<Rightarrow> 'r" where
  "cache_get_names perf =
     perf OP_CACHE_GET_NAMES [] [] (Response [(''cache_names'', WStdArray String)])
       (post_process_value_by_key ''cache_names'')"

fun collect_props ::
  "protocol_context \<Rightarrow> nat \<Rightarrow> (int \<times> wval) list \<Rightarrow> ((string \<times> wtype) list \<times> (string \<times> wval) list) res"
where
  "collect_props pc i [] = Inr ([], [])"
| "collect_props pc i ((prop_code, prop_value) # props) =
     (if prop_code = PROP_EXPIRY_POLICY \<and> \<not> is_expiry_policy_supported pc
      then Inl NotSupportedByClusterError
      else rbind (prop_map prop_code pc) (\<lambda>t.
        rbind (collect_props pc (Suc i) props) (\<lambda>(types, vals).
          Inr ((''property_'' @ nat_string i, t) # types, (''property_'' @ nat_string i, prop_value) # vals))))"

definition config_query_perform ::
  "'s net \<Rightarrow> int \<Rightarrow> (string \<times> wtype) list \<Rightarrow> (string \<times> wval) list \<Rightarrow> ('s env, api_result) run"
where
  "config_query_perform net op following params =
     run_bind (new_query True op following) (\<lambda>q. perform net q params (Response []))"

definition cache_create_config :: "'s net \<Rightarrow> int \<Rightarrow> (int \<times> wval) list \<Rightarrow> ('s env, api_result) run" where
  "cache_create_config net op_code cache_props env =
     (case collect_props (e_protocol env) 0 cache_props of
        Inl e \<Rightarrow> (Inl e, env)
      | Inr (types, vals) \<Rightarrow>
          config_query_perform net op_code ((''param_count'', WPrim TShort) # types)
            (vals @ [(''param_count'', WV (VInt (int (length cache_props))))]) env)"

definition cache_create_with_config :: "'s net \<Rightarrow> (int \<times> wval) list \<Rightarrow> ('s env, api_result) run" where
  "cache_create_with_config net = cache_create_config net OP_CACHE_CREATE_WITH_CONFIGURATION"

definition cache_get_or_create_with_config :: "'s net \<Rightarrow> (int \<times> wval) list \<Rightarrow> ('s env, api_result) run" where
  "cache_get_or_create_with_config net = cache_create_config net OP_CACHE_GET_OR_CREATE_WITH_CONFIGURATION"


subsection \<open>Symmetry of reading and writing a configuration\<close>

definition config_codes :: "protocol_context \<Rightarrow> int list" where
  "config_codes pc =
     [PROP_CACHE_ATOMICITY_MODE, PROP_BACKUPS_NUMBER, PROP_CACHE_MODE, PROP_COPY_ON_READ,
      PROP_DATA_REGION_NAME, PROP_EAGER_TTL, PROP_STATISTICS_ENABLED, PROP_GROUP_NAME,
      PROP_DEFAULT_LOCK_TIMEOUT, PROP_MAX_CONCURRENT_ASYNC_OPERATIONS,
      PROP_MAX_QUERY_ITERATORS, PROP_NAME, PROP_IS_ONHEAP_CACHE_ENABLED,
      PROP_PARTITION_LOSS_POLICY, PROP_QUERY_DETAIL_METRIC_SIZE, PROP_QUERY_PARALLELISM,
      PROP_READ_FROM_BACKUP, PROP_REBALANCE_BATCH_SIZE, PROP_REBALANCE_BATCHES_PREFETCH_COUNT,
      PROP_REBALANCE_DELAY, PROP_REBALANCE_MODE, PROP_REBALANCE_ORDER,
      PROP_REBALANCE_THROTTLE, PROP_REBALANCE_TIMEOUT, PROP_SQL_ESCAPE_ALL,
      PROP_SQL_INDEX_INLINE_MAX_SIZE, PROP_SQL_SCHEMA, PROP_WRITE_SYNCHRONIZATION_MODE,
      PROP_CACHE_KEY_CONFIGURATION,
      PROP_QUERY_ENTITIES] @ (if is_expiry_policy_supported pc then [PROP_EXPIRY_POLICY] else [])"

lemma config_names:
  "map fst (cache_config_fields pc) = ''length'' #
     [''cache_atomicity_mode'', ''backups_number'', ''cache_mode'', ''copy_on_read'',
      ''data_region_name'', ''eager_ttl'', ''statistics_enabled'', ''group_name'',
      ''default_lock_timeout'', ''max_concurrent_async_operations'', ''max_query_iterators'',
      ''name'', ''is_onheap_cache_enabled'', ''partition_loss_policy'',
      ''query_detail_metric_size'', ''query_parallelism'', ''read_from_backup'',
      ''rebalance_batch_size'', ''rebalance_batches_prefetch_count'', ''rebalance_delay'',
      ''rebalance_mode'', ''rebalance_order'', ''rebalance_throttle'', ''rebalance_timeout'',
      ''sql_escape_all'', ''sql_index_inline_max_size'', ''sql_schema'',
      ''write_synchronization_mode'', ''cache_key_configuration'', ''query_entities''] @
     (if is_expiry_policy_supported pc then [''expiry_policy''] else [])"
  by (simp add: cache_config_fields_def)

lemma config_prop_codes:
  "map prop_code_of
     [''cache_atomicity_mode'', ''backups_number'', ''cache_mode'', ''copy_on_read'',
      ''data_region_name'', ''eager_ttl'', ''statistics_enabled'', ''group_name'',
      ''default_lock_timeout'', ''max_concurrent_async_operations'', ''max_query_iterators'',
      ''name'', ''is_onheap_cache_enabled'', ''partition_loss_policy'',
      ''query_detail_metric_size'', ''query_parallelism'', ''read_from_backup'',
      ''rebalance_batch_size'', ''rebalance_batches_prefetch_count'', ''rebalance_delay'',
      ''rebalance_mode'', ''rebalance_order'', ''rebalance_throttle'', ''rebalance_timeout'',
      ''sql_escape_all'', ''sql_index_inline_max_size'', ''sql_schema'',
      ''write_synchronization_mode'', ''cache_key_configuration'', ''query_entities'', ''expiry_policy''] = map Inr
     [PROP_CACHE_ATOMICITY_MODE, PROP_BACKUPS_NUMBER, PROP_CACHE_MODE, PROP_COPY_ON_READ,
      PROP_DATA_REGION_NAME, PROP_EAGER_TTL, PROP_STATISTICS_ENABLED, PROP_GROUP_NAME,
      PROP_DEFAULT_LOCK_TIMEOUT, PROP_MAX_CONCURRENT_ASYNC_OPERATIONS,
      PROP_MAX_QUERY_ITERATORS, PROP_NAME, PROP_IS_ONHEAP_CACHE_ENABLED,
      PROP_PARTITION_LOSS_POLICY, PROP_QUERY_DETAIL_METRIC_SIZE, PROP_QUERY_PARALLELISM,
      PROP_READ_FROM_BACKUP, PROP_REBALANCE_BATCH_SIZE, PROP_REBALANCE_BATCHES_PREFETCH_COUNT,
      PROP_REBALANCE_DELAY, PROP_REBALANCE_MODE, PROP_REBALANCE_ORDER,
      PROP_REBALANCE_THROTTLE, PROP_REBALANCE_TIMEOUT, PROP_SQL_ESCAPE_ALL,
      PROP_SQL_INDEX_INLINE_MAX_SIZE, PROP_SQL_SCHEMA, PROP_WRITE_SYNCHRONIZATION_MODE,
      PROP_CACHE_KEY_CONFIGURATION,
      PROP_QUERY_ENTITIES, PROP_EXPIRY_POLICY]"
  by code_simp

lemma config_prop_codes_of: "map prop_code_of (tl (map fst (cache_config_fields pc))) = map Inr (config_codes pc)"
  using config_prop_codes by (simp add: config_names config_codes_def)

lemma config_codes_distinct: "distinct (config_codes pc)"
  by (simp add: config_codes_def prop_codes)

lemma config_prop_map:
  "list_all2 (\<lambda>f c. \<exists>b. prop_map c pc = Inr (WProp c b (snd f)))
     (tl (cache_config_fields pc)) (config_codes pc)"
  by (simp add: cache_config_fields_def config_codes_def prop_map_def prop_table_def prop_codes) auto


lemma code_put_fresh: "k \<notin> fst ` set d \<Longrightarrow> code_put k v d = d @ [(k, v)]"
  by (induction d) auto

lemma compact_zip:
  assumes "length ks = length vs" and "''length'' \<notin> set ks" and "map prop_code_of ks = map Inr cs"
    and "distinct cs" and "fst ` set result \<inter> set cs = {}"
  shows "compact_cache_config result (zip ks vs) = Inr (result @ zip cs vs)"
  using assms
proof (induction ks vs arbitrary: cs result rule: list_induct2)
  case (Cons k ks v vs)
  then obtain c cs' where cs: "cs = c # cs'" "prop_code_of k = Inr c" by (cases cs) auto
  have "compact_cache_config (result @ [(c, v)]) (zip ks vs) = Inr ((result @ [(c, v)]) @ zip cs' vs)"
    using Cons.prems cs by (intro Cons.IH) auto
  moreover have "code_put c v result = result @ [(c, v)]" using Cons.prems cs by (intro code_put_fresh) auto
  ultimately show ?case using Cons.prems(1) cs by auto
qed simp

definition property_names :: "nat \<Rightarrow> nat \<Rightarrow> string list" where
  "property_names i n = map (\<lambda>j. ''property_'' @ nat_string j) [i..<i + n]"

lemma property_names_length: "length (property_names i n) = n"
  by (simp add: property_names_def)

lemma collect_props_zip:
  assumes "length cs = length vs" and "list_all2 (\<lambda>c t. prop_map c pc = Inr t) cs ts"
    and "PROP_EXPIRY_POLICY \<in> set cs \<longrightarrow> is_expiry_policy_supported pc"
  shows "collect_props pc i (zip cs vs) =
    Inr (zip (property_names i (length cs)) ts, zip (property_names i (length cs)) vs)"
  using assms
proof (induction cs vs arbitrary: i ts rule: list_induct2)
  case Nil
  then show ?case by (simp add: property_names_def)
next
  case (Cons c cs v vs)
  then obtain t ts' where ts: "ts = t # ts'" "prop_map c pc = Inr t" "list_all2 (\<lambda>c t. prop_map c pc = Inr t) cs ts'"
    by (cases ts) auto
  have "property_names i (length (c # cs)) = (''property_'' @ nat_string i) # property_names (Suc i) (length cs)"
    by (simp add: property_names_def upt_conv_Cons del: upt_Suc)
  with Cons.prems ts Cons.IH [OF ts(3)] show ?case by auto
qed

text \<open>The numbering of the properties is injective, so every value reaches its own property.\<close>

definition digits_nat :: "string \<Rightarrow> nat" where
  "digits_nat = foldl (\<lambda>n c. 10 * n + (of_char c - 48)) 0"

lemma digits_nat_string: "digits_nat (nat_string n) = n"
proof (induction n rule: nat_string.induct)
  case (1 n)
  have d: "of_char (char_of (48 + k) :: char) = 48 + k" if "k < 10" for k :: nat
    using that by (simp add: of_char_of)
  show ?case
  proof (cases "n < 10")
    case True
    then show ?thesis using d [of n] by (simp add: nat_string.simps [of n] digits_nat_def)
  next
    case False
    with 1 have "digits_nat (nat_string (n div 10)) = n div 10" by blast
    then show ?thesis using False d [of "n mod 10"] by (simp add: nat_string.simps [of n] digits_nat_def)
  qed
qed

lemma property_names_distinct: "distinct (property_names i n)"
proof -
  have "inj nat_string" by (rule inj_on_inverseI [where g = digits_nat]) (rule digits_nat_string)
  then have "inj_on (\<lambda>j. ''property_'' @ nat_string j) A" for A by (auto simp: inj_on_def)
  then show ?thesis by (simp add: property_names_def distinct_map)
qed

text \<open>
  C33. A cache configuration is read/write-symmetrical: every field of the structure the server's
  answer is read with has a property code, no two the same one, and the property class of that code
  writes with the data class the field was read with. So the dictionary of any configuration a
  server sends turns into properties that \<open>cache_create_with_config\<close> accepts, one per field, each
  with its own name, class and value.
\<close>

theorem config_read_write_symmetric:
  assumes "length vs = length (cache_config_fields pc)"
  shows "\<exists>cs ts names. compact_cache_config [] (zip (map fst (cache_config_fields pc)) vs) = Inr (zip cs (tl vs)) \<and>
    distinct cs \<and> collect_props pc 0 (zip cs (tl vs)) = Inr (zip names ts, zip names (tl vs)) \<and>
    distinct names \<and> length names = length (tl vs) \<and>
    list_all2 (\<lambda>(k, t) (c, p). prop_code_of k = Inr c \<and> (\<exists>timeout. p = WProp c timeout t))
      (tl (cache_config_fields pc)) (zip cs ts)"
proof -
  let ?fs = "cache_config_fields pc" and ?cs = "config_codes pc"
  have l: "length ?cs = length (tl ?fs)" by (rule list_all2_lengthD [OF config_prop_map, symmetric])
  define ts where "ts = map (\<lambda>c. projr (prop_map c pc)) ?cs"
  have lt: "length ts = length ?cs" by (simp add: ts_def)
  have pm: "prop_map (?cs ! i) pc = Inr (ts ! i)" "\<exists>b. ts ! i = WProp (?cs ! i) b (snd (tl ?fs ! i))"
    if "i < length ?cs" for i
    using list_all2_nthD2 [OF config_prop_map that] that by (auto simp: ts_def)
  define ks where "ks = tl (map fst ?fs)"
  have m: "map fst ?fs = ''length'' # ks" by (simp add: ks_def config_names)
  have pk: "map prop_code_of ks = map Inr ?cs" unfolding ks_def by (rule config_prop_codes_of)
  have "length ks = length (tl vs)" using assms by (simp add: ks_def)
  moreover have "''length'' \<notin> set ks" by (simp add: ks_def config_names)
  ultimately have "compact_cache_config [] (zip ks (tl vs)) = Inr (zip ?cs (tl vs))"
    using compact_zip [of ks "tl vs" ?cs "[]"] pk config_codes_distinct by simp
  moreover obtain v vs' where "vs = v # vs'" using arg_cong [OF m, of length] assms by (cases vs) simp_all
  ultimately have c: "compact_cache_config [] (zip (map fst ?fs) vs) = Inr (zip ?cs (tl vs))"
    by (simp add: m)
  have "list_all2 (\<lambda>c t. prop_map c pc = Inr t) ?cs ts" using pm lt by (simp add: list_all2_conv_all_nth)
  moreover have "PROP_EXPIRY_POLICY \<in> set ?cs \<longrightarrow> is_expiry_policy_supported pc"
    by (simp add: config_codes_def prop_codes)
  ultimately have p: "collect_props pc 0 (zip ?cs (tl vs)) =
      Inr (zip (property_names 0 (length ?cs)) ts, zip (property_names 0 (length ?cs)) (tl vs))"
    using assms l by (intro collect_props_zip) simp_all
  have "list_all2 (\<lambda>(k, t) (c, p). prop_code_of k = Inr c \<and> (\<exists>timeout. p = WProp c timeout t)) (tl ?fs) (zip ?cs ts)"
  proof (rule list_all2_all_nthI)
    fix i assume i: "i < length (tl ?fs)"
    have "map prop_code_of ks ! i = map Inr ?cs ! i" by (simp only: pk)
    then have "prop_code_of (fst (tl ?fs ! i)) = Inr (?cs ! i)"
      using i l by (simp add: ks_def map_tl [symmetric])
    with pm(2) [of i] i l lt show "(\<lambda>(k, t) (c, p). prop_code_of k = Inr c \<and> (\<exists>timeout. p = WProp c timeout t))
        (tl ?fs ! i) (zip ?cs ts ! i)"
      by (cases "tl ?fs ! i") simp
  qed (use l lt in simp)
  with c p config_codes_distinct property_names_distinct l assms show ?thesis
    by (intro exI [of _ ?cs] exI [of _ ts] exI [of _ "property_names 0 (length ?cs)"])
      (simp add: property_names_length)
qed


theorem config_read_write_symmetric_witness:
  "\<exists>cs ts names. collect_props (new_protocol_context (1, 6, 0) None) 0 (zip cs (replicate 31 (WV VNone))) =
     Inr (zip names ts, zip names (replicate 31 (WV VNone))) \<and> distinct names \<and> length names = 31"
proof -
  let ?pc = "new_protocol_context (1, 6, 0) None"
  let ?vs = "replicate 32 (WV VNone)"
  have "is_expiry_policy_supported ?pc"
    by (simp add: is_expiry_policy_supported_def new_protocol_context_def ensure_consistency_def
        is_feature_flags_supported_def version_ge_def)
  then have "length ?vs = length (map fst (cache_config_fields ?pc))" by (simp add: config_names)
  then have "length ?vs = length (cache_config_fields ?pc)" by simp
  from config_read_write_symmetric [OF this] show ?thesis by auto
qed

end
