(* ===== verification/Services.thy ===== *)
theory Services
  imports Sql
begin

section \<open>Cluster, transaction and binary type services\<close>

text \<open>
  \<open>api/cluster.py\<close>, \<open>api/tx_api.py\<close> and \<open>api/binary.py\<close>. The current transaction is the
  context variable \<open>__CURRENT_TX\<close>, the field \<open>e_tx\<close> of the environment; its connection is the
  one the environment stands for.
\<close>

definition OP_GET_BINARY_TYPE :: int where "OP_GET_BINARY_TYPE = 3002"
definition OP_PUT_BINARY_TYPE :: int where "OP_PUT_BINARY_TYPE = 3003"
definition OP_TX_START :: int where "OP_TX_START = 4000"
definition OP_TX_END :: int where "OP_TX_END = 4001"
definition OP_CLUSTER_GET_STATE :: int where "OP_CLUSTER_GET_STATE = 5000"
definition OP_CLUSTER_CHANGE_STATE :: int where "OP_CLUSTER_CHANGE_STATE = 5001"

subsection \<open>Cluster state\<close>

text \<open>\<open>ClusterState\<close> is an \<open>IntEnum\<close>, compared and written as its integer.\<close>

definition cluster_states :: "int list" where "cluster_states = [0, 1, 2]"

definition new_cluster_state :: "wval \<Rightarrow> wval res" where
  "new_cluster_state v =
     (case v of
        WV (VInt i) \<Rightarrow> if i \<in> set cluster_states then Inr v else Inl ValueError
      | _ \<Rightarrow> Inl ValueError)"

definition post_process_get_state :: "api_result \<Rightarrow> api_result res" where
  "post_process_get_state result =
     (if r_status result = 0
      then rbind (rbind (wfield ''state'' (r_value result)) new_cluster_state) (\<lambda>s. Inr (result\<lparr>r_value := s\<rparr>))
      else Inr result)"

definition cluster_get_state_query :: "'r performer \<Rightarrow> 'r" where
  "cluster_get_state_query perf =
     perf OP_CLUSTER_GET_STATE [] [] (Response [(''state'', WPrim TByte)]) post_process_get_state"

definition cluster_get_state :: "'s net \<Rightarrow> ('s env, api_result) run" where
  "cluster_get_state net env =
     (if \<not> is_cluster_api_supported (e_protocol env) then (Inl NotSupportedByClusterError, env)
      else cluster_get_state_query (query_perform net) env)"

definition cluster_set_state_query :: "'r performer \<Rightarrow> int \<Rightarrow> 'r" where
  "cluster_set_state_query perf state =
     perf OP_CLUSTER_CHANGE_STATE [(''state'', WPrim TByte)] [(''state'', WV (VInt state))] (Response []) no_post_process"

definition cluster_set_state :: "'s net \<Rightarrow> int \<Rightarrow> ('s env, api_result) run" where
  "cluster_set_state net state env =
     (if state \<notin> set cluster_states then (Inl ClusterError, env)
      else if \<not> is_cluster_api_supported (e_protocol env) then (Inl NotSupportedByClusterError, env)
      else cluster_set_state_query (query_perform net) state env)"

subsection \<open>Transactions\<close>

definition tx_start_post_process :: "api_result \<Rightarrow> ('s env, api_result) run" where
  "tx_start_post_process result env =
     (if r_status result = 0
      then (case rbind (wfield ''tx_id'' (r_value result)) as_val of
              Inr (VInt tx_id) \<Rightarrow> (Inr (result\<lparr>r_value := WV (VInt tx_id)\<rparr>), env\<lparr>e_tx := Some tx_id\<rparr>)
            | Inr v \<Rightarrow> (Inl TypeError, env)
            | Inl e \<Rightarrow> (Inl e, env))
      else (Inr result, env))"

definition tx_start_query :: "'r performer \<Rightarrow> pyval \<Rightarrow> pyval \<Rightarrow> pyval \<Rightarrow> pyval \<Rightarrow> 'r" where
  "tx_start_query perf concurrency isolation timeout label =
     perf OP_TX_START
       [(''concurrency'', WPrim TByte), (''isolation'', WPrim TByte), (''timeout'', WPrim TLong),
        (''label'', string_object)]
       [(''concurrency'', WV concurrency), (''isolation'', WV isolation), (''timeout'', WV timeout),
        (''label'', WV label)]
       (Response [(''tx_id'', WPrim TInt)]) no_post_process"

definition tx_start ::
  "'s net \<Rightarrow> pyval \<Rightarrow> pyval \<Rightarrow> pyval \<Rightarrow> pyval \<Rightarrow> ('s env, api_result) run"
where
  "tx_start net concurrency isolation timeout label =
     run_bind (tx_start_query (query_perform net) concurrency isolation timeout label) tx_start_post_process"

definition tx_end_query :: "'r performer \<Rightarrow> int \<Rightarrow> pyval \<Rightarrow> 'r" where
  "tx_end_query perf tx_id committed =
     perf OP_TX_END [(''tx_id'', WPrim TInt), (''committed'', WPrim TBool)]
       [(''tx_id'', WV (VInt tx_id)), (''committed'', WV committed)] (Response []) no_post_process"

text \<open>The \<open>finally\<close> clause forgets the transaction however the query ends.\<close>

definition tx_end :: "'s net \<Rightarrow> int \<Rightarrow> pyval \<Rightarrow> ('s env, api_result) run" where
  "tx_end net tx_id committed env =
     (if e_tx env \<noteq> Some tx_id then (Inl CacheError, env)
      else
        (case tx_end_query (query_perform net) tx_id committed env of
           (outcome, env') \<Rightarrow> (outcome, env'\<lparr>e_tx := None\<rparr>)))"

subsection \<open>Binary types\<close>

definition get_binary_type :: "'r performer \<Rightarrow> ident option \<Rightarrow> 'r" where
  "get_binary_type perf binary_type =
     perf OP_GET_BINARY_TYPE [(''type_id'', WPrim TInt)]
       [(''type_id'', WV (case entity_id binary_type of None \<Rightarrow> VNone | Some i \<Rightarrow> VInt i))]
       BinaryTypeResponse no_post_process"

definition name_id :: "pystr \<Rightarrow> int" where
  "name_id s = hashcode_fallback (HStr (py_lower s))"

lemma name_id_entity: "entity_id (Some (IStr s)) = Some (name_id s)"
  by (simp add: name_id_def)

text \<open>The post-processing names the function \<open>schema_id\<close>, not the identifier computed before.\<close>

definition post_process_put_binary :: "int \<Rightarrow> api_result \<Rightarrow> api_result res" where
  "post_process_put_binary type_id result =
     (if r_status result = 0
      then Inr (result\<lparr>r_value := WD [(''type_id'', WV (VInt type_id)), (''schema_id'', WFunction ''schema_id'')]\<rparr>)
      else Inr result)"

definition code_of_type :: "pyval \<Rightarrow> int res" where
  "code_of_type v =
     (case v of
        VType d \<Rightarrow> (case type_code d of None \<Rightarrow> Inl AttributeError | Some c \<Rightarrow> Inr (uint c))
      | _ \<Rightarrow> Inl AttributeError)"

definition binary_field_entry :: "pystr \<times> pyval \<Rightarrow> wval res" where
  "binary_field_entry x =
     rbind (code_of_type (snd x)) (\<lambda>c.
       Inr (WD [(''field_name'', WV (VStr (fst x))), (''type_id'', WV (VInt c)),
         (''field_id'', WV (VInt (name_id (fst x))))]))"

definition enum_entry :: "pystr \<times> pyval \<Rightarrow> wval" where
  "enum_entry x = WD [(''literal'', WV (VStr (fst x))), (''type_id'', WV (snd x))]"

definition schema_entry :: "pyval \<Rightarrow> (pystr \<times> pyval) list \<Rightarrow> wval" where
  "schema_entry s_id schema =
     WD [(''schema_id'', WV s_id),
       (''schema_fields'', WL (map (\<lambda>x. WD [(''schema_field_id'', WV (VInt (name_id (fst x))))]) schema))]"

text \<open>For an enum the schema identifier stays \<open>None\<close>.\<close>

definition put_binary_params ::
  "pystr \<Rightarrow> pyval \<Rightarrow> pyval \<Rightarrow> (pystr \<times> pyval) list \<Rightarrow> (string \<times> wval) list res"
where
  "put_binary_params type_name affinity_key_field is_enum schema =
     (if truthy is_enum
      then Inr
        [(''type_name'', WV (VStr type_name)), (''type_id'', WV (VInt (name_id type_name))),
         (''affinity_key_field'', WV affinity_key_field), (''binary_fields'', WL []),
         (''is_enum'', WV is_enum), (''schema'', WL [schema_entry VNone schema]),
         (''enums'', WL (map enum_entry schema))]
      else
        rbind (rmap binary_field_entry schema) (\<lambda>fields. Inr
          [(''type_name'', WV (VStr type_name)), (''type_id'', WV (VInt (name_id type_name))),
           (''affinity_key_field'', WV affinity_key_field), (''binary_fields'', WL fields),
           (''is_enum'', WV is_enum),
           (''schema'', WL [schema_entry (VInt (schema_id_fallback (SchemaDict (map fst schema)))) schema])]))"

definition put_binary_fields :: "pyval \<Rightarrow> (string \<times> wtype) list" where
  "put_binary_fields is_enum =
     [(''type_id'', WPrim TInt), (''type_name'', string_object), (''affinity_key_field'', string_object),
      (''binary_fields'', binary_fields_struct), (''is_enum'', WPrim TBool)] @
     (if truthy is_enum then [(''enums'', enum_struct)] else []) @
     [(''schema'', schema_struct)]"

definition put_binary_query :: "'r performer \<Rightarrow> pystr \<Rightarrow> pyval \<Rightarrow> (string \<times> wval) list \<Rightarrow> 'r" where
  "put_binary_query perf type_name is_enum data =
     perf OP_PUT_BINARY_TYPE (put_binary_fields is_enum) data (Response [])
       (post_process_put_binary (name_id type_name))"

definition put_binary_type ::
  "'s net \<Rightarrow> pystr \<Rightarrow> pyval \<Rightarrow> pyval \<Rightarrow> (pystr \<times> pyval) list \<Rightarrow> ('s env, api_result) run"
where
  "put_binary_type net type_name affinity_key_field is_enum schema =
     run_bind (run_res (put_binary_params type_name affinity_key_field is_enum schema)) 
       (put_binary_query (query_perform net) type_name is_enum)"

end
