(* ===== verification/Partitions.thy ===== *)
theory Partitions
  imports KeyValue
begin

section \<open>Partition mappings\<close>

text \<open>
  \<open>api/affinity.py\<close>: the request for the partition mappings of caches, whose answer contains
  conditional structures, and its post-processing. The result, a dict of dicts with sets, is a
  record per cache.
\<close>

definition OP_CACHE_PARTITIONS :: int where "OP_CACHE_PARTITIONS = 1101"

subsection \<open>Structures\<close>

definition cache_ids :: wtype where
  "cache_ids = WStructArray [(''cache_id'', WPrim TInt)] []"

definition cache_config :: wtype where
  "cache_config = WStructArray [(''key_type_id'', WPrim TInt), (''affinity_key_field_id'', WPrim TInt)] []"

definition node_partitions :: wtype where
  "node_partitions = WStructArray [(''partition_id'', WPrim TInt)] []"

definition node_mapping :: wtype where
  "node_mapping = WStructArray
     [(''node_uuid'', WObject (Standard UUIDObject)), (''node_partitions'', node_partitions)] []"

definition cache_mapping :: wtype where
  "cache_mapping = WStructArray [(''cache_id'', WPrim TInt), (''cache_config'', cache_config)] []"

definition empty_cache_mapping :: wtype where
  "empty_cache_mapping = WStructArray [(''cache_id'', WPrim TInt)] []"

definition empty_node_mapping :: wtype where
  "empty_node_mapping = WStruct [] []"

definition applicable_parsed :: "(string \<times> cobj option) list \<Rightarrow> bool" where
  "applicable_parsed ctx =
     (case map_of ctx ''is_applicable'' of Some (Some ob) \<Rightarrow> as_int ob = Inr 1 | _ \<Rightarrow> False)"

definition applicable_converted :: "(string \<times> wval) list \<Rightarrow> bool" where
  "applicable_converted ctx =
     (case map_of ctx ''is_applicable'' of Some (WV v) \<Rightarrow> truthy v | _ \<Rightarrow> False)"

definition partition_mapping :: wtype where
  "partition_mapping = WStructArray
     [(''is_applicable'', WPrim TBool),
      (''cache_mapping'', WConditional [''is_applicable''] applicable_parsed applicable_converted
         cache_mapping empty_cache_mapping),
      (''node_mapping'', WConditional [''is_applicable''] applicable_parsed applicable_converted
         node_mapping empty_node_mapping)] []"

subsection \<open>Post-processing\<close>

record partition_info =
  pi_applicable :: bool
  pi_config :: "(pyval \<times> pyval) list"
  pi_nodes :: "(pyval \<times> pyval list) list"
  pi_partitions :: nat

record partitions_result =
  pr_version :: "pyval \<times> pyval"
  pr_mapping :: "(pyval \<times> partition_info) list"

fun key_put :: "pyval \<Rightarrow> 'a \<Rightarrow> (pyval \<times> 'a) list \<Rightarrow> (pyval \<times> 'a) list" where
  "key_put k v [] = [(k, v)]"
| "key_put k v ((k', v') # d) = (if py_eq k k' then (k', v) # d else (k', v') # key_put k v d)"

definition wfield_val :: "string \<Rightarrow> wval \<Rightarrow> pyval res" where
  "wfield_val k v = rbind (wfield k v) as_val"

definition wfield_seq :: "string \<Rightarrow> wval \<Rightarrow> wval list res" where
  "wfield_seq k v = rbind (wfield k v) wseq"

definition node_entry :: "wval \<Rightarrow> (pyval \<times> pyval list) res" where
  "node_entry p =
     rbind (wfield_val ''node_uuid'' p) (\<lambda>uuid.
     rbind (wfield_seq ''node_partitions'' p) (\<lambda>xs.
     rbind (rmap (wfield_val ''partition_id'') xs) (\<lambda>ids. Inr (uuid, remdups ids))))"

definition node_map :: "wval \<Rightarrow> (pyval \<times> pyval list) list res" where
  "node_map partition_map =
     rbind (wfield_seq ''node_mapping'' partition_map) (\<lambda>ps.
     rbind (rmap node_entry ps) (\<lambda>kvs. Inr (fold (\<lambda>(k, v). key_put k v) kvs [])))"

definition config_entry :: "wval \<Rightarrow> (pyval \<times> pyval) res" where
  "config_entry a =
     rbind (wfield_val ''key_type_id'' a) (\<lambda>k. rbind (wfield_val ''affinity_key_field_id'' a) (\<lambda>v. Inr (k, v)))"

definition cache_entry :: "bool \<Rightarrow> (pyval \<times> pyval list) list \<Rightarrow> wval \<Rightarrow> (pyval \<times> partition_info) res" where
  "cache_entry is_applicable nodes cache_info =
     rbind (wfield_val ''cache_id'' cache_info) (\<lambda>cache_id.
     rbind (if is_applicable
            then rbind (rbind (wfield_seq ''cache_config'' cache_info) (rmap config_entry)) (\<lambda>kvs.
              Inr (fold (\<lambda>(k, v). key_put k v) kvs []))
            else Inr []) (\<lambda>config.
       Inr (cache_id, \<lparr>pi_applicable = is_applicable, pi_config = config, pi_nodes = nodes,
         pi_partitions = (if is_applicable then sum_list (map (\<lambda>x. length (snd x)) nodes) else 0)\<rparr>)))"

definition partition_entry ::
  "wval \<Rightarrow> (pyval \<times> partition_info) list \<Rightarrow> (pyval \<times> partition_info) list res"
where
  "partition_entry partition_map mapping =
     rbind (wfield_val ''is_applicable'' partition_map) (\<lambda>a.
     rbind (if truthy a then node_map partition_map else Inr []) (\<lambda>nodes.
     rbind (rbind (wfield_seq ''cache_mapping'' partition_map) (rmap (cache_entry (truthy a) nodes))) (\<lambda>kvs.
       Inr (fold (\<lambda>(k, v). key_put k v) kvs mapping))))"

definition post_process_partitions :: "api_result \<Rightarrow> (api_result \<times> partitions_result option) res" where
  "post_process_partitions result =
     (if r_status result = 0
      then
        rbind (wfield_val ''version_major'' (r_value result)) (\<lambda>major.
        rbind (wfield_val ''version_minor'' (r_value result)) (\<lambda>minor.
        rbind (rbind (wfield_seq ''partition_mapping'' (r_value result)) (\<lambda>ps. rfold partition_entry ps [])) (\<lambda>m.
          Inr (result, Some \<lparr>pr_version = (major, minor), pr_mapping = m\<rparr>))))
      else Inr (result, None))"

subsection \<open>The operation\<close>

definition partitions_query :: "'r performer \<Rightarrow> pyval \<Rightarrow> 'r" where
  "partitions_query perf caches =
     perf OP_CACHE_PARTITIONS [(''cache_ids'', cache_ids)]
       [(''cache_ids'', WL (map (\<lambda>c. WD [(''cache_id'', WV c)])
          (case py_seq caches of Inl e \<Rightarrow> [caches] | Inr xs \<Rightarrow> xs)))]
       (Response [(''version_major'', WPrim TLong), (''version_minor'', WPrim TInt),
         (''partition_mapping'', partition_mapping)]) no_post_process"

definition cache_get_node_partitions ::
  "'s net \<Rightarrow> pyval \<Rightarrow> ('s env, api_result \<times> partitions_result option) run"
where
  "cache_get_node_partitions net caches =
     run_bind (partitions_query (query_perform net) caches)
       (\<lambda>result. run_res (post_process_partitions result))"

end
