(* ===== verification/Handshake.thy ===== *)
theory Handshake
  imports StructTrip
begin

section \<open>Handshake\<close>

text \<open>
  \<open>connection/handshake.py\<close>: the handshake request with its length field, and the response,
  whose fields depend on its operation code and on the protocol version.
\<close>

definition OP_HANDSHAKE :: int where "OP_HANDSHAKE = 1"
definition USER_ATTR_TIMEZONE :: pystr where "USER_ATTR_TIMEZONE = map of_char ''client.timezone''"
definition HASH_MAP :: int where "HASH_MAP = 1"

subsection \<open>Request\<close>

text \<open>\<open>if username and password\<close>: both given and not empty.\<close>

definition has_credentials :: "pystr option \<Rightarrow> pystr option \<Rightarrow> bool" where
  "has_credentials username password \<longleftrightarrow> username \<notin> {None, Some []} \<and> password \<notin> {None, Some []}"

definition handshake_struct ::
  "protocol_context \<Rightarrow> pystr option \<Rightarrow> pystr option \<Rightarrow> (string \<times> wtype) list"
where
  "handshake_struct pc username password =
     [(''length'', WPrim TInt), (''op_code'', WPrim TByte), (''version_major'', WPrim TShort),
      (''version_minor'', WPrim TShort), (''version_patch'', WPrim TShort), (''client_code'', WPrim TByte)] @
     (if is_feature_flags_supported pc then [(''features'', WObject (PrimitiveArrayObject TByte))] else []) @
     (if is_user_attributes_supported pc then [(''user_attributes'', WObject MapObject)] else []) @
     (if has_credentials username password
      then [(''username'', WObject (Standard String)), (''password'', WObject (Standard String))] else [])"

definition py_str :: "pystr option \<Rightarrow> pyval" where
  "py_str s = (case s of None \<Rightarrow> VNone | Some t \<Rightarrow> VStr t)"

text \<open>\<open>bytes(features)\<close> is a \<open>TypeError\<close> when the context has no features.\<close>

definition request_features :: "protocol_context \<Rightarrow> byte list res" where
  "request_features pc =
     (if is_feature_flags_supported pc
      then (case pc_features pc of None \<Rightarrow> Inl TypeError | Some f \<Rightarrow> Inr (features_bytes f))
      else Inr [])"

definition handshake_length ::
  "protocol_context \<Rightarrow> byte list \<Rightarrow> pystr option \<Rightarrow> pystr option \<Rightarrow> pystr option \<Rightarrow> int"
where
  "handshake_length pc features username password timezone =
     8 + (if is_feature_flags_supported pc then 5 + int (length features) else 0) +
     (if is_user_attributes_supported pc
      then 6 + 5 + int (length USER_ATTR_TIMEZONE) +
        (case timezone of None \<Rightarrow> 1 | Some tz \<Rightarrow> if tz = [] then 1 else 5 + int (length tz))
      else 0) +
     (if has_credentials username password
      then 10 + int (length (the username)) + int (length (the password)) else 0)"

definition create_handshake_data ::
  "protocol_context \<Rightarrow> pystr option \<Rightarrow> pystr option \<Rightarrow> pystr option \<Rightarrow> (string \<times> wval) list res"
where
  "create_handshake_data pc username password timezone =
     rbind (request_features pc) (\<lambda>features.
       case pc_version pc of (major, minor, patch) \<Rightarrow> Inr (
         [(''length'', WV (VInt (handshake_length pc features username password timezone))),
          (''op_code'', WV (VInt OP_HANDSHAKE)), (''version_major'', WV (VInt major)),
          (''version_minor'', WV (VInt minor)), (''version_patch'', WV (VInt patch)),
          (''client_code'', WV (VInt 2))] @
         (if is_feature_flags_supported pc then [(''features'', WV (VBytes features))] else []) @
         (if is_user_attributes_supported pc
          then [(''user_attributes'', WV (VTuple [VInt HASH_MAP,
            VDict False [(VStr USER_ATTR_TIMEZONE, py_str timezone)]]))] else []) @
         (if has_credentials username password
          then [(''username'', WV (py_str username)), (''password'', WV (py_str password))] else [])))"

definition handshake_from_python ::
  "protocol_context \<Rightarrow> pystr option \<Rightarrow> pystr option \<Rightarrow> pystr option \<Rightarrow> bstream \<Rightarrow> bstream res"
where
  "handshake_from_python pc username password timezone st =
     rbind (create_handshake_data pc username password timezone) (\<lambda>data.
       put_fields None (handshake_struct pc username password) data st)"

subsection \<open>Response\<close>

definition response_start :: "(string \<times> wtype) list" where
  "response_start = [(''length'', WPrim TInt), (''op_code'', WPrim TByte)]"

definition response_end :: "(string \<times> wval) list \<Rightarrow> protocol_context \<Rightarrow> (string \<times> wtype) list res" where
  "response_end start_data pc =
     rbind (dget ''op_code'' start_data) (\<lambda>op_code. Inr (
       if op_code = WV (VInt 0)
       then [(''version_major'', WPrim TShort), (''version_minor'', WPrim TShort),
         (''version_patch'', WPrim TShort), (''message'', WObject (Standard String)),
         (''client_status'', WPrim TInt)]
       else if is_feature_flags_supported pc
       then [(''features'', WObject (PrimitiveArrayObject TByte)), (''node_uuid'', WObject (Standard UUIDObject))]
       else if is_partition_awareness_supported pc
       then [(''node_uuid'', WObject (Standard UUIDObject))]
       else []))"

definition read_struct ::
  "nat \<Rightarrow> (string \<times> wtype) list \<Rightarrow> bstream \<Rightarrow> ((string \<times> wval) list \<times> bstream) res"
where
  "read_struct n fs st =
     rbind (get_w n [] (WStruct fs []) st) (\<lambda>(t, st1).
     rbind (read_ctype_backward t st1) (\<lambda>(ob, st2).
     rbind (conv_fields [] fs ob) (\<lambda>d. Inr (d, st2))))"

definition dict_update :: "(string \<times> 'a) list \<Rightarrow> (string \<times> 'a) list \<Rightarrow> (string \<times> 'a) list" where
  "dict_update d e = fold (\<lambda>(k, v). dput k v) e d"

definition handshake_parse ::
  "nat \<Rightarrow> protocol_context \<Rightarrow> bstream \<Rightarrow> ((string \<times> wval) list \<times> bstream) res"
where
  "handshake_parse n pc st =
     rbind (read_struct n response_start st) (\<lambda>(data, st1).
     rbind (response_end data pc) (\<lambda>fs.
       if fs = [] then Inr (data, st1)
       else rbind (read_struct n fs st1) (\<lambda>(e, st2). Inr (dict_update data e, st2))))"

end
