(* ===== verification/HandshakeProps.thy ===== *)
theory HandshakeProps
  imports Handshake Requests
begin

section \<open>The length of a handshake request\<close>

text \<open>
  The request computes its length field from the lengths of its strings in characters. The lemmas
  compute what is actually written.
\<close>

abbreviation adds :: "nat \<Rightarrow> (bstream \<Rightarrow> bstream res) \<Rightarrow> bool" where
  "adds n \<equiv> appends (\<lambda>b bs. length bs = n)"

lemma adds_write: "(\<And>bs. r = Inr bs \<Longrightarrow> length bs = n) \<Longrightarrow> adds n (write_res r)"
  by (rule appends_mono [OF appends_write_res]) blast

lemma adds_bind: "adds n f \<Longrightarrow> adds m g \<Longrightarrow> adds (n + m) (\<lambda>s. rbind (f s) g)"
  by (rule appends_mono [OF appends_bind]) auto

lemma adds_fields:
  assumes "list_all2 (\<lambda>x n. \<exists>u. dget (fst x) d = Inr u \<and> adds n (put_w tx (snd x) u)) fs ns"
  shows "adds (sum_list ns) (put_fields tx fs d)"
  using assms
proof (induction fs ns rule: list_all2_induct)
  case Nil
  have "put_fields tx [] d = Inr" by (simp add: fun_eq_iff)
  then show ?case by (auto intro: appends_mono [OF appends_Inr])
next
  case (Cons x fs n ns)
  obtain name t where x: "x = (name, t)" by (cases x)
  from Cons.hyps(1) x obtain u where u: "dget name d = Inr u" "adds n (put_w tx t u)" by auto
  have "put_fields tx (x # fs) d = (\<lambda>s. rbind (put_w tx t u s) (put_fields tx fs d))"
    by (rule ext) (simp add: x u(1))
  then show ?case using adds_bind [OF u(2) Cons.IH] by simp
qed

subsection \<open>The fields of the request\<close>

lemma adds_int:
  assumes "int_prim p"
  shows "adds (sizeof_ct (prim_ct p)) (put_w tx (WPrim p) (WV (VInt i)))"
proof -
  have "put_w tx (WPrim p) (WV (VInt i)) = write_res (prim_from_python p (VInt i))"
    by (rule ext) (simp add: as_val_def)
  moreover have "length bs = sizeof_ct (prim_ct p)" if "prim_from_python p (VInt i) = Inr bs" for bs
    using that assms by (auto simp: int_prim_def pack_int_def struct_pack_Inr_iff)
  ultimately show ?thesis by (simp add: adds_write)
qed

lemma adds_leaf:
  assumes "\<And>bs. leaf_from_python d v = Inr bs \<Longrightarrow> length bs = n"
    and "d \<notin> {AnyDataObject, ObjectArrayObject, CollectionObject, MapObject, BinaryObject} \<or>
      (v = VNone \<and> d \<noteq> AnyDataObject)"
  shows "adds n (from_py d v)"
proof -
  have "from_py d v = write_res (leaf_from_python d v)"
    using from_py_leaf [OF assms(2)] by (simp add: fun_eq_iff write_leaf_def write_res_def)
  with assms(1) show ?thesis by (simp add: adds_write)
qed

lemma adds_object: "adds n (from_py d v) \<Longrightarrow> adds n (put_w tx (WObject d) (WV v))"
proof -
  have "put_w tx (WObject d) (WV v) = from_py d v" by (rule ext) (simp add: as_val_def)
  then show "adds n (from_py d v) \<Longrightarrow> adds n (put_w tx (WObject d) (WV v))" by simp
qed

definition utf8_len :: "pystr \<Rightarrow> nat" where
  "utf8_len s = (case utf8_encode s of Inl e \<Rightarrow> 0 | Inr b \<Rightarrow> length b)"

lemma padded: "length (takeWhile P b) + (length b - length (takeWhile P b)) = length b"
  using length_takeWhile_le [of P b] by simp

lemma adds_string: "adds (5 + utf8_len s) (from_py (Standard String) (VStr s))"
proof (rule adds_leaf)
  fix bs assume "leaf_from_python (Standard String) (VStr s) = Inr bs"
  then show "length bs = 5 + utf8_len s"
    by (auto simp: leaf_from_python_def std_from_python_not_null_def string_from_python_def string_ct_def
        string_obj_def code_obj_def Let_def rbind_eq_Inr_iff utf8_len_def padded)
qed simp

lemma adds_bytes: "adds (5 + length b) (from_py (PrimitiveArrayObject TByte) (VBytes b))"
proof (rule adds_leaf)
  fix bs assume "leaf_from_python (PrimitiveArrayObject TByte) (VBytes b) = Inr bs"
  then show "length bs = 5 + length b"
    by (auto simp: leaf_from_python_def prim_array_object_from_python_def byte_array_payload_def
        write_length_def int_to_bytes_def rbind_eq_Inr_iff split: if_splits)
qed simp

lemma adds_infer_string: "adds (5 + utf8_len s) (infer (VStr s))"
proof -
  have "infer (VStr s) = from_py (Standard String) (VStr s)"
    by (simp add: fun_eq_iff hinted_def from_py_any map_python_type_def python_map_def)
  then show ?thesis by (simp add: adds_string)
qed

lemma adds_infer_none: "adds 1 (infer VNone)"
proof -
  have "infer VNone = from_py Null VNone"
    by (simp add: fun_eq_iff hinted_def from_py_any map_python_type_def python_map_def)
  moreover have "adds 1 (from_py Null VNone)" by (rule adds_leaf) (auto simp: leaf_from_python_def)
  ultimately show ?thesis by simp
qed


lemma adds_map:
  assumes "adds n (infer k)" and "adds m (infer v)"
  shows "adds (6 + n + m) (from_py MapObject (VTuple [VInt HASH_MAP, VDict False [(k, v)]]))"
proof -
  have h: "map_header (VInt HASH_MAP) 1 = Inr (TC_MAP # ct_bytes 4 1 @ ct_bytes 1 1)"
    by (simp add: map_header_def write_length_def int_to_bytes_def in_range_def write_type_id_def HASH_MAP_def)
  have one: "rfold infer_pair [(k, v)] = (\<lambda>s. rbind (infer k s) (infer v))"
    by (rule ext) (simp add: infer_pair_def rbind_def split: sum.splits)
  have "from_py MapObject (VTuple [VInt HASH_MAP, VDict False [(k, v)]]) =
      (\<lambda>st. rbind (swrite (TC_MAP # ct_bytes 4 1 @ ct_bytes 1 1) st) (\<lambda>s. rbind (infer k s) (infer v)))"
    using h by (simp add: from_py_map py_pair_def py_items_def one fun_eq_iff)
  moreover have "adds 6 (swrite (TC_MAP # ct_bytes 4 1 @ ct_bytes 1 1))"
    by (rule appends_mono [OF appends_swrite]) simp
  ultimately show ?thesis using adds_bind [OF _ adds_bind [OF assms], of 6] by (simp add: add.assoc)
qed

lemma adds_timezone: "adds (case tz of None \<Rightarrow> 1 | Some t \<Rightarrow> 5 + utf8_len t) (infer (py_str tz))"
  using adds_infer_none adds_infer_string by (cases tz) (simp_all add: py_str_def)

definition ascii :: "pystr \<Rightarrow> bool" where
  "ascii s \<longleftrightarrow> (\<forall>c \<in> set s. c < 128)"

lemma utf8_len_ascii: "ascii s \<Longrightarrow> utf8_len s = length s"
proof -
  assume "ascii s"
  then have "utf8_encode s = Inr (map of_nat s)" by (intro utf8_encode_ascii) (simp add: ascii_def)
  then show ?thesis by (simp add: utf8_len_def)
qed

lemma timezone_key_length: "utf8_len USER_ATTR_TIMEZONE = length USER_ATTR_TIMEZONE"
  by (rule utf8_len_ascii) (simp add: ascii_def USER_ATTR_TIMEZONE_def)

text \<open>How many bytes more than characters the strings of the request have.\<close>

definition extra_bytes :: "pystr \<Rightarrow> int" where
  "extra_bytes s = int (utf8_len s) - int (length s)"

definition handshake_extra ::
  "protocol_context \<Rightarrow> pystr option \<Rightarrow> pystr option \<Rightarrow> pystr option \<Rightarrow> int"
where
  "handshake_extra pc user pass tz =
     (if is_user_attributes_supported pc then (case tz of None \<Rightarrow> 0 | Some t \<Rightarrow> extra_bytes t) else 0) +
     (if has_credentials user pass then extra_bytes (the user) + extra_bytes (the pass) else 0)"

lemma handshake_adds:
  assumes "create_handshake_data pc user pass tz = Inr d" and "tz \<noteq> Some []"
  shows "\<exists>features n. request_features pc = Inr features \<and> adds n (put_fields None (handshake_struct pc user pass) d) \<and>
    int n = handshake_length pc features user pass tz + 4 + handshake_extra pc user pass tz"
proof -
  obtain major minor patch where v: "pc_version pc = (major, minor, patch)" by (cases "pc_version pc") auto
  from assms(1) obtain f where f: "request_features pc = Inr f"
    by (auto simp: create_handshake_data_def rbind_eq_Inr_iff)
  note d = assms(1) [unfolded create_handshake_data_def f rbind_Inr v prod.case, THEN sum.inject(2) [THEN iffD1], symmetric]
  let ?kz = "6 + (5 + utf8_len USER_ATTR_TIMEZONE) + (case tz of None \<Rightarrow> 1 | Some t \<Rightarrow> 5 + utf8_len t)"
  let ?ns = "[4, 1, 2, 2, 2, 1] @ (if is_feature_flags_supported pc then [5 + length f] else []) @
     (if is_user_attributes_supported pc then [?kz] else []) @
     (if has_credentials user pass then [5 + utf8_len (the user), 5 + utf8_len (the pass)] else [])"
  have i: "adds 4 (put_w None (WPrim TInt) (WV (VInt i)))" "adds 1 (put_w None (WPrim TByte) (WV (VInt i)))"
    "adds 2 (put_w None (WPrim TShort) (WV (VInt i)))" for i
    using adds_int [of TInt] adds_int [of TByte] adds_int [of TShort] by (simp_all add: int_prim_def)
  have s: "adds (5 + utf8_len (the u)) (put_w None (WObject (Standard String)) (WV (py_str u)))"
    if "u \<noteq> None" for u
    using that adds_object [OF adds_string] by (auto simp: py_str_def)
  have "list_all2 (\<lambda>x n. \<exists>u. dget (fst x) d = Inr u \<and> adds n (put_w None (snd x) u)) (handshake_struct pc user pass) ?ns"
    using i s [of user] s [of pass] adds_object [OF adds_bytes]
      adds_object [OF adds_map [OF adds_infer_string adds_timezone]]
    unfolding d handshake_struct_def
    by (simp add: dget_def has_credentials_def del: put_w.simps)
  then have "adds (sum_list ?ns) (put_fields None (handshake_struct pc user pass) d)" by (rule adds_fields)
  moreover have "int (sum_list ?ns) = handshake_length pc f user pass tz + 4 + handshake_extra pc user pass tz"
    using assms(2) by (cases tz) (simp_all add: handshake_length_def handshake_extra_def extra_bytes_def timezone_key_length)
  ultimately show ?thesis using f by blast
qed

lemma handshake_extra_ascii:
  assumes "case user of None \<Rightarrow> True | Some u \<Rightarrow> ascii u" and "case pass of None \<Rightarrow> True | Some p \<Rightarrow> ascii p"
    and "case tz of None \<Rightarrow> True | Some t \<Rightarrow> ascii t"
  shows "handshake_extra pc user pass tz = 0"
  using assms
  by (auto simp: handshake_extra_def extra_bytes_def utf8_len_ascii has_credentials_def split: option.splits)




end
