(* ===== verification/Connection.thy ===== *)
theory Connection
  imports Handshake
begin

section \<open>Connections\<close>

text \<open>
  \<open>connection/connection.py\<close>: the synchronous connection over a socket. The socket is the
  parameter \<open>socket_ops\<close>: connecting, \<open>sendall\<close> and \<open>recv_into\<close> (which returns at most as many
  bytes as it is asked for, none at the end of the stream), each of which may raise a connection
  error. \<open>client.protocol_context\<close> is part of the state. SSL wrapping, timeouts and log text are
  not modelled.
\<close>

record 's socket_ops =
  so_connect :: "('s, unit) run"
  so_sendall :: "byte list \<Rightarrow> ('s, unit) run"
  so_recv :: "nat \<Rightarrow> ('s, byte list) run"

datatype conn_event =
    HandshakeStart "protocol_context option"
  | HandshakeSuccess "protocol_context option" "wval option"
  | HandshakeFail "protocol_context option"
  | AuthenticationFail "protocol_context option"
  | ConnectionClosed
  | ConnectionLost

record 's conn =
  k_context :: "protocol_context option"
  k_open :: bool
  k_failed :: bool
  k_uuid :: "wval option"
  k_client :: client
  k_depth :: nat
  k_username :: "pystr option"
  k_password :: "pystr option"
  k_timezone :: "pystr option"
  k_listener :: bool
  k_events :: "conn_event list"
  k_sock :: 's

definition alive :: "'s conn \<Rightarrow> bool" where
  "alive k \<longleftrightarrow> \<not> k_failed k \<and> k_open k"

definition k_publish :: "conn_event \<Rightarrow> 's conn \<Rightarrow> 's conn" where
  "k_publish ev k = (if k_listener k then k\<lparr>k_events := k_events k @ [ev]\<rparr> else k)"

subsection \<open>Handshake callbacks\<close>

definition CLIENT_STATUS_AUTH_FAILURE :: int where "CLIENT_STATUS_AUTH_FAILURE = 2000"

definition int_item :: "string \<Rightarrow> (string \<times> wval) list \<Rightarrow> int" where
  "int_item f response = (case map_of response f of Some (WV (VInt i)) \<Rightarrow> i | _ \<Rightarrow> 0)"

definition handshake_error :: "(string \<times> wval) list \<Rightarrow> py_error" where
  "handshake_error response =
     (if map_of response ''client_status'' = Some (WV (VInt CLIENT_STATUS_AUTH_FAILURE))
      then AuthenticationError
      else HandshakeError (int_item ''version_major'' response, int_item ''version_minor'' response,
        int_item ''version_patch'' response))"

definition response_features :: "(string \<times> wval) list \<Rightarrow> byte list option" where
  "response_features result =
     (case map_of result ''features'' of
        Some (WV (VBytes b)) \<Rightarrow> Some b | Some (WV (VByteArray b)) \<Rightarrow> Some b | _ \<Rightarrow> None)"

definition on_handshake_start :: "'s conn \<Rightarrow> 's conn" where
  "on_handshake_start k = k_publish (HandshakeStart (k_context k)) k"

definition on_handshake_success :: "(string \<times> wval) list \<Rightarrow> 's conn \<Rightarrow> 's conn" where
  "on_handshake_success result k =
     (let k1 = k\<lparr>k_context := map_option (set_features (features_from_array (response_features result))) (k_context k),
                 k_uuid := map_of result ''node_uuid'', k_failed := False\<rparr>
      in k_publish (HandshakeSuccess (k_context k1) (k_uuid k1)) k1)"

definition on_handshake_fail :: "py_error \<Rightarrow> 's conn \<Rightarrow> 's conn" where
  "on_handshake_fail err k =
     k_publish (if err = AuthenticationError then AuthenticationFail (k_context k) else HandshakeFail (k_context k))
       (k\<lparr>k_failed := True\<rparr>)"

definition on_connection_lost :: "bool \<Rightarrow> 's conn \<Rightarrow> 's conn" where
  "on_connection_lost expected k = k_publish (if expected then ConnectionClosed else ConnectionLost) k"

subsection \<open>Closing\<close>

definition close :: "bool \<Rightarrow> 's conn \<Rightarrow> 's conn" where
  "close on_reconnect k =
     (if k_open k
      then (if \<not> on_reconnect \<and> \<not> k_failed k then on_connection_lost True k else k)\<lparr>k_open := False\<rparr>
      else k)"

subsection \<open>Sending and receiving without reconnection\<close>

definition DEFAULT_INITIAL_BUF_SIZE :: nat where "DEFAULT_INITIAL_BUF_SIZE = 1024"

text \<open>
  The loop of \<open>recv\<close>: the buffer left is \<open>data[rcvd:]\<close>, and \<open>packet_len\<close> is 0 until five bytes have
  come. Every iteration reads at least one byte into the buffer or raises, so it ends.
\<close>

lemma recv_space:
  assumes "bs \<noteq> []" and "bs = take (length data - rcvd) got"
  shows "length (take rcvd data @ bs @ drop (rcvd + length bs) data) - (rcvd + length bs) < length data - rcvd"
proof -
  have l: "0 < length bs" "length bs \<le> length data - rcvd" using assms by auto
  then have "rcvd < length data" by linarith
  then have "length (take rcvd data) = rcvd" by simp
  with l show ?thesis by (simp only: length_append length_drop)
qed

function recv_loop ::
  "(nat \<Rightarrow> ('s, byte list) run) \<Rightarrow> byte list \<Rightarrow> nat \<Rightarrow> int \<Rightarrow> ('s, byte list) run"
where
  "recv_loop rd data rcvd packet_len s =
     (let space = length data - rcvd in
      case rd space s of
        (Inl e, s') \<Rightarrow> (Inl e, s')
      | (Inr got, s') \<Rightarrow>
          let bs = take space got;
              data1 = take rcvd data @ bs @ drop (rcvd + length bs) data;
              rcvd1 = rcvd + length bs;
              first = packet_len = 0 \<and> rcvd1 > 4;
              packet_len1 = (if first then le_int True (take 4 data1) + 4 else packet_len)
          in if bs = [] then (Inl SocketError, s')
             else if first \<and> int (length data1) < packet_len1
             then recv_loop rd (data1 @ replicate (nat packet_len1 - length data1) 0) rcvd1 packet_len1 s'
             else if 0 < packet_len1 \<and> packet_len1 \<le> int rcvd1 then (Inr data1, s')
             else recv_loop rd data1 rcvd1 packet_len1 s')"
  by pat_completeness auto
termination
proof (relation "measures [\<lambda>(rd, data, rcvd, packet_len, s). if packet_len = 0 then 1 else 0,
    \<lambda>(rd, data, rcvd, packet_len, s). length data - rcvd]", goal_cases)
  case (2 rd data rcvd packet_len s x xa y b bs xb xc xd xe)
  then have "packet_len = 0" "xe \<noteq> 0" by linarith+
  then show ?case by simp
next
  case (3 rd data rcvd packet_len s x xa y b bs xb xc xd xe)
  have "length xb - xc < length data - rcvd"
    unfolding 3(5,6) by (rule recv_space) (use 3(1,4,9) in simp_all)
  moreover have "packet_len \<noteq> 0 \<Longrightarrow> xe \<noteq> 0" using 3(7,8) by simp
  ultimately show ?case by simp
qed simp

declare recv_loop.simps [simp del]

definition send_plain :: "'s socket_ops \<Rightarrow> byte list \<Rightarrow> ('s conn, unit) run" where
  "send_plain so data k =
     (if \<not> k_open k then (Inl SocketError, k)
      else case so_sendall so data (k_sock k) of
        (Inl e, s) \<Rightarrow> (Inl e, k\<lparr>k_sock := s, k_failed := True\<rparr>)
      | (Inr u, s) \<Rightarrow> (Inr u, k\<lparr>k_sock := s\<rparr>))"

definition recv_plain :: "'s socket_ops \<Rightarrow> ('s conn, byte list) run" where
  "recv_plain so k =
     (if \<not> k_open k then (Inl SocketError, k)
      else case recv_loop (so_recv so) (replicate DEFAULT_INITIAL_BUF_SIZE 0) 0 0 (k_sock k) of
        (Inl e, s) \<Rightarrow> (Inl e, k\<lparr>k_sock := s, k_failed := True\<rparr>)
      | (Inr data, s) \<Rightarrow> (Inr data, k\<lparr>k_sock := s\<rparr>))"


subsection \<open>Connecting\<close>

definition handshake_answer ::
  "protocol_context \<Rightarrow> byte list \<Rightarrow> ('s conn, (string \<times> wval) list) run"
where
  "handshake_answer pc data k =
     (case handshake_parse (k_depth k) pc (new_stream (k_client k) data) of
        Inl e \<Rightarrow> (Inl e, k)
      | Inr (response, st) \<Rightarrow>
          let k1 = k\<lparr>k_client := sclient st\<rparr>
          in if map_of response ''op_code'' = Some (WV (VInt 0))
             then (Inl (handshake_error response), close False k1)
             else (Inr response, k1))"

text \<open>The new socket replaces the old one before it is connected.\<close>

definition connect_version :: "'s socket_ops \<Rightarrow> ('s conn, (string \<times> wval) list) run" where
  "connect_version so k =
     (case k_context k of
        None \<Rightarrow> (Inl AttributeError, k)
      | Some pc \<Rightarrow>
          (case so_connect so (k_sock k) of
             (Inl e, s) \<Rightarrow> (Inl e, k\<lparr>k_open := True, k_sock := s\<rparr>)
           | (Inr u, s) \<Rightarrow>
               let k1 = k\<lparr>k_open := True, k_sock := s\<rparr>
               in (case handshake_from_python pc (k_username k) (k_password k) (k_timezone k)
                          (new_stream (k_client k) []) of
                     Inl e \<Rightarrow> (Inl e, k1)
                   | Inr st \<Rightarrow>
                       run_bind (send_plain so (sbuf st)) (\<lambda>_. run_bind (recv_plain so) (handshake_answer pc))
                         (k1\<lparr>k_client := sclient st\<rparr>))))"

text \<open>
  The loop over protocol versions. A server that answers with a known version other than the one
  offered makes the client offer that version next, as often as it does so.
\<close>

partial_function (option) connect_loop ::
  "'s socket_ops \<Rightarrow> bool \<Rightarrow> 's conn \<Rightarrow> (unit res \<times> 's conn) option"
where
  "connect_loop so detecting k =
     (case connect_version so (on_handshake_start k) of
        (Inr result, k1) \<Rightarrow> Some (Inr (), on_handshake_success result k1)
      | (Inl e, k1) \<Rightarrow>
          (case e of
             HandshakeError v \<Rightarrow>
               if v \<in> set PROTOCOLS
               then connect_loop so detecting (k1\<lparr>k_context := map_option (set_version v) (k_context k1)\<rparr>)
               else Some (Inl e, on_handshake_fail e k1)
           | AuthenticationError \<Rightarrow> Some (Inl e, on_handshake_fail e k1)
           | _ \<Rightarrow> Some (Inl e, if detecting then (on_handshake_fail e k1)\<lparr>k_context := None\<rparr>
               else on_handshake_fail e k1)))"

definition connect :: "'s socket_ops \<Rightarrow> 's conn \<Rightarrow> (unit res \<times> 's conn) option" where
  "connect so k =
     (case k_context k of
        None \<Rightarrow> connect_loop so True
          (k\<lparr>k_context := Some (new_protocol_context (max_version PROTOCOLS) (Some all_supported))\<rparr>)
      | Some pc \<Rightarrow> connect_loop so False k)"

subsection \<open>Reconnecting\<close>

definition connection_error :: "py_error \<Rightarrow> bool" where
  "connection_error e \<longleftrightarrow> (case e of SocketError \<Rightarrow> True | HandshakeError v \<Rightarrow> True | _ \<Rightarrow> False)"

definition reconnect :: "'s socket_ops \<Rightarrow> 's conn \<Rightarrow> (unit res \<times> 's conn) option" where
  "reconnect so k =
     (if alive k then Some (Inr (), k)
      else map_option (\<lambda>(r, k'). (case r of Inl e \<Rightarrow> if connection_error e then Inr () else r | Inr u \<Rightarrow> r, k'))
        (connect so (close True k)))"

text \<open>After a failure: the error of the failure is raised, unless reconnecting raises another one.\<close>

definition lost :: "'s socket_ops \<Rightarrow> 'a res \<times> 's conn \<Rightarrow> ('a res \<times> 's conn) option" where
  "lost so outcome =
     (case outcome of
        (Inr x, k) \<Rightarrow> Some (Inr x, k)
      | (Inl e, k) \<Rightarrow>
          map_option (\<lambda>(r, k'). (case r of Inl e' \<Rightarrow> Inl e' | Inr u \<Rightarrow> Inl e, k'))
            (reconnect so (on_connection_lost False k)))"

definition send :: "'s socket_ops \<Rightarrow> byte list \<Rightarrow> 's conn \<Rightarrow> (unit res \<times> 's conn) option" where
  "send so data k =
     (if \<not> k_open k then Some (Inl SocketError, k) else lost so (send_plain so data k))"

definition recv :: "'s socket_ops \<Rightarrow> 's conn \<Rightarrow> (byte list res \<times> 's conn) option" where
  "recv so k =
     (if \<not> k_open k then Some (Inl SocketError, k) else lost so (recv_plain so k))"

definition conn_request :: "'s socket_ops \<Rightarrow> byte list \<Rightarrow> 's conn \<Rightarrow> (byte list res \<times> 's conn) option" where
  "conn_request so data k =
     (case send so data k of
        None \<Rightarrow> None
      | Some (Inl e, k1) \<Rightarrow> Some (Inl e, k1)
      | Some (Inr u, k1) \<Rightarrow> recv so k1)"


subsection \<open>Reassembly\<close>

text \<open>
  What a socket does: a read with room for at least one byte, while the peer's bytes are pending,
  returns some of the next ones, as many as it likes.
\<close>

definition byte_stream :: "(nat \<Rightarrow> ('s, byte list) run) \<Rightarrow> ('s \<Rightarrow> byte list) \<Rightarrow> bool" where
  "byte_stream rd pending \<longleftrightarrow>
     (\<forall>n s. 0 < n \<longrightarrow> pending s \<noteq> [] \<longrightarrow>
        (\<exists>bs s'. rd n s = (Inr bs, s') \<and> bs \<noteq> [] \<and> length bs \<le> n \<and> pending s = bs @ pending s'))"

definition frame :: "byte list \<Rightarrow> byte list" where
  "frame payload = ct_bytes 4 (int (length payload)) @ payload"

lemma frame_length [simp]: "length (frame p) = 4 + length p"
  by (simp add: frame_def)

lemma frame_size:
  assumes "length p < 2 ^ 31"
  shows "le_int True (take 4 (frame p @ later)) = int (length p)"
  using assms by (simp add: frame_def le_int_ct_bytes in_range_def)

lemma frame_prefix:
  assumes "4 \<le> length got" and "got @ rest = frame p @ later" and "length p < 2 ^ 31"
  shows "le_int True (take 4 (got @ zs)) = int (length p)"
proof -
  have "take 4 (got @ zs) = take 4 (got @ rest)" using assms(1) by simp
  then show ?thesis using frame_size [OF assms(3), of later] assms(2) by simp
qed

lemma recv_loop_step:
  assumes "rd (length data - rcvd) s = (Inr bs, s')" and "bs \<noteq> []" and "length bs \<le> length data - rcvd"
    and "data1 = take rcvd data @ bs @ drop (rcvd + length bs) data" and "rcvd1 = rcvd + length bs"
    and "pl = (if packet_len = 0 \<and> rcvd1 > 4 then le_int True (take 4 data1) + 4 else packet_len)"
  shows "recv_loop rd data rcvd packet_len s =
     (if (packet_len = 0 \<and> rcvd1 > 4) \<and> int (length data1) < pl
      then recv_loop rd (data1 @ replicate (nat pl - length data1) 0) rcvd1 pl s'
      else if 0 < pl \<and> pl \<le> int rcvd1 then (Inr data1, s')
      else recv_loop rd data1 rcvd1 pl s')"
proof -
  have t: "take (length data - rcvd) bs = bs" using assms(3) by simp
  show ?thesis
    using assms(2) unfolding recv_loop.simps [of rd data rcvd packet_len s] Let_def assms(1) prod.case sum.case t
      assms(4-6)
    by (simp only: if_False)
qed

lemma recv_reassembly:
  assumes bs: "byte_stream rd pending" and p: "p \<noteq> []" "length p < 2 ^ 31 - 4"
    and stream: "got @ pending s = frame p @ later"
    and state: "(packet_len = 0 \<and> length got \<le> 4 \<and> z + length got = 1024) \<or>
      (packet_len = int (length (frame p)) \<and> length got < length (frame p) \<and>
       z + length got = max 1024 (length (frame p)))"
  shows "\<exists>xs s'. recv_loop rd (got @ replicate z 0) (length got) packet_len s =
      (Inr (frame p @ xs @ replicate (max 1024 (length (frame p)) - length (frame p @ xs)) 0), s') \<and>
    later = xs @ pending s'"
  using stream state
proof (induction "length (pending s)" arbitrary: got s packet_len z rule: less_induct)
  case less
  let ?F = "frame p"
  have small: "length p < 2 ^ 31" using p(2) by simp
  have lF: "4 < length ?F" using p(1) by (cases p) auto
  have got: "length got < length ?F" using less.prems(2) lF by linarith
  have z: "0 < z" using less.prems(2) got by linarith
  have "pending s \<noteq> []" using less.prems(1) got by (metis append_Nil2 length_append not_add_less1)
  with bs z obtain b s' where rd: "rd z s = (Inr b, s')" "b \<noteq> []" "length b \<le> z" "pending s = b @ pending s'"
    unfolding byte_stream_def by blast
  define got1 where "got1 = got @ b"
  define data1 where "data1 = got1 @ replicate (z - length b) 0"
  have IH: "got1 @ pending s' = ?F @ later" "length (pending s') < length (pending s)"
    using less.prems(1) rd(2,4) by (simp_all add: got1_def)
  have d1: "data1 = take (length got) (got @ replicate z 0) @ b @ drop (length got + length b) (got @ replicate z 0)"
    using rd(3) by (simp add: data1_def got1_def)
  let ?first = "packet_len = 0 \<and> length got1 > 4"
  let ?pl = "if ?first then le_int True (take 4 data1) + 4 else packet_len"
  have unroll: "recv_loop rd (got @ replicate z 0) (length got) packet_len s =
     (if ?first \<and> int (length data1) < ?pl
      then recv_loop rd (data1 @ replicate (nat ?pl - length data1) 0) (length got1) ?pl s'
      else if 0 < ?pl \<and> ?pl \<le> int (length got1) then (Inr data1, s')
      else recv_loop rd data1 (length got1) ?pl s')"
    by (rule recv_loop_step) (use rd(1-3) d1 in \<open>simp_all add: got1_def\<close>)
  have pl: "?pl = (if packet_len = 0 \<and> length got1 \<le> 4 then 0 else int (length ?F))"
    using less.prems(2) lF frame_prefix [OF _ IH(1) small, of "replicate (z - length b) 0"]
    by (auto simp: data1_def)
  have fin: "\<exists>xs. data1 = ?F @ xs @ replicate (max 1024 (length ?F) - length (?F @ xs)) 0 \<and> later = xs @ pending s'"
    if "length ?F \<le> length got1" "length data1 = max 1024 (length ?F)"
  proof -
    define xs where "xs = drop (length ?F) got1"
    have "take (length ?F) got1 = ?F" using arg_cong [OF IH(1), of "take (length ?F)"] that(1) by simp
    then have "got1 = ?F @ xs" unfolding xs_def by (metis append_take_drop_id)
    with IH(1) have xs: "got1 = ?F @ xs" "later = xs @ pending s'" by simp_all
    with that(2) have "z - length b = max 1024 (length ?F) - length (?F @ xs)"
      by (simp add: data1_def)
    with xs show ?thesis by (simp add: data1_def)
  qed
  show ?case
  proof (cases "packet_len = 0 \<and> length got1 \<le> 4")
    case True
    then have "recv_loop rd (got @ replicate z 0) (length got) packet_len s =
        recv_loop rd data1 (length got1) 0 s'"
      unfolding unroll using pl by simp
    moreover have "z - length b + length got1 = 1024" using True less.prems(2) lF rd(3) by (auto simp: got1_def)
    ultimately show ?thesis using less.hyps [OF IH(2,1), of 0 "z - length b"] True by (simp add: data1_def)
  next
    case False
    then have pl': "?pl = int (length ?F)" using pl by simp
    show ?thesis
    proof (cases "?first \<and> 1024 < length ?F")
      case True
      then have z1: "z + length got = 1024" using less.prems(2) lF by auto
      then have ld: "length data1 = 1024" using rd(3) by (simp add: data1_def got1_def)
      obtain ex where ex: "length ?F - 1024 = ex" by simp
      have "recv_loop rd (got @ replicate z 0) (length got) packet_len s =
          recv_loop rd (got1 @ replicate (z - length b + ex) 0) (length got1) (int (length ?F)) s'"
        unfolding unroll pl' using True ld by (simp add: data1_def replicate_add ex del: frame_length)
      moreover have "length got1 < length ?F" using z1 rd(3) True by (simp add: got1_def)
      moreover have "z - length b + ex + length got1 = max 1024 (length ?F)"
        using z1 rd(3) True ex by (simp add: got1_def) arith
      ultimately show ?thesis using less.hyps [OF IH(2,1)] by simp
    next
      case no: False
      have ld: "length data1 = max 1024 (length ?F)"
        using less.prems(2) no False rd(3) by (auto simp: data1_def got1_def)
      then have nf: "\<not> (?first \<and> int (length data1) < int (length ?F))" using no by auto
      have u: "recv_loop rd (got @ replicate z 0) (length got) packet_len s =
          (if length ?F \<le> length got1 then (Inr data1, s') else recv_loop rd data1 (length got1) (int (length ?F)) s')"
        unfolding unroll pl' if_not_P [OF nf] using lF by simp
      show ?thesis
      proof (cases "length ?F \<le> length got1")
        case True
        then show ?thesis unfolding u using fin [OF True ld] by auto
      next
        case small': False
        then have "z - length b + length got1 = max 1024 (length ?F)" using ld by (simp add: data1_def)
        with small' show ?thesis unfolding u using less.hyps [OF IH(2,1)] by (simp add: data1_def)
      qed
    qed
  qed
qed

end
