(* ===== verification/AioConnection.thy ===== *)
theory AioConnection
  imports Connection Responses
begin

section \<open>Asynchronous connections\<close>

text \<open>
  \<open>connection/aio_connection.py\<close>: the reassembly of packets in \<open>BaseProtocol.data_received\<close> and the
  matching of responses with pending requests by their query id. A future is resolved at most once:
  \<open>a_done\<close> records in order which requests got which packet, \<open>a_errors\<close> which ones an exception.
  The event loop's transport, the tasks it schedules and the time limits are not modelled.
\<close>

subsection \<open>Slices\<close>

text \<open>\<open>b[0:n]\<close> and \<open>b[n:len(b)]\<close>, for any integer \<open>n\<close>.\<close>

definition slice_to :: "int \<Rightarrow> byte list \<Rightarrow> byte list" where
  "slice_to n b = take (nat (if n < 0 then int (length b) + n else n)) b"

definition slice_from :: "int \<Rightarrow> byte list \<Rightarrow> byte list" where
  "slice_from n b = drop (nat (if n < 0 then int (length b) + n else n)) b"

subsection \<open>State and steps\<close>

text \<open>
  \<open>a_handshake\<close> is the packet that completed the handshake, once it has come (\<open>handshake_answer\<close>
  says what is read from it); \<open>a_transport\<close> tells whether there is a transport that is not closing.
\<close>

record aio_conn =
  a_buffer :: "byte list"
  a_handshake :: "byte list option"
  a_pending :: "int list"
  a_done :: "(int \<times> byte list) list"
  a_errors :: "int list"
  a_failed :: bool
  a_closed :: bool
  a_transport :: bool

definition packet_size :: "byte list \<Rightarrow> int" where
  "packet_size buffer = le_int True (take 4 buffer) + 4"

definition has_full_response :: "byte list \<Rightarrow> bool" where
  "has_full_response buffer \<longleftrightarrow> 4 < length buffer \<and> packet_size buffer \<le> int (length buffer)"

definition packet_id :: "byte list \<Rightarrow> int" where
  "packet_id data = le_int True (bslice data 4 8)"

definition process_message :: "byte list \<Rightarrow> aio_conn \<Rightarrow> aio_conn" where
  "process_message data c =
     (let req_id = packet_id data
      in if req_id \<in> set (a_pending c)
         then c\<lparr>a_done := a_done c @ [(req_id, data)], a_pending := removeAll req_id (a_pending c)\<rparr>
         else c)"

text \<open>The first packet completes the handshake.\<close>

definition process_packet :: "byte list \<Rightarrow> aio_conn \<Rightarrow> aio_conn" where
  "process_packet packet c =
     (case a_handshake c of None \<Rightarrow> c\<lparr>a_handshake := Some packet\<rparr> | Some h \<Rightarrow> process_message packet c)"

text \<open>The loop never ends on a length of -4, which takes nothing from the buffer.\<close>

partial_function (option) process_buffer :: "aio_conn \<Rightarrow> aio_conn option" where
  "process_buffer c =
     (if has_full_response (a_buffer c)
      then process_buffer
        ((process_packet (slice_to (packet_size (a_buffer c)) (a_buffer c)) c)
          \<lparr>a_buffer := slice_from (packet_size (a_buffer c)) (a_buffer c)\<rparr>)
      else Some c)"

definition data_received :: "byte list \<Rightarrow> aio_conn \<Rightarrow> aio_conn option" where
  "data_received data c = process_buffer (c\<lparr>a_buffer := a_buffer c @ data\<rparr>)"

definition aio_alive :: "aio_conn \<Rightarrow> bool" where
  "aio_alive c \<longleftrightarrow> \<not> a_failed c \<and> \<not> (a_closed c \<or> \<not> a_transport c)"

definition aio_request :: "int \<Rightarrow> aio_conn \<Rightarrow> aio_conn res" where
  "aio_request query_id c =
     (if \<not> aio_alive c then Inl SocketError
      else Inr (c\<lparr>a_pending := List.insert query_id (a_pending c)\<rparr>))"

text \<open>Every pending request gets the error; the flag tells whether a reconnection is scheduled.\<close>

definition process_connection_lost :: "bool \<Rightarrow> aio_conn \<Rightarrow> aio_conn \<times> bool" where
  "process_connection_lost again c =
     (c\<lparr>a_failed := True, a_errors := a_errors c @ a_pending c, a_pending := []\<rparr>, again \<and> \<not> a_closed c)"

definition process_connection_error :: "aio_conn \<Rightarrow> aio_conn \<times> bool" where
  "process_connection_error c = process_connection_lost (a_handshake c \<noteq> None) c"

text \<open>A new transport comes with a new protocol object, whose buffer is empty and whose future is not done.\<close>

definition aio_connect_version :: "aio_conn \<Rightarrow> aio_conn" where
  "aio_connect_version c = c\<lparr>a_closed := False, a_transport := True, a_buffer := [], a_handshake := None\<rparr>"

definition aio_close_transport :: "aio_conn \<Rightarrow> aio_conn" where
  "aio_close_transport c = c\<lparr>a_transport := False\<rparr>"

definition aio_close :: "aio_conn \<Rightarrow> aio_conn" where
  "aio_close c = aio_close_transport (c\<lparr>a_closed := True\<rparr>)"

subsection \<open>Reassembly\<close>

lemma frame_packet:
  assumes "length p < 2 ^ 31" and "p \<noteq> []"
  shows "packet_size (frame p @ later) = int (length (frame p))" "has_full_response (frame p @ later)"
    "slice_to (int (length (frame p))) (frame p @ later) = frame p"
    "slice_from (int (length (frame p))) (frame p @ later) = later"
proof -
  show s: "packet_size (frame p @ later) = int (length (frame p))"
    using frame_size [OF assms(1)] by (simp add: packet_size_def)
  show "has_full_response (frame p @ later)"
    unfolding has_full_response_def s using assms(2) by (cases p) simp_all
  show "slice_to (int (length (frame p))) (frame p @ later) = frame p"
    by (simp add: slice_to_def del: frame_length)
  show "slice_from (int (length (frame p))) (frame p @ later) = later"
    by (simp add: slice_from_def del: frame_length)
qed

text \<open>\<open>partial rest\<close>: the beginning of a frame that is not complete.\<close>

definition partial :: "byte list \<Rightarrow> bool" where
  "partial rest \<longleftrightarrow> (\<exists>p later. length p < 2 ^ 31 \<and> p \<noteq> [] \<and> later \<noteq> [] \<and> rest @ later = frame p) \<or> rest = []"

lemma partial_waits: "partial rest \<Longrightarrow> \<not> has_full_response rest"
proof -
  assume "partial rest"
  then consider "rest = []" | p later where "length p < 2 ^ 31" "p \<noteq> []" "later \<noteq> []" "rest @ later = frame p"
    by (auto simp: partial_def)
  then show ?thesis
  proof cases
    case 2
    have "packet_size rest = int (length (frame p))" if "4 \<le> length rest"
      using frame_prefix [of rest later p "[]" "[]"] that 2 by (simp add: packet_size_def)
    moreover have "length rest < length (frame p)" using 2(3,4) by (metis length_append length_greater_0_conv less_add_same_cancel1)
    ultimately show ?thesis by (auto simp: has_full_response_def)
  qed (simp add: has_full_response_def)
qed

definition proper :: "byte list list \<Rightarrow> bool" where
  "proper ps \<longleftrightarrow> (\<forall>p \<in> set ps. p \<noteq> [] \<and> length p < 2 ^ 31)"

definition take_frames :: "byte list list \<Rightarrow> aio_conn \<Rightarrow> aio_conn" where
  "take_frames ps c = fold (\<lambda>p. process_packet (frame p)) ps c"

lemma process_packet_buffer [simp]:
  "a_buffer (process_packet packet c) = a_buffer c"
  "process_packet packet (c\<lparr>a_buffer := b\<rparr>) = (process_packet packet c)\<lparr>a_buffer := b\<rparr>"
  by (simp_all add: process_packet_def process_message_def Let_def split: option.splits)

lemma take_frames_buffer: "take_frames ps (c\<lparr>a_buffer := b\<rparr>) = (take_frames ps c)\<lparr>a_buffer := b\<rparr>"
  by (induction ps arbitrary: c) (simp_all add: take_frames_def)

lemma process_frames:
  assumes "proper ps" and "partial rest" and "a_buffer c = concat (map frame ps) @ rest"
  shows "process_buffer c = Some ((take_frames ps c)\<lparr>a_buffer := rest\<rparr>)"
  using assms
proof (induction ps arbitrary: c)
  case Nil
  then show ?case
    using partial_waits by (subst process_buffer.simps) (simp add: take_frames_def)
next
  case (Cons p ps)
  have p: "length p < 2 ^ 31" "p \<noteq> []" using Cons.prems(1) by (auto simp: proper_def)
  let ?later = "concat (map frame ps) @ rest"
  have b: "a_buffer c = frame p @ ?later" using Cons.prems(3) by simp
  let ?c = "(process_packet (frame p) c)\<lparr>a_buffer := ?later\<rparr>"
  have "process_buffer c = process_buffer ?c"
    by (subst process_buffer.simps) (simp only: b frame_packet [OF p] if_True)
  also have "\<dots> = Some ((take_frames ps ?c)\<lparr>a_buffer := rest\<rparr>)"
    using Cons.prems(1,2) by (intro Cons.IH) (auto simp: proper_def)
  also have "(take_frames ps ?c)\<lparr>a_buffer := rest\<rparr> = (take_frames (p # ps) c)\<lparr>a_buffer := rest\<rparr>"
    by (simp add: take_frames_buffer) (simp add: take_frames_def)
  finally show ?case .
qed


lemma split_stream:
  assumes "proper ps" and "partial rest" and "x @ y = concat (map frame ps) @ rest"
  shows "\<exists>ps1 ps2 r1. ps = ps1 @ ps2 \<and> x = concat (map frame ps1) @ r1 \<and> partial r1 \<and>
    r1 @ y = concat (map frame ps2) @ rest"
  using assms
proof (induction ps arbitrary: x)
  case Nil
  then have r: "x @ y = rest" by simp
  have "partial x"
  proof (cases "rest = []")
    case False
    with Nil.prems(2) obtain p later where p: "length p < 2 ^ 31" "p \<noteq> []" "later \<noteq> []" "rest @ later = frame p"
      by (auto simp: partial_def)
    then have "x @ (y @ later) = frame p" "y @ later \<noteq> []" using r by auto
    with p show ?thesis unfolding partial_def by blast
  qed (use r in \<open>simp add: partial_def\<close>)
  with r show ?case by auto
next
  case (Cons p ps)
  let ?later = "concat (map frame ps) @ rest"
  have e: "x @ y = frame p @ ?later" using Cons.prems(3) by simp
  show ?case
  proof (cases "length (frame p) \<le> length x")
    case True
    have "take (length (frame p)) x = frame p"
      using arg_cong [OF e, of "take (length (frame p))"] True by simp
    then have x: "x = frame p @ drop (length (frame p)) x" by (metis append_take_drop_id)
    with e have "drop (length (frame p)) x @ y = ?later" by (metis append_assoc same_append_eq)
    from Cons.IH [OF _ Cons.prems(2) this] Cons.prems(1) obtain ps1 ps2 r1 where
      i: "ps = ps1 @ ps2" "drop (length (frame p)) x = concat (map frame ps1) @ r1" "partial r1"
      "r1 @ y = concat (map frame ps2) @ rest" by (auto simp: proper_def)
    have "p # ps = (p # ps1) @ ps2" "x = concat (map frame (p # ps1)) @ r1"
      using i(1,2) x by simp_all
    with i(3,4) show ?thesis by blast
  next
    case False
    define later where "later = drop (length x) (frame p)"
    have "x = take (length x) (frame p)" using arg_cong [OF e, of "take (length x)"] False by simp
    then have "x @ later = frame p" unfolding later_def by (metis append_take_drop_id)
    moreover have "later \<noteq> []" using False by (simp add: later_def)
    ultimately have "partial x" using Cons.prems(1) unfolding partial_def proper_def by (metis list.set_intros(1))
    then show ?thesis using Cons.prems(3) by (intro exI [of _ "[]"] exI [of _ "p # ps"] exI [of _ x]) simp
  qed
qed

fun receive_all :: "byte list list \<Rightarrow> aio_conn \<Rightarrow> aio_conn option" where
  "receive_all [] c = Some c"
| "receive_all (d # ds) c = (case data_received d c of None \<Rightarrow> None | Some c' \<Rightarrow> receive_all ds c')"

lemma receive_all_frames:
  assumes "proper ps" and "partial rest" and "partial (a_buffer c)"
    and "a_buffer c @ concat cs = concat (map frame ps) @ rest"
  shows "receive_all cs c = Some ((take_frames ps c)\<lparr>a_buffer := rest\<rparr>)"
  using assms
proof (induction cs arbitrary: ps c)
  case Nil
  have "process_buffer c = Some c"
    using partial_waits [OF Nil.prems(3)] by (subst process_buffer.simps) simp
  moreover have "process_buffer c = Some ((take_frames ps c)\<lparr>a_buffer := rest\<rparr>)"
    using Nil.prems by (intro process_frames) simp_all
  ultimately show ?case by simp
next
  case (Cons d ds)
  have "(a_buffer c @ d) @ concat ds = concat (map frame ps) @ rest" using Cons.prems(4) by simp
  from split_stream [OF Cons.prems(1,2) this] obtain ps1 ps2 r1 where
    s: "ps = ps1 @ ps2" "a_buffer c @ d = concat (map frame ps1) @ r1" "partial r1"
    "r1 @ concat ds = concat (map frame ps2) @ rest" by blast
  let ?c1 = "(take_frames ps1 c)\<lparr>a_buffer := r1\<rparr>"
  have "data_received d c = Some ?c1"
    unfolding data_received_def
    using process_frames [of ps1 r1 "c\<lparr>a_buffer := a_buffer c @ d\<rparr>"] Cons.prems(1) s
    by (simp add: proper_def take_frames_buffer)
  moreover have "receive_all ds ?c1 = Some ((take_frames ps2 ?c1)\<lparr>a_buffer := rest\<rparr>)"
    using Cons.prems(1,2) s by (intro Cons.IH) (auto simp: proper_def)
  moreover have "(take_frames ps2 ?c1)\<lparr>a_buffer := rest\<rparr> = (take_frames ps c)\<lparr>a_buffer := rest\<rparr>"
    by (simp add: take_frames_buffer s(1)) (simp add: take_frames_def)
  ultimately show ?case by simp
qed

subsection \<open>Matching\<close>

text \<open>The responses of the server are frames that carry the query id at offset 4.\<close>

lemma response_head_parts:
  "response_head pc len qid topology err =
     ct_bytes 4 len @ ct_bytes 8 qid @ drop 12 (response_head pc 0 qid topology err)"
  "length (response_head pc len qid topology err) = 12 + length (drop 12 (response_head pc 0 qid topology err))"
  by (simp_all add: response_head_def)

lemma response_frame:
  assumes "head_ok qid topology err" and "length (server_response pc qid topology err body) < 2 ^ 31"
  shows "\<exists>p. server_response pc qid topology err body = frame p \<and> p \<noteq> [] \<and> length p < 2 ^ 31 \<and>
    packet_id (frame p) = qid"
proof -
  define tail where "tail = drop 12 (response_head pc 0 qid topology err)"
  note parts = response_head_parts [of pc _ qid topology err, folded tail_def]
  have e: "server_response pc qid topology err body = frame (ct_bytes 8 qid @ tail @ body)"
    by (simp add: server_response_def frame_def parts(1))
  have "packet_id (frame (ct_bytes 8 qid @ tail @ body)) = qid"
    using assms(1) by (simp add: packet_id_def frame_def bslice_def le_int_ct_bytes head_ok_def)
  moreover have "length (ct_bytes 8 qid @ tail @ body) < 2 ^ 31" using assms(2) unfolding e by simp
  moreover have "ct_bytes 8 qid @ tail @ body \<noteq> []" by (simp flip: length_greater_0_conv)
  ultimately show ?thesis using e by blast
qed

record server_answer =
  s_qid :: int
  s_topology :: "(int \<times> int) option"
  s_error :: "int option"
  s_body :: "byte list"

definition answer_bytes :: "protocol_context \<Rightarrow> server_answer \<Rightarrow> byte list" where
  "answer_bytes pc r = server_response pc (s_qid r) (s_topology r) (s_error r) (s_body r)"

definition answer_ok :: "protocol_context \<Rightarrow> server_answer \<Rightarrow> bool" where
  "answer_ok pc r \<longleftrightarrow> head_ok (s_qid r) (s_topology r) (s_error r) \<and> length (answer_bytes pc r) < 2 ^ 31"

lemma answers_frames:
  assumes "\<forall>r \<in> set rs. answer_ok pc r"
  shows "\<exists>ps. proper ps \<and> map frame ps = map (answer_bytes pc) rs \<and>
    map (\<lambda>p. packet_id (frame p)) ps = map s_qid rs"
  using assms
proof (induction rs)
  case Nil
  then show ?case by (intro exI [of _ "[]"]) (simp add: proper_def)
next
  case (Cons r rs)
  then obtain ps where ps: "proper ps" "map frame ps = map (answer_bytes pc) rs"
    "map (\<lambda>p. packet_id (frame p)) ps = map s_qid rs" by auto
  from Cons.prems response_frame [of "s_qid r" "s_topology r" "s_error r" pc "s_body r"] obtain p where
    "answer_bytes pc r = frame p" "p \<noteq> []" "length p < 2 ^ 31" "packet_id (frame p) = s_qid r"
    by (auto simp: answer_ok_def answer_bytes_def)
  with ps show ?case by (intro exI [of _ "p # ps"]) (auto simp: proper_def)
qed

lemma process_packet_pending:
  "a_handshake c \<noteq> None \<Longrightarrow> packet_id packet \<in> set (a_pending c) \<Longrightarrow>
   process_packet packet c = c\<lparr>a_done := a_done c @ [(packet_id packet, packet)],
     a_pending := removeAll (packet_id packet) (a_pending c)\<rparr>"
  by (auto simp: process_packet_def process_message_def Let_def)

lemma filter_removeAll: "filter (\<lambda>i. i \<notin> A) (removeAll x xs) = filter (\<lambda>i. i \<notin> insert x A) xs"
  by (induction xs) auto

lemma take_frames_matching:
  assumes "a_handshake c \<noteq> None" and "distinct (map (\<lambda>p. packet_id (frame p)) ps)"
    and "set (map (\<lambda>p. packet_id (frame p)) ps) \<subseteq> set (a_pending c)"
  shows "take_frames ps c = c\<lparr>a_done := a_done c @ map (\<lambda>p. (packet_id (frame p), frame p)) ps,
    a_pending := filter (\<lambda>i. i \<notin> set (map (\<lambda>p. packet_id (frame p)) ps)) (a_pending c)\<rparr>"
  using assms
proof (induction ps arbitrary: c)
  case Nil
  then show ?case by (simp add: take_frames_def)
next
  case (Cons p ps)
  let ?ids = "\<lambda>ps. map (\<lambda>p. packet_id (frame p)) ps"
  define c1 where "c1 = c\<lparr>a_done := a_done c @ [(packet_id (frame p), frame p)],
    a_pending := removeAll (packet_id (frame p)) (a_pending c)\<rparr>"
  have "process_packet (frame p) c = c1"
    unfolding c1_def using Cons.prems(1,3) by (intro process_packet_pending) simp_all
  then have "take_frames (p # ps) c = take_frames ps c1" by (simp add: take_frames_def)
  also have "\<dots> = c1\<lparr>a_done := a_done c1 @ map (\<lambda>p. (packet_id (frame p), frame p)) ps,
      a_pending := filter (\<lambda>i. i \<notin> set (?ids ps)) (a_pending c1)\<rparr>"
  proof (rule Cons.IH)
    show "a_handshake c1 \<noteq> None" using Cons.prems(1) by (simp add: c1_def)
    show "distinct (?ids ps)" using Cons.prems(2) by simp
    have "packet_id (frame p) \<notin> set (?ids ps)" using Cons.prems(2) by simp
    moreover have "set (?ids ps) \<subseteq> set (a_pending c)" using Cons.prems(3) by simp
    moreover have "set (a_pending c1) = set (a_pending c) - {packet_id (frame p)}" by (simp add: c1_def)
    ultimately show "set (?ids ps) \<subseteq> set (a_pending c1)" by blast
  qed
  finally show ?case by (simp add: c1_def filter_removeAll)
qed

text \<open>
  C5. Concurrent requests get their own responses: whatever order the server answers outstanding
  requests in, and however the network cuts and joins the answers, every request is resolved
  exactly once, with the bytes of the answer that carries its query id, and nothing is left over or
  lost. The loop ends on every such stream.
\<close>

theorem aio_responses_matched:
  assumes "a_handshake c \<noteq> None" and "a_buffer c = []" and "distinct (map s_qid rs)"
    and "s_qid ` set rs \<subseteq> set (a_pending c)" and "\<forall>r \<in> set rs. answer_ok pc r"
    and "concat cs = concat (map (answer_bytes pc) rs)"
  shows "receive_all cs c = Some (c\<lparr>a_done := a_done c @ map (\<lambda>r. (s_qid r, answer_bytes pc r)) rs,
    a_pending := filter (\<lambda>i. i \<notin> s_qid ` set rs) (a_pending c)\<rparr>)"
proof -
  let ?id = "\<lambda>p. packet_id (frame p)"
  from answers_frames [OF assms(5)] obtain ps where ps: "proper ps" "map frame ps = map (answer_bytes pc) rs"
    "map ?id ps = map s_qid rs" by blast
  have r: "partial []" by (simp add: partial_def)
  have "a_buffer c @ concat cs = concat (map frame ps) @ []" using assms(2,6) ps(2) by simp
  from receive_all_frames [OF ps(1) r _ this] have "receive_all cs c = Some ((take_frames ps c)\<lparr>a_buffer := []\<rparr>)"
    using assms(2) r by simp
  moreover have "take_frames ps c = c\<lparr>a_done := a_done c @ map (\<lambda>p. (?id p, frame p)) ps,
      a_pending := filter (\<lambda>i. i \<notin> set (map ?id ps)) (a_pending c)\<rparr>"
    using assms(3,4) ps(3) by (intro take_frames_matching [OF assms(1)]) (simp_all only: set_map)
  moreover have "map (\<lambda>p. (?id p, frame p)) ps = zip (map ?id ps) (map frame ps)" by (simp add: zip_map_map zip_same_conv_map)
  moreover have "zip (map s_qid rs) (map (answer_bytes pc) rs) = map (\<lambda>r. (s_qid r, answer_bytes pc r)) rs"
    by (simp add: zip_map_map zip_same_conv_map)
  ultimately show ?thesis using assms(2) by (simp only: ps(2,3) set_map) (cases c, simp)
qed

definition demo_aio :: aio_conn where
  "demo_aio = \<lparr>a_buffer = [], a_handshake = Some [], a_pending = [1, 2], a_done = [], a_errors = [],
     a_failed = False, a_closed = False, a_transport = True\<rparr>"

definition demo_answer :: "int \<Rightarrow> server_answer" where
  "demo_answer q = \<lparr>s_qid = q, s_topology = Some (3, 1), s_error = None, s_body = [9]\<rparr>"

theorem aio_responses_matched_witness:
  "\<exists>d1 d2. receive_all [take 7 (d2 @ d1), drop 7 (d2 @ d1)] demo_aio =
     Some (demo_aio\<lparr>a_done := [(2, d2), (1, d1)], a_pending := []\<rparr>)"
proof -
  let ?pc = "new_protocol_context (1, 7, 1) (Some all_supported)"
  let ?rs = "[demo_answer 2, demo_answer 1]"
  let ?b = "concat (map (answer_bytes ?pc) ?rs)"
  have l: "length (answer_bytes ?pc (demo_answer q)) \<le> 40" for q
    by (simp add: answer_bytes_def demo_answer_def server_response_def response_head_def)
  have ok: "\<forall>r \<in> set ?rs. answer_ok ?pc r"
    using l [of 1] l [of 2] by (auto simp: answer_ok_def head_ok_def demo_answer_def in_range_def)
  have "receive_all [take 7 ?b, drop 7 ?b] demo_aio =
    Some (demo_aio\<lparr>a_done := a_done demo_aio @ map (\<lambda>r. (s_qid r, answer_bytes ?pc r)) ?rs,
      a_pending := filter (\<lambda>i. i \<notin> s_qid ` set ?rs) (a_pending demo_aio)\<rparr>)"
    by (rule aio_responses_matched [of _ ?rs ?pc]) (use ok in \<open>simp_all add: demo_aio_def demo_answer_def del: take_append drop_append\<close>)
  then show ?thesis
    by (intro exI [of _ "answer_bytes ?pc (demo_answer 1)"] exI [of _ "answer_bytes ?pc (demo_answer 2)"])
      (simp add: demo_aio_def demo_answer_def)
qed

subsection \<open>Every request is resolved at most once\<close>

text \<open>
  The steps of a connection in any order: requests with new ids, data, a lost transport,
  reconnection and closing. \<open>issued\<close> are the ids used so far.
\<close>

definition issued :: "aio_conn \<Rightarrow> int list" where
  "issued c = map fst (a_done c) @ a_errors c @ a_pending c"

inductive aio_step :: "aio_conn \<Rightarrow> aio_conn \<Rightarrow> bool" where
  step_request: "q \<notin> set (issued c) \<Longrightarrow> aio_request q c = Inr c' \<Longrightarrow> aio_step c c'"
| step_data: "data_received d c = Some c' \<Longrightarrow> aio_step c c'"
| step_lost: "aio_step c ((fst (process_connection_error c))\<lparr>a_transport := False\<rparr>)"
| step_connect: "aio_step c (aio_connect_version c)"
| step_connected: "aio_step c (c\<lparr>a_failed := False\<rparr>)"
| step_close: "aio_step c (aio_close c)"

definition aio_init :: aio_conn where
  "aio_init = \<lparr>a_buffer = [], a_handshake = None, a_pending = [], a_done = [], a_errors = [],
     a_failed = False, a_closed = False, a_transport = False\<rparr>"

inductive aio_reachable :: "aio_conn \<Rightarrow> bool" where
  aio_start: "aio_reachable aio_init"
| aio_next: "aio_reachable c \<Longrightarrow> aio_step c c' \<Longrightarrow> aio_reachable c'"

definition aio_inv :: "aio_conn \<Rightarrow> bool" where
  "aio_inv c \<longleftrightarrow> distinct (issued c) \<and> (\<forall>(q, packet) \<in> set (a_done c). packet_id packet = q)"

lemma process_packet_inv: "aio_inv c \<Longrightarrow> aio_inv ((process_packet packet c)\<lparr>a_buffer := b\<rparr>)"
  by (auto simp: aio_inv_def issued_def process_packet_def process_message_def Let_def
      distinct_removeAll split: option.splits)

lemma process_buffer_inv:
  assumes "process_buffer c = Some c'" and "aio_inv c"
  shows "aio_inv c'"
proof -
  let ?P = "\<lambda>c c'. aio_inv c \<longrightarrow> aio_inv c'"
  have "?P c c'"
  proof (rule process_buffer.raw_induct [OF _ assms(1), of ?P], goal_cases)
    case (1 loop c c')
    then show ?case using process_packet_inv by (auto split: if_splits simp del: process_packet_buffer)
  qed
  with assms(2) show ?thesis by simp
qed

lemma aio_step_inv: "aio_step c c' \<Longrightarrow> aio_inv c \<Longrightarrow> aio_inv c'"
proof (induction rule: aio_step.induct)
  case (step_request q c c')
  then have "c' = c\<lparr>a_pending := q # a_pending c\<rparr>"
    by (auto simp: aio_request_def issued_def split: if_splits)
  with step_request show ?case by (simp add: aio_inv_def issued_def)
next
  case (step_data d c c')
  have "aio_inv (c\<lparr>a_buffer := a_buffer c @ d\<rparr>)" using step_data.prems by (simp add: aio_inv_def issued_def)
  with step_data.hyps show ?case unfolding data_received_def by (rule process_buffer_inv)
qed (auto simp: aio_inv_def issued_def process_connection_error_def process_connection_lost_def
    aio_connect_version_def aio_close_def aio_close_transport_def)



end
