(* ===== verification/Cursors.thy ===== *)
theory Cursors
  imports Sql PutGet
begin

section \<open>Unwrapping and cursors\<close>

text \<open>
  \<open>Client.unwrap_binary\<close> of \<open>client.py\<close> and the synchronous cursors of \<open>cursors.py\<close>. A cursor's
  iterator over the page it holds is the list of the items left in it; the connection it was
  created with is the one the environment stands for. \<open>StopIteration\<close> is an error value.
\<close>

subsection \<open>Unwrapping complex objects\<close>

text \<open>The offset of a wrapped object is not used: the stream is read from its beginning.\<close>

definition unwrap_blob :: "nat \<Rightarrow> byte list \<Rightarrow> client \<Rightarrow> (pyval \<times> client) res" where
  "unwrap_blob depth blob c =
     rbind (parse_obj depth BinaryObject (new_stream c blob)) (\<lambda>(t, st).
     rbind (read_ctype_backward t st) (\<lambda>(ob, st').
     rbind (to_py BinaryObject ob (Some (sclient st'))) (\<lambda>(v, c').
       Inr (v, case c' of None \<Rightarrow> sclient st' | Some c1 \<Rightarrow> c1))))"

text \<open>\<open>isinstance(value, int)\<close> holds of \<open>bool\<close>s too, \<open>type(value) is int\<close> does not.\<close>

definition int_instance :: "pyval \<Rightarrow> bool" where
  "int_instance v = (case v of VInt i \<Rightarrow> True | VBool b \<Rightarrow> True | _ \<Rightarrow> False)"

definition pair_parts :: "pyval \<Rightarrow> (pyval \<times> pyval) option" where
  "pair_parts v = (case v of VTuple [a, b] \<Rightarrow> Some (a, b) | _ \<Rightarrow> None)"

lemma pair_parts_Some [simp]: "pair_parts v = Some (a, b) \<longleftrightarrow> v = VTuple [a, b]"
  by (auto simp: pair_parts_def split: pyval.splits list.splits)

function unwrap_binary :: "nat \<Rightarrow> pyval \<Rightarrow> client \<Rightarrow> (pyval \<times> client) res" where
  "unwrap_binary depth value c =
     (case pair_parts value of
        None \<Rightarrow> Inr (value, c)
      | Some (a, b) \<Rightarrow>
          (case b of
             VInt offset \<Rightarrow> (case a of VBytes blob \<Rightarrow> unwrap_blob depth blob c | _ \<Rightarrow> Inr (value, c))
           | VList xs \<Rightarrow>
               if int_instance a
               then rbind (rfold (\<lambda>x (ys, c). rbind (unwrap_binary depth x c) (\<lambda>(y, c'). Inr (ys @ [y], c'))) xs ([], c))
                 (\<lambda>(ys, c'). Inr (VTuple [a, VList ys], c'))
               else Inr (value, c)
           | VDict ordered kvs \<Rightarrow>
               if int_instance a
               then rbind (rfold (\<lambda>kv (ys, c). rbind (unwrap_binary depth (fst kv) c) (\<lambda>(k, c1).
                     rbind (unwrap_binary depth (snd kv) c1) (\<lambda>(v, c2).
                       rbind (dict_set k v ys) (\<lambda>ys'. Inr (ys', c2))))) kvs ([], c))
                 (\<lambda>(ys, c'). Inr (VTuple [a, VDict False ys], c'))
               else Inr (value, c)
           | _ \<Rightarrow> Inr (value, c)))"
  by pat_completeness auto
termination
proof (relation "measure (\<lambda>(depth, value, c). vsize value)", goal_cases)
  case (2 depth v c p a b xs x acc ys c')
  then show ?case using sum_list_member [of x xs vsize] by auto
next
  case (3 depth v c p a b ordered kvs kv acc ys c')
  then show ?case
    using sum_list_member [of kv kvs "\<lambda>kv. vsize (fst kv) + vsize (snd kv)"] vsize_pos [of a] by auto
next
  case (4 depth v c p a b ordered kvs kv acc ys c')
  then show ?case
    using sum_list_member [of kv kvs "\<lambda>kv. vsize (fst kv) + vsize (snd kv)"] vsize_pos [of a] by auto
qed simp

declare unwrap_binary.simps [simp del]

definition unwrap :: "pyval \<Rightarrow> ('s env, pyval) run" where
  "unwrap v env =
     (case unwrap_binary (e_depth env) v (e_client env) of
        Inl e \<Rightarrow> (Inl e, env)
      | Inr (x, c) \<Rightarrow> (Inr x, env\<lparr>e_client := c\<rparr>))"

text \<open>A list comprehension whose body has effects.\<close>

fun run_map :: "('a \<Rightarrow> ('s, 'b) run) \<Rightarrow> 'a list \<Rightarrow> ('s, 'b list) run" where
  "run_map f [] s = (Inr [], s)"
| "run_map f (x # xs) s =
     (case f x s of
        (Inl e, s') \<Rightarrow> (Inl e, s')
      | (Inr y, s') \<Rightarrow> (case run_map f xs s' of (Inl e, s'') \<Rightarrow> (Inl e, s'') | (Inr ys, s'') \<Rightarrow> (Inr (y # ys), s'')))"

lemma run_map_Cons_Inr:
  "run_map f (x # xs) s = (Inr ys, s') \<longleftrightarrow>
   (\<exists>y zs s1. f x s = (Inr y, s1) \<and> run_map f xs s1 = (Inr zs, s') \<and> ys = y # zs)"
  by (auto split: prod.splits sum.splits)

lemma run_map_length: "run_map f xs s = (Inr ys, s') \<Longrightarrow> length ys = length xs"
  by (induction xs arbitrary: s ys) (auto split: prod.splits sum.splits)

subsection \<open>Cursors\<close>

record 'i cursor =
  cu_id :: pyval
  cu_more :: pyval
  cu_data :: "'i list"

record row_cursor = "wval cursor" +
  cu_names :: "wval option"
  cu_field_count :: int

text \<open>\<open>iter(result.value['data'].items())\<close>, \<open>iter(result.value['data'])\<close>\<close>

definition data_items :: "wval \<Rightarrow> (pyval \<times> pyval) list res" where
  "data_items v = (case v of WV (VDict ordered kvs) \<Rightarrow> Inr kvs | _ \<Rightarrow> Inl AttributeError)"

definition new_cursor :: "py_error \<Rightarrow> (wval \<Rightarrow> 'i list res) \<Rightarrow> api_result \<Rightarrow> 'i cursor res" where
  "new_cursor err items result =
     (if r_status result \<noteq> 0 then Inl err
      else
        rbind (rbind (wfield ''cursor'' (r_value result)) as_val) (\<lambda>cid.
        rbind (rbind (wfield ''more'' (r_value result)) as_val) (\<lambda>m.
        rbind (rbind (wfield ''data'' (r_value result)) items) (\<lambda>data.
          Inr \<lparr>cu_id = cid, cu_more = m, cu_data = data\<rparr>))))"

definition page_response_items ::
  "py_error \<Rightarrow> (wval \<Rightarrow> 'i list res) \<Rightarrow> api_result \<Rightarrow> ('i list \<times> pyval) res"
where
  "page_response_items err items result =
     (if r_status result \<noteq> 0 then Inl err
      else
        rbind (rbind (wfield ''data'' (r_value result)) items) (\<lambda>data.
        rbind (rbind (wfield ''more'' (r_value result)) as_val) (\<lambda>m. Inr (data, m))))"

text \<open>
  The body of every \<open>__next__\<close>: the next item of the page, or of the next page if the server has
  more. An empty page ends the iteration, whatever the server says about more.
\<close>

definition page_next ::
  "(pyval \<Rightarrow> ('s env, api_result) run) \<Rightarrow> (api_result \<Rightarrow> ('i list \<times> pyval) res) \<Rightarrow>
   (('i, 'z) cursor_scheme \<times> 's env, 'i) run"
where
  "page_next get_page page_items = (\<lambda>(cu, env).
     (case cu_data cu of
        x # xs \<Rightarrow> (Inr x, (cu\<lparr>cu_data := xs\<rparr>, env))
      | [] \<Rightarrow>
          if truthy (cu_more cu)
          then (case run_bind (get_page (cu_id cu)) (\<lambda>result. run_res (page_items result)) env of
                  (Inl e, env') \<Rightarrow> (Inl e, (cu, env'))
                | (Inr (data, m), env') \<Rightarrow>
                    (case data of
                       [] \<Rightarrow> (Inl StopIteration, (cu\<lparr>cu_data := [], cu_more := m\<rparr>, env'))
                     | x # xs \<Rightarrow> (Inr x, (cu\<lparr>cu_data := xs, cu_more := m\<rparr>, env'))))
          else (Inl StopIteration, (cu, env))))"

definition on_env :: "('s env, 'a) run \<Rightarrow> ('c \<times> 's env, 'a) run" where
  "on_env f = (\<lambda>(cu, env). case f env of (r, env') \<Rightarrow> (r, (cu, env')))"

definition unwrap_pair :: "pyval \<times> pyval \<Rightarrow> ('s env, pyval \<times> pyval) run" where
  "unwrap_pair kv =
     run_bind (unwrap (fst kv)) (\<lambda>k. run_bind (unwrap (snd kv)) (\<lambda>v. run_res (Inr (k, v))))"

subsection \<open>Scan, SQL and vector cursors\<close>

definition scan_cursor ::
  "'s net \<Rightarrow> cache_info \<Rightarrow> pyval \<Rightarrow> pyval \<Rightarrow> pyval \<Rightarrow> ('s env, (pyval \<times> pyval) cursor) run"
where
  "scan_cursor net cache_info page_size partitions local =
     run_bind (scan (query_perform net) cache_info page_size partitions local)
       (\<lambda>result. run_res (new_cursor CacheError data_items result))"

definition scan_next :: "'s net \<Rightarrow> ((pyval \<times> pyval) cursor \<times> 's env, pyval \<times> pyval) run" where
  "scan_next net =
     run_bind (page_next (scan_cursor_get_page (query_perform net)) (page_response_items CacheError data_items))
       (\<lambda>kv. on_env (unwrap_pair kv))"

definition sql_cursor ::
  "'s net \<Rightarrow> cache_info \<Rightarrow> pyval \<Rightarrow> pyval \<Rightarrow> pyval \<Rightarrow> pyval \<Rightarrow> pyval \<Rightarrow> pyval \<Rightarrow> pyval \<Rightarrow> pyval \<Rightarrow>
   ('s env, (pyval \<times> pyval) cursor) run"
where
  "sql_cursor net cache_info table_name query_str page_size query_args distributed_joins replicated_only local timeout =
     run_bind (sql (query_perform net) cache_info table_name query_str page_size query_args distributed_joins
         replicated_only local timeout)
       (\<lambda>result. run_res (new_cursor SQLError data_items result))"

definition sql_next :: "'s net \<Rightarrow> ((pyval \<times> pyval) cursor \<times> 's env, pyval \<times> pyval) run" where
  "sql_next net =
     run_bind (page_next (sql_cursor_get_page (query_perform net)) (page_response_items SQLError data_items))
       (\<lambda>kv. on_env (unwrap_pair kv))"

definition vector_cursor ::
  "'s net \<Rightarrow> cache_info \<Rightarrow> pyval \<Rightarrow> pyval \<Rightarrow> pyval \<Rightarrow> pyval \<Rightarrow> pyval \<Rightarrow> pyval \<Rightarrow>
   ('s env, (pyval \<times> pyval) cursor) run"
where
  "vector_cursor net cache_info page_size type_name field clause_vector k threshold =
     run_bind (vector (query_perform net) cache_info page_size type_name field clause_vector k threshold)
       (\<lambda>result. run_res (new_cursor CacheError data_items result))"

definition vector_next :: "'s net \<Rightarrow> ((pyval \<times> pyval) cursor \<times> 's env, pyval \<times> pyval) run" where
  "vector_next net =
     run_bind (page_next (vector_cursor_get_page (query_perform net)) (page_response_items CacheError data_items))
       (\<lambda>kv. on_env (unwrap_pair kv))"

subsection \<open>SQL fields cursors\<close>

text \<open>The names of the fields, if the query asked for them, are the first item.\<close>

definition fields_finalize_init :: "api_result \<Rightarrow> row_cursor res" where
  "fields_finalize_init result =
     rbind (new_cursor SQLError wseq result) (\<lambda>cu.
       let names = (case wfield ''fields'' (r_value result) of Inr (WV v) \<Rightarrow> if truthy v then Some (WV v) else None
                    | Inr (WL xs) \<Rightarrow> if xs \<noteq> [] then Some (WL xs) else None | _ \<Rightarrow> None)
       in rbind (case names of
                   Some v \<Rightarrow> rbind (wseq v) (\<lambda>xs. Inr (int (length xs)))
                 | None \<Rightarrow> rbind (rbind (wfield ''field_count'' (r_value result)) as_val) (\<lambda>v.
                     case v of VInt i \<Rightarrow> Inr i | _ \<Rightarrow> Inl TypeError)) (\<lambda>n.
            Inr \<lparr>cu_id = cu_id cu, cu_more = cu_more cu, cu_data = cu_data cu, cu_names = names,
              cu_field_count = n\<rparr>))"

definition fields_cursor :: "'s net \<Rightarrow> cache_info \<Rightarrow> sql_fields_args \<Rightarrow> ('s env, row_cursor) run" where
  "fields_cursor net cache_info a =
     run_bind (sql_fields (query_perform net) cache_info a) (\<lambda>result. run_res (fields_finalize_init result))"

definition unwrap_row :: "wval \<Rightarrow> ('s env, wval) run" where
  "unwrap_row row =
     run_bind (run_res (rbind (wseq row) (rmap as_val)))
       (\<lambda>vs. run_bind (run_map unwrap vs) (\<lambda>xs. run_res (Inr (WV (VList xs)))))"

definition fields_next :: "'s net \<Rightarrow> (row_cursor \<times> 's env, wval) run" where
  "fields_next net = (\<lambda>(cu, env).
     (case cu_names cu of
        Some names \<Rightarrow> (Inr names, (cu\<lparr>cu_names := None\<rparr>, env))
      | None \<Rightarrow>
          run_bind (page_next (\<lambda>cid. sql_fields_cursor_get_page (query_perform net) cid (cu_field_count cu))
              (page_response_items SQLError wseq))
            (\<lambda>row. on_env (unwrap_row row)) (cu, env)))"

subsection \<open>Closing\<close>

text \<open>
  A cursor is closed on the server if it has an id that is not 0 and more pages; what the server
  answers is ignored, and nothing remembers that it was closed.
\<close>

definition cursor_close :: "'s net \<Rightarrow> ('i, 'z) cursor_scheme \<Rightarrow> ('s env, unit) run" where
  "cursor_close net cu =
     (if truthy (cu_id cu) \<and> truthy (cu_more cu)
      then run_bind (resource_close (query_perform net) (cu_id cu)) (\<lambda>result. run_res (Inr ()))
      else run_res (Inr ()))"

subsection \<open>Iterators\<close>

text \<open>
  What a \<open>for\<close> loop over an iterator collects: \<open>nxt\<close> until it raises \<open>StopIteration\<close>; any other
  exception ends the loop. The loop may not end.
\<close>

partial_function (option) collect :: "('s, 'a) run \<Rightarrow> 's \<Rightarrow> ('a list res \<times> 's) option" where
  "collect nxt s =
     (case nxt s of
        (Inl e, s') \<Rightarrow> Some (if e = StopIteration then Inr [] else Inl e, s')
      | (Inr x, s') \<Rightarrow>
          Option.bind (collect nxt s') (\<lambda>(r, s''). Some (rbind r (\<lambda>xs. Inr (x # xs)), s'')))"

text \<open>
  The contract of an iterator: \<open>left s xs\<close> says that \<open>xs\<close> are the items it has left in state \<open>s\<close>.
\<close>

locale iterator =
  fixes nxt :: "('s, 'a) run"
    and left :: "'s \<Rightarrow> 'a list \<Rightarrow> bool"
  assumes next_item: "left s (x # xs) \<Longrightarrow> \<exists>s'. nxt s = (Inr x, s') \<and> left s' xs"
    and next_end: "left s [] \<Longrightarrow> nxt s = (Inl StopIteration, s)"
begin

lemma collects: "left s xs \<Longrightarrow> \<exists>s'. collect nxt s = Some (Inr xs, s') \<and> left s' []"
proof (induction xs arbitrary: s)
  case Nil
  then show ?case using next_end by (subst collect.simps) auto
next
  case (Cons x xs)
  from next_item [OF Cons.prems] obtain s1 where s1: "nxt s = (Inr x, s1)" "left s1 xs" by blast
  from Cons.IH [OF s1(2)] obtain s' where "collect nxt s1 = Some (Inr xs, s')" "left s' []" by blast
  with s1(1) show ?case by (subst collect.simps) auto
qed

end

subsection \<open>Pages\<close>

text \<open>
  The server serves the pages \<open>ps\<close>, none of them empty, one per request and then says that there
  is no more; \<open>ys\<close> is what the items are turned into.
\<close>

fun served ::
  "(pyval \<Rightarrow> ('s env, api_result) run) \<Rightarrow> (api_result \<Rightarrow> ('i list \<times> pyval) res) \<Rightarrow> ('i \<Rightarrow> ('s env, 'o) run) \<Rightarrow>
   pyval \<Rightarrow> pyval \<Rightarrow> 'i list list \<Rightarrow> 's env \<Rightarrow> 'o list \<Rightarrow> 's env \<Rightarrow> bool"
where
  "served get_page page_items emit cid m [] env ys env' \<longleftrightarrow> \<not> truthy m \<and> ys = [] \<and> env' = env"
| "served get_page page_items emit cid m (p # ps) env ys env' \<longleftrightarrow>
     truthy m \<and> p \<noteq> [] \<and>
     (\<exists>r m' env1 y1 env2 y2. get_page cid env = (Inr r, env1) \<and> page_items r = Inr (p, m') \<and>
        run_map emit p env1 = (Inr y1, env2) \<and> served get_page page_items emit cid m' ps env2 y2 env' \<and>
        ys = y1 @ y2)"

definition pages_left ::
  "(pyval \<Rightarrow> ('s env, api_result) run) \<Rightarrow> (api_result \<Rightarrow> ('i list \<times> pyval) res) \<Rightarrow> ('i \<Rightarrow> ('s env, 'o) run) \<Rightarrow>
   's env \<Rightarrow> ('i, 'z) cursor_scheme \<times> 's env \<Rightarrow> 'o list \<Rightarrow> bool"
where
  "pages_left get_page page_items emit env' s ys \<longleftrightarrow>
     (\<exists>pages y0 env0 y1. run_map emit (cu_data (fst s)) (snd s) = (Inr y0, env0) \<and>
        served get_page page_items emit (cu_id (fst s)) (cu_more (fst s)) pages env0 y1 env' \<and> ys = y0 @ y1)"

lemma pages_left_end:
  assumes "pages_left get_page page_items emit env' (cu, env) []"
  shows "cu_data cu = [] \<and> \<not> truthy (cu_more cu) \<and> env = env'"
proof -
  from assms obtain pages env0 where
    l: "run_map emit (cu_data cu) env = (Inr [], env0)"
    "served get_page page_items emit (cu_id cu) (cu_more cu) pages env0 [] env'" by (auto simp: pages_left_def)
  from run_map_length [OF l(1)] have d: "cu_data cu = []" by simp
  moreover have "pages = []"
    using l(2) by (cases pages) (auto dest!: run_map_length)
  ultimately show ?thesis using l by simp
qed

lemma pages_left_item:
  assumes "pages_left get_page page_items emit env' (cu, env) (y # ys)"
  shows "\<exists>cu1 env1. run_bind (page_next get_page page_items) (\<lambda>x. on_env (emit x)) (cu, env) = (Inr y, (cu1, env1)) \<and>
    pages_left get_page page_items emit env' (cu1, env1) ys \<and> cursor.more cu1 = cursor.more cu"
proof -
  from assms obtain pages y0 env0 y1 where
    l: "run_map emit (cu_data cu) env = (Inr y0, env0)"
    "served get_page page_items emit (cu_id cu) (cu_more cu) pages env0 y1 env'" "y # ys = y0 @ y1"
    by (auto simp: pages_left_def)
  show ?thesis
  proof (cases "cu_data cu")
    case (Cons x xs)
    with l(1) obtain y' zs e1 where
      x: "emit x env = (Inr y', e1)" "run_map emit xs e1 = (Inr zs, env0)" "y0 = y' # zs"
      by (auto simp: run_map_Cons_Inr simp del: run_map.simps(2))
    with l(2,3) have "pages_left get_page page_items emit env' (cu\<lparr>cu_data := xs\<rparr>, e1) ys"
      by (auto simp: pages_left_def)
    with x(1,3) l(3) Cons show ?thesis by (auto simp: run_bind_def page_next_def on_env_def)
  next
    case Nil
    with l have e: "y0 = []" "env0 = env" "y1 = y # ys" by auto
    with l(2) obtain p ps where "pages = p # ps" by (cases pages) auto
    with l(2) e obtain r m' env1 z1 env2 z2 where
      p: "truthy (cu_more cu)" "p \<noteq> []" "get_page (cu_id cu) env = (Inr r, env1)" "page_items r = Inr (p, m')"
        "run_map emit p env1 = (Inr z1, env2)"
        "served get_page page_items emit (cu_id cu) m' ps env2 z2 env'" "y # ys = z1 @ z2" by auto
    from p(2) obtain x xs where x: "p = x # xs" by (cases p) auto
    with p(5) obtain y' zs e1 where
      y: "emit x env1 = (Inr y', e1)" "run_map emit xs e1 = (Inr zs, env2)" "z1 = y' # zs"
      by (auto simp: run_map_Cons_Inr simp del: run_map.simps(2))
    let ?cu = "cu\<lparr>cu_data := xs, cu_more := m'\<rparr>"
    have "pages_left get_page page_items emit env' (?cu, e1) ys"
      using y p(6,7) by (auto simp: pages_left_def)
    with y(1,3) p(1,3,4,7) x Nil show ?thesis
      by (auto simp: run_bind_def run_res_def page_next_def on_env_def)
  qed
qed

lemma page_iterator:
  "iterator (run_bind (page_next get_page page_items) (\<lambda>x. on_env (emit x)))
     (pages_left get_page page_items emit env')"
proof (unfold_locales, goal_cases)
  case (1 s x xs)
  then show ?case using pages_left_item by (cases s) fast
next
  case (2 s)
  then show ?case
    by (cases s) (auto dest!: pages_left_end simp: run_bind_def page_next_def)
qed

end
