(* ===== verification/CursorProps.thy ===== *)
theory CursorProps
  imports Cursors
begin

section \<open>What iterating over a cursor delivers\<close>

text \<open>
  The four cursors are iterators (interpretations of \<open>iterator\<close>), over whatever pages the server
  serves; for a scan the pages are followed down to the bytes of the responses.
\<close>

subsection \<open>The cursors as iterators\<close>

interpretation scan_it: iterator "scan_next net"
  "pages_left (scan_cursor_get_page (query_perform net)) (page_response_items CacheError data_items) unwrap_pair env'" for net env'
  unfolding scan_next_def by (rule page_iterator)

interpretation sql_it: iterator "sql_next net"
  "pages_left (sql_cursor_get_page (query_perform net)) (page_response_items SQLError data_items) unwrap_pair env'" for net env'
  unfolding sql_next_def by (rule page_iterator)

interpretation vector_it: iterator "vector_next net"
  "pages_left (vector_cursor_get_page (query_perform net)) (page_response_items CacheError data_items) unwrap_pair env'" for net env'
  unfolding vector_next_def by (rule page_iterator)

definition fields_left :: "'s net \<Rightarrow> int \<Rightarrow> 's env \<Rightarrow> row_cursor \<times> 's env \<Rightarrow> wval list \<Rightarrow> bool" where
  "fields_left net n env' s ys \<longleftrightarrow> cu_field_count (fst s) = n \<and>
     (case cu_names (fst s) of
        None \<Rightarrow> pages_left (\<lambda>cid. sql_fields_cursor_get_page (query_perform net) cid n)
          (page_response_items SQLError wseq) unwrap_row env' s ys
      | Some names \<Rightarrow> \<exists>rows. ys = names # rows \<and>
          pages_left (\<lambda>cid. sql_fields_cursor_get_page (query_perform net) cid n)
            (page_response_items SQLError wseq) unwrap_row env' s rows)"

interpretation fields_it: iterator "fields_next net" "fields_left net n env'" for net n env'
proof (unfold_locales, goal_cases)
  case (1 s x xs)
  obtain cu env where s: "s = (cu, env)" by (cases s)
  show ?case
  proof (cases "cu_names cu")
    case None
    with 1 s have l: "pages_left (\<lambda>cid. sql_fields_cursor_get_page (query_perform net) cid (cu_field_count cu))
        (page_response_items SQLError wseq) unwrap_row env' (cu, env) (x # xs)" and n: "cu_field_count cu = n"
      by (simp_all add: fields_left_def)
    from pages_left_item [OF l] obtain cu1 env1 where
      i: "fields_next net s = (Inr x, (cu1, env1))" "cursor.more cu1 = cursor.more cu"
        "pages_left (\<lambda>cid. sql_fields_cursor_get_page (query_perform net) cid (cu_field_count cu))
          (page_response_items SQLError wseq) unwrap_row env' (cu1, env1) xs"
      by (auto simp: fields_next_def s None)
    from i(2) have "cu_names cu1 = cu_names cu" "cu_field_count cu1 = cu_field_count cu"
      by (cases cu, cases cu1, simp)+
    with i None n show ?thesis by (auto simp: fields_left_def)
  next
    case (Some names)
    with 1 s show ?thesis by (auto simp: fields_left_def fields_next_def pages_left_def)
  qed
next
  case (2 s)
  then show ?case
    by (cases s) (auto dest!: pages_left_end simp: fields_left_def fields_next_def run_bind_def page_next_def
        split: option.splits)
qed

text \<open>A page read from the bytes of a response.\<close>

lemma cursor_param_writes:
  "in_range 8 True cid \<Longrightarrow>
   writes (put_fields tx [(''cursor'', WPrim TLong)] [(''cursor'', WV (VInt cid))]) (new_stream c []) (ct_bytes 8 cid) c"
  by (auto simp: writes_def dget_def as_val_def write_res_def pack_int_def struct_pack_def swrite_writable new_stream_def)

lemma page_performs:
  assumes body: "put_fields None page_response [(''data'', WV (VDict ordered kvs)), (''more'', WV (VBool m))]
      (new_stream c []) = Inr body"
    and good: "list_all2 good_el (flat_pairs kvs) (flat_pairs kws)" "dict_keys (map fst kws)"
    and small: "length (sbuf body) < 2 ^ 31" "2 * length (sbuf body) + 1 \<le> e_depth env"
    and footer: "reader {} (compact_footer c) (e_client env)" and cid: "in_range 8 True cid"
    and cnt: "0 \<le> e_query_counter env" "e_query_counter env < MAX_LONG"
    and net: "net (request_bytes op (e_query_counter env + 1) (ct_bytes 8 cid)) (e_net env) =
      (Inr (server_response (e_protocol env) (e_query_counter env + 1) None None (sbuf body)), s')"
  shows "\<exists>r env'. cursor_query (query_perform net) op (VInt cid) page_response query_result_post_process env = (Inr r, env') \<and>
    r_status r = 0 \<and> r_value r = WD [(''data'', WV (VDict False kws)), (''more'', WV (VBool m))] \<and>
    reader {} (compact_footer c) (e_client env') \<and> e_net env' = s' \<and>
    e_query_counter env' = e_query_counter env + 1 \<and> same_session env env'"
proof -
  let ?d = "[(''data'', WV (VDict ordered kvs)), (''more'', WV (VBool m))]"
  let ?ws = "[WV (VDict False kws), WV (VBool m)]"
  have "list_all2 (\<lambda>x w. \<exists>u. dget (fst x) ?d = Inr u \<and> wgood (snd x) u w) page_response ?ws"
    using wgood.map [of "VDict ordered kvs" kvs kws, OF _ good] wgood.bool [of "VBool m"]
    by (simp add: page_response_def dget_def py_items_def)
  from server_body [OF body this small] obtain bss where
    b: "list_all2 (\<lambda>x bw. decodes (reader {} (compact_footer c)) (get_w (e_depth env) [] (snd x))
       (conv_w [] (snd x)) (fst bw) (snd bw)) page_response (zip bss ?ws)"
    "concat bss = sbuf body" "map fst (zip bss ?ws) = bss" "map snd (zip bss ?ws) = ?ws"
    "list_all (\<lambda>x. plain (snd x)) page_response" by (elim exE conjE)
  have h: "head_ok 0 None None" by (simp add: head_ok_def in_range_def)
  have d: "distinct (map fst page_response)" "set (map fst page_response) \<inter> set reserved = {}"
    by (simp_all add: page_response_def reserved_def)
  have net': "net (request_bytes op (e_query_counter env + 1) (ct_bytes 8 cid)) (e_net env) =
      (Inr (server_response (e_protocol env) (e_query_counter env + 1) None None (concat (map fst (zip bss ?ws)))), s')"
    unfolding b(2,3) by (rule net)
  have params: "[(''cursor'', WV (VInt cid))] \<noteq> [] \<or> [(''cursor'', WPrim TLong)] = []" by simp
  let ?r = "success_result (e_query_counter env + 1) (fields_result page_response ?ws)"
  have post: "query_result_post_process ?r = Inr ?r" "r_status ?r = 0"
    "r_value ?r = WD [(''data'', WV (VDict False kws)), (''more'', WV (VBool m))]"
    by (simp_all add: query_result_post_process_def success_result_def fields_result_def page_response_def)
  have "\<exists>env'. cursor_query (query_perform net) op (VInt cid) page_response query_result_post_process env = (Inr ?r, env') \<and>
    reader {} (compact_footer c) (e_client env') \<and> e_net env' = s' \<and>
    e_query_counter env' = e_query_counter env + 1 \<and> same_session env env'"
    using query_performs [where net = net and post = query_result_post_process,
        OF cursor_param_writes [OF cid] params cnt(2,1) net' h b(1,5) d footer]
    unfolding b(4) post(1) cursor_query_def by (elim exE conjE, intro exI conjI)
  with post(2,3) show ?thesis by blast
qed

subsection \<open>Wrapped objects\<close>



subsection \<open>A scan, from the bytes of its pages\<close>

definition plain_pair :: "pyval \<times> pyval \<Rightarrow> bool" where
  "plain_pair kv \<longleftrightarrow> pair_parts (fst kv) = None \<and> pair_parts (snd kv) = None"

lemma unwrap_plain: "pair_parts v = None \<Longrightarrow> unwrap v env = (Inr v, env)"
  by (simp add: unwrap_def unwrap_binary.simps)

lemma unwrap_plain_pairs: "list_all plain_pair kvs \<Longrightarrow> run_map unwrap_pair kvs env = (Inr kvs, env)"
  by (induction kvs) (auto simp: plain_pair_def unwrap_pair_def unwrap_plain run_bind_def run_res_def)

text \<open>
  \<open>serves_pages\<close>: asked for the next page of cursor \<open>cid\<close> with the query ids after \<open>n\<close>, the server
  answers with the bytes of one page after the other, each a non-empty map of values that are
  written as they are, and with the flag that tells whether pages are left.
\<close>

fun serves_pages ::
  "'s net \<Rightarrow> protocol_context \<Rightarrow> client \<Rightarrow> nat \<Rightarrow> int \<Rightarrow> (pyval \<times> pyval) list list \<Rightarrow> int \<Rightarrow> 's \<Rightarrow> bool"
where
  "serves_pages net pc c depth cid [] n s \<longleftrightarrow> True"
| "serves_pages net pc c depth cid (p # ps) n s \<longleftrightarrow>
     p \<noteq> [] \<and> list_all2 good_el (flat_pairs p) (flat_pairs p) \<and> dict_keys (map fst p) \<and> list_all plain_pair p \<and>
     (\<exists>body s'. put_fields None page_response [(''data'', WV (VDict False p)), (''more'', WV (VBool (ps \<noteq> [])))]
           (new_stream c []) = Inr body \<and>
        length (sbuf body) < 2 ^ 31 \<and> 2 * length (sbuf body) + 1 \<le> depth \<and>
        net (request_bytes OP_QUERY_SCAN_CURSOR_GET_PAGE (n + 1) (ct_bytes 8 cid)) s =
          (Inr (server_response pc (n + 1) None None (sbuf body)), s') \<and>
        serves_pages net pc c depth cid ps (n + 1) s')"

lemma served_pages:
  assumes "serves_pages net (e_protocol env) c (e_depth env) cid pages (e_query_counter env) (e_net env)"
    and "reader {} (compact_footer c) (e_client env)" and "in_range 8 True cid"
    and "0 \<le> e_query_counter env" and "e_query_counter env + int (length pages) < MAX_LONG"
  shows "\<exists>env'. served (scan_cursor_get_page (query_perform net)) (page_response_items CacheError data_items) unwrap_pair
      (VInt cid) (VBool (pages \<noteq> [])) pages env (concat pages) env' \<and>
    e_query_counter env' = e_query_counter env + int (length pages)"
  using assms
proof (induction pages arbitrary: env)
  case Nil
  then show ?case by simp
next
  case (Cons p ps)
  then obtain body s' where
    p: "p \<noteq> []" "list_all2 good_el (flat_pairs p) (flat_pairs p)" "dict_keys (map fst p)" "list_all plain_pair p" and
    b: "put_fields None page_response [(''data'', WV (VDict False p)), (''more'', WV (VBool (ps \<noteq> [])))]
        (new_stream c []) = Inr body" "length (sbuf body) < 2 ^ 31" "2 * length (sbuf body) + 1 \<le> e_depth env" and
    n: "net (request_bytes OP_QUERY_SCAN_CURSOR_GET_PAGE (e_query_counter env + 1) (ct_bytes 8 cid)) (e_net env) =
        (Inr (server_response (e_protocol env) (e_query_counter env + 1) None None (sbuf body)), s')" and
    rest: "serves_pages net (e_protocol env) c (e_depth env) cid ps (e_query_counter env + 1) s'" by auto
  have "e_query_counter env < MAX_LONG" using Cons.prems(5) by simp
  from page_performs [where m = "ps \<noteq> []" and ordered = False and kvs = p and kws = p and net = net and env = env
      and op = OP_QUERY_SCAN_CURSOR_GET_PAGE and cid = cid, OF b(1) p(2,3) b(2,3) Cons.prems(2,3,4) this n] obtain r env1 where
    r: "cursor_query (query_perform net) OP_QUERY_SCAN_CURSOR_GET_PAGE (VInt cid) page_response query_result_post_process env =
        (Inr r, env1)" "r_status r = 0" "r_value r = WD [(''data'', WV (VDict False p)), (''more'', WV (VBool (ps \<noteq> [])))]"
      "reader {} (compact_footer c) (e_client env1)" "e_net env1 = s'"
      "e_query_counter env1 = e_query_counter env + 1" "same_session env env1" by blast
  have s: "e_protocol env1 = e_protocol env" "e_depth env1 = e_depth env" using r(7) by (simp_all add: same_session_def)
  have "serves_pages net (e_protocol env1) c (e_depth env1) cid ps (e_query_counter env1) (e_net env1)"
    unfolding s r(5,6) by (rule rest)
  from Cons.IH [OF this r(4) Cons.prems(3)] Cons.prems(4,5) r(6) obtain env' where
    i: "served (scan_cursor_get_page (query_perform net)) (page_response_items CacheError data_items) unwrap_pair
        (VInt cid) (VBool (ps \<noteq> [])) ps env1 (concat ps) env'"
      "e_query_counter env' = e_query_counter env1 + int (length ps)" by auto
  have "page_response_items CacheError data_items r = Inr (p, VBool (ps \<noteq> []))"
    using r(2,3) by (simp add: page_response_items_def wfield_def dget_def data_items_def as_val_def)
  moreover have "scan_cursor_get_page (query_perform net) (VInt cid) env = (Inr r, env1)"
    using r(1) by (simp add: scan_cursor_get_page_def)
  ultimately have "served (scan_cursor_get_page (query_perform net)) (page_response_items CacheError data_items) unwrap_pair
      (VInt cid) (VBool (p # ps \<noteq> [])) (p # ps) env (concat (p # ps)) env'"
    using p(1) i(1) unwrap_plain_pairs [OF p(4)] by auto
  with i(2) r(6) show ?case by auto
qed


lemma int_pair_page:
  assumes "in_range 8 True i" and "in_range 8 True j"
  shows "\<exists>body. put_fields None page_response [(''data'', WV (VDict False [(VInt i, VInt j)])), (''more'', WV (VBool m))]
      (new_stream c []) = Inr body \<and> length (sbuf body) = 23"
proof -
  have w: "from_py AnyDataObject (VInt k) st = Inr (grow st (int_bytes k) c)"
    if "in_range 8 True k" "writable st" "sclient st = c" for k st
    by (rule writesD [OF key_writes [OF int_encoding(1) [OF that(1)]] that(2)]) (simp_all add: new_stream_def that(3))
  have n: "write_length (Suc 0) = Inr (ct_bytes 4 1)" by (simp add: length_field)
  have s: "writable (new_stream c [])" "sclient (new_stream c []) = c" "sbuf (new_stream c []) = []"
    "spos (new_stream c []) = 0"
    using at_end_writable [OF at_end_new_stream] by (simp_all add: new_stream_def)
  show ?thesis
    using s assms
    by (simp add: page_response_def dget_def as_val_def map_payload_from_python_def py_items_def n infer_eq
        hinted_def swrite_writable w write_res_def struct_pack_def in_range_def int_bytes_def)
qed




end
