(* ===== verification/Pool.thy ===== *)
theory Pool
  imports Partitions ConnectionProps Cursors
begin

section \<open>The client and its connections\<close>

text \<open>
  The synchronous client of \<open>client.py\<close>: its connections, the choice of a usable one, the partition
  mapping of its caches and the choice of the node that holds a key. The state the code shares
  between the client and its connections (protocol context, registry, query counter, current
  transaction, whose node is \<open>p_tx_node\<close>) is in the pool and lent to a connection for each operation. Operations return
  \<open>None\<close> when the code does not return. \<open>random.choice\<close> takes the item given by the sequence
  \<open>p_picks\<close>, an arbitrary one.
\<close>

record 's pool =
  p_nodes :: "'s conn list"
  p_current :: nat
  p_aware :: bool
  p_context :: "protocol_context option"
  p_env :: "unit env"
  p_tx_node :: nat
  p_version :: "pyval \<times> pyval"
  p_mapping :: "(pyval \<times> partition_info option) list"
  p_picks :: "nat \<Rightarrow> nat"
  p_tick :: nat

type_synonym ('s, 'a) prog = "'s pool \<Rightarrow> ('a res \<times> 's pool) option"

definition pbind :: "('s, 'a) prog \<Rightarrow> ('a \<Rightarrow> ('s, 'b) prog) \<Rightarrow> ('s, 'b) prog" where
  "pbind m f p =
     (case m p of
        None \<Rightarrow> None
      | Some (Inl e, p') \<Rightarrow> Some (Inl e, p')
      | Some (Inr x, p') \<Rightarrow> f x p')"

definition preturn :: "'a res \<Rightarrow> ('s, 'a) prog" where
  "preturn r p = Some (r, p)"

lemma pbind_Some:
  "pbind m f p = Some (r, p') \<longleftrightarrow>
     (\<exists>e. m p = Some (Inl e, p') \<and> r = Inl e) \<or> (\<exists>x p1. m p = Some (Inr x, p1) \<and> f x p1 = Some (r, p'))"
  by (auto simp: pbind_def split: option.splits sum.splits)

text \<open>An operation of a connection, with the state it shares with the client.\<close>

definition lend :: "'s pool \<Rightarrow> 's conn \<Rightarrow> 's conn" where
  "lend p k = k\<lparr>k_context := p_context p, k_client := e_client (p_env p)\<rparr>"

definition share :: "'s conn \<Rightarrow> 's pool \<Rightarrow> 's pool" where
  "share k p = p\<lparr>p_context := k_context k, p_env := (p_env p)\<lparr>e_client := k_client k\<rparr>\<rparr>"

definition on_node :: "nat \<Rightarrow> ('s conn \<Rightarrow> ('a res \<times> 's conn) option) \<Rightarrow> ('s, 'a) prog" where
  "on_node i f p =
     map_option (\<lambda>(r, k). (r, share k (p\<lparr>p_nodes := (p_nodes p)[i := k]\<rparr>))) (f (lend p (p_nodes p ! i)))"

definition partition_aware :: "'s pool \<Rightarrow> bool" where
  "partition_aware p \<longleftrightarrow> p_aware p \<and>
     (case p_context p of None \<Rightarrow> False | Some pc \<Rightarrow> is_partition_awareness_supported pc)"

subsection \<open>Connecting and closing\<close>

definition DEFAULT_ADDRESS :: pyval where
  "DEFAULT_ADDRESS = VTuple [VStr (map of_char ''localhost''), VInt 10800]"

definition process_connect_args :: "pyval list \<Rightarrow> pyval list res" where
  "process_connect_args args =
     (case args of
        [] \<Rightarrow> Inr [DEFAULT_ADDRESS]
      | [a] \<Rightarrow> (case py_seq a of Inl e \<Rightarrow> Inl SocketError | Inr xs \<Rightarrow> Inr xs)
      | [VStr host, VInt port] \<Rightarrow> Inr [VTuple args]
      | [VStr host, VBool port] \<Rightarrow> Inr [VTuple args]
      | _ \<Rightarrow> Inl SocketError)"

text \<open>
  \<open>_connect\<close>: the connections to the given addresses, in their order. A connection is added to the
  pool also when connecting it failed with a connection error.
\<close>

fun connect_nodes :: "'s socket_ops \<Rightarrow> nat \<Rightarrow> 's conn list \<Rightarrow> ('s, unit) prog" where
  "connect_nodes so i [] p = Some (if p_context p = None then Inl ReconnectError else Inr (), p)"
| "connect_nodes so i (k # ks) p =
     (if p_context p = None \<or> partition_aware p
      then
        (case connect so (lend p k) of
           None \<Rightarrow> None
         | Some (Inr u, k1) \<Rightarrow>
             let p1 = share k1 p
             in connect_nodes so (Suc i) ks
                  (p1\<lparr>p_current := (if partition_aware p1 then p_current p1 else i), p_nodes := p_nodes p1 @ [k1]\<rparr>)
         | Some (Inl e, k1) \<Rightarrow>
             if \<not> connection_error e then Some (Inl e, share k1 p)
             else if partition_aware (share k1 p)
             then
               (case reconnect so k1 of
                  None \<Rightarrow> None
                | Some (Inl e', k2) \<Rightarrow> Some (Inl e', share k2 p)
                | Some (Inr u, k2) \<Rightarrow> let p2 = share k2 p in connect_nodes so (Suc i) ks (p2\<lparr>p_nodes := p_nodes p2 @ [k2]\<rparr>))
             else let p1 = share k1 p in connect_nodes so (Suc i) ks (p1\<lparr>p_nodes := p_nodes p1 @ [k1]\<rparr>))
      else connect_nodes so (Suc i) ks (p\<lparr>p_nodes := p_nodes p @ [k]\<rparr>))"

definition close_pool :: "'s pool \<Rightarrow> 's conn list \<times> 's pool" where
  "close_pool p = (map (close False) (p_nodes p), p\<lparr>p_nodes := []\<rparr>)"

subsection \<open>A usable node\<close>

definition alive_nodes :: "'s pool \<Rightarrow> nat list" where
  "alive_nodes p = filter (\<lambda>i. alive (p_nodes p ! i)) [0..<length (p_nodes p)]"

definition random_choice :: "nat list \<Rightarrow> ('s, nat) prog" where
  "random_choice xs p = Some (Inr (xs ! (p_picks p (p_tick p) mod length xs)), p\<lparr>p_tick := Suc (p_tick p)\<rparr>)"

fun reconnect_nodes :: "'s socket_ops \<Rightarrow> nat list \<Rightarrow> ('s, unit) prog" where
  "reconnect_nodes so [] p = Some (Inr (), p)"
| "reconnect_nodes so (i # js) p = pbind (on_node i (reconnect so)) (\<lambda>u. reconnect_nodes so js) p"

definition get_random_node :: "'s socket_ops \<Rightarrow> ('s, nat) prog" where
  "get_random_node so p =
     (if alive_nodes p \<noteq> [] then random_choice (alive_nodes p) p
      else pbind (reconnect_nodes so [0..<length (p_nodes p)])
        (\<lambda>u p'. if alive_nodes p' \<noteq> [] then random_choice (alive_nodes p') p' else Some (Inl ReconnectError, p')) p)"

fun next_usable :: "'s socket_ops \<Rightarrow> nat list \<Rightarrow> ('s, nat) prog" where
  "next_usable so [] p = Some (Inl ReconnectError, p)"
| "next_usable so (i # js) p =
     (case on_node i (connect so) p of
        None \<Rightarrow> None
      | Some (Inr u, p') \<Rightarrow> Some (Inr i, p')
      | Some (Inl e, p') \<Rightarrow> if connection_error e then next_usable so js p' else Some (Inl e, p'))"

definition random_node :: "'s socket_ops \<Rightarrow> ('s, nat) prog" where
  "random_node so p =
     (if partition_aware p then get_random_node so p
      else if length (p_nodes p) \<le> p_current p then Some (Inl IndexError, p)
      else if alive (p_nodes p ! p_current p) then Some (Inr (p_current p), p)
      else
        pbind (on_node (p_current p) (\<lambda>k. Some (Inr (), close False k)))
          (\<lambda>u p1. let n = length (p_nodes p1);
                      c = (if n \<le> Suc (p_current p1) then 0 else Suc (p_current p1))
                  in next_usable so ([c..<n] @ [0..<c]) (p1\<lparr>p_current := c\<rparr>)) p)"

subsection \<open>Queries over a node\<close>

definition with_net :: "protocol_context \<Rightarrow> 's \<Rightarrow> 't env \<Rightarrow> 's env" where
  "with_net pc s env =
     \<lparr>e_client = e_client env, e_protocol = pc, e_affinity_version = e_affinity_version env,
      e_query_counter = e_query_counter env, e_tx = e_tx env, e_depth = e_depth env,
      e_debug = e_debug env, e_listener = e_listener env, e_events = e_events env, e_net = s\<rparr>"

definition without_net :: "'s env \<Rightarrow> unit env" where
  "without_net env = with_net (e_protocol env) () env"

text \<open>
  The transport a query sees is the whole pool, whose node \<open>i\<close> sends the request and receives the
  response; \<open>None\<close> stands for a request that does not return. A connection that the client has closed and
  dropped (\<open>close_pool\<close>) refuses the request.
\<close>

definition node_net :: "'s socket_ops \<Rightarrow> nat \<Rightarrow> 's pool option net" where
  "node_net so i data st =
     (case Option.bind st (\<lambda>p. if i < length (p_nodes p) then on_node i (conn_request so data) p
                           else Some (Inl SocketError, p)) of
        None \<Rightarrow> (Inl SocketError, None)
      | Some (r, p) \<Rightarrow> (r, Some p))"

definition pool_query ::
  "'s socket_ops \<Rightarrow> nat \<Rightarrow> ('s pool option net \<Rightarrow> ('s pool option env, 'a) run) \<Rightarrow> ('s, 'a) prog"
where
  "pool_query so i f p =
     (case p_context p of
        None \<Rightarrow> Some (Inl AttributeError, p)
      | Some pc \<Rightarrow>
          (case f (node_net so i) (with_net pc (Some p) (p_env p)) of
             (r, env) \<Rightarrow> map_option (\<lambda>p'. (r, p'\<lparr>p_env := without_net env\<rparr>)) (e_net env)))"

text \<open>\<open>status_to_exception\<close>\<close>

definition status_to_exception :: "py_error \<Rightarrow> ('s, api_result) prog \<Rightarrow> ('s, wval) prog" where
  "status_to_exception exc f =
     pbind f (\<lambda>result. preturn (if r_status result \<noteq> 0 then Inl exc else Inr (r_value result)))"

subsection \<open>Partition mappings\<close>

definition register_cache :: "pyval \<Rightarrow> 's pool \<Rightarrow> 's pool" where
  "register_cache cid p =
     (if partition_aware p then p\<lparr>p_mapping := key_put cid None (p_mapping p)\<rparr> else p)"

definition update_affinity :: "partitions_result \<Rightarrow> 's pool \<Rightarrow> 's pool" where
  "update_affinity full p =
     p\<lparr>p_version := pr_version full,
       p_mapping := fold (\<lambda>(c, i). key_put c (Some i)) (pr_mapping full) (p_mapping p)\<rparr>"

definition version_ints :: "pyval \<times> pyval \<Rightarrow> int \<times> int" where
  "version_ints v = (case v of (VInt a, VInt b) \<Rightarrow> (a, b) | _ \<Rightarrow> (0, 0))"

definition caches_to_update_affinity :: "'s pool \<Rightarrow> pyval list" where
  "caches_to_update_affinity p =
     (if version_less (version_ints (p_version p)) (e_affinity_version (p_env p)) then map fst (p_mapping p)
      else map fst (filter (\<lambda>x. snd x = None) (p_mapping p)))"

definition key_get :: "pyval \<Rightarrow> (pyval \<times> 'a) list \<Rightarrow> 'a option" where
  "key_get k d = map_option snd (List.find (\<lambda>x. py_eq k (fst x)) d)"

text \<open>The mapping is a \<open>defaultdict\<close>: looking up a cache that is not there adds an empty entry.\<close>

definition cache_partition_mapping :: "pyval \<Rightarrow> 's pool \<Rightarrow> partition_info option \<times> 's pool" where
  "cache_partition_mapping cid p =
     (case key_get cid (p_mapping p) of
        None \<Rightarrow> (None, p\<lparr>p_mapping := p_mapping p @ [(cid, None)]\<rparr>)
      | Some m \<Rightarrow> (m, p))"

definition AFFINITY_RETRIES :: nat where "AFFINITY_RETRIES = 32"

fun get_affinity :: "'s socket_ops \<Rightarrow> nat \<Rightarrow> nat \<Rightarrow> pyval list \<Rightarrow> ('s, partitions_result) prog" where
  "get_affinity so 0 i caches p = Some (Inl CacheError, p)"
| "get_affinity so (Suc n) i caches p =
     pbind (pool_query so i (\<lambda>net. cache_get_node_partitions net (VList caches)))
       (\<lambda>(result, parts) p'.
          (case parts of
             Some full \<Rightarrow> Some (Inr full, p')
           | None \<Rightarrow> get_affinity so n i caches p')) p"

partial_function (option) refresh ::
  "'s socket_ops \<Rightarrow> pyval list \<Rightarrow> nat \<Rightarrow> 's pool \<Rightarrow> ((nat \<times> partitions_result option) res \<times> 's pool) option"
where
  "refresh so caches i p =
     (case get_affinity so AFFINITY_RETRIES i caches p of
        None \<Rightarrow> None
      | Some (Inr full, p') \<Rightarrow> Some (Inr (i, Some full), p')
      | Some (Inl e, p') \<Rightarrow>
          if connection_error e
          then (case random_node so p' of
                  None \<Rightarrow> None
                | Some (Inl e', p'') \<Rightarrow> Some (Inl e', p'')
                | Some (Inr j, p'') \<Rightarrow> refresh so caches j p'')
          else if e = CacheError then Some (Inr (i, None), p')
          else Some (Inl e, p'))"

subsection \<open>The node of a key\<close>

definition partition_of :: "int \<Rightarrow> int \<Rightarrow> int" where
  "partition_of hashcode parts =
     (let mask = parts - 1
      in if and parts mask = 0 then and (xor hashcode (drop_bit 16 (unsigned32 hashcode))) mask
         else \<bar>hashcode div parts\<bar>)"

definition node_of_uuid :: "pyval \<Rightarrow> 's pool \<Rightarrow> nat option" where
  "node_of_uuid uuid p =
     (case List.find (\<lambda>i. case k_uuid (p_nodes p ! i) of Some (WV u) \<Rightarrow> py_eq u uuid | _ \<Rightarrow> False)
             [0..<length (p_nodes p)] of
        None \<Rightarrow> None
      | Some i \<Rightarrow> if alive (p_nodes p ! i) then Some i else None)"

definition get_node_by_hashcode :: "partition_info \<Rightarrow> int \<Rightarrow> 's pool \<Rightarrow> nat option res" where
  "get_node_by_hashcode m hashcode p =
     (let part = partition_of hashcode (int (pi_partitions m))
      in if \<not> (0 \<le> part \<and> part < int (pi_partitions m)) then Inl AssertionError
         else (case List.find (\<lambda>x. \<exists>q \<in> set (snd x). py_eq (VInt part) q) (pi_nodes m) of
                 None \<Rightarrow> Inr None
               | Some (uuid, ps) \<Rightarrow> if truthy uuid then Inr (node_of_uuid uuid p) else Inr None))"

definition key_hashcode :: "dtype \<Rightarrow> pyval \<Rightarrow> client \<Rightarrow> (int \<times> pyval \<times> client) res" where
  "key_hashcode d v c =
     (case d of
        DataObject t \<Rightarrow> rbind (data_object_hashcode t v) (\<lambda>h. Inr (h, v, c))
      | Standard s \<Rightarrow> rbind (std_hashcode s v) (\<lambda>h. Inr (h, v, c))
      | BinaryObject \<Rightarrow> binary_hashcode v c
      | _ \<Rightarrow> Inr (0, v, c))"

text \<open>
  \<open>get_best_node\<close> returns the node and the key, whose buffer hashing may have filled. An instance is
  never of class \<open>GenericObjectMeta\<close>, so \<open>_get_affinity_key\<close> returns the key itself.
\<close>

definition best_node_of_key ::
  "nat \<Rightarrow> pyval \<Rightarrow> pyval \<Rightarrow> dtype option \<Rightarrow> ('s, nat \<times> pyval) prog"
where
  "best_node_of_key i cid key key_hint p =
     (case cache_partition_mapping cid p of
        (None, p1) \<Rightarrow> Some (Inr (i, key), p1)
      | (Some m, p1) \<Rightarrow>
          if pi_partitions m = 0 then Some (Inr (i, key), p1)
          else
            (case rbind (case key_hint of None \<Rightarrow> map_python_type key | Some d \<Rightarrow> Inr d)
                    (\<lambda>d. key_hashcode d key (e_client (p_env p1))) of
               Inl e \<Rightarrow> Some (Inl e, p1)
             | Inr (h, key', c) \<Rightarrow>
                 let p2 = p1\<lparr>p_env := (p_env p1)\<lparr>e_client := c\<rparr>\<rparr>
                 in (case get_node_by_hashcode m h p2 of
                       Inl e \<Rightarrow> Some (Inl e, p2)
                     | Inr None \<Rightarrow> Some (Inr (i, key'), p2)
                     | Inr (Some j) \<Rightarrow> Some (Inr (j, key'), p2))))"

definition get_best_node ::
  "'s socket_ops \<Rightarrow> pyval \<Rightarrow> pyval \<Rightarrow> dtype option \<Rightarrow> ('s, nat \<times> pyval) prog"
where
  "get_best_node so cid key key_hint =
     pbind (random_node so) (\<lambda>i p.
       if \<not> partition_aware p \<or> key = VNone then Some (Inr (i, key), p)
       else if caches_to_update_affinity p = [] then best_node_of_key i cid key key_hint p
       else
         pbind (refresh so (caches_to_update_affinity p) i) (\<lambda>(j, full) p1.
           (case full of
              None \<Rightarrow> Some (Inr (j, key), p1)
            | Some a \<Rightarrow>
                pbind (reconnect_nodes so [0..<length (p_nodes p1)])
                  (\<lambda>u. best_node_of_key j cid key key_hint) (update_affinity a p1))) p)"

end
