(* ===== verification/PoolProps.thy ===== *)
theory PoolProps
  imports Pool
begin

section \<open>Usable nodes and the node of a key\<close>

text \<open>
  The choice of a connection returns a live one or raises, connecting keeps the protocol context
  consistent, and the node of a key is the owner of its partition.
\<close>

subsection \<open>Operations on one node\<close>

lemma on_node_Some:
  "on_node i f p = Some (r, p') \<longleftrightarrow>
     (\<exists>k. f (lend p (p_nodes p ! i)) = Some (r, k) \<and> p' = share k (p\<lparr>p_nodes := (p_nodes p)[i := k]\<rparr>))"
  by (auto simp: on_node_def)

lemma share_simps [simp]:
  "p_nodes (share k p) = p_nodes p" "p_current (share k p) = p_current p" "p_aware (share k p) = p_aware p"
  "p_context (share k p) = k_context k" "p_mapping (share k p) = p_mapping p" "p_version (share k p) = p_version p"
  by (simp_all add: share_def)

lemma lend_simps [simp]:
  "k_context (lend p k) = p_context p" "alive (lend p k) = alive k" "k_uuid (lend p k) = k_uuid k"
  by (simp_all add: lend_def alive_def)

text \<open>What an operation of one node leaves as it was.\<close>

definition keeps_others :: "nat \<Rightarrow> 's pool \<Rightarrow> 's pool \<Rightarrow> bool" where
  "keeps_others i p p' \<longleftrightarrow> length (p_nodes p') = length (p_nodes p) \<and> p_current p' = p_current p \<and>
     p_aware p' = p_aware p \<and> p_mapping p' = p_mapping p \<and> p_version p' = p_version p \<and>
     (\<forall>j. j \<noteq> i \<longrightarrow> p_nodes p' ! j = p_nodes p ! j)"

lemma on_node_keeps: "on_node i f p = Some (r, p') \<Longrightarrow> keeps_others i p p'"
  by (auto simp: on_node_Some keeps_others_def)

lemma connect_node:
  assumes "on_node i (connect so) p = Some (r, p')" and "context_good (p_context p)" and "i < length (p_nodes p)"
  shows "keeps_others i p p'" "context_good (p_context p')"
    "r = Inr () \<and> alive (p_nodes p' ! i) \<or> (\<exists>e. r = Inl e \<and> \<not> alive (p_nodes p' ! i))"
proof -
  from assms(1) obtain k where k: "connect so (lend p (p_nodes p ! i)) = Some (r, k)"
    "p' = share k (p\<lparr>p_nodes := (p_nodes p)[i := k]\<rparr>)" by (auto simp: on_node_Some)
  show "keeps_others i p p'" by (rule on_node_keeps [OF assms(1)])
  have g: "context_good (k_context (lend p (p_nodes p ! i)))" using assms(2) by simp
  from connect_result [OF k(1) g] show "context_good (p_context p')"
    by (auto simp: k(2) context_good_def connected_def)
  from connect_result [OF k(1) g] assms(3)
  show "r = Inr () \<and> alive (p_nodes p' ! i) \<or> (\<exists>e. r = Inl e \<and> \<not> alive (p_nodes p' ! i))"
    by (auto simp: k(2) connected_def)
qed

lemma reconnect_good:
  assumes "reconnect so k = Some (r, k')" and "context_good (k_context k)"
  shows "context_good (k_context k')"
proof (cases "alive k")
  case True
  with assms show ?thesis by (simp add: reconnect_def)
next
  case False
  with assms(1) obtain r' where "connect so (close True k) = Some (r', k')"
    by (auto simp: reconnect_def)
  moreover have "context_good (k_context (close True k))" using assms(2) by (simp add: close_def)
  ultimately show ?thesis using connect_result [of so "close True k" r' k']
    by (auto simp: context_good_def connected_def)
qed

lemma reconnect_nodes_good:
  "reconnect_nodes so js p = Some (r, p') \<Longrightarrow> context_good (p_context p) \<Longrightarrow>
   context_good (p_context p') \<and> length (p_nodes p') = length (p_nodes p)"
proof (induction js arbitrary: p)
  case (Cons i js)
  from Cons.prems(1) obtain q p1 where s: "on_node i (reconnect so) p = Some (q, p1)"
    "(\<exists>e. q = Inl e \<and> p' = p1) \<or> reconnect_nodes so js p1 = Some (r, p')"
    by (auto simp: pbind_Some)
  have g: "context_good (p_context p1)"
    using s(1) Cons.prems(2) reconnect_good by (fastforce simp: on_node_Some)
  have "length (p_nodes p1) = length (p_nodes p)" using on_node_keeps [OF s(1)] by (simp add: keeps_others_def)
  with s(2) g Cons.IH [of p1] show ?case by auto
qed simp

lemma random_choice_alive:
  assumes "random_choice (alive_nodes p) p = Some (r, p')" and "alive_nodes p \<noteq> []"
  shows "\<exists>i. r = Inr i \<and> i < length (p_nodes p') \<and> alive (p_nodes p' ! i) \<and> p_nodes p' = p_nodes p \<and>
    p_context p' = p_context p"
proof -
  let ?i = "alive_nodes p ! (p_picks p (p_tick p) mod length (alive_nodes p))"
  have "?i \<in> set (alive_nodes p)" using assms(2) by (intro nth_mem) simp
  then show ?thesis using assms(1) by (auto simp: random_choice_def alive_nodes_def)
qed

lemma next_usable_outcome:
  "next_usable so js p = Some (r, p') \<Longrightarrow> context_good (p_context p) \<Longrightarrow> \<forall>i \<in> set js. i < length (p_nodes p) \<Longrightarrow>
   context_good (p_context p') \<and> length (p_nodes p') = length (p_nodes p) \<and>
   (\<forall>i. r = Inr i \<longrightarrow> i < length (p_nodes p') \<and> alive (p_nodes p' ! i))"
proof (induction js arbitrary: p)
  case (Cons i js)
  from Cons.prems(1) obtain q p1 where c: "on_node i (connect so) p = Some (q, p1)"
    by (auto split: option.splits)
  have i: "i < length (p_nodes p)" using Cons.prems(3) by simp
  note n = connect_node [OF c Cons.prems(2) i]
  have l: "length (p_nodes p1) = length (p_nodes p)" using n(1) by (simp add: keeps_others_def)
  from n(3) show ?case
  proof
    assume "q = Inr () \<and> alive (p_nodes p1 ! i)"
    with Cons.prems(1) c n(2) l i show ?thesis by auto
  next
    assume "\<exists>e. q = Inl e \<and> \<not> alive (p_nodes p1 ! i)"
    with Cons.prems c n(2) l Cons.IH [of p1] show ?thesis by (auto split: if_splits)
  qed
qed auto

text \<open>
  C13. \<open>random_node\<close> never hands out a broken connection: whenever it returns, with or without
  partition awareness and whatever the sockets and servers did meanwhile, it returns a node of the
  pool that is alive, or raises; no node is lost or added and the shared protocol context stays
  consistent.
\<close>

theorem random_node_alive:
  assumes "random_node so p = Some (r, p')" and "context_good (p_context p)"
  shows "context_good (p_context p') \<and> length (p_nodes p') = length (p_nodes p) \<and>
    (\<forall>i. r = Inr i \<longrightarrow> i < length (p_nodes p') \<and> alive (p_nodes p' ! i))"
proof (cases "partition_aware p")
  case True
  show ?thesis
  proof (cases "alive_nodes p = []")
    case False
    with True assms show ?thesis using random_choice_alive [of p r p'] by (auto simp: random_node_def get_random_node_def)
  next
    case empty: True
    with True assms(1) obtain q p1 where
      q: "reconnect_nodes so [0..<length (p_nodes p)] p = Some (q, p1)"
        "(\<exists>e. q = Inl e \<and> r = Inl e \<and> p' = p1) \<or>
         (if alive_nodes p1 \<noteq> [] then random_choice (alive_nodes p1) p1 else Some (Inl ReconnectError, p1)) = Some (r, p')"
      by (auto simp: random_node_def get_random_node_def pbind_Some)
    with reconnect_nodes_good [OF q(1) assms(2)] random_choice_alive [of p1 r p'] show ?thesis
      by (auto split: if_splits)
  qed
next
  case False
  let ?k = "close False (lend p (p_nodes p ! p_current p))"
  let ?p1 = "share ?k (p\<lparr>p_nodes := (p_nodes p)[p_current p := ?k]\<rparr>)"
  let ?c = "if length (p_nodes p) \<le> Suc (p_current p) then 0 else Suc (p_current p)"
  have g: "context_good (p_context ?p1)"
    using assms(2) by (simp add: close_def on_connection_lost_def k_publish_def)
  show ?thesis
  proof (cases "p_current p < length (p_nodes p) \<and> \<not> alive (p_nodes p ! p_current p)")
    case True
    have "random_node so p = next_usable so ([?c..<length (p_nodes p)] @ [0..<?c]) (?p1\<lparr>p_current := ?c\<rparr>)"
      unfolding random_node_def pbind_def on_node_def using True False by (simp add: Let_def del: upt_Suc)
    then have n: "next_usable so ([?c..<length (p_nodes p)] @ [0..<?c]) (?p1\<lparr>p_current := ?c\<rparr>) = Some (r, p')"
      using assms(1) by simp
    have "\<forall>i \<in> set ([?c..<length (p_nodes p)] @ [0..<?c]). i < length (p_nodes (?p1\<lparr>p_current := ?c\<rparr>))"
      using True by auto
    from next_usable_outcome [OF n _ this] g show ?thesis by auto
  next
    case dead: False
    with assms False show ?thesis by (auto simp: random_node_def split: if_splits)
  qed
qed

definition demo_pool :: "'s conn list \<Rightarrow> 's pool" where
  "demo_pool ks = \<lparr>p_nodes = ks, p_current = 0, p_aware = True, p_context = Some (new_protocol_context (1, 7, 1) None),
     p_env = demo_env (), p_tx_node = 0, p_version = (VInt 0, VInt 0),
     p_mapping = [(VInt 5, Some \<lparr>pi_applicable = True, pi_config = [],
       pi_nodes = [(VUUID [1], [VInt 0, VInt 1]), (VUUID [2], [VInt 2, VInt 3])], pi_partitions = 4\<rparr>)],
     p_picks = (\<lambda>n. n), p_tick = 0\<rparr>"

lemma demo_pool_aware: "partition_aware (demo_pool ks)"
  by (simp add: partition_aware_def demo_pool_def new_protocol_context_def ensure_consistency_def
      is_partition_awareness_supported_def version_ge_def)

lemma demo_pool_simps [simp]:
  "p_nodes (demo_pool ks) = ks" "p_tick (demo_pool ks) = 0" "p_picks (demo_pool ks) n = n"
  by (simp_all add: demo_pool_def)

definition demo_nodes :: "byte list conn list" where
  "demo_nodes = [(demo_conn [])\<lparr>k_uuid := Some (WV (VUUID [1]))\<rparr>, (demo_conn [])\<lparr>k_uuid := Some (WV (VUUID [2]))\<rparr>]"

lemma demo_random_node:
  "random_node so (demo_pool demo_nodes) = Some (Inr 0, (demo_pool demo_nodes)\<lparr>p_tick := 1\<rparr>)"
proof -
  have "alive_nodes (demo_pool demo_nodes) = [0, 1]"
    by (simp add: alive_nodes_def demo_pool_def demo_nodes_def demo_conn_def alive_def upt_rec)
  then show ?thesis
    using demo_pool_aware [of demo_nodes] by (simp add: random_node_def get_random_node_def random_choice_def)
qed

theorem random_node_alive_witness:
  "\<exists>i p'. random_node demo_socket (demo_pool [demo_conn []]) = Some (Inr i, p') \<and> alive (p_nodes p' ! i)"
proof -
  let ?p = "demo_pool [demo_conn []] :: byte list pool"
  have "alive_nodes ?p = [0]" by (simp add: alive_nodes_def demo_pool_def demo_conn_def alive_def)
  then have r: "random_node demo_socket ?p = Some (Inr 0, ?p\<lparr>p_tick := 1\<rparr>)"
    using demo_pool_aware [of "[demo_conn [] :: byte list conn]"]
    by (simp add: random_node_def get_random_node_def random_choice_def)
  have "context_good (p_context ?p)" by (simp add: demo_pool_def context_good_def context_ops_ok)
  from random_node_alive [OF r this] r show ?thesis by blast
qed

subsection \<open>The partition of a key\<close>

lemma partition_in_range_core:
  assumes "n \<le> 31"
  shows "0 \<le> partition_of h (2 ^ n) \<and> partition_of h (2 ^ n) < 2 ^ n \<and>
    partition_of h (2 ^ n) = uint (let w = word_of_int h :: 32 word in and (xor w (drop_bit 16 w)) (mask n))"
proof -
  have m: "and (2 ^ n) (2 ^ n - 1) = (0::int)"
    by (simp flip: mask_eq_exp_minus_1 take_bit_eq_mask)
  have p: "partition_of h (2 ^ n) = take_bit n (xor h (drop_bit 16 (unsigned32 h)))"
    using m by (simp add: partition_of_def Let_def take_bit_eq_mask flip: mask_eq_exp_minus_1)
  have b32: "bit (unsigned32 h) i \<longleftrightarrow> i < 32 \<and> bit h i" for i
    using bit_take_bit_iff [of 32 h i] by (simp add: unsigned32_def take_bit_eq_mod)
  have u: "uint (let w = word_of_int h :: 32 word in and (xor w (drop_bit 16 w)) (mask n)) =
      take_bit n (xor h (drop_bit 16 (unsigned32 h)))"
    using assms
    by (intro bit_eqI)
      (auto simp: Let_def b32 bit_simps)
  show ?thesis unfolding p u by (simp del: take_bit_xor)
qed

text \<open>
  C26. For a power of two of partitions the partition computed for a hash code is always one of
  them, for every hash, negative ones included, and it is the one the server's
  \<open>RendezvousAffinityFunction\<close> computes with 32-bit words and an unsigned shift.
\<close>

theorem partition_in_range:
  assumes "n \<le> 31"
  shows "0 \<le> partition_of h (2 ^ n) \<and> partition_of h (2 ^ n) < 2 ^ n \<and>
    partition_of h (2 ^ n) = uint (let w = word_of_int h :: 32 word in and (xor w (drop_bit 16 w)) (mask n))"
  using assms by (rule partition_in_range_core)

theorem partition_in_range_witness: "partition_of (- 5) (2 ^ 10) = 4 \<and> partition_of (- 5) (2 ^ 10) < 2 ^ 10"
  using partition_in_range [of 10 "- 5"] by (simp add: partition_of_def unsigned32_def drop_bit_eq_div)

text \<open>
  For other numbers of partitions the code divides where the server takes the remainder: the
  assertion then fails for all but the smallest hash codes.
\<close>

lemma other_partitions:
  assumes "and (int (pi_partitions m)) (int (pi_partitions m) - 1) \<noteq> 0"
    and "int (pi_partitions m) \<le> \<bar>h div int (pi_partitions m)\<bar>"
  shows "get_node_by_hashcode m h p = Inl AssertionError"
  using assms by (simp add: get_node_by_hashcode_def partition_of_def Let_def)

subsection \<open>Routing\<close>

lemma find_unique:
  assumes "x \<in> set xs" and "P x" and "\<And>y. y \<in> set xs \<Longrightarrow> P y \<Longrightarrow> y = x"
  shows "List.find P xs = Some x"
  using assms
proof (induction xs)
  case (Cons a xs)
  show ?case
  proof (cases "P a")
    case True
    then have "a = x" by (intro Cons.prems(3)) simp_all
    with True show ?thesis by simp
  next
    case False
    then have "x \<in> set xs" using Cons.prems(1,2) by auto
    then have "List.find P xs = Some x"
      by (rule Cons.IH [OF _ Cons.prems(2)]) (rule Cons.prems(3), simp)
    with False show ?thesis by simp
  qed
next
  case Nil
  from Nil.prems(1) show ?case by simp
qed

text \<open>\<open>owns\<close>: \<open>uuid\<close> is the only node of the mapping that has the partition.\<close>

definition owns :: "partition_info \<Rightarrow> int \<Rightarrow> pyval \<Rightarrow> bool" where
  "owns m part uuid \<longleftrightarrow> truthy uuid \<and> (\<exists>x \<in> set (pi_nodes m). fst x = uuid \<and> VInt part \<in> set (snd x)) \<and>
     (\<forall>x \<in> set (pi_nodes m). (\<exists>q \<in> set (snd x). py_eq (VInt part) q) \<longrightarrow> fst x = uuid)"

lemma owner_found:
  assumes "owns m part uuid" and "pi_nodes m = ns" and "distinct (map fst ns)"
  shows "\<exists>qs. List.find (\<lambda>x. \<exists>q \<in> set (snd x). py_eq (VInt part) q) ns = Some (uuid, qs)"
proof -
  from assms(1,2) obtain x where x: "x \<in> set ns" "fst x = uuid" "VInt part \<in> set (snd x)"
    by (auto simp: owns_def)
  have "List.find (\<lambda>x. \<exists>q \<in> set (snd x). py_eq (VInt part) q) ns = Some x"
  proof (rule find_unique [OF x(1)])
    show "\<exists>q \<in> set (snd x). py_eq (VInt part) q" by (rule bexI [OF _ x(3)]) (simp add: py_eq_def int_eq_def)
  next
    fix y assume "y \<in> set ns" "\<exists>q \<in> set (snd y). py_eq (VInt part) q"
    with assms(1,2) have "fst y = uuid" by (auto simp: owns_def)
    with \<open>y \<in> set ns\<close> x(1,2) assms(3) show "y = x" by (auto simp: distinct_map inj_on_def)
  qed
  with x(2) show ?thesis by (cases x) auto
qed

definition connected_to :: "pyval \<Rightarrow> nat \<Rightarrow> 's pool \<Rightarrow> bool" where
  "connected_to uuid j p \<longleftrightarrow> j < length (p_nodes p) \<and> alive (p_nodes p ! j) \<and>
     (\<forall>i < length (p_nodes p). (case k_uuid (p_nodes p ! i) of Some (WV u) \<Rightarrow> py_eq u uuid | _ \<Rightarrow> False) \<longleftrightarrow> i = j)"

lemma connected_node: "connected_to uuid j p \<Longrightarrow> node_of_uuid uuid p = Some j"
  unfolding node_of_uuid_def connected_to_def
  by (subst find_unique [of j]) auto



end
