(* ===== verification/Caches.thy ===== *)
theory Caches
  imports Pool CacheConfig Services
begin

section \<open>Caches and the cluster\<close>

text \<open>
  The objects an application works with: \<open>cache.py\<close>, \<open>cluster.py\<close> and the
  operations of \<open>client.py\<close>. Every operation chooses a node, performs the operation of the API over it and turns an
  error status into an exception. Inside a transaction all cache operations use the node it was
  started on. \<open>CacheCreationError\<close> is represented by its base class \<open>CacheError\<close>.
\<close>

subsection \<open>Cache objects\<close>

record cache_obj =
  co_name :: ident
  co_info :: cache_info
  co_settings :: "(int \<times> wval) list option"

datatype cache_settings = SName pystr | SDict "(int \<times> wval) list" | SOther

definition name_ident :: "wval \<Rightarrow> ident res" where
  "name_ident v = (case v of WV (VStr s) \<Rightarrow> Inr (IStr s) | WV (VInt i) \<Rightarrow> Inr (IInt i) | _ \<Rightarrow> Inl TypeError)"

definition parse_settings :: "cache_settings \<Rightarrow> (wval \<times> (int \<times> wval) list option) res" where
  "parse_settings settings =
     (case settings of
        SName s \<Rightarrow> Inr (WV (VStr s), None)
      | SOther \<Rightarrow> Inl ParameterError
      | SDict d \<Rightarrow>
          (case map_of d PROP_NAME of
             None \<Rightarrow> Inl ParameterError
           | Some name \<Rightarrow>
               if length d = 1 then Inr (name, None)
               else if \<not> fst ` set d \<subseteq> snd ` set prop_code_names then Inl ParameterError
               else Inr (name, Some d)))"

text \<open>A cache object of a client that is connected.\<close>

definition new_cache :: "wval \<Rightarrow> expiry_policy option \<Rightarrow> ('s, cache_obj) prog" where
  "new_cache name ep p =
     (case (name_ident name, p_context p) of
        (Inl e, _) \<Rightarrow> Some (Inl e, p)
      | (_, None) \<Rightarrow> Some (Inl AttributeError, p)
      | (Inr n, Some pc) \<Rightarrow>
          Some (Inr \<lparr>co_name = n, co_info = \<lparr>ci_cache_id = cache_id n, ci_expiry_policy = ep, ci_protocol_context = pc\<rparr>,
              co_settings = None\<rparr>, register_cache (VInt (cache_id n)) p))"

definition get_cache :: "cache_settings \<Rightarrow> ('s, cache_obj) prog" where
  "get_cache settings =
     pbind (preturn (parse_settings settings)) (\<lambda>(name, s).
       case s of None \<Rightarrow> new_cache name None | Some d \<Rightarrow> preturn (Inl ParameterError))"

definition create_with ::
  "'s socket_ops \<Rightarrow> ('s pool option net \<Rightarrow> (int \<times> wval) list \<Rightarrow> ('s pool option env, api_result) run) \<Rightarrow>
   ('s pool option net \<Rightarrow> pyval \<Rightarrow> ('s pool option env, api_result) run) \<Rightarrow> cache_settings \<Rightarrow> ('s, cache_obj) prog"
where
  "create_with so with_config with_name settings =
     pbind (preturn (parse_settings settings)) (\<lambda>(name, s).
     pbind (random_node so) (\<lambda>i.
     pbind (case s of
              Some d \<Rightarrow> pool_query so i (\<lambda>net. with_config net d)
            | None \<Rightarrow> pbind (preturn (as_val name)) (\<lambda>n. pool_query so i (\<lambda>net. with_name net n)))
       (\<lambda>result. if r_status result \<noteq> 0 then preturn (Inl CacheError) else new_cache name None)))"

definition create_cache :: "'s socket_ops \<Rightarrow> cache_settings \<Rightarrow> ('s, cache_obj) prog" where
  "create_cache so = create_with so cache_create_with_config (\<lambda>net. cache_create (query_perform net))"

definition get_or_create_cache :: "'s socket_ops \<Rightarrow> cache_settings \<Rightarrow> ('s, cache_obj) prog" where
  "get_or_create_cache so = create_with so cache_get_or_create_with_config (\<lambda>net. cache_get_or_create (query_perform net))"

definition with_expire_policy ::
  "expiry_policy option \<Rightarrow> duration \<Rightarrow> duration \<Rightarrow> duration \<Rightarrow> cache_obj \<Rightarrow> ('s, cache_obj) prog"
where
  "with_expire_policy ep create update access co p =
     (case p_context p of
        None \<Rightarrow> Some (Inl AttributeError, p)
      | Some pc \<Rightarrow>
          if \<not> is_expiry_policy_supported pc then Some (Inl NotSupportedByClusterError, p)
          else
            (case (case ep of Some e \<Rightarrow> Inr e | None \<Rightarrow> new_expiry_policy create update access) of
               Inl e \<Rightarrow> Some (Inl e, p)
             | Inr e \<Rightarrow> new_cache (case co_name co of IStr s \<Rightarrow> WV (VStr s) | IInt i \<Rightarrow> WV (VInt i)) (Some e) p))"

subsection \<open>Choosing the node of an operation\<close>

definition cache_best_node ::
  "'s socket_ops \<Rightarrow> cache_obj \<Rightarrow> pyval \<Rightarrow> dtype option \<Rightarrow> ('s, nat \<times> pyval) prog"
where
  "cache_best_node so co key key_hint p =
     (case e_tx (p_env p) of
        Some tx \<Rightarrow> Some (Inr (p_tx_node p, key), p)
      | None \<Rightarrow> get_best_node so (VInt (ci_cache_id (co_info co))) key key_hint p)"

text \<open>An operation without a key: any usable node.\<close>

definition any_node_op ::
  "'s socket_ops \<Rightarrow> cache_obj \<Rightarrow> ('s pool option net \<Rightarrow> cache_info \<Rightarrow> ('s pool option env, 'a) run) \<Rightarrow> ('s, 'a) prog"
where
  "any_node_op so co f =
     pbind (cache_best_node so co VNone None) (\<lambda>(i, k). pool_query so i (\<lambda>net. f net (co_info co)))"

text \<open>An operation on a key: its object class is inferred if it is not given, and finds the node.\<close>

definition keyed_op ::
  "'s socket_ops \<Rightarrow> cache_obj \<Rightarrow> pyval \<Rightarrow> dtype option \<Rightarrow>
   ('s pool option net \<Rightarrow> cache_info \<Rightarrow> pyval \<Rightarrow> wtype option \<Rightarrow> ('s pool option env, api_result) run) \<Rightarrow>
   ('s, api_result) prog"
where
  "keyed_op so co key key_hint f =
     pbind (preturn (case key_hint of None \<Rightarrow> map_python_type key | Some d \<Rightarrow> Inr d)) (\<lambda>d.
     pbind (cache_best_node so co key (Some d)) (\<lambda>(i, k).
       pool_query so i (\<lambda>net. f net (co_info co) k (Some (WObject d)))))"

definition pool_unwrap :: "pyval \<Rightarrow> ('s, pyval) prog" where
  "pool_unwrap v p =
     (case unwrap_binary (e_depth (p_env p)) v (e_client (p_env p)) of
        Inl e \<Rightarrow> Some (Inl e, p)
      | Inr (x, c) \<Rightarrow> Some (Inr x, p\<lparr>p_env := (p_env p)\<lparr>e_client := c\<rparr>\<rparr>))"

definition unwrap_result :: "api_result \<Rightarrow> ('s, api_result) prog" where
  "unwrap_result result =
     (case r_value result of
        WV v \<Rightarrow> pbind (pool_unwrap v) (\<lambda>x. preturn (Inr (result\<lparr>r_value := WV x\<rparr>)))
      | _ \<Rightarrow> preturn (Inr result))"

fun unwrap_values :: "(pyval \<times> pyval) list \<Rightarrow> ('s, (pyval \<times> pyval) list) prog" where
  "unwrap_values [] p = Some (Inr [], p)"
| "unwrap_values ((k, v) # kvs) p =
     pbind (pool_unwrap v) (\<lambda>x. pbind (unwrap_values kvs) (\<lambda>ys. preturn (Inr ((k, x) # ys)))) p"

definition unwrap_all_values :: "api_result \<Rightarrow> ('s, api_result) prog" where
  "unwrap_all_values result =
     (case r_value result of
        WV (VDict ordered kvs) \<Rightarrow>
          pbind (unwrap_values kvs) (\<lambda>xs. preturn (Inr (result\<lparr>r_value := WV (VDict ordered xs)\<rparr>)))
      | WV v \<Rightarrow> if truthy v then preturn (Inl AttributeError) else preturn (Inr result)
      | _ \<Rightarrow> preturn (Inl AttributeError))"

subsection \<open>Operations on a key\<close>

definition co_get ::
  "'s socket_ops \<Rightarrow> cache_obj \<Rightarrow> pyval \<Rightarrow> dtype option \<Rightarrow> ('s, wval) prog"
where
  "co_get so co key key_hint =
     status_to_exception CacheError
       (pbind (keyed_op so co key key_hint (\<lambda>net. cache_get (query_perform net))) unwrap_result)"

definition co_put ::
  "'s socket_ops \<Rightarrow> cache_obj \<Rightarrow> pyval \<Rightarrow> pyval \<Rightarrow> dtype option \<Rightarrow> wtype option \<Rightarrow> ('s, wval) prog"
where
  "co_put so co key value key_hint value_hint =
     status_to_exception CacheError
       (keyed_op so co key key_hint (\<lambda>net info k kh. cache_put (query_perform net) info k value kh value_hint))"

definition co_replace ::
  "'s socket_ops \<Rightarrow> cache_obj \<Rightarrow> pyval \<Rightarrow> pyval \<Rightarrow> dtype option \<Rightarrow> wtype option \<Rightarrow> ('s, wval) prog"
where
  "co_replace so co key value key_hint value_hint =
     status_to_exception CacheError
       (pbind (keyed_op so co key key_hint (\<lambda>net info k kh. cache_replace (query_perform net) info k value kh value_hint)) unwrap_result)"

definition co_clear_key ::
  "'s socket_ops \<Rightarrow> cache_obj \<Rightarrow> pyval \<Rightarrow> dtype option \<Rightarrow> ('s, wval) prog"
where
  "co_clear_key so co key key_hint =
     status_to_exception CacheError
       (keyed_op so co key key_hint (\<lambda>net. cache_clear_key (query_perform net)))"

definition co_contains_key ::
  "'s socket_ops \<Rightarrow> cache_obj \<Rightarrow> pyval \<Rightarrow> dtype option \<Rightarrow> ('s, wval) prog"
where
  "co_contains_key so co key key_hint =
     status_to_exception CacheError
       (keyed_op so co key key_hint (\<lambda>net. cache_contains_key (query_perform net)))"

definition co_get_and_put ::
  "'s socket_ops \<Rightarrow> cache_obj \<Rightarrow> pyval \<Rightarrow> pyval \<Rightarrow> dtype option \<Rightarrow> wtype option \<Rightarrow> ('s, wval) prog"
where
  "co_get_and_put so co key value key_hint value_hint =
     status_to_exception CacheError
       (pbind (keyed_op so co key key_hint (\<lambda>net info k kh. cache_get_and_put (query_perform net) info k value kh value_hint)) unwrap_result)"

definition co_get_and_put_if_absent ::
  "'s socket_ops \<Rightarrow> cache_obj \<Rightarrow> pyval \<Rightarrow> pyval \<Rightarrow> dtype option \<Rightarrow> wtype option \<Rightarrow> ('s, wval) prog"
where
  "co_get_and_put_if_absent so co key value key_hint value_hint =
     status_to_exception CacheError
       (pbind (keyed_op so co key key_hint (\<lambda>net info k kh. cache_get_and_put_if_absent (query_perform net) info k value kh value_hint)) unwrap_result)"

definition co_put_if_absent ::
  "'s socket_ops \<Rightarrow> cache_obj \<Rightarrow> pyval \<Rightarrow> pyval \<Rightarrow> dtype option \<Rightarrow> wtype option \<Rightarrow> ('s, wval) prog"
where
  "co_put_if_absent so co key value key_hint value_hint =
     status_to_exception CacheError
       (keyed_op so co key key_hint (\<lambda>net info k kh. cache_put_if_absent (query_perform net) info k value kh value_hint))"

definition co_get_and_remove ::
  "'s socket_ops \<Rightarrow> cache_obj \<Rightarrow> pyval \<Rightarrow> dtype option \<Rightarrow> ('s, wval) prog"
where
  "co_get_and_remove so co key key_hint =
     status_to_exception CacheError
       (pbind (keyed_op so co key key_hint (\<lambda>net. cache_get_and_remove (query_perform net))) unwrap_result)"

definition co_get_and_replace ::
  "'s socket_ops \<Rightarrow> cache_obj \<Rightarrow> pyval \<Rightarrow> pyval \<Rightarrow> dtype option \<Rightarrow> wtype option \<Rightarrow> ('s, wval) prog"
where
  "co_get_and_replace so co key value key_hint value_hint =
     status_to_exception CacheError
       (pbind (keyed_op so co key key_hint (\<lambda>net info k kh. cache_get_and_replace (query_perform net) info k value kh value_hint)) unwrap_result)"

definition co_remove_key ::
  "'s socket_ops \<Rightarrow> cache_obj \<Rightarrow> pyval \<Rightarrow> dtype option \<Rightarrow> ('s, wval) prog"
where
  "co_remove_key so co key key_hint =
     status_to_exception CacheError
       (keyed_op so co key key_hint (\<lambda>net. cache_remove_key (query_perform net)))"

definition co_remove_if_equals ::
  "'s socket_ops \<Rightarrow> cache_obj \<Rightarrow> pyval \<Rightarrow> pyval \<Rightarrow> dtype option \<Rightarrow> wtype option \<Rightarrow> ('s, wval) prog"
where
  "co_remove_if_equals so co key sample_value key_hint sample_hint =
     status_to_exception CacheError
       (keyed_op so co key key_hint (\<lambda>net info k kh. cache_remove_if_equals (query_perform net) info k sample_value kh sample_hint))"

definition co_replace_if_equals ::
  "'s socket_ops \<Rightarrow> cache_obj \<Rightarrow> pyval \<Rightarrow> pyval \<Rightarrow> pyval \<Rightarrow> dtype option \<Rightarrow> wtype option \<Rightarrow> wtype option \<Rightarrow>
   ('s, wval) prog"
where
  "co_replace_if_equals so co key sample_value value key_hint sample_hint value_hint =
     status_to_exception CacheError
       (pbind (keyed_op so co key key_hint
           (\<lambda>net info k kh. cache_replace_if_equals (query_perform net) info k sample_value value kh sample_hint value_hint))
         unwrap_result)"

subsection \<open>Operations on several keys or the whole cache\<close>

definition co_get_all :: "'s socket_ops \<Rightarrow> cache_obj \<Rightarrow> pyval \<Rightarrow> ('s, wval) prog" where
  "co_get_all so co keys =
     status_to_exception CacheError (pbind (any_node_op so co (\<lambda>net info. cache_get_all (query_perform net) info keys)) unwrap_all_values)"

definition co_put_all :: "'s socket_ops \<Rightarrow> cache_obj \<Rightarrow> pyval \<Rightarrow> ('s, wval) prog" where
  "co_put_all so co pairs =
     status_to_exception CacheError (any_node_op so co (\<lambda>net info. cache_put_all (query_perform net) info pairs))"

definition co_clear_keys :: "'s socket_ops \<Rightarrow> cache_obj \<Rightarrow> pyval \<Rightarrow> ('s, wval) prog" where
  "co_clear_keys so co keys =
     status_to_exception CacheError (any_node_op so co (\<lambda>net info. cache_clear_keys (query_perform net) info keys))"

definition co_contains_keys :: "'s socket_ops \<Rightarrow> cache_obj \<Rightarrow> pyval \<Rightarrow> ('s, wval) prog" where
  "co_contains_keys so co keys =
     status_to_exception CacheError (any_node_op so co (\<lambda>net info. cache_contains_keys (query_perform net) info keys))"

definition co_remove_keys :: "'s socket_ops \<Rightarrow> cache_obj \<Rightarrow> pyval \<Rightarrow> ('s, wval) prog" where
  "co_remove_keys so co keys =
     status_to_exception CacheError (any_node_op so co (\<lambda>net info. cache_remove_keys (query_perform net) info keys))"

definition co_get_size :: "'s socket_ops \<Rightarrow> cache_obj \<Rightarrow> pyval \<Rightarrow> ('s, wval) prog" where
  "co_get_size so co peek_modes =
     status_to_exception CacheError (any_node_op so co (\<lambda>net info. cache_get_size (query_perform net) info peek_modes))"

definition co_clear :: "'s socket_ops \<Rightarrow> cache_obj \<Rightarrow> pyval \<Rightarrow> ('s, wval) prog" where
  "co_clear so co keys =
     status_to_exception CacheError
       (any_node_op so co (\<lambda>net info. if truthy keys then cache_clear_keys (query_perform net) info keys else cache_clear (query_perform net) info))"

definition co_remove_all :: "'s socket_ops \<Rightarrow> cache_obj \<Rightarrow> ('s, wval) prog" where
  "co_remove_all so co = status_to_exception CacheError (any_node_op so co (\<lambda>net. cache_remove_all (query_perform net)))"

definition co_destroy :: "'s socket_ops \<Rightarrow> cache_obj \<Rightarrow> ('s, wval) prog" where
  "co_destroy so co =
     status_to_exception CacheError
       (any_node_op so co (\<lambda>net info. cache_destroy (query_perform net) (IInt (ci_cache_id info))))"

definition co_get_settings :: "'s socket_ops \<Rightarrow> cache_obj \<Rightarrow> ('s, (int \<times> wval) list \<times> cache_obj) prog" where
  "co_get_settings so co =
     (case co_settings co of
        Some s \<Rightarrow> preturn (Inr (s, co))
      | None \<Rightarrow>
          pbind (any_node_op so co (\<lambda>net info env. cache_get_configuration (query_perform net) (e_protocol env) info env)) (\<lambda>result.
            preturn (if r_status result \<noteq> 0 then Inl CacheError
              else case r_value result of
                WCodes s \<Rightarrow> Inr (s, co\<lparr>co_settings := Some s\<rparr>) | _ \<Rightarrow> Inl TypeError)))"

text \<open>Cursors remember the node they were created on.\<close>

definition co_scan ::
  "'s socket_ops \<Rightarrow> cache_obj \<Rightarrow> pyval \<Rightarrow> pyval \<Rightarrow> pyval \<Rightarrow> ('s, nat \<times> (pyval \<times> pyval) cursor) prog"
where
  "co_scan so co page_size partitions local =
     pbind (random_node so) (\<lambda>i.
     pbind (pool_query so i (\<lambda>net. scan_cursor net (co_info co) page_size partitions local)) (\<lambda>cu.
       preturn (Inr (i, cu))))"

definition co_vector ::
  "'s socket_ops \<Rightarrow> cache_obj \<Rightarrow> pyval \<Rightarrow> pyval \<Rightarrow> pyval \<Rightarrow> pyval \<Rightarrow> pyval \<Rightarrow> pyval \<Rightarrow>
   ('s, nat \<times> (pyval \<times> pyval) cursor) prog"
where
  "co_vector so co type_name field clause_vector k threshold page_size =
     pbind (random_node so) (\<lambda>i.
     pbind (pool_query so i (\<lambda>net. vector_cursor net (co_info co) page_size type_name field clause_vector k threshold))
       (\<lambda>cu. preturn (Inr (i, cu))))"

definition value_type_name :: "(int \<times> wval) list \<Rightarrow> pyval res" where
  "value_type_name settings =
     (case map_of settings PROP_QUERY_ENTITIES of
        None \<Rightarrow> Inl KeyError
      | Some v \<Rightarrow> rbind (wseq v) (\<lambda>xs.
          case xs of [] \<Rightarrow> Inl IndexError | x # _ \<Rightarrow> rbind (wfield ''value_type_name'' x) as_val))"

definition co_select_row ::
  "'s socket_ops \<Rightarrow> cache_obj \<Rightarrow> pyval \<Rightarrow> pyval \<Rightarrow> pyval \<Rightarrow> pyval \<Rightarrow> pyval \<Rightarrow> pyval \<Rightarrow> pyval \<Rightarrow>
   ('s, (nat \<times> (pyval \<times> pyval) cursor) \<times> cache_obj) prog"
where
  "co_select_row so co query_str page_size query_args distributed_joins replicated_only local timeout =
     pbind (co_get_settings so co) (\<lambda>(settings, co1).
     pbind (preturn (value_type_name settings)) (\<lambda>type_name.
       if \<not> truthy type_name then preturn (Inl SQLError)
       else
         pbind (random_node so) (\<lambda>i.
         pbind (pool_query so i (\<lambda>net. sql_cursor net (co_info co1) type_name query_str page_size query_args
             distributed_joins replicated_only local timeout)) (\<lambda>cu. preturn (Inr ((i, cu), co1))))))"

subsection \<open>The client's own operations\<close>

definition get_cache_names :: "'s socket_ops \<Rightarrow> ('s, wval) prog" where
  "get_cache_names so =
     status_to_exception CacheError (pbind (random_node so) (\<lambda>i. pool_query so i (\<lambda>net. cache_get_names (query_perform net))))"

definition client_put_binary_type ::
  "'s socket_ops \<Rightarrow> pystr \<Rightarrow> pyval \<Rightarrow> pyval \<Rightarrow> (pystr \<times> pyval) list \<Rightarrow> ('s, wval) prog"
where
  "client_put_binary_type so type_name affinity_key_field is_enum schema =
     status_to_exception BinaryTypeError
       (pbind (random_node so) (\<lambda>i.
          pool_query so i (\<lambda>net. put_binary_type net type_name affinity_key_field is_enum schema)))"

definition client_sql ::
  "'s socket_ops \<Rightarrow> ident option \<Rightarrow> cache_obj option \<Rightarrow> sql_fields_args \<Rightarrow> ('s, nat \<times> row_cursor) prog"
where
  "client_sql so cache co a p =
     (case p_context p of
        None \<Rightarrow> Some (Inl AttributeError, p)
      | Some pc \<Rightarrow>
          let info = (case cache of
                        Some c \<Rightarrow> \<lparr>ci_cache_id = cache_id c, ci_expiry_policy = None, ci_protocol_context = pc\<rparr>
                      | None \<Rightarrow> (case co of Some c \<Rightarrow> co_info c
                          | None \<Rightarrow> \<lparr>ci_cache_id = 0, ci_expiry_policy = None, ci_protocol_context = pc\<rparr>));
              args = (if ci_cache_id info \<noteq> 0 then a\<lparr>a_schema := VNone\<rparr> else a)
          in pbind (random_node so) (\<lambda>i.
               pbind (pool_query so i (\<lambda>net. fields_cursor net info args)) (\<lambda>cu. preturn (Inr (i, cu)))) p)"

definition get_state :: "'s socket_ops \<Rightarrow> ('s, wval) prog" where
  "get_state so = status_to_exception ClusterError (pbind (random_node so) (\<lambda>i. pool_query so i cluster_get_state))"

definition set_state :: "'s socket_ops \<Rightarrow> int \<Rightarrow> ('s, wval) prog" where
  "set_state so state =
     status_to_exception ClusterError (pbind (random_node so) (\<lambda>i. pool_query so i (\<lambda>net. cluster_set_state net state)))"

end
