(* ===== verification/Transactions.thy ===== *)
theory Transactions
  imports Caches
begin

section \<open>Transactions\<close>

text \<open>
  The synchronous class of \<open>transaction.py\<close>. A transaction is started over a usable node, which
  becomes the node of the current transaction, and is ended over that node.
\<close>

record transaction =
  t_concurrency :: pyval
  t_isolation :: pyval
  t_timeout :: pyval
  t_label :: pyval
  t_id :: int
  t_closed :: bool

definition transaction_concurrency :: "int list" where "transaction_concurrency = [0, 1]"

definition transaction_isolation :: "int list" where "transaction_isolation = [0, 1, 2]"

definition validate_int_enum_param :: "pyval \<Rightarrow> int list \<Rightarrow> pyval res" where
  "validate_int_enum_param v members =
     (if \<not> hashable v then Inl TypeError
      else if list_ex (\<lambda>m. py_eq v (VInt m)) members then Inr v else Inl ValueError)"

definition validate_timeout :: "pyval \<Rightarrow> pyval res" where
  "validate_timeout v =
     (case v of
        VInt i \<Rightarrow> if i < 0 then Inl ValueError else Inr v
      | VBool b \<Rightarrow> Inr v
      | _ \<Rightarrow> Inl ValueError)"

definition validate_label :: "pyval \<Rightarrow> pyval res" where
  "validate_label v = (if truthy v \<and> (case v of VStr s \<Rightarrow> False | _ \<Rightarrow> True) then Inl ValueError else Inr v)"

definition start_tx :: "'s socket_ops \<Rightarrow> pyval \<Rightarrow> pyval \<Rightarrow> pyval \<Rightarrow> pyval \<Rightarrow> ('s, api_result) prog" where
  "start_tx so concurrency isolation timeout label =
     pbind (random_node so) (\<lambda>i.
     pbind (pool_query so i (\<lambda>net. tx_start net concurrency isolation timeout label)) (\<lambda>result p.
       Some (Inr result, if r_status result = 0 then p\<lparr>p_tx_node := i\<rparr> else p)))"

definition client_tx_start ::
  "'s socket_ops \<Rightarrow> pyval \<Rightarrow> pyval \<Rightarrow> pyval \<Rightarrow> pyval \<Rightarrow> ('s, transaction) prog"
where
  "client_tx_start so concurrency isolation timeout label =
     pbind (preturn (validate_int_enum_param concurrency transaction_concurrency)) (\<lambda>c.
     pbind (preturn (validate_int_enum_param isolation transaction_isolation)) (\<lambda>i.
     pbind (preturn (validate_timeout timeout)) (\<lambda>t.
     pbind (preturn (validate_label label)) (\<lambda>l.
     pbind (status_to_exception CacheError (start_tx so c i t l)) (\<lambda>v.
       preturn (case v of
         WV (VInt tx_id) \<Rightarrow> Inr \<lparr>t_concurrency = c, t_isolation = i, t_timeout = t, t_label = l,
                              t_id = tx_id, t_closed = False\<rparr>
       | _ \<Rightarrow> Inl TypeError))))))"

definition end_tx :: "'s socket_ops \<Rightarrow> int \<Rightarrow> bool \<Rightarrow> ('s, wval) prog" where
  "end_tx so tx_id committed =
     status_to_exception CacheError (\<lambda>p.
       if e_tx (p_env p) \<noteq> Some tx_id then Some (Inl CacheError, p)
       else pool_query so (p_tx_node p) (\<lambda>net. tx_end net tx_id (VBool committed)) p)"

text \<open>
  \<open>commit\<close>, and \<open>close\<close>, which \<open>rollback\<close> and leaving a \<open>with\<close> block call: the outcome, the object
  afterwards and the state of the client. The object is closed before anything is sent.
\<close>

definition tx_finish ::
  "'s socket_ops \<Rightarrow> bool \<Rightarrow> transaction \<Rightarrow> 's pool \<Rightarrow> (wval res \<times> transaction \<times> 's pool) option"
where
  "tx_finish so committed tx p =
     (if t_closed tx then Some (Inr (WV VNone), tx, p)
      else map_option (\<lambda>(r, p'). (r, tx\<lparr>t_closed := True\<rparr>, p')) (end_tx so (t_id tx) committed p))"

definition tx_commit :: "'s socket_ops \<Rightarrow> transaction \<Rightarrow> 's pool \<Rightarrow> (wval res \<times> transaction \<times> 's pool) option" where
  "tx_commit so = tx_finish so True"

definition tx_close :: "'s socket_ops \<Rightarrow> transaction \<Rightarrow> 's pool \<Rightarrow> (wval res \<times> transaction \<times> 's pool) option" where
  "tx_close so = tx_finish so False"

definition tx_rollback :: "'s socket_ops \<Rightarrow> transaction \<Rightarrow> 's pool \<Rightarrow> (wval res \<times> transaction \<times> 's pool) option" where
  "tx_rollback so = tx_close so"

end
