(* ===== verification/ClientProps.thy ===== *)
theory ClientProps
  imports Caches PoolProps AioConnection
begin

section \<open>An operation through all layers\<close>

text \<open>
  From a method of a cache object to the bytes on a socket and back: choice of the node, encoding
  of the request, transport in fragments, parsing and unwrapping of the answer.
\<close>

lemma request_fragmented:
  assumes "byte_stream (so_recv so) pending" and "k_open k"
    and "so_sendall so data (k_sock k) = (Inr (), s1)" and "pending s1 = frame q"
    and "q \<noteq> []" and "length q < 2 ^ 31 - 4"
  shows "\<exists>s'. conn_request so data k =
    Some (Inr (frame q @ replicate (1024 - length (frame q)) 0), k\<lparr>k_sock := s'\<rparr>)"
proof -
  have "send so data k = Some (Inr (), k\<lparr>k_sock := s1\<rparr>)"
    using assms(2,3) by (simp add: send_def send_plain_def lost_def)
  moreover have "\<exists>s'. recv so (k\<lparr>k_sock := s1\<rparr>) =
      Some (Inr (frame q @ replicate (1024 - length (frame q)) 0), k\<lparr>k_sock := s1, k_sock := s'\<rparr>)"
    using recv_frame [OF assms(1), of "k\<lparr>k_sock := s1\<rparr>" q] assms(2,4-6) by auto
  ultimately show ?thesis by (auto simp: conn_request_def)
qed

lemma lend_sock [simp]: "k_sock (lend p k) = k_sock k" "k_open (lend p k) = k_open k"
  by (simp_all add: lend_def)

text \<open>The pool that a successful request over node \<open>i\<close> leaves: only the node's socket moved on.\<close>

definition moved_on :: "nat \<Rightarrow> 's pool \<Rightarrow> 's pool \<Rightarrow> bool" where
  "moved_on i p p' \<longleftrightarrow> keeps_others i p p' \<and> p_context p' = p_context p \<and> p_env p' = p_env p \<and>
     p_tx_node p' = p_tx_node p \<and> (i < length (p_nodes p) \<longrightarrow> alive (p_nodes p' ! i) = alive (p_nodes p ! i))"

lemma node_answers:
  assumes bs: "byte_stream (so_recv so) pending" and node: "i < length (p_nodes p)" "k_open (p_nodes p ! i)"
    and sent: "so_sendall so data (k_sock (p_nodes p ! i)) = (Inr (), s1)"
    and answer: "pending s1 = server_response pc qid topology err body"
    and ok: "head_ok qid topology err" and small: "length (server_response pc qid topology err body) < 2 ^ 31"
  shows "\<exists>rest p'. node_net so i data (Some p) = (Inr (server_response pc qid topology err body @ rest), Some p') \<and>
    moved_on i p p'"
proof -
  from response_frame [OF ok small] obtain q where q: "server_response pc qid topology err body = frame q" "q \<noteq> []"
    by blast
  have "length q < 2 ^ 31 - 4" using small unfolding q(1) by simp
  from request_fragmented [OF bs _ _ answer [unfolded q(1)] q(2) this, of "lend p (p_nodes p ! i)"] node(2) sent
  obtain s' where "conn_request so data (lend p (p_nodes p ! i)) =
      Some (Inr (frame q @ replicate (1024 - length (frame q)) 0), (lend p (p_nodes p ! i))\<lparr>k_sock := s'\<rparr>)"
    by auto
  with node(1) show ?thesis
    unfolding q(1)
    by (auto simp: node_net_def on_node_def moved_on_def keeps_others_def share_def lend_def alive_def)
qed

text \<open>A query over a node whose server answers it.\<close>

lemma pool_query_answers:
  fixes p :: "'s pool"
  defines "env \<equiv> p_env p"
  assumes bs: "byte_stream (so_recv so) pending"
    and node: "i < length (p_nodes p)" "k_open (p_nodes p ! i)" "p_context p = Some pc"
    and wr: "writes (put_fields (e_tx env) following params) (new_stream (e_client env) []) req c"
    and ne: "params \<noteq> []" and cnt: "0 \<le> e_query_counter env" "e_query_counter env < MAX_LONG"
    and sent: "so_sendall so (request_bytes op (e_query_counter env + 1) req) (k_sock (p_nodes p ! i)) = (Inr (), s1)"
    and answer: "pending s1 = server_response pc (e_query_counter env + 1) topology None (concat (map fst bws))"
    and small: "length (server_response pc (e_query_counter env + 1) topology None (concat (map fst bws))) < 2 ^ 31"
    and topology: "head_ok 0 topology None"
    and q: "list_all2 (\<lambda>x bw. decodes P (get_w (e_depth env) [] (snd x)) (conv_w [] (snd x)) (fst bw) (snd bw)) fs bws"
    and pl: "list_all (\<lambda>x. plain (snd x)) fs" and ds: "distinct (map fst fs)"
    and names: "set (map fst fs) \<inter> set reserved = {}" and P: "P c"
  shows "\<exists>env' p'. query_perform (node_net so i) op following params (Response fs) post (with_net pc (Some p) env) =
      (post (success_result (e_query_counter env + 1) (fields_result fs (map snd bws))), env') \<and>
    P (e_client env') \<and> e_net env' = Some p' \<and> moved_on i p p' \<and>
    e_query_counter env' = e_query_counter env + 1 \<and> e_tx env' = e_tx env \<and> e_depth env' = e_depth env"
proof -
  have "head_ok (e_query_counter env + 1) topology None"
    using topology cnt by (auto simp: head_ok_def in_range_def MAX_LONG_def)
  from node_answers [OF bs node(1,2) sent answer this small] obtain rest p' where
    net: "node_net so i (request_bytes op (e_query_counter env + 1) req) (Some p) =
      (Inr (server_response pc (e_query_counter env + 1) topology None (concat (map fst bws)) @ rest), Some p')"
      "moved_on i p p'" by blast
  have f: "e_client (with_net pc (Some p) env) = e_client env" "e_tx (with_net pc (Some p) env) = e_tx env"
    "e_query_counter (with_net pc (Some p) env) = e_query_counter env" "e_protocol (with_net pc (Some p) env) = pc"
    "e_depth (with_net pc (Some p) env) = e_depth env" "e_net (with_net pc (Some p) env) = Some p"
    by (simp_all add: with_net_def)
  from query_performs_padded [where env = "with_net pc (Some p) env" and net = "node_net so i" and rest = rest
      and post = post, unfolded f, OF wr _ cnt(2,1) net(1) topology q pl ds names P] ne net(2)
  show ?thesis by (auto simp: same_session_def f)
qed

lemma unwrap_other: "pair_parts w = None \<Longrightarrow> unwrap_binary n w c = Inr (w, c)"
  by (subst unwrap_binary.simps) simp


text \<open>A client in transaction 42, whose server holds 9 under the key 7.\<close>

definition demo_answer_bytes :: "byte list" where
  "demo_answer_bytes = server_response (new_protocol_context (1, 7, 1) None) 1 None None (int_bytes 9)"

definition tx_pool :: "byte list pool" where
  "tx_pool = (demo_pool [demo_conn demo_answer_bytes])\<lparr>p_env := (demo_env ())\<lparr>e_tx := Some 42\<rparr>\<rparr>"

definition demo_cache_obj :: cache_obj where
  "demo_cache_obj = \<lparr>co_name = IInt 5, co_info = demo_cache, co_settings = None\<rparr>"


end
