(* ===== verification/Sessions.thy ===== *)
theory Sessions
  imports ClientProps
begin

section \<open>What a session keeps\<close>

text \<open>
  What every query leaves as it was (the transaction, the protocol, the newest affinity version),
  what every operation of a client leaves as it was, and the well-formedness of the client.
\<close>

named_theorems session_intros "what keeps the transaction of a session"

subsection \<open>One query\<close>

text \<open>The states a transport goes through when it is used any number of times.\<close>

inductive sends :: "'s net \<Rightarrow> 's \<Rightarrow> 's \<Rightarrow> bool" for net where
  sends_nothing [intro]: "sends net s s"
| sends_more [intro]: "sends net s s' \<Longrightarrow> sends net s (snd (net data s'))"

lemma sends_once: "sends net s (snd (net data s))"
  by (rule sends_more [OF sends_nothing])

lemma sends_trans: "sends net s' s'' \<Longrightarrow> sends net s s' \<Longrightarrow> sends net s s''"
  by (induction rule: sends.induct) auto

lemma not_version_less_trans:
  "\<not> version_less a b \<Longrightarrow> \<not> version_less b c \<Longrightarrow> \<not> version_less a c"
  by (auto simp: version_less_def)

definition session :: "'s net \<Rightarrow> 's env \<Rightarrow> 's env \<Rightarrow> bool" where
  "session net env env' \<longleftrightarrow> e_tx env' = e_tx env \<and> e_protocol env' = e_protocol env \<and>
     \<not> version_less (e_affinity_version env') (e_affinity_version env) \<and> sends net (e_net env) (e_net env')"

lemma session_refl [simp]: "session net env env"
  by (auto simp: session_def version_less_def)

lemma session_trans: "session net env env1 \<Longrightarrow> session net env1 env2 \<Longrightarrow> session net env env2"
  using sends_trans not_version_less_trans unfolding session_def by metis

definition in_session :: "'s net \<Rightarrow> ('s env, 'a) run \<Rightarrow> bool" where
  "in_session net f \<longleftrightarrow> (\<forall>env r env'. f env = (r, env') \<longrightarrow> session net env env')"

lemma in_sessionI: "(\<And>env r env'. f env = (r, env') \<Longrightarrow> session net env env') \<Longrightarrow> in_session net f"
  by (simp add: in_session_def)

lemma in_session_bind [session_intros]:
  assumes "in_session net m" and "\<And>x. in_session net (f x)"
  shows "in_session net (run_bind m f)"
proof (rule in_sessionI)
  fix env r env'
  assume "run_bind m f env = (r, env')"
  then obtain q env1 where "m env = (q, env1)" "(\<exists>e. q = Inl e \<and> env' = env1) \<or> (\<exists>x. f x env1 = (r, env'))"
    by (cases "m env") (auto simp: run_bind_def split: sum.splits)
  then show "session net env env'" using assms session_trans unfolding in_session_def by metis
qed

lemma in_session_res [session_intros]: "in_session net (run_res r)"
  by (auto simp: in_session_def run_res_def)

lemma update_affinity_version_session:
  "update_affinity_version ob env = Inr env' \<Longrightarrow> session net env env'"
  by (auto simp: update_affinity_version_def rbind_def session_def version_less_def
      split: if_splits sum.splits)

lemma session_same:
  fixes env env' :: "'s env"
  shows "e_tx env' = e_tx env \<Longrightarrow> e_protocol env' = e_protocol env \<Longrightarrow>
   e_affinity_version env' = e_affinity_version env \<Longrightarrow> sends net (e_net env) (e_net env') \<Longrightarrow> session net env env'"
  by (simp add: session_def version_less_def)

lemma receive_response_session:
  fixes net :: "'s net"
  shows "in_session net (receive_response r data)"
proof (rule in_sessionI)
  fix env env' :: "'s env" and q
  assume a: "receive_response r data env = (q, env')"
  have keep: "session net env (env\<lparr>e_client := c\<rparr>)" for c by (rule session_same) auto
  have "session net (env\<lparr>e_client := c\<rparr>) env2 \<Longrightarrow> session net env env2" for c env2
    by (rule session_trans [OF keep])
  with a keep show "session net env env'"
    unfolding receive_response_def
    by (auto simp: Let_def rbind_def split: sum.splits prod.splits if_splits
        dest!: update_affinity_version_session [where net = net])
qed

lemma send_query_session: "in_session net (send_query net q params)"
proof (rule in_sessionI)
  fix env r env'
  assume a: "send_query net q params env = (r, env')"
  show "session net env env'"
  proof (cases "query_from_python (e_tx env) q params (new_stream (e_client env) [])")
    case (Inr st)
    then have "env' = env\<lparr>e_client := sclient st, e_net := snd (net (sbuf st) (e_net env))\<rparr>"
      using a by (cases "net (sbuf st) (e_net env)") (simp add: send_query_def)
    then show ?thesis by (auto intro!: session_same sends_once)
  qed (use a in \<open>simp add: send_query_def\<close>)
qed

lemma on_query_session:
  fixes env :: "'s env" and net :: "'s net"
  shows "session net env (on_query_started q env)" "session net env (on_query_finished q r env)"
  by (auto intro!: session_same simp: on_query_started_def on_query_finished_def publish_def Let_def)

lemma perform_session: "in_session net (perform net q params r)"
proof (rule in_sessionI)
  fix env out env'
  assume a: "perform net q params r env = (out, env')"
  obtain o1 env1 where b: "run_bind (send_query net q params) (receive_response r) (on_query_started q env) = (o1, env1)"
    by (cases "run_bind (send_query net q params) (receive_response r) (on_query_started q env)")
  have "in_session net (run_bind (send_query net q params) (receive_response r))"
    by (intro session_intros send_query_session receive_response_session)
  with b have "session net (on_query_started q env) env1" by (simp add: in_session_def)
  with session_trans on_query_session have "session net env env1" by blast
  moreover have "env' = on_query_finished q o1 env1" using a by (auto simp: perform_def b)
  ultimately show "session net env env'" using session_trans on_query_session by blast
qed

lemma new_query_session [session_intros]: "in_session net (new_query config op following)"
  by (auto simp: in_session_def new_query_def split: prod.splits intro!: session_same)

lemma query_perform_session [session_intros]: "in_session net (query_perform net op following params r post)"
  unfolding query_perform_def by (intro session_intros perform_session)

lemma config_query_perform_session [session_intros]: "in_session net (config_query_perform net op following params)"
  unfolding config_query_perform_def by (intro session_intros perform_session)

lemma in_session_if [session_intros]: "in_session net f \<Longrightarrow> in_session net g \<Longrightarrow> in_session net (if b then f else g)"
  by simp

lemmas operation_defs =
  cache_put_def cache_get_def cache_get_all_def cache_put_all_def cache_contains_key_def cache_contains_keys_def
  cache_get_and_put_def cache_get_and_replace_def cache_get_and_remove_def cache_put_if_absent_def
  cache_get_and_put_if_absent_def cache_replace_def cache_replace_if_equals_def cache_clear_def cache_clear_key_def
  cache_clear_keys_def cache_remove_key_def cache_remove_if_equals_def cache_remove_keys_def cache_remove_all_def
  cache_get_size_def cache_destroy_def cache_get_names_def cache_create_def cache_get_or_create_def
  cache_create_with_name_def cache_get_node_partitions_def partitions_query_def

subsection \<open>The client\<close>

text \<open>A connection never forgets a protocol context that was already known when it was asked to connect.\<close>

definition keeps_known :: "('s conn \<Rightarrow> ('a res \<times> 's conn) option) \<Rightarrow> bool" where
  "keeps_known f \<longleftrightarrow> (\<forall>k r k'. f k = Some (r, k') \<longrightarrow> k_context k \<noteq> None \<longrightarrow> k_context k' \<noteq> None)"

lemma keeps_knownD: "keeps_known f \<Longrightarrow> f k = Some (r, k') \<Longrightarrow> k_context k \<noteq> None \<Longrightarrow> k_context k' \<noteq> None"
  unfolding keeps_known_def by blast

lemma connect_loop_known: "keeps_known (connect_loop so False)"
  unfolding keeps_known_def
proof (intro allI impI)
  fix k r k'
  assume a: "connect_loop so False k = Some (r, k')" "k_context k \<noteq> None"
  let ?P = "\<lambda>so detecting k rk. \<not> detecting \<longrightarrow> k_context k \<noteq> None \<longrightarrow> k_context (snd rk) \<noteq> None"
  have "?P so False k (r, k')"
  proof (rule connect_loop.raw_induct [OF _ a(1), of ?P], goal_cases)
    case (1 loop so detecting k rk)
    obtain v k1 where cv: "connect_version so (on_handshake_start k) = (v, k1)"
      by (cases "connect_version so (on_handshake_start k)")
    from connect_version_frame [OF cv] have f: "k_context k1 = k_context k" by simp
    show ?case
    proof (cases v)
      case (Inl e)
      show ?thesis
      proof (cases "\<exists>w. e = HandshakeError w \<and> w \<in> set PROTOCOLS")
        case True
        then obtain w where w: "e = HandshakeError w" "w \<in> set PROTOCOLS" by blast
        with 1(2) cv Inl have "loop so detecting (k1\<lparr>k_context := map_option (set_version w) (k_context k1)\<rparr>) = Some rk"
          by simp
        from 1(1) [OF this] show ?thesis using f by auto
      next
        case False
        with 1(2) cv Inl f show ?thesis by (auto split: py_error.splits if_splits)
      qed
    qed (use 1(2) cv f in auto)
  qed
  with a(2) show "k_context k' \<noteq> None" by simp
qed

lemma connect_known [session_intros]: "keeps_known (connect so)"
proof -
  have "connect so k = connect_loop so False k" if "k_context k \<noteq> None" for k
    using that by (auto simp: connect_def)
  then show ?thesis using connect_loop_known unfolding keeps_known_def by metis
qed

lemma reconnect_known [session_intros]: "keeps_known (reconnect so)"
proof -
  have "k_context k' \<noteq> None" if "connect so (close True k) = Some (r, k')" "k_context k \<noteq> None" for k r k'
    using keeps_knownD [OF connect_known that(1)] that(2) by simp
  then show ?thesis by (auto simp: keeps_known_def reconnect_def split: if_splits)
qed

lemma lost_known:
  assumes "lost so (r, k) = Some (r', k')" and "k_context k \<noteq> None"
  shows "k_context k' \<noteq> None"
proof (cases r)
  case (Inl e)
  with assms(1) obtain q where q: "reconnect so (on_connection_lost False k) = Some (q, k')"
    by (auto simp: lost_def)
  have "k_context (on_connection_lost False k) \<noteq> None"
    using assms(2) by (simp add: on_connection_lost_def k_publish_def)
  from keeps_knownD [OF reconnect_known q this] show ?thesis .
qed (use assms in \<open>auto simp: lost_def\<close>)

lemma send_recv_known: "keeps_known (send so data)" "keeps_known (recv so)"
proof -
  have s: "k_context (snd (send_plain so data k)) = k_context k" "k_context (snd (recv_plain so k)) = k_context k" for k
    using plain_frame(1) [of so data k "fst (send_plain so data k)" "snd (send_plain so data k)"]
      plain_frame(2) [of so k "fst (recv_plain so k)" "snd (recv_plain so k)"] by simp_all
  show "keeps_known (send so data)"
    unfolding keeps_known_def send_def using lost_known s(1) by (metis Pair_inject option.inject prod.collapse)
  show "keeps_known (recv so)"
    unfolding keeps_known_def recv_def using lost_known s(2) by (metis Pair_inject option.inject prod.collapse)
qed

lemma conn_request_known [session_intros]: "keeps_known (conn_request so data)"
  using keeps_knownD [OF send_recv_known(1)] keeps_knownD [OF send_recv_known(2)]
  by (fastforce simp: keeps_known_def conn_request_def split: option.splits sum.splits)

lemma close_known [session_intros]: "keeps_known (\<lambda>k. Some (r, close b k))"
  by (simp add: keeps_known_def)

text \<open>
  A well-formed pool: the current node is one of its nodes, and no two keys of the partition mapping
  are equal as dictionary keys.
\<close>

definition pool_ok :: "'s pool \<Rightarrow> bool" where
  "pool_ok p \<longleftrightarrow> p_current p < length (p_nodes p) \<and> sorted_wrt (\<lambda>a b. \<not> py_eq b a) (map fst (p_mapping p))"

lemma key_put_keys:
  "sorted_wrt (\<lambda>a b. \<not> py_eq b a) (map fst d) \<Longrightarrow> sorted_wrt (\<lambda>a b. \<not> py_eq b a) (map fst (key_put k v d)) \<and>
    set (map fst (key_put k v d)) \<subseteq> insert k (set (map fst d))"
proof (induction d)
  case (Cons x d)
  obtain k' v' where x: "x = (k', v')" by (cases x)
  have k: "\<forall>y \<in> set (map fst (key_put k v d)). y = k \<or> y \<in> set (map fst d)"
    using Cons by (auto simp: x)
  from Cons have "\<forall>y \<in> set (map fst d). \<not> py_eq y k'" by (auto simp: x)
  with k have "py_eq k k' \<or> (\<forall>y \<in> set (map fst (key_put k v d)). \<not> py_eq y k')" by metis
  with Cons show ?case by (auto simp: x)
qed simp

lemma fold_key_put_keys:
  "sorted_wrt (\<lambda>a b. \<not> py_eq b a) (map fst d) \<Longrightarrow>
   sorted_wrt (\<lambda>a b. \<not> py_eq b a) (map fst (fold (\<lambda>(c, i). key_put c (Some i)) kvs d))"
  by (induction kvs arbitrary: d) (auto simp: key_put_keys split: prod.splits)

text \<open>
  What the operations of a client keep: the current transaction, its node, that the protocol is known
  and that the pool is well-formed.
\<close>

definition same_tx :: "'s pool \<Rightarrow> 's pool \<Rightarrow> bool" where
  "same_tx p p' \<longleftrightarrow> e_tx (p_env p') = e_tx (p_env p) \<and> p_tx_node p' = p_tx_node p \<and>
     (p_context p \<noteq> None \<longrightarrow> p_context p' \<noteq> None) \<and> (pool_ok p \<longrightarrow> pool_ok p')"

text \<open>
  Programs whose every outcome is related to the state they were started in; what the relation has
  to satisfy for that to compose.
\<close>

definition keeps :: "('s pool \<Rightarrow> 's pool \<Rightarrow> bool) \<Rightarrow> ('s, 'a) prog \<Rightarrow> bool" where
  "keeps R m \<longleftrightarrow> (\<forall>p r p'. m p = Some (r, p') \<longrightarrow> R p p')"

locale steady =
  fixes R :: "'s pool \<Rightarrow> 's pool \<Rightarrow> bool"
  assumes steady_refl: "R p p"
    and steady_trans: "R p p1 \<Longrightarrow> R p1 p2 \<Longrightarrow> R p p2"
begin

lemma keeps_bind:
  assumes "keeps R m" and "\<And>x. keeps R (f x)"
  shows "keeps R (pbind m f)"
  using assms steady_trans unfolding keeps_def pbind_Some by metis

lemma keeps_return: "keeps R (preturn r)"
  by (auto simp: keeps_def preturn_def steady_refl)

lemma keeps_if: "keeps R f \<Longrightarrow> keeps R g \<Longrightarrow> keeps R (\<lambda>p. if b p then f p else g p)"
  by (simp add: keeps_def)

lemma keeps_Some: "keeps R (\<lambda>p. Some (r p, p))"
  by (simp add: keeps_def steady_refl)

lemma keeps_status: "keeps R f \<Longrightarrow> keeps R (status_to_exception exc f)"
  unfolding status_to_exception_def by (intro keeps_bind keeps_return)

end

interpretation tx: steady same_tx
  by unfold_locales (auto simp: same_tx_def)

abbreviation keeps_tx :: "('s, 'a) prog \<Rightarrow> bool" where "keeps_tx \<equiv> keeps same_tx"

lemmas [session_intros] = tx.keeps_bind tx.keeps_return tx.keeps_if tx.keeps_Some tx.keeps_status

lemma keeps_txI: "(\<And>p r p'. m p = Some (r, p') \<Longrightarrow> same_tx p p') \<Longrightarrow> keeps_tx m"
  by (simp add: keeps_def)

lemma keeps_txD: "keeps_tx m \<Longrightarrow> m p = Some (r, p') \<Longrightarrow> same_tx p p'"
  by (simp add: keeps_def)

lemma same_tx_refl [simp]: "same_tx p p" by (rule tx.steady_refl)

lemmas same_tx_trans = tx.steady_trans

lemma keeps_tx_on_node [session_intros]:
  assumes "keeps_known f"
  shows "keeps_tx (on_node i f)"
proof (rule keeps_txI)
  fix p r p'
  assume "on_node i f p = Some (r, p')"
  then obtain k where "f (lend p (p_nodes p ! i)) = Some (r, k)" "p' = share k (p\<lparr>p_nodes := (p_nodes p)[i := k]\<rparr>)"
    by (auto simp: on_node_Some)
  with keeps_knownD [OF assms] show "same_tx p p'" by (force simp: same_tx_def pool_ok_def share_def lend_def)
qed

lemma keeps_tx_reconnect_nodes [session_intros]: "keeps_tx (reconnect_nodes so js)"
proof (induction js)
  case (Cons i js)
  have "keeps_tx (pbind (on_node i (reconnect so)) (\<lambda>u. reconnect_nodes so js))"
    by (intro session_intros Cons.IH)
  then show ?case by (simp add: keeps_def)
qed (simp add: keeps_def)

lemma keeps_tx_random_choice [session_intros]: "keeps_tx (random_choice xs)"
  by (auto simp: keeps_def random_choice_def same_tx_def pool_ok_def)

lemma keeps_tx_at: "(\<And>q. keeps_tx (f q)) \<Longrightarrow> keeps_tx (\<lambda>p. f p p)"
  by (simp add: keeps_def)

lemma keeps_tx_get_random_node: "keeps_tx (get_random_node so)"
  unfolding get_random_node_def [abs_def]
  by (intro session_intros keeps_tx_at [of "\<lambda>q. random_choice (alive_nodes q)"]
      keeps_tx_at [of "\<lambda>q. pbind (reconnect_nodes so [0..<length (p_nodes q)]) _"])

lemma next_usable_same_tx: "next_usable so js p = Some (r, p') \<Longrightarrow> same_tx p p'"
proof (induction js arbitrary: p)
  case (Cons i js)
  from Cons.prems obtain q p1 where c: "on_node i (connect so) p = Some (q, p1)"
    by (auto split: option.splits)
  have "same_tx p p1" by (rule keeps_txD [OF keeps_tx_on_node [OF connect_known] c])
  with Cons c show ?case using same_tx_trans by (fastforce split: sum.splits if_splits)
qed simp

lemma keeps_tx_random_node [session_intros]: "keeps_tx (random_node so)"
proof -
  let ?f = "\<lambda>u p1. let n = length (p_nodes p1);
              c = (if n \<le> Suc (p_current p1) then 0 else Suc (p_current p1))
          in next_usable so ([c..<n] @ [0..<c]) (p1\<lparr>p_current := c\<rparr>)"
  have f: "keeps_tx (?f u)" for u
    by (rule keeps_txI) (auto simp: Let_def same_tx_def pool_ok_def dest!: next_usable_same_tx simp del: upt_Suc split: if_splits)
  show ?thesis unfolding random_node_def [abs_def]
    by (intro session_intros keeps_tx_get_random_node f
        keeps_tx_at [of "\<lambda>q. pbind (on_node (p_current q) _) _"])
qed

lemma sends_keeps_pool:
  "sends (node_net so i) st st' \<Longrightarrow> st' = Some p' \<Longrightarrow> \<exists>p. st = Some p \<and> p_tx_node p' = p_tx_node p \<and>
     (p_context p \<noteq> None \<longrightarrow> p_context p' \<noteq> None) \<and> (pool_ok p \<longrightarrow> pool_ok p')"
proof (induction arbitrary: p' rule: sends.induct)
  case (sends_more s s' data)
  from sends_more.prems obtain p1 where p1: "s' = Some p1"
    by (cases s') (auto simp: node_net_def)
  have "same_tx p1 p'" if "on_node i (conn_request so data) p1 = Some (r, p')" for r
    by (rule keeps_txD [OF keeps_tx_on_node [OF conn_request_known] that])
  with sends_more.prems p1 have "p_tx_node p' = p_tx_node p1 \<and> (p_context p1 \<noteq> None \<longrightarrow> p_context p' \<noteq> None) \<and>
      (pool_ok p1 \<longrightarrow> pool_ok p')"
    by (auto simp: node_net_def same_tx_def split: option.splits if_split_asm)
  with sends_more.IH [OF p1] show ?case by auto
qed auto

lemma pool_query_tx:
  assumes "pool_query so i f p = Some (r, p')"
    and "\<And>net env q env'. f net env = (q, env') \<Longrightarrow> sends net (e_net env) (e_net env') \<and> P (e_tx env) q (e_tx env')"
  shows "p_tx_node p' = p_tx_node p \<and> (pool_ok p \<longrightarrow> pool_ok p') \<and>
    (p_context p = None \<and> r = Inl AttributeError \<and> p' = p \<or> p_context p' \<noteq> None \<and> P (e_tx (p_env p)) r (e_tx (p_env p')))"
proof (cases "p_context p")
  case None
  with assms(1) show ?thesis by (auto simp: pool_query_def)
next
  case (Some pc)
  obtain q env where f: "f (node_net so i) (with_net pc (Some p) (p_env p)) = (q, env)"
    by (cases "f (node_net so i) (with_net pc (Some p) (p_env p))")
  with assms(1) Some obtain p1 where p1: "e_net env = Some p1" "r = q" "p' = p1\<lparr>p_env := without_net env\<rparr>"
    by (auto simp: pool_query_def)
  from assms(2) [OF f] have s: "sends (node_net so i) (Some p) (e_net env)" "P (e_tx (p_env p)) q (e_tx env)"
    by (simp_all add: with_net_def)
  from sends_keeps_pool [OF s(1) p1(1)] s(2) p1 Some show ?thesis
    by (simp add: without_net_def with_net_def pool_ok_def)
qed

lemma keeps_tx_pool_query [session_intros]:
  assumes "\<And>net. in_session net (f net)"
  shows "keeps_tx (pool_query so i f)"
proof (rule keeps_txI)
  fix p r p'
  assume q: "pool_query so i f p = Some (r, p')"
  have "p_tx_node p' = p_tx_node p \<and> (pool_ok p \<longrightarrow> pool_ok p') \<and>
      (p_context p = None \<and> r = Inl AttributeError \<and> p' = p \<or> p_context p' \<noteq> None \<and> e_tx (p_env p') = e_tx (p_env p))"
    by (rule pool_query_tx [where P = "\<lambda>t q t'. t' = t", OF q])
      (use assms in \<open>auto simp: in_session_def session_def\<close>)
  then show "same_tx p p'" by (auto simp: same_tx_def)
qed

lemma keeps_tx_get_affinity: "keeps_tx (get_affinity so n i caches)"
proof (induction n)
  case 0
  show ?case by (simp add: keeps_def)
next
  case (Suc n)
  let ?f = "\<lambda>(result, parts) p'. (case parts of Some full \<Rightarrow> Some (Inr full, p') | None \<Rightarrow> get_affinity so n i caches p')"
  have "keeps_tx (?f x)" for x
    using Suc by (auto simp: keeps_def split: prod.splits option.splits)
  moreover have "keeps_tx (pool_query so i (\<lambda>net. cache_get_node_partitions net (VList caches)))"
    unfolding operation_defs by (intro session_intros)
  ultimately have "keeps_tx (pbind (pool_query so i (\<lambda>net. cache_get_node_partitions net (VList caches))) ?f)"
    by (rule tx.keeps_bind [rotated])
  then show ?case by (simp add: keeps_def)
qed

lemma keeps_tx_refresh [session_intros]: "keeps_tx (refresh so caches i)"
proof (rule keeps_txI)
  fix p r p'
  assume "refresh so caches i p = Some (r, p')"
  then have "case (r, p') of (r, p') \<Rightarrow> same_tx p p'"
  proof (rule refresh.raw_induct [rotated, where P = "\<lambda>so caches i p x. case x of (r, p') \<Rightarrow> same_tx p p'"], goal_cases)
    case (1 f so caches i p x)
    obtain q p1 where g: "get_affinity so AFFINITY_RETRIES i caches p = Some (q, p1)"
      using 1(2) by (auto split: option.splits)
    have s1: "same_tx p p1" by (rule keeps_txD [OF keeps_tx_get_affinity g])
    have "same_tx p1 p2" if "random_node so p1 = Some (q', p2)" for q' p2
      by (rule keeps_txD [OF keeps_tx_random_node that])
    with 1 g s1 show ?case
      by (fastforce split: sum.splits if_splits option.splits prod.splits intro: same_tx_trans)
  qed
  then show "same_tx p p'" by simp
qed

lemma same_tx_simps [simp]:
  "same_tx p (p\<lparr>p_env := (p_env p)\<lparr>e_client := c\<rparr>\<rparr>)" "same_tx p (update_affinity a p)"
  by (simp_all add: same_tx_def update_affinity_def pool_ok_def fold_key_put_keys)

lemma cache_partition_mapping_same: "cache_partition_mapping cid p = (m, p') \<Longrightarrow> same_tx p p'"
  by (fastforce simp: cache_partition_mapping_def key_get_def same_tx_def pool_ok_def sorted_wrt_append find_None_iff
      split: option.splits)

lemma keeps_tx_best_node_of_key [session_intros]: "keeps_tx (best_node_of_key i cid key key_hint)"
proof (rule keeps_txI)
  fix p r p'
  assume a: "best_node_of_key i cid key key_hint p = Some (r, p')"
  obtain m p1 where m: "cache_partition_mapping cid p = (m, p1)" by (cases "cache_partition_mapping cid p")
  then have "same_tx p p1" by (rule cache_partition_mapping_same)
  moreover have "same_tx p1 p'"
    using a m by (auto simp: best_node_of_key_def Let_def split: option.splits if_splits sum.splits)
  ultimately show "same_tx p p'" by (rule same_tx_trans)
qed

lemma keeps_tx_after_update: "keeps_tx m \<Longrightarrow> keeps_tx (\<lambda>p. m (update_affinity a p))"
  using same_tx_trans same_tx_simps(2) unfolding keeps_def by metis

lemma keeps_tx_get_best_node [session_intros]: "keeps_tx (get_best_node so cid key key_hint)"
proof -
  let ?g = "\<lambda>(j, full) p1. (case full of None \<Rightarrow> Some (Inr (j, key), p1)
      | Some a \<Rightarrow> pbind (reconnect_nodes so [0..<length (p_nodes p1)])
          (\<lambda>u. best_node_of_key j cid key key_hint) (update_affinity a p1))"
  have best: "keeps_tx (\<lambda>p. pbind (reconnect_nodes so [0..<n]) (\<lambda>u. best_node_of_key j cid key key_hint) (update_affinity a p))"
    for n j a by (intro keeps_tx_after_update session_intros)
  have g: "keeps_tx (?g x)" for x
  proof (cases x)
    case (Pair j full)
    show ?thesis
    proof (cases full)
      case None
      with Pair show ?thesis by (simp add: keeps_def)
    next
      case (Some a)
      have "keeps_tx (\<lambda>p. pbind (reconnect_nodes so [0..<length (p_nodes p)])
          (\<lambda>u. best_node_of_key j cid key key_hint) (update_affinity a p))"
        by (rule keeps_tx_at [where f = "\<lambda>q p. pbind (reconnect_nodes so [0..<length (p_nodes q)])
          (\<lambda>u. best_node_of_key j cid key key_hint) (update_affinity a p)"]) (rule best)
      with Pair Some show ?thesis by simp
    qed
  qed
  show ?thesis unfolding get_best_node_def
    by (intro session_intros g keeps_tx_at [of "\<lambda>q. pbind (refresh so (caches_to_update_affinity q) _) _"])
qed

lemma keeps_tx_cache_best_node [session_intros]: "keeps_tx (cache_best_node so co key key_hint)"
  by (rule keeps_txI) (auto simp: cache_best_node_def split: option.splits dest: keeps_txD [OF keeps_tx_get_best_node])

lemma keeps_tx_any_node_op [session_intros]:
  "(\<And>net info. in_session net (f net info)) \<Longrightarrow> keeps_tx (any_node_op so co f)"
  unfolding any_node_op_def by (intro session_intros) (auto split: prod.splits intro: session_intros)

lemma keeps_tx_keyed_op [session_intros]:
  "(\<And>net info k h. in_session net (f net info k h)) \<Longrightarrow> keeps_tx (keyed_op so co key key_hint f)"
  unfolding keyed_op_def by (intro session_intros) (auto split: prod.splits intro: session_intros)

lemma keeps_tx_pool_unwrap [session_intros]: "keeps_tx (pool_unwrap v)"
  by (auto simp: keeps_def pool_unwrap_def split: sum.splits prod.splits)

lemma keeps_tx_unwrap_result [session_intros]: "keeps_tx (unwrap_result result)"
  unfolding unwrap_result_def by (auto split: wval.splits intro!: session_intros)

lemma keeps_tx_unwrap_values [session_intros]: "keeps_tx (unwrap_values kvs :: ('s, (pyval \<times> pyval) list) prog)"
proof (induction kvs)
  case (Cons x kvs)
  obtain k v where x: "x = (k, v)" by (cases x)
  let ?rest = "unwrap_values kvs :: ('s, (pyval \<times> pyval) list) prog"
  have "keeps_tx (pbind (pool_unwrap v) (\<lambda>x. pbind ?rest (\<lambda>ys. preturn (Inr ((k, x) # ys)))))"
    by (intro session_intros Cons.IH)
  with x show ?case by (simp add: keeps_def)
qed (simp add: keeps_def)

lemma keeps_tx_unwrap_all_values [session_intros]: "keeps_tx (unwrap_all_values result)"
  unfolding unwrap_all_values_def by (auto split: wval.splits pyval.splits intro!: session_intros)

subsection \<open>Runs of a client with transactions\<close>

text \<open>The operations on a cache that may be called between the steps of transactions.\<close>

inductive cache_step :: "'s socket_ops \<Rightarrow> 's pool \<Rightarrow> 's pool \<Rightarrow> bool" for so where
  "co_get so co k h p = Some (r, p') \<Longrightarrow> cache_step so p p'"
| "co_put so co k v h vh p = Some (r, p') \<Longrightarrow> cache_step so p p'"
| "co_replace so co k v h vh p = Some (r, p') \<Longrightarrow> cache_step so p p'"
| "co_clear_key so co k h p = Some (r, p') \<Longrightarrow> cache_step so p p'"
| "co_contains_key so co k h p = Some (r, p') \<Longrightarrow> cache_step so p p'"
| "co_get_and_put so co k v h vh p = Some (r, p') \<Longrightarrow> cache_step so p p'"
| "co_get_and_put_if_absent so co k v h vh p = Some (r, p') \<Longrightarrow> cache_step so p p'"
| "co_put_if_absent so co k v h vh p = Some (r, p') \<Longrightarrow> cache_step so p p'"
| "co_get_and_remove so co k h p = Some (r, p') \<Longrightarrow> cache_step so p p'"
| "co_get_and_replace so co k v h vh p = Some (r, p') \<Longrightarrow> cache_step so p p'"
| "co_remove_key so co k h p = Some (r, p') \<Longrightarrow> cache_step so p p'"
| "co_remove_if_equals so co k s h sh p = Some (r, p') \<Longrightarrow> cache_step so p p'"
| "co_replace_if_equals so co k s v h sh vh p = Some (r, p') \<Longrightarrow> cache_step so p p'"
| "co_get_all so co ks p = Some (r, p') \<Longrightarrow> cache_step so p p'"
| "co_put_all so co kvs p = Some (r, p') \<Longrightarrow> cache_step so p p'"
| "co_clear_keys so co ks p = Some (r, p') \<Longrightarrow> cache_step so p p'"
| "co_contains_keys so co ks p = Some (r, p') \<Longrightarrow> cache_step so p p'"
| "co_remove_keys so co ks p = Some (r, p') \<Longrightarrow> cache_step so p p'"
| "co_get_size so co modes p = Some (r, p') \<Longrightarrow> cache_step so p p'"
| "co_clear so co ks p = Some (r, p') \<Longrightarrow> cache_step so p p'"
| "co_remove_all so co p = Some (r, p') \<Longrightarrow> cache_step so p p'"
| "co_destroy so co p = Some (r, p') \<Longrightarrow> cache_step so p p'"

lemmas cache_op_defs =
  co_get_def co_put_def co_replace_def co_clear_key_def co_contains_key_def co_get_and_put_def
  co_get_and_put_if_absent_def co_put_if_absent_def co_get_and_remove_def co_get_and_replace_def co_remove_key_def
  co_remove_if_equals_def co_replace_if_equals_def co_get_all_def co_put_all_def co_clear_keys_def
  co_contains_keys_def co_remove_keys_def co_get_size_def co_clear_def co_remove_all_def co_destroy_def

lemma cache_step_tx: "cache_step so p p' \<Longrightarrow> same_tx p p'"
  by (induction rule: cache_step.induct; unfold cache_op_defs operation_defs; erule keeps_txD [rotated];
      intro session_intros)

subsection \<open>Well-formedness of a client\<close>

text \<open>The operations of a client that has connected.\<close>

inductive client_step :: "'s socket_ops \<Rightarrow> 's pool \<Rightarrow> 's pool \<Rightarrow> bool" for so where
  cache_operation: "cache_step so p p' \<Longrightarrow> client_step so p p'"
| node_chosen: "random_node so p = Some (r, p') \<Longrightarrow> client_step so p p'"
| cache_got: "get_cache settings p = Some (r, p') \<Longrightarrow> client_step so p p'"

lemma new_cache_ok: "new_cache name ep p = Some (r, p') \<Longrightarrow> pool_ok p \<Longrightarrow> pool_ok p'"
  by (auto simp: new_cache_def register_cache_def pool_ok_def key_put_keys split: sum.splits option.splits)

lemma client_step_ok: "client_step so p p' \<Longrightarrow> pool_ok p \<Longrightarrow> pool_ok p'"
proof (induction rule: client_step.induct)
  case (cache_operation p p')
  from cache_step_tx [OF this(1)] this(2) show ?case by (simp add: same_tx_def)
next
  case (node_chosen p r p')
  from keeps_txD [OF keeps_tx_random_node this(1)] this(2) show ?case by (simp add: same_tx_def)
next
  case (cache_got settings p r p')
  then show ?case
    by (auto simp: get_cache_def pbind_Some preturn_def split: option.splits dest: new_cache_ok)
qed

lemma connect_nodes_ok:
  "connect_nodes so i ks p = Some (Inr (), p') \<Longrightarrow> i = length (p_nodes p) \<Longrightarrow>
   pool_ok p \<or> (p_nodes p = [] \<and> p_current p = 0 \<and> p_mapping p = []) \<Longrightarrow> ks \<noteq> [] \<or> p_nodes p \<noteq> [] \<Longrightarrow> pool_ok p'"
proof (induction ks arbitrary: i p)
  case Nil
  then show ?case by (auto split: if_splits)
next
  case (Cons k ks)
  have IH: "pool_ok p'" if "connect_nodes so (Suc i) ks q = Some (Inr (), p')" "p_nodes q = p_nodes p @ [k']"
    "p_mapping q = p_mapping p" "p_current q = p_current p \<or> p_current q = i" for q k'
  proof (rule Cons.IH [OF that(1)])
    show "pool_ok q \<or> (p_nodes q = [] \<and> p_current q = 0 \<and> p_mapping q = [])"
      using that Cons.prems(2,3) by (auto simp: pool_ok_def)
  qed (use that Cons.prems(2) in auto)
  show ?case
  proof (cases "p_context p = None \<or> partition_aware p")
    case False
    with Cons.prems(1) show ?thesis by (intro IH [of "p\<lparr>p_nodes := p_nodes p @ [k]\<rparr>" k]) auto
  next
    case True
    with Cons.prems(1) obtain r1 k1 where c: "connect so (lend p k) = Some (r1, k1)"
      by (auto split: option.splits)
    show ?thesis
    proof (cases r1)
      case (Inr u)
      with Cons.prems(1) True c have "connect_nodes so (Suc i) ks ((share k1 p)\<lparr>p_current :=
          (if partition_aware (share k1 p) then p_current (share k1 p) else i), p_nodes := p_nodes p @ [k1]\<rparr>) =
          Some (Inr (), p')" by (auto simp: Let_def)
      then show ?thesis by (rule IH [of _ k1]) auto
    next
      case (Inl e)
      show ?thesis
      proof (cases "partition_aware (share k1 p)")
        case False
        with Cons.prems(1) True c Inl have "connect_nodes so (Suc i) ks ((share k1 p)\<lparr>p_nodes := p_nodes p @ [k1]\<rparr>) =
            Some (Inr (), p')" by (auto simp: Let_def split: if_splits)
        then show ?thesis by (rule IH [of _ k1]) auto
      next
        case aware: True
        with Cons.prems(1) True c Inl obtain r2 k2 where "reconnect so k1 = Some (r2, k2)"
          by (auto split: if_splits option.splits)
        with Cons.prems(1) True c Inl aware have "connect_nodes so (Suc i) ks ((share k2 p)\<lparr>p_nodes := p_nodes p @ [k2]\<rparr>) =
            Some (Inr (), p')" by (cases r2) (auto simp: Let_def split: if_splits)
        then show ?thesis by (rule IH [of _ k2]) auto
      qed
    qed
  qed
qed



end
