(* ===== verification/TransactionProps.thy ===== *)
theory TransactionProps
  imports Transactions Sessions
begin

section \<open>Runs of transactions\<close>

text \<open>
  The life of transactions under every interleaving of their operations with those of caches.
\<close>

subsection \<open>Starting and ending a transaction\<close>

lemma query_perform_tx:
  assumes "query_perform net op following params r post env = (q, env')"
  shows "e_tx env' = e_tx env \<and> sends net (e_net env) (e_net env')"
  using query_perform_session assms unfolding in_session_def session_def by blast

lemma tx_start_effect:
  assumes "tx_start net c i t l env = (q, env')"
  shows "sends net (e_net env) (e_net env') \<and>
    ((\<exists>x tx_id. q = Inr x \<and> r_status x = 0 \<and> r_value x = WV (VInt tx_id) \<and> e_tx env' = Some tx_id) \<or>
     ((case q of Inl e \<Rightarrow> True | Inr x \<Rightarrow> r_status x \<noteq> 0) \<and> e_tx env' = e_tx env))"
  using assms unfolding tx_start_def tx_start_query_def run_bind_def
  by (auto simp: tx_start_post_process_def split: prod.splits sum.splits if_splits pyval.splits dest!: query_perform_tx)

lemma tx_end_effect:
  assumes "tx_end net tx_id committed env = (q, env')"
  shows "sends net (e_net env) (e_net env') \<and> (if e_tx env = Some tx_id then e_tx env' = None else e_tx env' = e_tx env)"
  using assms by (auto simp: tx_end_def tx_end_query_def split: prod.splits if_splits dest!: query_perform_tx)

lemma start_tx_effect:
  assumes "start_tx so c i t l p = Some (q, p')"
  shows "(\<exists>x tx_id. q = Inr x \<and> r_status x = 0 \<and> r_value x = WV (VInt tx_id) \<and>
      e_tx (p_env p') = Some tx_id \<and> p_context p' \<noteq> None) \<or>
    ((case q of Inl e \<Rightarrow> True | Inr x \<Rightarrow> r_status x \<noteq> 0) \<and> same_tx p p')"
proof -
  from assms obtain a p1 where r: "random_node so p = Some (a, p1)"
    "(\<exists>e. a = Inl e \<and> q = Inl e \<and> p' = p1) \<or> (\<exists>n b p2. a = Inr n \<and>
      pool_query so n (\<lambda>net. tx_start net c i t l) p1 = Some (b, p2) \<and>
      (case b of Inl e \<Rightarrow> q = Inl e \<and> p' = p2
       | Inr x \<Rightarrow> q = Inr x \<and> p' = (if r_status x = 0 then p2\<lparr>p_tx_node := n\<rparr> else p2)))"
    by (fastforce simp: start_tx_def pbind_Some)
  have s1: "same_tx p p1" by (rule keeps_txD [OF keeps_tx_random_node r(1)])
  from r(2) show ?thesis
  proof (elim disjE exE conjE)
    fix n b p2
    assume pq: "pool_query so n (\<lambda>net. tx_start net c i t l) p1 = Some (b, p2)"
      and b: "case b of Inl e \<Rightarrow> q = Inl e \<and> p' = p2
        | Inr x \<Rightarrow> q = Inr x \<and> p' = (if r_status x = 0 then p2\<lparr>p_tx_node := n\<rparr> else p2)"
    let ?P = "\<lambda>t q t'. (\<exists>x tx_id. q = Inr x \<and> r_status x = 0 \<and> r_value x = WV (VInt tx_id) \<and> t' = Some tx_id) \<or>
     ((case q of Inl e \<Rightarrow> True | Inr x \<Rightarrow> r_status x \<noteq> 0) \<and> t' = t)"
    have "p_tx_node p2 = p_tx_node p1 \<and> (pool_ok p1 \<longrightarrow> pool_ok p2) \<and>
      (p_context p1 = None \<and> b = Inl AttributeError \<and> p2 = p1 \<or> p_context p2 \<noteq> None \<and> ?P (e_tx (p_env p1)) b (e_tx (p_env p2)))"
      by (rule pool_query_tx [where P = ?P, OF pq]) (rule tx_start_effect)
    with s1 b show ?thesis
      by (cases b) (auto simp: same_tx_def split: if_splits)
  qed (use s1 in auto)
qed

lemma end_tx_effect:
  assumes "end_tx so tx_id committed p = Some (r, p')" and "e_tx (p_env p) \<noteq> None \<Longrightarrow> p_context p \<noteq> None"
  shows "if e_tx (p_env p) = Some tx_id then e_tx (p_env p') = None \<and> p_context p' \<noteq> None
    else r = Inl CacheError \<and> p' = p"
proof (cases "e_tx (p_env p) = Some tx_id")
  case True
  with assms(1) obtain q where
    q: "pool_query so (p_tx_node p) (\<lambda>net. tx_end net tx_id (VBool committed)) p = Some (q, p')"
    by (auto simp: end_tx_def status_to_exception_def pbind_Some preturn_def)
  let ?P = "\<lambda>t q t'. if t = Some tx_id then t' = None else t' = t"
  have "p_tx_node p' = p_tx_node p \<and> (pool_ok p \<longrightarrow> pool_ok p') \<and>
    (p_context p = None \<and> q = Inl AttributeError \<and> p' = p \<or>
     p_context p' \<noteq> None \<and> ?P (e_tx (p_env p)) q (e_tx (p_env p')))"
    by (rule pool_query_tx [where P = ?P, OF q]) (rule tx_end_effect)
  with True assms(2) show ?thesis by auto
next
  case False
  with assms(1) show ?thesis by (auto simp: end_tx_def status_to_exception_def pbind_Some preturn_def)
qed

lemma client_tx_start_effect:
  assumes "client_tx_start so c i t l p = Some (r, p')"
  shows "(\<exists>tx. r = Inr tx \<and> \<not> t_closed tx \<and> e_tx (p_env p') = Some (t_id tx) \<and> p_context p' \<noteq> None) \<or>
    (\<exists>e. r = Inl e \<and> same_tx p p')"
proof -
  from assms consider (invalid) e where "r = Inl e" "p' = p"
    | (started) c' i' t' l' q where "start_tx so c' i' t' l' p = Some (q, p')"
        "case q of Inl e \<Rightarrow> r = Inl e | Inr x \<Rightarrow>
           if r_status x \<noteq> 0 then r = Inl CacheError
           else r = (case r_value x of WV (VInt tx_id) \<Rightarrow> Inr \<lparr>t_concurrency = c', t_isolation = i', t_timeout = t',
               t_label = l', t_id = tx_id, t_closed = False\<rparr> | _ \<Rightarrow> Inl TypeError)"
    unfolding client_tx_start_def pbind_Some status_to_exception_def preturn_def
    by (fastforce split: if_splits)
  then show ?thesis
  proof cases
    case started
    from start_tx_effect [OF started(1)] started(2) show ?thesis by (cases q) (auto split: if_splits)
  qed simp
qed

text \<open>The transaction objects of an application, in the order they were started, and its client.\<close>

inductive tx_reachable :: "'s socket_ops \<Rightarrow> transaction list \<Rightarrow> 's pool \<Rightarrow> bool" for so where
  tx_none: "e_tx (p_env p) = None \<Longrightarrow> tx_reachable so [] p"
| tx_started: "tx_reachable so txs p \<Longrightarrow> client_tx_start so c i t l p = Some (Inr tx, p') \<Longrightarrow>
    tx_reachable so (txs @ [tx]) p'"
| tx_not_started: "tx_reachable so txs p \<Longrightarrow> client_tx_start so c i t l p = Some (Inl e, p') \<Longrightarrow>
    tx_reachable so txs p'"
| tx_committed: "tx_reachable so txs p \<Longrightarrow> n < length txs \<Longrightarrow> tx_commit so (txs ! n) p = Some (r, tx, p') \<Longrightarrow>
    tx_reachable so (txs[n := tx]) p'"
| tx_closed: "tx_reachable so txs p \<Longrightarrow> n < length txs \<Longrightarrow> tx_close so (txs ! n) p = Some (r, tx, p') \<Longrightarrow>
    tx_reachable so (txs[n := tx]) p'"
| tx_cache: "tx_reachable so txs p \<Longrightarrow> cache_step so p p' \<Longrightarrow> tx_reachable so txs p'"
| tx_node: "tx_reachable so txs p \<Longrightarrow> random_node so p = Some (r, p') \<Longrightarrow> tx_reachable so txs p'"

definition current_open :: "transaction list \<Rightarrow> 's pool \<Rightarrow> bool" where
  "current_open txs p \<longleftrightarrow>
     (case e_tx (p_env p) of
        None \<Rightarrow> True
      | Some tx_id \<Rightarrow> p_context p \<noteq> None \<and> txs \<noteq> [] \<and> \<not> t_closed (last txs) \<and> t_id (last txs) = tx_id)"

lemma current_open_same: "current_open txs p \<Longrightarrow> same_tx p p' \<Longrightarrow> current_open txs p'"
  by (auto simp: current_open_def same_tx_def split: option.splits)

lemma tx_finish_effect:
  assumes "tx_finish so committed tx p = Some (r, tx', p')" and "current_open txs p"
  shows "t_closed tx' \<and> t_id tx' = t_id tx \<and>
    (if t_closed tx then r = Inr (WV VNone) \<and> tx' = tx \<and> p' = p
     else if e_tx (p_env p) = Some (t_id tx) then e_tx (p_env p') = None
     else r = Inl CacheError \<and> p' = p)"
proof (cases "t_closed tx")
  case False
  with assms(1) have e: "end_tx so (t_id tx) committed p = Some (r, p')" "tx' = tx\<lparr>t_closed := True\<rparr>"
    by (auto simp: tx_finish_def)
  have "e_tx (p_env p) \<noteq> None \<Longrightarrow> p_context p \<noteq> None" using assms(2) by (auto simp: current_open_def)
  from end_tx_effect [OF e(1) this] e(2) False show ?thesis by auto
qed (use assms in \<open>auto simp: tx_finish_def\<close>)

lemma current_open_finish:
  assumes "current_open txs p" and "n < length txs" and "tx_finish so committed (txs ! n) p = Some (r, tx, p')"
  shows "current_open (txs[n := tx]) p'"
proof -
  note f = tx_finish_effect [OF assms(3,1)]
  show ?thesis
  proof (cases "e_tx (p_env p') = None")
    case False
    with f have "p' = p" "t_closed (txs ! n) \<and> tx = txs ! n \<or> e_tx (p_env p) \<noteq> Some (t_id (txs ! n))"
      by (auto split: if_splits)
    with assms(1,2) show ?thesis
      by (cases "Suc n = length txs") (auto simp: current_open_def last_conv_nth nth_list_update split: option.splits)
  qed (simp add: current_open_def)
qed

lemma tx_reachable_open: "tx_reachable so txs p \<Longrightarrow> current_open txs p"
proof (induction rule: tx_reachable.induct)
  case (tx_started txs p c i t l tx p')
  with client_tx_start_effect [OF tx_started.hyps(2)] show ?case by (auto simp: current_open_def)
next
  case (tx_not_started txs p c i t l e p')
  with client_tx_start_effect [OF tx_not_started.hyps(2)] show ?case by (auto intro: current_open_same)
next
  case (tx_cache txs p p')
  then show ?case by (blast intro: current_open_same cache_step_tx)
next
  case (tx_node txs p r p')
  then show ?case by (blast intro: current_open_same keeps_txD [OF keeps_tx_random_node])
next
  case (tx_none p)
  then show ?case by (simp add: current_open_def)
qed (auto simp: tx_commit_def tx_close_def dest: current_open_finish)

text \<open>A server that answers the start of a transaction with the identifier 42.\<close>

definition start_bytes :: "byte list" where
  "start_bytes = server_response (new_protocol_context (1, 7, 1) None) 1 None None (ct_bytes 4 42)"

definition start_pool :: "byte list pool" where
  "start_pool = (demo_pool [demo_conn start_bytes])\<lparr>p_tick := 1\<rparr>"

lemma demo_one_node:
  "random_node so (demo_pool [demo_conn s]) = Some (Inr 0, (demo_pool [demo_conn s])\<lparr>p_tick := 1\<rparr>)"
proof -
  have "alive_nodes (demo_pool [demo_conn s]) = [0]" by (simp add: alive_nodes_def demo_conn_def alive_def)
  then show ?thesis
    using demo_pool_aware [of "[demo_conn s]"] by (simp add: random_node_def get_random_node_def random_choice_def)
qed

definition start_fields :: "(string \<times> wtype) list" where
  "start_fields = [(''concurrency'', WPrim TByte), (''isolation'', WPrim TByte), (''timeout'', WPrim TLong),
     (''label'', string_object)]"

definition start_params :: "(string \<times> wval) list" where
  "start_params = [(''concurrency'', WV (VInt 1)), (''isolation'', WV (VInt 1)), (''timeout'', WV (VInt 0)), (''label'', WV VNone)]"

lemma demo_start_written:
  "case put_fields None start_fields start_params (new_stream (new_client None) []) of Inr st \<Rightarrow> True | Inl e \<Rightarrow> False"
  "case put_fields None [(''tx_id'', WPrim TInt)] [(''tx_id'', WV (VInt 42))] (new_stream (new_client None) []) of
     Inr body \<Rightarrow> sbuf body = ct_bytes 4 42 | Inl e \<Rightarrow> False"
  by code_simp+

lemma demo_tx_start:
  "\<exists>env' p'. tx_start (node_net demo_socket 0) (VInt 1) (VInt 1) (VInt 0) VNone
      (with_net (new_protocol_context (1, 7, 1) None) (Some start_pool) (p_env start_pool)) =
    (Inr ((success_result 1 (WD [(''tx_id'', WV (VInt 42))]))\<lparr>r_value := WV (VInt 42)\<rparr>), env') \<and>
    e_net env' = Some p' \<and> e_tx env' = Some 42"
proof -
  let ?pc = "new_protocol_context (1, 7, 1) None" and ?c = "new_client None" and ?env = "p_env start_pool"
  let ?fs = "[(''tx_id'', WPrim TInt)]" and ?w = "WV (VInt 42)"
  have f: "e_query_counter ?env = 0" "e_tx ?env = None" "e_depth ?env = 100" "e_client ?env = ?c"
    "p_nodes start_pool = [demo_conn start_bytes]" "p_context start_pool = Some ?pc"
    by (simp_all add: start_pool_def demo_env_def demo_pool_def)
  obtain st where "put_fields None start_fields start_params (new_stream ?c []) = Inr st"
    using demo_start_written(1) by (auto split: sum.splits)
  from appendsE [OF put_fields_appends at_end_writable [OF at_end_new_stream] this] obtain req c where
    wr: "writes (put_fields None start_fields start_params) (new_stream ?c []) req c"
      "compact c = compact (sclient (new_stream ?c []))" by blast
  have P: "reader {} (compact_footer ?c) c"
    using wr(2) by (auto simp: new_stream_def reader_def knows_def compact_footer_def split: option.splits)
  obtain body where body: "put_fields None ?fs [(''tx_id'', ?w)] (new_stream ?c []) = Inr body" "sbuf body = ct_bytes 4 42"
    using demo_start_written(2) by (auto split: sum.splits)
  have "list_all2 (\<lambda>x w. \<exists>u. dget (fst x) [(''tx_id'', ?w)] = Inr u \<and> wgood (snd x) u w) ?fs [?w]"
    using wgood.int [of TInt "VInt 42" 42] by (simp add: dget_def int_prim_def)
  from server_body [OF body(1) this, of 100] body(2)
  have "decodes (reader {} (compact_footer ?c)) (get_w 100 [] (WPrim TInt)) (conv_w [] (WPrim TInt)) (ct_bytes 4 42) ?w"
    by auto
  then have dec: "list_all2 (\<lambda>x bw. decodes (reader {} (compact_footer ?c)) (get_w 100 [] (snd x)) (conv_w [] (snd x))
      (fst bw) (snd bw)) ?fs [(ct_bytes 4 42, ?w)]" by simp
  have node: "0 < length (p_nodes start_pool)" "k_open (p_nodes start_pool ! 0)" by (simp_all add: f demo_conn_def)
  have stream: "byte_stream (so_recv demo_socket) id" using two_bytes_stream by (simp add: demo_socket_def)
  let ?bws = "[(ct_bytes 4 42, ?w)]"
  have sent: "so_sendall demo_socket data (k_sock (p_nodes start_pool ! 0)) = (Inr (), start_bytes)" for data
    by (simp add: demo_socket_def f demo_conn_def)
  have answer: "id start_bytes = server_response ?pc (0 + 1) None None (concat (map fst ?bws))"
    by (simp add: start_bytes_def)
  have small: "length (server_response ?pc (0 + 1) None None (concat (map fst ?bws))) < 2 ^ 31"
    by (simp add: server_response_def response_head_def)
  have h: "head_ok 0 None None" by (simp add: head_ok_def in_range_def)
  have names: "start_params \<noteq> []" "(0::int) \<le> 0" "(0::int) < MAX_LONG" "list_all (\<lambda>x. plain (snd x)) ?fs"
    "distinct (map fst ?fs)" "set (map fst ?fs) \<inter> set reserved = {}"
    by (simp_all add: start_params_def MAX_LONG_def plain_def reserved_def)
  from pool_query_answers [where p = start_pool and following = start_fields and params = start_params and fs = ?fs
      and bws = ?bws and op = OP_TX_START and post = no_post_process, OF stream node f(6), unfolded f,
      OF wr(1) names(1-3) sent [unfolded f] answer small h dec names(4-6) P]
  obtain env' p' where q: "query_perform (node_net demo_socket 0) OP_TX_START start_fields start_params (Response ?fs)
      no_post_process (with_net ?pc (Some start_pool) ?env) =
      (Inr (success_result 1 (WD [(''tx_id'', ?w)])), env')" "e_net env' = Some p'"
    by (auto simp: fields_result_def no_post_process_def)
  then show ?thesis
    by (simp add: tx_start_def tx_start_query_def start_fields_def start_params_def run_bind_def tx_start_post_process_def success_result_def
        wfield_def dget_def as_val_def)
qed

lemma demo_transaction:
  "\<exists>tx p'. client_tx_start demo_socket (VInt 1) (VInt 1) (VInt 0) VNone (demo_pool [demo_conn start_bytes]) =
     Some (Inr tx, p') \<and> t_id tx = 42 \<and> e_tx (p_env p') = Some 42"
proof -
  let ?pc = "new_protocol_context (1, 7, 1) None"
  let ?r = "(success_result 1 (WD [(''tx_id'', WV (VInt 42))]))\<lparr>r_value := WV (VInt 42)\<rparr>"
  from demo_tx_start obtain env' p' where q: "tx_start (node_net demo_socket 0) (VInt 1) (VInt 1) (VInt 0) VNone
      (with_net ?pc (Some start_pool) (p_env start_pool)) = (Inr ?r, env')" "e_net env' = Some p'" "e_tx env' = Some 42"
    by blast
  have "pool_query demo_socket 0 (\<lambda>net. tx_start net (VInt 1) (VInt 1) (VInt 0) VNone) start_pool =
      Some (Inr ?r, p'\<lparr>p_env := without_net env'\<rparr>)"
    using q(1,2) by (simp add: pool_query_def start_pool_def demo_pool_def)
  then have "start_tx demo_socket (VInt 1) (VInt 1) (VInt 0) VNone (demo_pool [demo_conn start_bytes]) =
      Some (Inr ?r, p'\<lparr>p_env := without_net env', p_tx_node := 0\<rparr>)"
    by (simp add: start_tx_def pbind_def demo_one_node start_pool_def success_result_def)
  then show ?thesis
    using q(3)
    by (simp add: client_tx_start_def pbind_def preturn_def status_to_exception_def validate_int_enum_param_def
        validate_timeout_def validate_label_def transaction_concurrency_def transaction_isolation_def
        success_result_def without_net_def with_net_def py_eq_def int_eq_def)
qed

text \<open>
  C6. In every run of starting, committing, rolling back and closing transactions, mixed with cache
  operations, whatever the sockets and the server do: the client's current transaction is the last
  one started and still open; a transaction that was ended does nothing when it is ended again;
  ending the current one leaves the client without a transaction, also when the query fails, and
  ending another one raises \<open>CacheError\<close> and sends nothing.
\<close>

theorem transaction_lifecycle:
  assumes "tx_reachable so txs p"
  shows "(case e_tx (p_env p) of
        None \<Rightarrow> True
      | Some tx_id \<Rightarrow> txs \<noteq> [] \<and> \<not> t_closed (last txs) \<and> t_id (last txs) = tx_id) \<and>
    (\<forall>tx \<in> set txs. \<forall>committed r tx' p'. tx_finish so committed tx p = Some (r, tx', p') \<longrightarrow>
       t_closed tx' \<and>
       (if t_closed tx then r = Inr (WV VNone) \<and> tx' = tx \<and> p' = p
        else if e_tx (p_env p) = Some (t_id tx) then e_tx (p_env p') = None
        else r = Inl CacheError \<and> p' = p))"
  using tx_reachable_open [OF assms] tx_finish_effect [OF _ tx_reachable_open [OF assms]]
  by (fastforce simp: current_open_def split: option.splits)

theorem transaction_lifecycle_witness:
  "\<exists>txs p. tx_reachable demo_socket txs p \<and> e_tx (p_env p) = Some 42 \<and> \<not> t_closed (last txs) \<and> t_id (last txs) = 42"
proof -
  from demo_transaction obtain tx p' where
    tx: "client_tx_start demo_socket (VInt 1) (VInt 1) (VInt 0) VNone (demo_pool [demo_conn start_bytes]) = Some (Inr tx, p')"
      "e_tx (p_env p') = Some 42" by blast
  have "tx_reachable demo_socket [] (demo_pool [demo_conn start_bytes])"
    by (rule tx_none) (simp add: demo_pool_def demo_env_def)
  from tx_started [OF this tx(1)] have r: "tx_reachable demo_socket ([] @ [tx]) p'" .
  from transaction_lifecycle [OF r] tx(2)
  have "\<not> t_closed (last ([] @ [tx]))" "t_id (last ([] @ [tx])) = 42" by simp_all
  with r tx(2) show ?thesis by blast
qed

end
