(* ===== verification/BinaryTypes.thy ===== *)
theory BinaryTypes
  imports Caches "HOL-Library.AList"
begin

section \<open>Binary types and objects of the client\<close>

text \<open>
  The description of a binary type that \<open>Client.get_binary_type\<close> makes of the server's answer and
  the attributes of an object of a generated class (\<open>binary.py\<close>). A description
  written by \<open>put_binary_type\<close> is read back as the schema it was made of.
\<close>

subsection \<open>Descriptions of binary types\<close>

definition convert_type :: "int \<Rightarrow> dtype" where
  "convert_type tc_type =
     (case int_to_bytes 1 False tc_type of
        Inl e \<Rightarrow> BinaryObject
      | Inr b \<Rightarrow> (case tc_map b of Inl e \<Rightarrow> BinaryObject | Inr d \<Rightarrow> d))"

text \<open>\<open>next\<close> over the fields with the identifier; there is none if the generator is exhausted.\<close>

fun field_with_id :: "pyval \<Rightarrow> wval list \<Rightarrow> wval res" where
  "field_with_id field_id [] = Inl StopIteration"
| "field_with_id field_id (x # xs) =
     rbind (wfield_val ''field_id'' x) (\<lambda>i. if py_eq i field_id then Inr x else field_with_id field_id xs)"

definition convert_field :: "wval list \<Rightarrow> pyval \<Rightarrow> (pyval \<times> dtype) res" where
  "convert_field binary_fields field_id =
     rbind (field_with_id field_id binary_fields) (\<lambda>x.
     rbind (wfield_val ''field_name'' x) (\<lambda>name.
     rbind (wfield_val ''type_id'' x) (\<lambda>t.
       case t of VInt tc \<Rightarrow> Inr (name, convert_type tc) | _ \<Rightarrow> Inl AttributeError)))"

definition convert_schema :: "pyval list \<Rightarrow> wval list \<Rightarrow> (pyval \<times> dtype) list res" where
  "convert_schema field_ids binary_fields =
     rbind (rmap (convert_field binary_fields) field_ids) (\<lambda>kvs.
       Inr (fold (\<lambda>(name, d). key_put name d) kvs []))"

definition schema_dict :: "(pyval \<times> dtype) list \<Rightarrow> pyval" where
  "schema_dict kvs = VDict True (map (\<lambda>(name, d). (name, VType d)) kvs)"

text \<open>\<open>dict.pop\<close> of the two fields, in this order, and the new field \<open>schemas\<close>.\<close>

definition process_get_binary_type_result :: "api_result \<Rightarrow> api_result res" where
  "process_get_binary_type_result result =
     (if r_status result \<noteq> 0 then Inr result
      else
        rbind (wfield_val ''type_exists'' (r_value result)) (\<lambda>exists.
          if \<not> truthy exists then Inr result
          else
            rbind (wfield_seq ''binary_fields'' (r_value result)) (\<lambda>binary_fields.
            rbind (wfield_val ''schema'' (r_value result)) (\<lambda>old.
            rbind (py_items old) (\<lambda>schemas.
            rbind (rmap (\<lambda>(s_id, field_ids). rbind (py_seq field_ids) (\<lambda>ids. convert_schema ids binary_fields)) schemas)
              (\<lambda>converted.
                case r_value result of
                  WD d \<Rightarrow> Inr (result\<lparr>r_value := WD (filter (\<lambda>x. fst x \<notin> {''binary_fields'', ''schema''}) d @
                    [(''schemas'', WL (map (\<lambda>s. WV (schema_dict s)) converted))])\<rparr>)
                | _ \<Rightarrow> Inl TypeError))))))"

definition client_get_binary_type :: "'s socket_ops \<Rightarrow> ident \<Rightarrow> ('s, wval) prog" where
  "client_get_binary_type so binary_type =
     status_to_exception BinaryTypeError
       (pbind (pbind (random_node so) (\<lambda>i. pool_query so i (\<lambda>net. get_binary_type (query_perform net) (Some binary_type))))
         (\<lambda>result. preturn (process_get_binary_type_result result)))"

subsection \<open>Attributes of objects\<close>

text \<open>
  \<open>__setattr__\<close> forgets the cached bytes and hash code if a field of the schema is set, not if
  \<open>version\<close> is.
\<close>

definition set_field :: "pystr \<Rightarrow> pyval \<Rightarrow> pyval \<Rightarrow> pyval res" where
  "set_field attr_name attr_value ob =
     (case ob of
        VObject c version attrs buf \<Rightarrow>
          Inr (VObject c version (AList.update attr_name attr_value attrs)
            (if attr_name \<in> fst ` set (cls_schema c) then None else buf))
      | _ \<Rightarrow> Inl AttributeError)"

definition set_obj_version :: "int \<Rightarrow> pyval \<Rightarrow> pyval res" where
  "set_obj_version version ob =
     (case ob of VObject c v attrs buf \<Rightarrow> Inr (VObject c version attrs buf) | _ \<Rightarrow> Inl AttributeError)"

subsection \<open>Reading back a description\<close>

text \<open>The answer of a server that knows a type by the parameters \<open>put_binary_type\<close> sent.\<close>

definition class_fields :: "(pystr \<times> dtype) list \<Rightarrow> (pystr \<times> pyval) list" where
  "class_fields schema = map (\<lambda>(name, d). (name, VType d)) schema"

definition stored_type :: "(string \<times> wval) list \<Rightarrow> (pystr \<times> dtype) list \<Rightarrow> wval" where
  "stored_type params schema =
     WD ([(''type_exists'', WV (VBool True))] @ filter (\<lambda>x. fst x \<noteq> ''schema'') params @
       [(''schema'', WV (VDict False [(VInt (schema_id_fallback (SchemaDict (map fst schema))),
           VList (map (\<lambda>x. VInt (name_id (fst x))) schema))]))])"

lemma convert_type_code:
  assumes "type_code d = Some c" and "d \<noteq> StandardArrayObject BinaryEnumObject"
  shows "convert_type (uint c) = d"
proof -
  have "in_range 1 False (uint c)" using uint_lt2p [of c] by (simp add: in_range_def)
  moreover have "ct_bytes 1 (uint c) = [c]"
    using uint_lt2p [of c] by (simp add: ct_bytes_def nat_mod_distrib)
  ultimately show ?thesis using tc_map_type_code [OF assms] by (simp add: convert_type_def int_to_bytes_def)
qed

lemma py_eq_ints [simp]: "py_eq (VInt a) (VInt b) \<longleftrightarrow> a = b"
  by (auto simp: py_eq_def int_eq_def)

lemma py_eq_strs [simp]: "py_eq (VStr a) (VStr b) \<longleftrightarrow> a = b"
  by (simp add: py_eq_def)

lemma key_put_new: "k \<notin> fst ` set d \<Longrightarrow> (\<forall>x \<in> set d. \<not> py_eq k (fst x)) \<Longrightarrow> key_put k v d = d @ [(k, v)]"
  by (induction d) auto

lemma fold_key_put_distinct:
  "distinct (map fst kvs @ map fst acc) \<Longrightarrow>
   fold (\<lambda>(name, d). key_put name d) (map (\<lambda>(n, d). (VStr n, d)) kvs) (map (\<lambda>(n, d). (VStr n, d)) acc) =
     map (\<lambda>(n, d). (VStr n, d)) (acc @ kvs)"
proof (induction kvs arbitrary: acc)
  case (Cons x kvs)
  obtain n d where x: "x = (n, d)" by (cases x)
  have "n \<notin> fst ` set acc" using Cons.prems by (auto simp: x)
  then have "key_put (VStr n) d (map (\<lambda>(n, d). (VStr n, d)) acc) = map (\<lambda>(n, d). (VStr n, d)) (acc @ [(n, d)])"
    by (subst key_put_new) force+
  with Cons.IH [of "acc @ [(n, d)]"] Cons.prems show ?case by (simp add: x)
qed simp

text \<open>The entries of a class whose field classes all have a code of their own.\<close>

definition own_codes :: "(pystr \<times> dtype) list \<Rightarrow> bool" where
  "own_codes schema \<longleftrightarrow> (\<forall>x \<in> set schema. type_code (snd x) \<noteq> None \<and> snd x \<noteq> StandardArrayObject BinaryEnumObject)"

definition field_entry :: "pystr \<times> dtype \<Rightarrow> wval" where
  "field_entry x = WD [(''field_name'', WV (VStr (fst x))), (''type_id'', WV (VInt (uint (the (type_code (snd x)))))),
     (''field_id'', WV (VInt (name_id (fst x))))]"

lemma entries_of_class: "own_codes schema \<Longrightarrow> rmap binary_field_entry (class_fields schema) = Inr (map field_entry schema)"
  by (induction schema)
    (auto simp: own_codes_def class_fields_def binary_field_entry_def code_of_type_def field_entry_def)

lemma field_entry_fields [simp]:
  "wfield_val ''field_id'' (field_entry x) = Inr (VInt (name_id (fst x)))"
  "wfield_val ''field_name'' (field_entry x) = Inr (VStr (fst x))"
  "wfield_val ''type_id'' (field_entry x) = Inr (VInt (uint (the (type_code (snd x)))))"
  by (simp_all add: wfield_val_def wfield_def dget_def field_entry_def as_val_def)

lemma field_found:
  "x \<in> set schema \<Longrightarrow> distinct (map (\<lambda>x. name_id (fst x)) schema) \<Longrightarrow>
   field_with_id (VInt (name_id (fst x))) (map field_entry schema) = Inr (field_entry x)"
  by (induction schema) force+

lemma field_converted:
  assumes "x \<in> set schema" and "distinct (map (\<lambda>x. name_id (fst x)) schema)" and "own_codes schema"
  shows "convert_field (map field_entry schema) (VInt (name_id (fst x))) = Inr (VStr (fst x), snd x)"
proof -
  from assms(1,3) obtain c where "type_code (snd x) = Some c" "snd x \<noteq> StandardArrayObject BinaryEnumObject"
    by (auto simp: own_codes_def)
  with convert_type_code show ?thesis by (simp add: convert_field_def field_found [OF assms(1,2)])
qed

lemma schema_converted:
  assumes "distinct (map (\<lambda>x. name_id (fst x)) schema)" and "own_codes schema"
  shows "convert_schema (map (\<lambda>x. VInt (name_id (fst x))) schema) (map field_entry schema) =
    Inr (map (\<lambda>(n, d). (VStr n, d)) schema)"
proof -
  have "rmap (convert_field (map field_entry schema)) (map (\<lambda>x. VInt (name_id (fst x))) xs) =
      Inr (map (\<lambda>(n, d). (VStr n, d)) xs)" if "set xs \<subseteq> set schema" for xs
    using that by (induction xs) (auto simp: field_converted [OF _ assms])
  moreover have "distinct (map fst schema)"
    using assms(1) by (auto simp: distinct_map inj_on_def)
  ultimately show ?thesis using fold_key_put_distinct [of schema "[]"] by (simp add: convert_schema_def)
qed


definition demo_schema :: "(pystr \<times> dtype) list" where
  "demo_schema = [(map of_char ''id'', DataObject TInt), (map of_char ''name'', Standard String)]"

lemma demo_schema_ids: "distinct (map (\<lambda>x. name_id (fst x)) demo_schema) \<and> own_codes demo_schema"
  unfolding demo_schema_def own_codes_def by code_simp


text \<open>
  An object whose field was set is encoded anew, whatever was cached; an object whose version was set
  is still written with the cached bytes.
\<close>

lemma set_field_encodes:
  assumes "n \<in> fst ` set (cls_schema c)"
  shows "set_field n x (VObject c v attrs buf) = set_field n x (VObject c v attrs None)"
  using assms by (simp add: set_field_def)

lemma stale_version:
  "b \<noteq> [] \<Longrightarrow> set_obj_version w (VObject c v attrs (Some b)) = Inr ob \<Longrightarrow>
   from_py BinaryObject ob st = from_py BinaryObject (VObject c v attrs (Some b)) st"
  by (auto simp: set_obj_version_def from_py.simps object_from_python_def)

end
