(* ===== verification/Monitoring.thy ===== *)
theory Monitoring
  imports Connection
begin

section \<open>Event listeners\<close>

text \<open>
  \<open>monitoring.py\<close>: the events, their attributes, and how they are delivered to the listeners of an
  application. A listener is a pair of the class it derives from and a handler that changes the
  application's state and may raise; \<open>repr\<close> of an exception is an argument of the functions.
\<close>

subsection \<open>Events\<close>

datatype event_class =
    HandshakeStartEvent | HandshakeFailedEvent | AuthenticationFailedEvent | HandshakeSuccessEvent
  | ConnectionClosedEvent | ConnectionLostEvent
  | QueryStartEvent | QuerySuccessEvent | QueryFailEvent

record event =
  ev_class :: event_class
  ev_host :: pystr
  ev_port :: int
  ev_context :: "protocol_context option"
  ev_node_uuid :: pystr
  ev_query :: "(int \<times> int \<times> pystr) option"
  ev_duration :: int
  ev_error :: pystr

definition base_event :: "event_class \<Rightarrow> pystr \<Rightarrow> int \<Rightarrow> event" where
  "base_event c host port =
     \<lparr>ev_class = c, ev_host = host, ev_port = port, ev_context = None, ev_node_uuid = [],
      ev_query = None, ev_duration = 0, ev_error = []\<rparr>"

text \<open>\<open>str(uuid) if uuid else ''\<close> and \<open>repr(err) if err else ''\<close>.\<close>

definition or_empty :: "pystr option \<Rightarrow> pystr" where
  "or_empty s = (case s of None \<Rightarrow> [] | Some x \<Rightarrow> x)"

text \<open>The event gets a copy of the protocol context.\<close>

definition handshake_event :: "event_class \<Rightarrow> pystr \<Rightarrow> int \<Rightarrow> protocol_context option \<Rightarrow> event" where
  "handshake_event c host port ctx = (base_event c host port)\<lparr>ev_context := map_option copy_context ctx\<rparr>"

definition handshake_failed_event ::
  "event_class \<Rightarrow> pystr \<Rightarrow> int \<Rightarrow> protocol_context option \<Rightarrow> pystr option \<Rightarrow> event" where
  "handshake_failed_event c host port ctx err = (handshake_event c host port ctx)\<lparr>ev_error := or_empty err\<rparr>"

definition handshake_success_event ::
  "pystr \<Rightarrow> int \<Rightarrow> protocol_context option \<Rightarrow> pystr option \<Rightarrow> event" where
  "handshake_success_event host port ctx uuid =
     (handshake_event HandshakeSuccessEvent host port ctx)\<lparr>ev_node_uuid := or_empty uuid\<rparr>"

definition connection_closed_event :: "pystr \<Rightarrow> int \<Rightarrow> pystr option \<Rightarrow> event" where
  "connection_closed_event host port uuid =
     (base_event ConnectionClosedEvent host port)\<lparr>ev_node_uuid := or_empty uuid\<rparr>"

definition connection_lost_event :: "pystr \<Rightarrow> int \<Rightarrow> pystr option \<Rightarrow> pystr option \<Rightarrow> event" where
  "connection_lost_event host port uuid err =
     (base_event ConnectionLostEvent host port)\<lparr>ev_node_uuid := or_empty uuid, ev_error := or_empty err\<rparr>"

definition query_event_of ::
  "event_class \<Rightarrow> pystr \<Rightarrow> int \<Rightarrow> pystr option \<Rightarrow> int \<Rightarrow> int \<Rightarrow> pystr \<Rightarrow> event" where
  "query_event_of c host port uuid query_id op_code op_name =
     (base_event c host port)\<lparr>ev_node_uuid := or_empty uuid, ev_query := Some (query_id, op_code, op_name)\<rparr>"

subsection \<open>Listeners\<close>

datatype listener_base = ConnectionEventListener | QueryEventListener | BothListeners | OtherListener

text \<open>A handler returns the new state of the application, or \<open>None\<close> as its first part if it raised.\<close>

type_synonym 's handler = "event \<Rightarrow> 's \<Rightarrow> unit option \<times> 's"

record 's listeners =
  ls_connection :: "'s handler list"
  ls_query :: "'s handler list"

text \<open>A listener of both classes is a connection listener only.\<close>

fun add_listener :: "listener_base \<times> 's handler \<Rightarrow> 's listeners \<Rightarrow> 's listeners" where
  "add_listener (ConnectionEventListener, h) ls = ls\<lparr>ls_connection := ls_connection ls @ [h]\<rparr>"
| "add_listener (BothListeners, h) ls = ls\<lparr>ls_connection := ls_connection ls @ [h]\<rparr>"
| "add_listener (QueryEventListener, h) ls = ls\<lparr>ls_query := ls_query ls @ [h]\<rparr>"
| "add_listener (OtherListener, h) ls = ls"

definition event_listeners :: "(listener_base \<times> 's handler) list \<Rightarrow> 's listeners" where
  "event_listeners xs = fold add_listener xs \<lparr>ls_connection = [], ls_query = []\<rparr>"

definition enabled_connection_listener :: "'s listeners \<Rightarrow> bool" where
  "enabled_connection_listener ls \<longleftrightarrow> ls_connection ls \<noteq> []"

definition enabled_query_listener :: "'s listeners \<Rightarrow> bool" where
  "enabled_query_listener ls \<longleftrightarrow> ls_query ls \<noteq> []"

text \<open>An exception of a listener is silenced, and the listeners after it are not called.\<close>

fun deliver :: "'s handler list \<Rightarrow> event \<Rightarrow> 's \<Rightarrow> 's" where
  "deliver [] evt s = s"
| "deliver (h # hs) evt s =
     (case h evt s of (None, s') \<Rightarrow> s' | (Some u, s') \<Rightarrow> deliver hs evt s')"

definition publish_connection_event :: "'s listeners \<Rightarrow> event \<Rightarrow> 's \<Rightarrow> 's" where
  "publish_connection_event ls = deliver (ls_connection ls)"

definition publish_query_event :: "'s listeners \<Rightarrow> event \<Rightarrow> 's \<Rightarrow> 's" where
  "publish_query_event ls = deliver (ls_query ls)"

definition publish_handshake_start ::
  "'s listeners \<Rightarrow> pystr \<Rightarrow> int \<Rightarrow> protocol_context option \<Rightarrow> 's \<Rightarrow> 's" where
  "publish_handshake_start ls host port ctx =
     publish_connection_event ls (handshake_event HandshakeStartEvent host port ctx)"

definition publish_handshake_success ::
  "'s listeners \<Rightarrow> pystr \<Rightarrow> int \<Rightarrow> protocol_context option \<Rightarrow> pystr option \<Rightarrow> 's \<Rightarrow> 's" where
  "publish_handshake_success ls host port ctx uuid =
     publish_connection_event ls (handshake_success_event host port ctx uuid)"

definition publish_handshake_fail ::
  "'s listeners \<Rightarrow> pystr \<Rightarrow> int \<Rightarrow> protocol_context option \<Rightarrow> pystr option \<Rightarrow> 's \<Rightarrow> 's" where
  "publish_handshake_fail ls host port ctx err =
     publish_connection_event ls (handshake_failed_event HandshakeFailedEvent host port ctx err)"

definition publish_authentication_fail ::
  "'s listeners \<Rightarrow> pystr \<Rightarrow> int \<Rightarrow> protocol_context option \<Rightarrow> pystr option \<Rightarrow> 's \<Rightarrow> 's" where
  "publish_authentication_fail ls host port ctx err =
     publish_connection_event ls (handshake_failed_event AuthenticationFailedEvent host port ctx err)"

definition publish_connection_closed :: "'s listeners \<Rightarrow> pystr \<Rightarrow> int \<Rightarrow> pystr option \<Rightarrow> 's \<Rightarrow> 's" where
  "publish_connection_closed ls host port uuid = publish_connection_event ls (connection_closed_event host port uuid)"

definition publish_connection_lost ::
  "'s listeners \<Rightarrow> pystr \<Rightarrow> int \<Rightarrow> pystr option \<Rightarrow> pystr option \<Rightarrow> 's \<Rightarrow> 's" where
  "publish_connection_lost ls host port uuid err = publish_connection_event ls (connection_lost_event host port uuid err)"

definition publish_query_start ::
  "'s listeners \<Rightarrow> pystr \<Rightarrow> int \<Rightarrow> pystr option \<Rightarrow> int \<Rightarrow> int \<Rightarrow> pystr \<Rightarrow> 's \<Rightarrow> 's" where
  "publish_query_start ls host port uuid query_id op_code op_name =
     publish_query_event ls (query_event_of QueryStartEvent host port uuid query_id op_code op_name)"

definition publish_query_success ::
  "'s listeners \<Rightarrow> pystr \<Rightarrow> int \<Rightarrow> pystr option \<Rightarrow> int \<Rightarrow> int \<Rightarrow> pystr \<Rightarrow> int \<Rightarrow> 's \<Rightarrow> 's" where
  "publish_query_success ls host port uuid query_id op_code op_name duration =
     publish_query_event ls
       ((query_event_of QuerySuccessEvent host port uuid query_id op_code op_name)\<lparr>ev_duration := duration\<rparr>)"

definition publish_query_fail ::
  "'s listeners \<Rightarrow> pystr \<Rightarrow> int \<Rightarrow> pystr option \<Rightarrow> int \<Rightarrow> int \<Rightarrow> pystr \<Rightarrow> int \<Rightarrow> pystr option \<Rightarrow> 's \<Rightarrow> 's" where
  "publish_query_fail ls host port uuid query_id op_code op_name duration err =
     publish_query_event ls
       ((query_event_of QueryFailEvent host port uuid query_id op_code op_name)
         \<lparr>ev_duration := duration, ev_error := or_empty err\<rparr>)"

subsection \<open>Delivery\<close>

text \<open>The listeners of each kind, in the order they were given.\<close>

lemma event_listeners_eq:
  "ls_connection (event_listeners xs) = map snd (filter (\<lambda>x. fst x \<in> {ConnectionEventListener, BothListeners}) xs)"
  "ls_query (event_listeners xs) = map snd (filter (\<lambda>x. fst x = QueryEventListener) xs)"
proof -
  have "ls_connection (fold add_listener xs ls) =
      ls_connection ls @ map snd (filter (\<lambda>x. fst x \<in> {ConnectionEventListener, BothListeners}) xs) \<and>
    ls_query (fold add_listener xs ls) = ls_query ls @ map snd (filter (\<lambda>x. fst x = QueryEventListener) xs)" for ls
  proof (induction xs arbitrary: ls)
    case (Cons x xs)
    obtain b h where x: "x = (b, h)" by (cases x)
    from Cons show ?case by (cases b) (simp_all add: x)
  qed simp
  then show "ls_connection (event_listeners xs) =
      map snd (filter (\<lambda>x. fst x \<in> {ConnectionEventListener, BothListeners}) xs)"
    "ls_query (event_listeners xs) = map snd (filter (\<lambda>x. fst x = QueryEventListener) xs)"
    by (simp_all add: event_listeners_def)
qed

text \<open>Every listener up to the first that raises sees the event, in order; an event without a failure reaches all.\<close>

lemma deliver_append:
  "(\<And>h s. h \<in> set hs \<Longrightarrow> fst (h evt s) \<noteq> None) \<Longrightarrow>
   deliver (hs @ hs') evt s = deliver hs' evt (fold (\<lambda>h s. snd (h evt s)) hs s)"
proof (induction hs arbitrary: s)
  case (Cons h hs)
  have "fst (h evt s) \<noteq> None" using Cons.prems by simp
  then obtain u s' where h: "h evt s = (Some u, s')" by (cases "h evt s") auto
  have "deliver (hs @ hs') evt s' = deliver hs' evt (fold (\<lambda>h s. snd (h evt s)) hs s')"
    by (rule Cons.IH) (rule Cons.prems, simp)
  with h show ?case by simp
qed simp

lemma deliver_stops:
  assumes "\<And>h s. h \<in> set hs \<Longrightarrow> fst (h evt s) \<noteq> None" and "\<And>s. fst (bad evt s) = None"
  shows "deliver (hs @ bad # hs') evt s = snd (bad evt (fold (\<lambda>h s. snd (h evt s)) hs s))"
proof -
  have "deliver (bad # hs') evt t = snd (bad evt t)" for t
    using assms(2) [of t] by (cases "bad evt t") simp
  then show ?thesis using deliver_append [of hs evt "bad # hs'" s] assms(1) by simp
qed

end
