(* ===== verification/Tls.thy ===== *)
theory Tls
  imports Connection
begin

section \<open>Parameters of connections and TLS\<close>

text \<open>
  \<open>connection/ssl.py\<close> and the constructor of \<open>BaseConnection\<close>: which parameters a connection takes and
  how they configure TLS. The \<open>ssl\<close> module of the standard library is a parameter (\<open>ssl_ops\<close>): its
  operations on a context of type \<open>'c\<close>, which may raise, and its constants.
\<close>

subsection \<open>TLS\<close>

type_synonym ssl_params = "(string \<times> pyval) list"

record ('c, 's) ssl_ops =
  ssl_new_context :: "pyval \<Rightarrow> 'c res"
  ssl_set_verify_mode :: "pyval \<Rightarrow> 'c \<Rightarrow> 'c res"
  ssl_load_verify_locations :: "pyval \<Rightarrow> 'c \<Rightarrow> 'c res"
  ssl_load_cert_chain :: "pyval \<Rightarrow> pyval \<Rightarrow> pyval \<Rightarrow> 'c \<Rightarrow> 'c res"
  ssl_set_ciphers :: "pyval \<Rightarrow> 'c \<Rightarrow> 'c res"
  ssl_wrap_socket :: "'c \<Rightarrow> 's \<Rightarrow> 's res"
  ssl_default_version :: pyval
  ssl_default_ciphers :: pyval
  ssl_cert_none :: pyval

definition param :: "ssl_params \<Rightarrow> string \<Rightarrow> pyval \<Rightarrow> pyval" where
  "param ps name d = (case map_of ps name of None \<Rightarrow> d | Some v \<Rightarrow> v)"

definition ssl_expected_args :: "string list" where
  "ssl_expected_args =
     [''use_ssl'', ''ssl_version'', ''ssl_ciphers'', ''ssl_cert_reqs'', ''ssl_keyfile'',
      ''ssl_keyfile_password'', ''ssl_certfile'', ''ssl_ca_certfile'']"

fun check_ssl_params :: "ssl_params \<Rightarrow> unit res" where
  "check_ssl_params [] = Inr ()"
| "check_ssl_params ((name, v) # ps) =
     (if name \<notin> set ssl_expected_args then Inl ParameterError else check_ssl_params ps)"

definition create_ssl_context :: "('c, 's) ssl_ops \<Rightarrow> ssl_params \<Rightarrow> 'c option res" where
  "create_ssl_context ops ps =
     (if \<not> truthy (param ps ''use_ssl'' VNone) then Inr None
      else
        let keyfile = param ps ''ssl_keyfile'' VNone;
            certfile = param ps ''ssl_certfile'' VNone;
            password = param ps ''ssl_keyfile_password'' VNone;
            version = param ps ''ssl_version'' (ssl_default_version ops);
            ciphers = param ps ''ssl_ciphers'' (ssl_default_ciphers ops);
            cert_reqs = param ps ''ssl_cert_reqs'' (ssl_cert_none ops);
            ca_certs = param ps ''ssl_ca_certfile'' VNone
        in if truthy keyfile \<and> \<not> truthy certfile then Inl ValueError
           else
             rbind (ssl_new_context ops version) (\<lambda>c.
             rbind (ssl_set_verify_mode ops cert_reqs c) (\<lambda>c.
             rbind (if truthy ca_certs then ssl_load_verify_locations ops ca_certs c else Inr c) (\<lambda>c.
             rbind (if truthy certfile then ssl_load_cert_chain ops certfile keyfile password c else Inr c) (\<lambda>c.
             rbind (if truthy ciphers then ssl_set_ciphers ops ciphers c else Inr c) (\<lambda>c. Inr (Some c)))))))"

definition ssl_wrap :: "('c, 's) ssl_ops \<Rightarrow> 's \<Rightarrow> ssl_params \<Rightarrow> 's res" where
  "ssl_wrap ops s ps =
     (if \<not> truthy (param ps ''use_ssl'' VNone) then Inr s
      else rbind (create_ssl_context ops ps) (\<lambda>c.
        case c of None \<Rightarrow> Inl AttributeError | Some context \<Rightarrow> ssl_wrap_socket ops context s))"

subsection \<open>Construction of a connection\<close>

text \<open>\<open>handshake_timeout <= 0.0\<close>, which is false for a NaN.\<close>

fun not_positive :: "pyval \<Rightarrow> bool res" where
  "not_positive (VInt i) = Inr (i \<le> 0)"
| "not_positive (VBool b) = Inr (\<not> b)"
| "not_positive (VFloat w) =
     (let magnitude = unat w mod 2 ^ 63
      in Inr (magnitude \<le> 0x7FF0000000000000 \<and> (magnitude = 0 \<or> 2 ^ 63 \<le> unat w)))"
| "not_positive (VDecimal d) = Inr (fst (snd d) = 0 \<or> fst d)"
| "not_positive _ = Inl TypeError"

record address =
  ad_host :: pyval
  ad_port :: pyval
  ad_timeout :: pyval
  ad_ssl_params :: ssl_params

definition base_connection ::
  "pyval \<Rightarrow> pyval \<Rightarrow> pystr option \<Rightarrow> pystr option \<Rightarrow> pyval \<Rightarrow> ssl_params \<Rightarrow> pystr option \<Rightarrow> 's conn \<Rightarrow>
   (address \<times> 's conn) res"
where
  "base_connection host port username password handshake_timeout ps timezone k =
     rbind (not_positive handshake_timeout) (\<lambda>bad.
       if bad then Inl ParameterError
       else
         rbind (check_ssl_params ps) (\<lambda>u.
           Inr (\<lparr>ad_host = (if truthy host then host else VStr (map of_char ''localhost'')),
                  ad_port = (if truthy port then port else VInt 10800),
                  ad_timeout = handshake_timeout, ad_ssl_params = ps\<rparr>,
                k\<lparr>k_username := username, k_password := password, k_uuid := None,
                  k_timezone := timezone, k_failed := False, k_open := False\<rparr>)))"

subsection \<open>What the parameters do\<close>

lemma check_ssl_params_iff: "check_ssl_params ps = Inr () \<longleftrightarrow> fst ` set ps \<subseteq> set ssl_expected_args"
  by (induction ps rule: check_ssl_params.induct) auto

lemma check_ssl_params_error: "check_ssl_params ps = Inr () \<or> check_ssl_params ps = Inl ParameterError"
  by (induction ps rule: check_ssl_params.induct) auto

text \<open>
  TLS is used only on request, whatever the user name and the password; then the certificate of the
  server is verified only if \<open>ssl_cert_reqs\<close> says so, and a key without a certificate is refused before
  anything is read.
\<close>

lemma plain_without_request:
  "map_of ps ''use_ssl'' = None \<Longrightarrow> ssl_wrap ops s ps = Inr s \<and> create_ssl_context ops ps = Inr None"
  by (simp add: ssl_wrap_def create_ssl_context_def param_def)

lemma key_without_certificate:
  "truthy (param ps ''use_ssl'' VNone) \<Longrightarrow> truthy (param ps ''ssl_keyfile'' VNone) \<Longrightarrow>
   \<not> truthy (param ps ''ssl_certfile'' VNone) \<Longrightarrow> ssl_wrap ops s ps = Inl ValueError"
  by (simp add: ssl_wrap_def create_ssl_context_def Let_def)

lemma unverified_by_default:
  assumes "map_of ps ''ssl_cert_reqs'' = None" and "create_ssl_context ops ps = Inr (Some c)"
  shows "\<exists>c0 c1. ssl_new_context ops (param ps ''ssl_version'' (ssl_default_version ops)) = Inr c0 \<and>
    ssl_set_verify_mode ops (ssl_cert_none ops) c0 = Inr c1"
  using assms
  by (auto simp: create_ssl_context_def Let_def param_def [of ps "''ssl_cert_reqs''"] rbind_eq_Inr_iff split: if_splits)

end
