(* ===== verification/Coroutines.thy ===== *)
theory Coroutines
  imports Prelude
begin

section \<open>Coroutines\<close>

text \<open>
  What the asynchronous client uses of \<open>asyncio\<close>: \<open>async def\<close> functions as resumptions over the
  state \<open>'w\<close> that the tasks of one event loop share. A coroutine ends (\<open>Done\<close>), acts on the state
  without giving way to others (\<open>Act\<close>), or suspends until a condition holds (\<open>Await\<close>). Between two
  suspensions nobody else runs. Loops need not end, so coroutines are a codatatype.
\<close>

codatatype ('w, 'a) coro =
    Done "'a res"
  | Act "'w \<Rightarrow> ('w, 'a) coro \<times> 'w"
  | Await "'w \<Rightarrow> bool" "('w, 'a) coro"

subsection \<open>Sequences, handlers and loops\<close>

text \<open>\<open>followed_by m f\<close> goes on with the outcome of \<open>m\<close>, also if it is an exception (\<open>try\<close>).\<close>

primcorec followed_by :: "('w, 'a) coro \<Rightarrow> ('a res \<Rightarrow> ('w, 'b) coro) \<Rightarrow> ('w, 'b) coro" where
  "followed_by m f =
     (case m of
        Done r \<Rightarrow> f r
      | Act g \<Rightarrow> Act (\<lambda>w. map_prod (\<lambda>c. followed_by c f) id (g w))
      | Await P k \<Rightarrow> Await P (followed_by k f))"

definition cbind :: "('w, 'a) coro \<Rightarrow> ('a \<Rightarrow> ('w, 'b) coro) \<Rightarrow> ('w, 'b) coro" where
  "cbind m f = followed_by m (\<lambda>r. case r of Inl e \<Rightarrow> Done (Inl e) | Inr x \<Rightarrow> f x)"

definition act :: "('w \<Rightarrow> 'a res \<times> 'w) \<Rightarrow> ('w, 'a) coro" where
  "act f = Act (\<lambda>w. map_prod Done id (f w))"

definition await :: "('w \<Rightarrow> bool) \<Rightarrow> ('w, unit) coro" where
  "await P = Await P (Done (Inr ()))"

text \<open>Going on depending on the state.\<close>

definition inspect :: "('w \<Rightarrow> ('w, 'a) coro) \<Rightarrow> ('w, 'a) coro" where
  "inspect f = Act (\<lambda>w. (f w, w))"

text \<open>
  \<open>while True\<close>: the body returns a new state of the loop (\<open>continue\<close>) or leaves it with a value.
\<close>

primcorec loop :: "('x \<Rightarrow> ('w, 'x + 'a) coro) \<Rightarrow> ('w, 'x + 'a) coro \<Rightarrow> ('w, 'a) coro" where
  "loop body m =
     (case m of
        Done r \<Rightarrow>
          (case r of
             Inl e \<Rightarrow> Done (Inl e)
           | Inr v \<Rightarrow> (case v of Inl x \<Rightarrow> Act (\<lambda>w. (loop body (body x), w)) | Inr y \<Rightarrow> Done (Inr y)))
      | Act g \<Rightarrow> Act (\<lambda>w. map_prod (\<lambda>c. loop body c) id (g w))
      | Await P k \<Rightarrow> Await P (loop body k))"

definition repeat :: "('x \<Rightarrow> ('w, 'x + 'a) coro) \<Rightarrow> 'x \<Rightarrow> ('w, 'a) coro" where
  "repeat body x = loop body (body x)"

text \<open>\<open>async with\<close> a lock. An acquisition waits only if the lock is taken.\<close>

definition acquire :: "('w \<Rightarrow> bool) \<Rightarrow> (bool \<Rightarrow> 'w \<Rightarrow> 'w) \<Rightarrow> ('w, unit) coro" where
  "acquire get put =
     (let take = act (\<lambda>w. (Inr (), put True w))
      in inspect (\<lambda>w. if get w then Await (\<lambda>w. \<not> get w) take else take))"

definition with_lock ::
  "('w \<Rightarrow> bool) \<Rightarrow> (bool \<Rightarrow> 'w \<Rightarrow> 'w) \<Rightarrow> ('w, 'a) coro \<Rightarrow> ('w, 'a) coro"
where
  "with_lock get put body =
     cbind (acquire get put) (\<lambda>u. followed_by body (\<lambda>r. act (\<lambda>w. (r, put False w))))"

subsection \<open>Tasks\<close>

text \<open>A suspended task can go on when it has not begun or its condition holds.\<close>

definition ready :: "'w \<Rightarrow> ('w, 'a) coro \<Rightarrow> bool" where
  "ready w c = (case c of Done r \<Rightarrow> False | Act g \<Rightarrow> True | Await P k \<Rightarrow> P w)"

definition resumed :: "('w, 'a) coro \<Rightarrow> ('w, 'a) coro" where
  "resumed c = (case c of Await P k \<Rightarrow> k | _ \<Rightarrow> c)"

definition finished :: "('w, 'a) coro \<Rightarrow> bool" where
  "finished c = (case c of Done r \<Rightarrow> True | _ \<Rightarrow> False)"

definition outcome :: "('w, 'a) coro \<Rightarrow> 'a res" where
  "outcome c = (case c of Done r \<Rightarrow> r | _ \<Rightarrow> Inl RuntimeError)"

definition ready_tasks :: "'w \<Rightarrow> ('w, 'a) coro list \<Rightarrow> nat list" where
  "ready_tasks w cs = filter (\<lambda>i. ready w (cs ! i)) [0..<length cs]"

text \<open>
  \<open>asyncio.gather(\<dots>, return_exceptions=True)\<close>: the tasks run one at a time, each until it suspends
  or ends, in an order \<open>pick\<close> chooses among those that can go on; the outcomes are in the order of
  the arguments.
\<close>

datatype turn = Idle | Choose | Running nat

definition next_action :: "turn \<Rightarrow> ('w, 'a) coro list \<Rightarrow> (nat \<times> ('w \<Rightarrow> ('w, 'a) coro \<times> 'w)) option" where
  "next_action t cs =
     (case t of
        Running i \<Rightarrow> if i < length cs then (case cs ! i of Act g \<Rightarrow> Some (i, g) | _ \<Rightarrow> None) else None
      | _ \<Rightarrow> None)"

primcorec gathering ::
  "('w \<Rightarrow> nat list \<Rightarrow> nat \<times> 'w) \<Rightarrow> turn \<Rightarrow> ('w, 'a) coro list \<Rightarrow> ('w, 'a res list) coro"
where
  "gathering pick t cs =
     (case next_action t cs of
        Some ig \<Rightarrow> Act (\<lambda>w. map_prod (\<lambda>c. gathering pick t (cs[fst ig := c])) id (snd ig w))
      | None \<Rightarrow>
          if t = Choose
          then Act (\<lambda>w. map_prod (\<lambda>i. gathering pick (Running i) (cs[i := resumed (cs ! i)])) id
                 (pick w (ready_tasks w cs)))
          else if list_all finished cs then Done (Inr (map outcome cs))
          else Await (\<lambda>w. ready_tasks w cs \<noteq> []) (gathering pick Choose cs))"

definition gather ::
  "('w \<Rightarrow> nat list \<Rightarrow> nat \<times> 'w) \<Rightarrow> ('w, 'a) coro list \<Rightarrow> ('w, 'a res list) coro"
where
  "gather pick cs = gathering pick Idle cs"

subsection \<open>The scheduler\<close>

text \<open>
  The tasks of an event loop, of which at most one runs. The loop lets a task run that can go on
  (\<open>enter\<close> makes it the current one), or lets something happen (\<open>ev\<close>), or begins a task that was
  scheduled (\<open>spawn\<close>), but only when no task is running.
\<close>

type_synonym ('w, 'a) system = "'w \<times> ('w, 'a) coro list \<times> nat option"

inductive sys_step ::
  "('w \<Rightarrow> 'w \<Rightarrow> bool) \<Rightarrow> ('w \<Rightarrow> (('w, 'a) coro \<times> 'w) option) \<Rightarrow> (nat \<Rightarrow> 'w \<Rightarrow> 'w) \<Rightarrow>
   ('w, 'a) system \<Rightarrow> ('w, 'a) system \<Rightarrow> bool"
  for ev spawn enter
where
  resume: "i < length ts \<Longrightarrow> ready w (ts ! i) \<Longrightarrow>
    sys_step ev spawn enter (w, ts, None) (enter i w, ts[i := resumed (ts ! i)], Some i)"
| run: "i < length ts \<Longrightarrow> ts ! i = Act g \<Longrightarrow>
    sys_step ev spawn enter (w, ts, Some i) (snd (g w), ts[i := fst (g w)], Some i)"
| suspend: "i < length ts \<Longrightarrow> \<forall>g. ts ! i \<noteq> Act g \<Longrightarrow>
    sys_step ev spawn enter (w, ts, Some i) (w, ts, None)"
| event: "ev w w' \<Longrightarrow> sys_step ev spawn enter (w, ts, None) (w', ts, None)"
| launch: "spawn w = Some (c, w') \<Longrightarrow> sys_step ev spawn enter (w, ts, None) (w', ts @ [c], None)"

inductive sys_reach ::
  "('w \<Rightarrow> 'w \<Rightarrow> bool) \<Rightarrow> ('w \<Rightarrow> (('w, 'a) coro \<times> 'w) option) \<Rightarrow> (nat \<Rightarrow> 'w \<Rightarrow> 'w) \<Rightarrow>
   ('w, 'a) system \<Rightarrow> ('w, 'a) system \<Rightarrow> bool"
  for ev spawn enter s
where
  stay: "sys_reach ev spawn enter s s"
| move: "sys_reach ev spawn enter s s1 \<Longrightarrow> sys_step ev spawn enter s1 s2 \<Longrightarrow> sys_reach ev spawn enter s s2"

inductive_cases sys_stepE: "sys_step ev spawn enter (w, ts, r) s"

end
