(* ===== verification/AioLoop.thy ===== *)
theory AioLoop
  imports AioConnection Coroutines Transactions
begin

section \<open>The event loop of an asynchronous client\<close>

text \<open>
  The state the tasks of an asynchronous client share, and what the event loop does to it:
  \<open>BaseProtocol\<close> of \<open>connection/aio_connection.py\<close>. Every attempt to connect has a protocol object of
  its own, with a buffer, a handshake future and a transport; a connection has the requests that wait
  for their responses and a current transport, the one its last successful \<open>create_connection\<close>
  returned. The network decides when an attempt is accepted or refused, what it delivers and when it
  is lost, and the clock when a handshake times out.
\<close>

subsection \<open>State\<close>

record attempt =
  at_node :: nat
  at_opened :: "unit res option"
  at_buffer :: "byte list"
  at_handshake :: "(string \<times> wval) list res option"
  at_closing :: bool
  at_lost :: bool
  at_sent :: "byte list list"

record aio_sock =
  s_conn :: aio_conn
  s_current :: nat

text \<open>
  The client is the state of \<open>BaseClient\<close> with asynchronous connections. The current transaction is a
  context variable: every task has its own, with the node it was started on. A lock knows the task
  that holds it. \<open>w_background\<close> lists the connections whose reconnection was scheduled and not begun.
\<close>

record world =
  w_pool :: "aio_sock pool"
  w_attempts :: "attempt list"
  w_registry_mux :: "nat option"
  w_affinity_mux :: "nat option"
  w_background :: "nat list"
  w_contexts :: "nat \<Rightarrow> (int \<times> nat) option"
  w_task :: nat

type_synonym 'a task = "(world, 'a) coro"

subsection \<open>Connections and attempts\<close>

text \<open>\<open>k_failed\<close> and \<open>k_open\<close> of a connection are its properties \<open>failed\<close> and \<open>not closed\<close>.\<close>

definition aio_view :: "aio_sock conn \<Rightarrow> aio_conn" where
  "aio_view k = (s_conn (k_sock k))\<lparr>a_failed := k_failed k\<rparr>"

definition put_view :: "aio_conn \<Rightarrow> aio_sock conn \<Rightarrow> aio_sock conn" where
  "put_view c k =
     k\<lparr>k_sock := (k_sock k)\<lparr>s_conn := c\<rparr>, k_failed := a_failed c, k_open := a_transport c \<and> \<not> a_closed c\<rparr>"

definition nodes :: "world \<Rightarrow> aio_sock conn list" where
  "nodes w = p_nodes (w_pool w)"

definition node_alive :: "nat \<Rightarrow> world \<Rightarrow> bool" where
  "node_alive i w \<longleftrightarrow> i < length (nodes w) \<and> alive (nodes w ! i)"

text \<open>A step of connection \<open>i\<close>; one that the client has closed and dropped raises.\<close>

definition on_conn :: "nat \<Rightarrow> (aio_sock conn \<Rightarrow> 'a res \<times> aio_sock conn) \<Rightarrow> world \<Rightarrow> 'a res \<times> world" where
  "on_conn i f w =
     (if i < length (nodes w)
      then (case f (lend (w_pool w) (nodes w ! i)) of
              (r, k) \<Rightarrow> (r, w\<lparr>w_pool := share k ((w_pool w)\<lparr>p_nodes := (nodes w)[i := k]\<rparr>)\<rparr>))
      else (Inl SocketError, w))"

definition the_attempt :: "nat \<Rightarrow> world \<Rightarrow> attempt" where
  "the_attempt j w = w_attempts w ! j"

definition set_attempt :: "nat \<Rightarrow> attempt \<Rightarrow> world \<Rightarrow> world" where
  "set_attempt j a w = w\<lparr>w_attempts := (w_attempts w)[j := a]\<rparr>"

subsection \<open>Callbacks of the protocol\<close>

text \<open>\<open>connection_made\<close>: the handshake request, or the error of making it.\<close>

definition handshake_request :: "aio_sock conn \<Rightarrow> byte list res \<times> aio_sock conn" where
  "handshake_request k =
     (case k_context k of
        None \<Rightarrow> (Inl AttributeError, k)
      | Some pc \<Rightarrow>
          (case handshake_from_python pc (k_username k) (k_password k) (k_timezone k) (new_stream (k_client k) []) of
             Inl e \<Rightarrow> (Inl e, k)
           | Inr st \<Rightarrow> (Inr (sbuf st), k\<lparr>k_client := sclient st\<rparr>)))"

definition connection_made :: "nat \<Rightarrow> world \<Rightarrow> world" where
  "connection_made j w =
     (let a = (the_attempt j w)\<lparr>at_opened := Some (Inr ())\<rparr>
      in case on_conn (at_node a) handshake_request w of
           (Inl e, w') \<Rightarrow> set_attempt j (a\<lparr>at_handshake := Some (Inl e)\<rparr>) w'
         | (Inr bs, w') \<Rightarrow> set_attempt j (a\<lparr>at_sent := at_sent a @ [bs]\<rparr>) w')"

text \<open>
  \<open>connection_lost\<close>: a handshake that waits fails, every waiting request of the connection fails,
  and if the handshake was over a reconnection is scheduled, unless the connection was closed.
\<close>

definition lose :: "nat \<Rightarrow> bool \<Rightarrow> aio_sock conn \<Rightarrow> bool res \<times> aio_sock conn" where
  "lose j shaken k =
     (case process_connection_lost shaken (aio_view k) of
        (c, again) \<Rightarrow>
          let k1 = put_view (c\<lparr>a_transport := a_transport c \<and> s_current (k_sock k) \<noteq> j\<rparr>) k
          in (Inr again, if again then on_connection_lost False k1 else k1))"

definition connection_lost :: "nat \<Rightarrow> py_error \<Rightarrow> world \<Rightarrow> world" where
  "connection_lost j e w =
     (let a = the_attempt j w;
          a1 = a\<lparr>at_lost := True, at_handshake := (case at_handshake a of None \<Rightarrow> Some (Inl e) | h \<Rightarrow> h)\<rparr>
      in case on_conn (at_node a) (lose j (at_handshake a \<noteq> None)) w of
           (r, w') \<Rightarrow>
             set_attempt j a1 (if r = Inr True then w'\<lparr>w_background := w_background w' @ [at_node a]\<rparr> else w'))"

text \<open>
  \<open>data_received\<close>: the packets the buffer holds complete the handshake and then the requests. An
  exception when the handshake is parsed makes the event loop drop the transport.
\<close>

definition parse_handshake :: "byte list \<Rightarrow> aio_sock conn \<Rightarrow> (string \<times> wval) list res \<times> aio_sock conn" where
  "parse_handshake packet k =
     (case k_context k of
        None \<Rightarrow> (Inl AttributeError, k)
      | Some pc \<Rightarrow>
          (case handshake_parse (k_depth k) pc (new_stream (k_client k) packet) of
             Inl e \<Rightarrow> (Inl e, k)
           | Inr (response, st) \<Rightarrow> (Inr response, k\<lparr>k_client := sclient st\<rparr>)))"

definition protocol_view :: "attempt \<Rightarrow> aio_sock conn \<Rightarrow> aio_conn" where
  "protocol_view a k =
     (aio_view k)\<lparr>a_buffer := at_buffer a, a_handshake := (case at_handshake a of None \<Rightarrow> None | Some h \<Rightarrow> Some [])\<rparr>"

definition receive_data :: "nat \<Rightarrow> byte list \<Rightarrow> world \<Rightarrow> world option" where
  "receive_data j data w =
     (let a = the_attempt j w; i = at_node a
      in if length (nodes w) \<le> i then Some w
         else
           (case data_received data (protocol_view a (nodes w ! i)) of
              None \<Rightarrow> None
            | Some c \<Rightarrow>
                let a1 = a\<lparr>at_buffer := a_buffer c\<rparr>;
                    finish = (\<lambda>h w1. set_attempt j (a1\<lparr>at_handshake := h\<rparr>)
                      (snd (on_conn i (\<lambda>k. (Inr (), put_view c k)) w1)))
                in (case (at_handshake a, a_handshake c) of
                      (None, Some packet) \<Rightarrow>
                        (case on_conn i (parse_handshake packet) w of
                           (Inl e, w1) \<Rightarrow> Some (connection_lost j e (set_attempt j (a\<lparr>at_buffer := at_buffer a @ data\<rparr>) w1))
                         | (Inr response, w1) \<Rightarrow> Some (finish (Some (Inr response)) w1))
                    | (h, _) \<Rightarrow> Some (finish h w))))"

subsection \<open>Events\<close>

datatype net_event = Opened nat | Refused nat | TimedOut nat | Data nat "byte list" | Lost nat

definition opened :: "attempt \<Rightarrow> bool" where
  "opened a \<longleftrightarrow> at_opened a = Some (Inr ()) \<and> \<not> at_lost a"

text \<open>An event that cannot happen, or that is processed for ever, has no successor.\<close>

definition happen :: "net_event \<Rightarrow> world \<Rightarrow> world option" where
  "happen ev w =
     (case ev of
        Opened j \<Rightarrow>
          if j < length (w_attempts w) \<and> at_opened (the_attempt j w) = None then Some (connection_made j w) else None
      | Refused j \<Rightarrow>
          if j < length (w_attempts w) \<and> at_opened (the_attempt j w) = None
          then Some (set_attempt j ((the_attempt j w)\<lparr>at_opened := Some (Inl SocketError)\<rparr>) w) else None
      | TimedOut j \<Rightarrow>
          if j < length (w_attempts w) \<and> at_opened (the_attempt j w) = Some (Inr ()) \<and> at_handshake (the_attempt j w) = None
          then Some (set_attempt j ((the_attempt j w)\<lparr>at_handshake := Some (Inl SocketError)\<rparr>) w) else None
      | Data j bs \<Rightarrow>
          if j < length (w_attempts w) \<and> opened (the_attempt j w) \<and> \<not> at_closing (the_attempt j w)
          then receive_data j bs w else None
      | Lost j \<Rightarrow>
          if j < length (w_attempts w) \<and> opened (the_attempt j w) then Some (connection_lost j SocketError w) else None)"

end
