(* ===== verification/AioRequests.thy ===== *)
theory AioRequests
  imports AioLoop
begin

section \<open>Coroutines of asynchronous connections and queries\<close>

text \<open>
  The coroutines of \<open>AioConnection\<close> (\<open>connection/aio_connection.py\<close>) and \<open>Query.perform_async\<close>
  (\<open>queries/query.py\<close>). Encoding a request and decoding a response are single steps: what they await
  in the code only concerns the registry of classes, which the model holds as data.
\<close>

subsection \<open>Connecting\<close>

definition new_attempt :: "nat \<Rightarrow> attempt" where
  "new_attempt i =
     \<lparr>at_node = i, at_opened = None, at_buffer = [], at_handshake = None, at_closing = False, at_lost = False, at_sent = []\<rparr>"

text \<open>\<open>create_connection\<close>, up to the point where it waits for the network.\<close>

definition start_attempt :: "nat \<Rightarrow> world \<Rightarrow> nat res \<times> world" where
  "start_attempt i w =
     (case on_conn i (\<lambda>k. (Inr (), put_view ((aio_view k)\<lparr>a_closed := False\<rparr>) k)) w of
        (Inl e, w') \<Rightarrow> (Inl e, w')
      | (Inr u, w') \<Rightarrow> (Inr (length (w_attempts w')), w'\<lparr>w_attempts := w_attempts w' @ [new_attempt i]\<rparr>))"

definition adopt_transport :: "nat \<Rightarrow> nat \<Rightarrow> world \<Rightarrow> unit res \<times> world" where
  "adopt_transport i j w =
     (case at_opened (the_attempt j w) of
        Some (Inl e) \<Rightarrow> (Inl e, w)
      | _ \<Rightarrow> on_conn i (\<lambda>k. (Inr (), put_view ((aio_view k)\<lparr>a_transport := \<not> at_lost (the_attempt j w)\<rparr>)
               (k\<lparr>k_sock := (k_sock k)\<lparr>s_current := j\<rparr>\<rparr>))) w)"

definition handshake_result :: "nat \<Rightarrow> world \<Rightarrow> (string \<times> wval) list res \<times> world" where
  "handshake_result j w = (case at_handshake (the_attempt j w) of None \<Rightarrow> Inl RuntimeError | Some r \<Rightarrow> r, w)"

text \<open>The time limit of \<open>wait_for\<close> may end the wait for the closed transport at any time.\<close>

definition begin_close :: "nat \<Rightarrow> world \<Rightarrow> bool res \<times> world" where
  "begin_close i w =
     (case on_conn i (\<lambda>k. if a_transport (aio_view k)
             then (Inr (Some (s_current (k_sock k))), put_view (aio_close_transport (aio_view k)) k)
             else (Inr None, k)) w of
        (Inr (Some j), w') \<Rightarrow> (Inr True, set_attempt j ((the_attempt j w')\<lparr>at_closing := True\<rparr>) w')
      | (r, w') \<Rightarrow> (Inr False, w'))"

definition aio_close_transport_task :: "nat \<Rightarrow> unit task" where
  "aio_close_transport_task i =
     cbind (act (begin_close i)) (\<lambda>closing.
       if closing
       then cbind (await (\<lambda>w. True)) (\<lambda>u. act (on_conn i (\<lambda>k. (Inr (), on_connection_lost True k))))
       else Done (Inr ()))"

definition aio_close_task :: "nat \<Rightarrow> unit task" where
  "aio_close_task i =
     cbind (act (on_conn i (\<lambda>k. (Inr (), put_view ((aio_view k)\<lparr>a_closed := True\<rparr>) k))))
       (\<lambda>u. aio_close_transport_task i)"

definition raise_handshake_error :: "(string \<times> wval) list \<Rightarrow> aio_sock conn \<Rightarrow> 'a res \<times> aio_sock conn" where
  "raise_handshake_error response k =
     (if handshake_error response \<noteq> AuthenticationError \<and> k_context k = None then (Inl AttributeError, k)
      else (Inl (handshake_error response), k))"

definition aio_connect_version_task :: "nat \<Rightarrow> (string \<times> wval) list task" where
  "aio_connect_version_task i =
     cbind (act (start_attempt i)) (\<lambda>j.
     cbind (await (\<lambda>w. at_opened (the_attempt j w) \<noteq> None)) (\<lambda>u.
     cbind (act (adopt_transport i j)) (\<lambda>u.
     cbind (await (\<lambda>w. at_handshake (the_attempt j w) \<noteq> None)) (\<lambda>u.
     cbind (act (handshake_result j)) (\<lambda>response.
       if map_of response ''op_code'' = Some (WV (VInt 0))
       then cbind (aio_close_task i) (\<lambda>u. act (on_conn i (raise_handshake_error response)))
       else Done (Inr response))))))"

definition handshake_done :: "(string \<times> wval) list \<Rightarrow> aio_sock conn \<Rightarrow> unit res \<times> aio_sock conn" where
  "handshake_done response k =
     (if k_context k = None then (Inl AttributeError, k) else (Inr (), on_handshake_success response k))"

definition begin_connect :: "aio_sock conn \<Rightarrow> bool res \<times> aio_sock conn" where
  "begin_connect k =
     (if k_context k = None
      then (Inr True, k\<lparr>k_context := Some (new_protocol_context (max_version PROTOCOLS) (Some all_supported))\<rparr>)
      else (Inr False, k))"

definition handshake_failed :: "bool \<Rightarrow> py_error \<Rightarrow> aio_sock conn \<Rightarrow> 'a res \<times> aio_sock conn" where
  "handshake_failed detecting e k =
     (case e of
        HandshakeError v \<Rightarrow> (Inl e, on_handshake_fail e k)
      | AuthenticationError \<Rightarrow> (Inl e, on_handshake_fail e k)
      | _ \<Rightarrow> (Inl e, if detecting then (on_handshake_fail e k)\<lparr>k_context := None\<rparr> else on_handshake_fail e k))"

definition choose_version :: "int \<times> int \<times> int \<Rightarrow> aio_sock conn \<Rightarrow> (unit + unit) res \<times> aio_sock conn" where
  "choose_version v k =
     (case k_context k of
        None \<Rightarrow> (Inl AttributeError, k)
      | Some pc \<Rightarrow> (Inr (Inl ()), k\<lparr>k_context := Some (set_version v pc)\<rparr>))"

definition aio_connect_loop_task :: "nat \<Rightarrow> bool \<Rightarrow> unit task" where
  "aio_connect_loop_task i detecting =
     repeat (\<lambda>u.
       followed_by
         (cbind (act (on_conn i (\<lambda>k. (Inr (), on_handshake_start k)))) (\<lambda>u.
          cbind (aio_connect_version_task i) (\<lambda>response. act (on_conn i (handshake_done response)))))
         (\<lambda>r. case r of
            Inr u \<Rightarrow> Done (Inr (Inr ()))
          | Inl e \<Rightarrow>
              (case e of
                 HandshakeError v \<Rightarrow>
                   if v \<in> set PROTOCOLS then act (on_conn i (choose_version v))
                   else act (on_conn i (handshake_failed detecting e))
               | _ \<Rightarrow> act (on_conn i (handshake_failed detecting e))))) ()"

definition aio_connect_core_task :: "nat \<Rightarrow> unit task" where
  "aio_connect_core_task i = cbind (act (on_conn i begin_connect)) (aio_connect_loop_task i)"

definition aio_connect_task :: "nat \<Rightarrow> unit task" where
  "aio_connect_task i = inspect (\<lambda>w. if node_alive i w then Done (Inr ()) else aio_connect_core_task i)"

definition silence :: "unit task \<Rightarrow> unit task" where
  "silence c = followed_by c (\<lambda>r. case r of Inl e \<Rightarrow> Done (if connection_error e then Inr () else r) | Inr u \<Rightarrow> Done r)"

definition aio_reconnect_task :: "nat \<Rightarrow> unit task" where
  "aio_reconnect_task i =
     inspect (\<lambda>w. if node_alive i w then Done (Inr ())
       else cbind (aio_close_transport_task i) (\<lambda>u. silence (aio_connect_core_task i)))"

subsection \<open>Requests\<close>

definition send_request :: "nat \<Rightarrow> int \<Rightarrow> byte list \<Rightarrow> world \<Rightarrow> unit res \<times> world" where
  "send_request i query_id data w =
     (case on_conn i (\<lambda>k. case aio_request query_id (aio_view k) of
              Inl e \<Rightarrow> (Inl e, k)
            | Inr c \<Rightarrow> (Inr (s_current (k_sock k)), put_view c k)) w of
        (Inl e, w') \<Rightarrow> (Inl e, w')
      | (Inr j, w') \<Rightarrow> (Inr (), set_attempt j ((the_attempt j w')\<lparr>at_sent := at_sent (the_attempt j w') @ [data]\<rparr>) w'))"

text \<open>The future of a request: resolved when it no longer waits, with its packet or an error.\<close>

definition resolved :: "nat \<Rightarrow> int \<Rightarrow> world \<Rightarrow> bool" where
  "resolved i query_id w \<longleftrightarrow> length (nodes w) \<le> i \<or> query_id \<notin> set (a_pending (aio_view (nodes w ! i)))"

definition answer :: "nat \<Rightarrow> int \<Rightarrow> world \<Rightarrow> byte list res \<times> world" where
  "answer i query_id w =
     (if length (nodes w) \<le> i then (Inl SocketError, w)
      else (case map_of (rev (a_done (aio_view (nodes w ! i)))) query_id of
              None \<Rightarrow> Inl SocketError
            | Some data \<Rightarrow> Inr data, w))"

definition aio_request_task :: "nat \<Rightarrow> int \<Rightarrow> byte list \<Rightarrow> byte list task" where
  "aio_request_task i query_id data =
     cbind (act (send_request i query_id data)) (\<lambda>u.
     cbind (await (resolved i query_id)) (\<lambda>u. act (answer i query_id)))"

subsection \<open>Queries\<close>

text \<open>What a query reads and writes of the client, with the transaction of the task that performs it.\<close>

definition with_env :: "(unit env \<Rightarrow> 'a res \<times> unit env) \<Rightarrow> world \<Rightarrow> 'a res \<times> world" where
  "with_env f w =
     (case p_context (w_pool w) of
        None \<Rightarrow> (Inl AttributeError, w)
      | Some pc \<Rightarrow>
          (case f ((with_net pc () (p_env (w_pool w)))\<lparr>e_tx := map_option fst (w_contexts w (w_task w))\<rparr>) of
             (r, env) \<Rightarrow> (r, w\<lparr>w_pool := (w_pool w)\<lparr>p_env := env\<lparr>e_tx := None\<rparr>\<rparr>\<rparr>)))"

definition encode_query :: "query \<Rightarrow> (string \<times> wval) list \<Rightarrow> ('s env, byte list) run" where
  "encode_query q params env =
     (case query_from_python (e_tx env) q params (new_stream (e_client env) []) of
        Inl e \<Rightarrow> (Inl e, env)
      | Inr st \<Rightarrow> (Inr (sbuf st), env\<lparr>e_client := sclient st\<rparr>))"

definition finish_query :: "query \<Rightarrow> api_result res \<Rightarrow> world \<Rightarrow> api_result res \<times> world" where
  "finish_query q r w = (r, snd (with_env (\<lambda>env. (Inr (), on_query_finished q r env)) w))"

definition perform_task :: "nat \<Rightarrow> query \<Rightarrow> (string \<times> wval) list \<Rightarrow> response \<Rightarrow> api_result task" where
  "perform_task i q params r =
     followed_by
       (cbind (act (with_env (\<lambda>env. encode_query q params (on_query_started q env)))) (\<lambda>data.
        cbind (aio_request_task i (q_query_id q) data) (\<lambda>packet. act (with_env (receive_response r packet)))))
       (\<lambda>result. act (finish_query q result))"

definition query_task :: "nat \<Rightarrow> api_result task performer" where
  "query_task i op following params r post =
     cbind (act (with_env (new_query False op following))) (\<lambda>q.
     cbind (perform_task i q params r) (\<lambda>result. Done (post result)))"

definition config_query_task :: "nat \<Rightarrow> int \<Rightarrow> (string \<times> wtype) list \<Rightarrow> (string \<times> wval) list \<Rightarrow> api_result task" where
  "config_query_task i op following params =
     cbind (act (with_env (new_query True op following))) (\<lambda>q. perform_task i q params (Response []))"

end
