(* ===== verification/AioClient.thy ===== *)
theory AioClient
  imports AioRequests BinaryTypes
begin

section \<open>The asynchronous client\<close>

text \<open>
  \<open>aio_client.py\<close>: the coroutines of \<open>AioClient\<close> over the state it inherits from \<open>BaseClient\<close>, in
  the order of the code. \<open>random.choice\<close> and the order in which the event loop runs the tasks of a
  \<open>gather\<close> follow \<open>p_picks\<close>, an arbitrary sequence.
\<close>

definition pick_one :: "world \<Rightarrow> nat list \<Rightarrow> nat \<times> world" where
  "pick_one w xs =
     (let p = w_pool w
      in (xs ! (p_picks p (p_tick p) mod length xs), w\<lparr>w_pool := p\<lparr>p_tick := Suc (p_tick p)\<rparr>\<rparr>))"

definition gather_all :: "'a task list \<Rightarrow> 'a res list task" where
  "gather_all cs = gather pick_one cs"

definition update_pool :: "(aio_sock pool \<Rightarrow> aio_sock pool) \<Rightarrow> unit task" where
  "update_pool f = act (\<lambda>w. (Inr (), w\<lparr>w_pool := f (w_pool w)\<rparr>))"

subsection \<open>Connecting and closing\<close>

text \<open>
  A connection is in the list while it is being connected (the code appends it afterwards, before
  which nobody uses the client).
\<close>

fun connect_each :: "nat \<Rightarrow> aio_sock conn list \<Rightarrow> unit task" where
  "connect_each i [] = Done (Inr ())"
| "connect_each i (k # ks) =
     cbind (update_pool (\<lambda>p. p\<lparr>p_nodes := p_nodes p @ [k]\<rparr>)) (\<lambda>u.
     inspect (\<lambda>w.
       if \<not> partition_aware (w_pool w) \<and> p_context (w_pool w) = None
       then
         followed_by (cbind (aio_connect_task i) (\<lambda>u. update_pool (\<lambda>p. p\<lparr>p_current := i\<rparr>)))
           (\<lambda>r. case r of
              Inr u \<Rightarrow> connect_each (Suc i) ks
            | Inl e \<Rightarrow> if connection_error e then connect_each (Suc i) ks
                else cbind (update_pool (\<lambda>p. p\<lparr>p_nodes := butlast (p_nodes p)\<rparr>)) (\<lambda>u. Done (Inl e)))
       else connect_each (Suc i) ks))"

text \<open>The outcomes of connecting, in the order of the nodes: which to reconnect, or the first other error.\<close>

fun failed_nodes :: "nat \<Rightarrow> unit res list \<Rightarrow> nat list res" where
  "failed_nodes i [] = Inr []"
| "failed_nodes i (r # rs) =
     (case r of
        Inr u \<Rightarrow> failed_nodes (Suc i) rs
      | Inl e \<Rightarrow> if connection_error e then rbind (failed_nodes (Suc i) rs) (\<lambda>js. Inr (i # js)) else Inl e)"

definition aio_client_connect :: "aio_sock conn list \<Rightarrow> unit task" where
  "aio_client_connect ks =
     inspect (\<lambda>w0.
     cbind (connect_each (length (nodes w0)) ks) (\<lambda>u.
     cbind (inspect (\<lambda>w.
       if partition_aware (w_pool w)
       then
         cbind (gather_all (map aio_connect_task [0..<length (nodes w)])) (\<lambda>results.
         cbind (Done (failed_nodes 0 results)) (\<lambda>js.
         cbind (gather_all (map aio_reconnect_task js)) (\<lambda>rs. Done (Inr ()))))
       else Done (Inr ()))) (\<lambda>u.
     inspect (\<lambda>w. Done (if p_context (w_pool w) = None then Inl ReconnectError else Inr ())))))"

definition aio_client_close :: "unit task" where
  "aio_client_close =
     inspect (\<lambda>w. cbind (gather_all (map aio_close_task [0..<length (nodes w)])) (\<lambda>rs.
       update_pool (\<lambda>p. p\<lparr>p_nodes := []\<rparr>)))"

subsection \<open>A usable node\<close>

definition choose_alive :: "nat task \<Rightarrow> nat task" where
  "choose_alive otherwise =
     inspect (\<lambda>w. if alive_nodes (w_pool w) \<noteq> []
       then act (\<lambda>w. case pick_one w (alive_nodes (w_pool w)) of (i, w') \<Rightarrow> (Inr i, w')) else otherwise)"

definition aio_get_random_node :: "nat task" where
  "aio_get_random_node =
     choose_alive (inspect (\<lambda>w.
       cbind (gather_all (map aio_reconnect_task [0..<length (nodes w)])) (\<lambda>rs. choose_alive (Done (Inl ReconnectError)))))"

fun try_nodes :: "nat list \<Rightarrow> nat task" where
  "try_nodes [] = Done (Inl ReconnectError)"
| "try_nodes (i # js) =
     followed_by (aio_connect_task i) (\<lambda>r. case r of
       Inr u \<Rightarrow> Done (Inr i)
     | Inl e \<Rightarrow> if connection_error e then try_nodes js else Done (Inl e))"

definition next_current :: "aio_sock pool \<Rightarrow> nat" where
  "next_current p = (if length (p_nodes p) \<le> Suc (p_current p) then 0 else Suc (p_current p))"

definition aio_random_node :: "nat task" where
  "aio_random_node =
     inspect (\<lambda>w.
       if partition_aware (w_pool w) then aio_get_random_node
       else if length (nodes w) \<le> p_current (w_pool w) then Done (Inl IndexError)
       else if alive (nodes w ! p_current (w_pool w)) then Done (Inr (p_current (w_pool w)))
       else
         cbind (aio_close_task (p_current (w_pool w))) (\<lambda>u.
         cbind (update_pool (\<lambda>p. p\<lparr>p_current := next_current p\<rparr>)) (\<lambda>u.
         inspect (\<lambda>w. try_nodes ([p_current (w_pool w)..<length (nodes w)] @ [0..<p_current (w_pool w)])))))"

text \<open>\<open>status_to_exception\<close> around a coroutine.\<close>

definition aio_status :: "py_error \<Rightarrow> api_result task \<Rightarrow> wval task" where
  "aio_status exc c = cbind c (\<lambda>result. Done (if r_status result \<noteq> 0 then Inl exc else Inr (r_value result)))"

subsection \<open>Binary types\<close>

definition aio_get_binary_type :: "ident \<Rightarrow> wval task" where
  "aio_get_binary_type binary_type =
     aio_status BinaryTypeError
       (cbind aio_random_node (\<lambda>i.
        cbind (get_binary_type (query_task i) (Some binary_type)) (\<lambda>result.
          Done (process_get_binary_type_result result))))"

definition aio_put_binary_type :: "pystr \<Rightarrow> pyval \<Rightarrow> pyval \<Rightarrow> (pystr \<times> pyval) list \<Rightarrow> wval task" where
  "aio_put_binary_type type_name affinity_key_field is_enum schema =
     aio_status BinaryTypeError
       (cbind aio_random_node (\<lambda>i.
        cbind (Done (put_binary_params type_name affinity_key_field is_enum schema))
          (put_binary_query (query_task i) type_name is_enum)))"

text \<open>The description of a type, as the registry wants it.\<close>

fun schema_of_dict :: "(pyval \<times> pyval) list \<Rightarrow> (pystr \<times> dtype) list res" where
  "schema_of_dict [] = Inr []"
| "schema_of_dict ((VStr name, VType d) # kvs) = rbind (schema_of_dict kvs) (\<lambda>s. Inr ((name, d) # s))"
| "schema_of_dict _ = Inl TypeError"

definition type_info_of :: "wval \<Rightarrow> type_info res" where
  "type_info_of info =
     rbind (wfield_val ''type_exists'' info) (\<lambda>exists.
       if \<not> truthy exists then Inr no_type
       else
         rbind (wfield_val ''type_name'' info) (\<lambda>name.
         rbind (wfield_seq ''schemas'' info) (\<lambda>schemas.
         rbind (rmap (\<lambda>s. case s of WV (VDict ordered kvs) \<Rightarrow> schema_of_dict kvs | _ \<Rightarrow> Inl TypeError) schemas) (\<lambda>ss.
           case name of VStr n \<Rightarrow> Inr \<lparr>ti_exists = True, ti_name = n, ti_schemas = ss\<rparr> | _ \<Rightarrow> Inl TypeError))))"

definition the_client :: "world \<Rightarrow> client" where
  "the_client w = e_client (p_env (w_pool w))"

definition client_act :: "(client \<Rightarrow> client res) \<Rightarrow> unit task" where
  "client_act f =
     act (\<lambda>w. case f (the_client w) of
       Inl e \<Rightarrow> (Inl e, w)
     | Inr c \<Rightarrow> (Inr (), w\<lparr>w_pool := (w_pool w)\<lparr>p_env := (p_env (w_pool w))\<lparr>e_client := c\<rparr>\<rparr>\<rparr>))"

definition with_registry_mux :: "'a task \<Rightarrow> 'a task" where
  "with_registry_mux =
     with_lock (\<lambda>w. w_registry_mux w \<noteq> None) (\<lambda>b w. w\<lparr>w_registry_mux := (if b then Some (w_task w) else None)\<rparr>)"

definition with_affinity_mux :: "'a task \<Rightarrow> 'a task" where
  "with_affinity_mux =
     with_lock (\<lambda>w. w_affinity_mux w \<noteq> None) (\<lambda>b w. w\<lparr>w_affinity_mux := (if b then Some (w_task w) else None)\<rparr>)"

text \<open>The registry is looked up again under the lock, which waiting for it may have filled.\<close>

definition found_or :: "int \<Rightarrow> int option \<Rightarrow> reg_result task \<Rightarrow> reg_result task" where
  "found_or type_id schema otherwise =
     inspect (\<lambda>w.
       let result = get_from_registry type_id schema (the_client w)
       in if reg_found result then Done (Inr result) else otherwise)"

definition aio_query_binary_type :: "int \<Rightarrow> int option \<Rightarrow> reg_result task" where
  "aio_query_binary_type type_id schema =
     found_or type_id schema (with_registry_mux (found_or type_id schema
       (cbind (aio_get_binary_type (IInt type_id)) (\<lambda>info.
        cbind (client_act (\<lambda>c. rbind (type_info_of info) (\<lambda>ti. sync_binary_registry type_id ti c))) (\<lambda>u.
        inspect (\<lambda>w. Done (Inr (get_from_registry type_id schema (the_client w)))))))))"

definition aio_register_binary_type :: "pyclass \<Rightarrow> pyval \<Rightarrow> unit task" where
  "aio_register_binary_type cls affinity_key_field =
     cbind (aio_query_binary_type (class_type_id cls) (Some (class_schema_id cls))) (\<lambda>result.
     cbind (if reg_found result then Done (Inr (WV VNone))
            else aio_put_binary_type (cls_type_name cls) affinity_key_field (VBool False) (class_fields (cls_schema cls)))
       (\<lambda>v. client_act (\<lambda>c. Inr (reg_put (class_type_id cls) (class_schema_id cls) cls c))))"

subsection \<open>The node of a key\<close>

definition partitions_task :: "nat \<Rightarrow> pyval \<Rightarrow> (api_result \<times> partitions_result option) task" where
  "partitions_task i caches =
     cbind (partitions_query (query_task i) caches) (\<lambda>result. Done (post_process_partitions result))"

text \<open>\<open>asyncio.sleep\<close> gives way to others for some time.\<close>

fun aio_get_affinity :: "nat \<Rightarrow> nat \<Rightarrow> pyval list \<Rightarrow> partitions_result task" where
  "aio_get_affinity 0 i caches = Done (Inl CacheError)"
| "aio_get_affinity (Suc n) i caches =
     cbind (partitions_task i (VList caches)) (\<lambda>(result, parts).
       case parts of
         Some full \<Rightarrow> Done (Inr full)
       | None \<Rightarrow> cbind (await (\<lambda>w. True)) (\<lambda>u. aio_get_affinity n i caches))"

definition dead_nodes :: "world \<Rightarrow> nat list" where
  "dead_nodes w = filter (\<lambda>i. \<not> alive (nodes w ! i)) [0..<length (nodes w)]"

definition install_affinity :: "partitions_result \<Rightarrow> world \<Rightarrow> unit res \<times> world" where
  "install_affinity full w =
     (Inr (), w\<lparr>w_pool := update_affinity full (w_pool w), w_background := w_background w @ dead_nodes w\<rparr>)"

text \<open>
  The loop under the lock: the node to go on with, or (second) the one to return because the server
  did not answer in time.
\<close>

definition aio_refresh :: "nat \<Rightarrow> (nat + nat) task" where
  "aio_refresh =
     repeat (\<lambda>i. inspect (\<lambda>w.
       let caches = caches_to_update_affinity (w_pool w)
       in if caches = [] then Done (Inr (Inr (Inl i)))
          else
            followed_by (cbind (aio_get_affinity AFFINITY_RETRIES i caches) (\<lambda>full. act (install_affinity full)))
              (\<lambda>r. case r of
                 Inr u \<Rightarrow> Done (Inr (Inr (Inl i)))
               | Inl e \<Rightarrow>
                   if connection_error e then cbind aio_random_node (\<lambda>j. Done (Inr (Inl j)))
                   else if e = CacheError then Done (Inr (Inr (Inr i)))
                   else Done (Inl e))))"

definition aio_best_node_of_key :: "nat \<Rightarrow> pyval \<Rightarrow> pyval \<Rightarrow> dtype option \<Rightarrow> (nat \<times> pyval) task" where
  "aio_best_node_of_key i cid key key_hint =
     act (\<lambda>w. case best_node_of_key i cid key key_hint (w_pool w) of
       None \<Rightarrow> (Inl RuntimeError, w)
     | Some (r, p) \<Rightarrow> (r, w\<lparr>w_pool := p\<rparr>))"

definition aio_get_best_node :: "pyval \<Rightarrow> pyval \<Rightarrow> dtype option \<Rightarrow> (nat \<times> pyval) task" where
  "aio_get_best_node cid key key_hint =
     cbind aio_random_node (\<lambda>i.
     inspect (\<lambda>w.
       if \<not> partition_aware (w_pool w) \<or> key = VNone then Done (Inr (i, key))
       else
         cbind (if caches_to_update_affinity (w_pool w) = [] then Done (Inr (Inl i))
                else with_affinity_mux (aio_refresh i)) (\<lambda>r.
           case r of
             Inl j \<Rightarrow> aio_best_node_of_key j cid key key_hint
           | Inr j \<Rightarrow> Done (Inr (j, key)))))"

subsection \<open>Names of caches and SQL\<close>

definition aio_get_cache_names :: "wval task" where
  "aio_get_cache_names =
     aio_status CacheError (cbind aio_random_node (\<lambda>i. cache_get_names (query_task i)))"

end
