(* ===== verification/AioCaches.thy ===== *)
theory AioCaches
  imports AioClient
begin

section \<open>Asynchronous caches and the cluster\<close>

text \<open>
  \<open>aio_cache.py\<close>, \<open>aio_cluster.py\<close> and the operations of \<open>aio_client.py\<close> that use them. As in the
  synchronous classes every operation chooses a node, performs the operation of the API over it and
  turns an error status into an exception; the queries are the same, performed by coroutines.
\<close>

text \<open>A step of \<open>BaseClient\<close> that awaits nothing.\<close>

definition pool_task :: "(aio_sock, 'a) prog \<Rightarrow> 'a task" where
  "pool_task f =
     act (\<lambda>w. case f (w_pool w) of None \<Rightarrow> (Inl RuntimeError, w) | Some (r, p) \<Rightarrow> (r, w\<lparr>w_pool := p\<rparr>))"

definition aio_unwrap_binary :: "pyval \<Rightarrow> pyval task" where
  "aio_unwrap_binary v = pool_task (pool_unwrap v)"

subsection \<open>Cache objects\<close>

definition aio_get_cache :: "cache_settings \<Rightarrow> cache_obj task" where
  "aio_get_cache settings = pool_task (get_cache settings)"

text \<open>The query that creates a cache with a configuration.\<close>

definition create_config_task :: "int \<Rightarrow> (int \<times> wval) list \<Rightarrow> nat \<Rightarrow> api_result task" where
  "create_config_task op_code cache_props i =
     cbind (act (with_env (\<lambda>env. (collect_props (e_protocol env) 0 cache_props, env)))) (\<lambda>(types, vals).
       config_query_task i op_code ((''param_count'', WPrim TShort) # types)
         (vals @ [(''param_count'', WV (VInt (int (length cache_props))))]))"

definition aio_create_with ::
  "int \<Rightarrow> (api_result task performer \<Rightarrow> pyval \<Rightarrow> api_result task) \<Rightarrow> cache_settings \<Rightarrow> cache_obj task"
where
  "aio_create_with config_op with_name settings =
     cbind (Done (parse_settings settings)) (\<lambda>(name, s).
     cbind aio_random_node (\<lambda>i.
     cbind (case s of
              Some d \<Rightarrow> create_config_task config_op d i
            | None \<Rightarrow> cbind (Done (as_val name)) (with_name (query_task i)))
       (\<lambda>result. if r_status result \<noteq> 0 then Done (Inl CacheError) else pool_task (new_cache name None))))"

definition aio_create_cache :: "cache_settings \<Rightarrow> cache_obj task" where
  "aio_create_cache = aio_create_with OP_CACHE_CREATE_WITH_CONFIGURATION cache_create"

definition aio_get_or_create_cache :: "cache_settings \<Rightarrow> cache_obj task" where
  "aio_get_or_create_cache = aio_create_with OP_CACHE_GET_OR_CREATE_WITH_CONFIGURATION cache_get_or_create"

subsection \<open>Choosing the node of an operation\<close>

definition aio_cache_best_node :: "cache_obj \<Rightarrow> pyval \<Rightarrow> dtype option \<Rightarrow> (nat \<times> pyval) task" where
  "aio_cache_best_node co key key_hint =
     inspect (\<lambda>w. case w_contexts w (w_task w) of
       Some (tx, i) \<Rightarrow> Done (Inr (i, key))
     | None \<Rightarrow> aio_get_best_node (VInt (ci_cache_id (co_info co))) key key_hint)"

definition aio_any_node_op ::
  "cache_obj \<Rightarrow> (api_result task performer \<Rightarrow> cache_info \<Rightarrow> 'a task) \<Rightarrow> 'a task"
where
  "aio_any_node_op co f = cbind (aio_cache_best_node co VNone None) (\<lambda>(i, k). f (query_task i) (co_info co))"

definition aio_keyed_op ::
  "cache_obj \<Rightarrow> pyval \<Rightarrow> dtype option \<Rightarrow>
   (api_result task performer \<Rightarrow> cache_info \<Rightarrow> pyval \<Rightarrow> wtype option \<Rightarrow> 'a task) \<Rightarrow> 'a task"
where
  "aio_keyed_op co key key_hint f =
     cbind (Done (case key_hint of None \<Rightarrow> map_python_type key | Some d \<Rightarrow> Inr d)) (\<lambda>d.
     cbind (aio_cache_best_node co key (Some d)) (\<lambda>(i, k). f (query_task i) (co_info co) k (Some (WObject d))))"

text \<open>The elements of a value are unwrapped in tasks of their own, which only read the registry.\<close>

definition aio_unwrap_result :: "api_result \<Rightarrow> api_result task" where
  "aio_unwrap_result result = pool_task (unwrap_result result)"

subsection \<open>Operations on a key\<close>

definition aio_get ::
  "cache_obj \<Rightarrow> pyval \<Rightarrow> dtype option \<Rightarrow> wval task"
where
  "aio_get co key key_hint =
     aio_status CacheError
       (cbind (aio_keyed_op co key key_hint (\<lambda>perf info k kh. cache_get perf info k kh)) aio_unwrap_result)"

definition aio_put ::
  "cache_obj \<Rightarrow> pyval \<Rightarrow> pyval \<Rightarrow> dtype option \<Rightarrow> wtype option \<Rightarrow> wval task"
where
  "aio_put co key value key_hint value_hint =
     aio_status CacheError
       (aio_keyed_op co key key_hint (\<lambda>perf info k kh. cache_put perf info k value kh value_hint))"

definition aio_replace ::
  "cache_obj \<Rightarrow> pyval \<Rightarrow> pyval \<Rightarrow> dtype option \<Rightarrow> wtype option \<Rightarrow> wval task"
where
  "aio_replace co key value key_hint value_hint =
     aio_status CacheError
       (cbind (aio_keyed_op co key key_hint (\<lambda>perf info k kh. cache_replace perf info k value kh value_hint)) aio_unwrap_result)"

definition aio_clear_key ::
  "cache_obj \<Rightarrow> pyval \<Rightarrow> dtype option \<Rightarrow> wval task"
where
  "aio_clear_key co key key_hint =
     aio_status CacheError
       (aio_keyed_op co key key_hint (\<lambda>perf info k kh. cache_clear_key perf info k kh))"

definition aio_contains_key ::
  "cache_obj \<Rightarrow> pyval \<Rightarrow> dtype option \<Rightarrow> wval task"
where
  "aio_contains_key co key key_hint =
     aio_status CacheError
       (aio_keyed_op co key key_hint (\<lambda>perf info k kh. cache_contains_key perf info k kh))"

definition aio_get_and_put ::
  "cache_obj \<Rightarrow> pyval \<Rightarrow> pyval \<Rightarrow> dtype option \<Rightarrow> wtype option \<Rightarrow> wval task"
where
  "aio_get_and_put co key value key_hint value_hint =
     aio_status CacheError
       (cbind (aio_keyed_op co key key_hint (\<lambda>perf info k kh. cache_get_and_put perf info k value kh value_hint)) aio_unwrap_result)"

definition aio_get_and_put_if_absent ::
  "cache_obj \<Rightarrow> pyval \<Rightarrow> pyval \<Rightarrow> dtype option \<Rightarrow> wtype option \<Rightarrow> wval task"
where
  "aio_get_and_put_if_absent co key value key_hint value_hint =
     aio_status CacheError
       (cbind (aio_keyed_op co key key_hint (\<lambda>perf info k kh. cache_get_and_put_if_absent perf info k value kh value_hint)) aio_unwrap_result)"

definition aio_put_if_absent ::
  "cache_obj \<Rightarrow> pyval \<Rightarrow> pyval \<Rightarrow> dtype option \<Rightarrow> wtype option \<Rightarrow> wval task"
where
  "aio_put_if_absent co key value key_hint value_hint =
     aio_status CacheError
       (aio_keyed_op co key key_hint (\<lambda>perf info k kh. cache_put_if_absent perf info k value kh value_hint))"

definition aio_get_and_remove ::
  "cache_obj \<Rightarrow> pyval \<Rightarrow> dtype option \<Rightarrow> wval task"
where
  "aio_get_and_remove co key key_hint =
     aio_status CacheError
       (cbind (aio_keyed_op co key key_hint (\<lambda>perf info k kh. cache_get_and_remove perf info k kh)) aio_unwrap_result)"

definition aio_get_and_replace ::
  "cache_obj \<Rightarrow> pyval \<Rightarrow> pyval \<Rightarrow> dtype option \<Rightarrow> wtype option \<Rightarrow> wval task"
where
  "aio_get_and_replace co key value key_hint value_hint =
     aio_status CacheError
       (cbind (aio_keyed_op co key key_hint (\<lambda>perf info k kh. cache_get_and_replace perf info k value kh value_hint)) aio_unwrap_result)"

definition aio_remove_key ::
  "cache_obj \<Rightarrow> pyval \<Rightarrow> dtype option \<Rightarrow> wval task"
where
  "aio_remove_key co key key_hint =
     aio_status CacheError
       (aio_keyed_op co key key_hint (\<lambda>perf info k kh. cache_remove_key perf info k kh))"

definition aio_remove_if_equals ::
  "cache_obj \<Rightarrow> pyval \<Rightarrow> pyval \<Rightarrow> dtype option \<Rightarrow> wtype option \<Rightarrow> wval task"
where
  "aio_remove_if_equals co key sample_value key_hint sample_hint =
     aio_status CacheError
       (aio_keyed_op co key key_hint (\<lambda>perf info k kh. cache_remove_if_equals perf info k sample_value kh sample_hint))"

definition aio_replace_if_equals ::
  "cache_obj \<Rightarrow> pyval \<Rightarrow> pyval \<Rightarrow> pyval \<Rightarrow> dtype option \<Rightarrow> wtype option \<Rightarrow> wtype option \<Rightarrow> wval task"
where
  "aio_replace_if_equals co key sample_value value key_hint sample_hint value_hint =
     aio_status CacheError
       (cbind (aio_keyed_op co key key_hint (\<lambda>perf info k kh. cache_replace_if_equals perf info k sample_value value kh sample_hint value_hint)) aio_unwrap_result)"

subsection \<open>Operations on several keys or the whole cache\<close>

definition aio_get_all :: "cache_obj \<Rightarrow> pyval \<Rightarrow> wval task" where
  "aio_get_all co keys =
     aio_status CacheError (cbind (aio_any_node_op co (\<lambda>perf info. cache_get_all perf info keys)) (\<lambda>result. pool_task (unwrap_all_values result)))"

definition aio_put_all :: "cache_obj \<Rightarrow> pyval \<Rightarrow> wval task" where
  "aio_put_all co pairs =
     aio_status CacheError (aio_any_node_op co (\<lambda>perf info. cache_put_all perf info pairs))"

definition aio_clear_keys :: "cache_obj \<Rightarrow> pyval \<Rightarrow> wval task" where
  "aio_clear_keys co keys =
     aio_status CacheError (aio_any_node_op co (\<lambda>perf info. cache_clear_keys perf info keys))"

definition aio_contains_keys :: "cache_obj \<Rightarrow> pyval \<Rightarrow> wval task" where
  "aio_contains_keys co keys =
     aio_status CacheError (aio_any_node_op co (\<lambda>perf info. cache_contains_keys perf info keys))"

definition aio_remove_keys :: "cache_obj \<Rightarrow> pyval \<Rightarrow> wval task" where
  "aio_remove_keys co keys =
     aio_status CacheError (aio_any_node_op co (\<lambda>perf info. cache_remove_keys perf info keys))"

definition aio_get_size :: "cache_obj \<Rightarrow> pyval \<Rightarrow> wval task" where
  "aio_get_size co peek_modes =
     aio_status CacheError (aio_any_node_op co (\<lambda>perf info. cache_get_size perf info peek_modes))"

definition aio_clear :: "cache_obj \<Rightarrow> pyval \<Rightarrow> wval task" where
  "aio_clear co keys =
     aio_status CacheError (aio_any_node_op co (\<lambda>perf info. if truthy keys then cache_clear_keys perf info keys else cache_clear perf info))"

definition aio_remove_all :: "cache_obj \<Rightarrow> wval task" where
  "aio_remove_all co =
     aio_status CacheError (aio_any_node_op co (\<lambda>perf info. cache_remove_all perf info))"

definition aio_destroy :: "cache_obj \<Rightarrow> wval task" where
  "aio_destroy co =
     aio_status CacheError (aio_any_node_op co (\<lambda>perf info. cache_destroy perf (IInt (ci_cache_id info))))"

definition aio_settings :: "cache_obj \<Rightarrow> ((int \<times> wval) list \<times> cache_obj) task" where
  "aio_settings co =
     (case co_settings co of
        Some s \<Rightarrow> Done (Inr (s, co))
      | None \<Rightarrow>
          cbind (aio_any_node_op co (\<lambda>perf info.
              cbind (act (with_env (\<lambda>env. (Inr (e_protocol env), env)))) (\<lambda>pc. cache_get_configuration perf pc info)))
            (\<lambda>result. Done (if r_status result \<noteq> 0 then Inl CacheError
              else case r_value result of
                WCodes s \<Rightarrow> Inr (s, co\<lparr>co_settings := Some s\<rparr>) | _ \<Rightarrow> Inl TypeError)))"

subsection \<open>The cluster\<close>

definition cluster_supported :: "unit task" where
  "cluster_supported =
     act (with_env (\<lambda>env.
       (if is_cluster_api_supported (e_protocol env) then Inr () else Inl NotSupportedByClusterError, env)))"

definition aio_get_state :: "wval task" where
  "aio_get_state =
     aio_status ClusterError
       (cbind aio_random_node (\<lambda>i. cbind cluster_supported (\<lambda>u. cluster_get_state_query (query_task i))))"

definition aio_set_state :: "int \<Rightarrow> wval task" where
  "aio_set_state state =
     aio_status ClusterError
       (cbind aio_random_node (\<lambda>i.
          if state \<notin> set cluster_states then Done (Inl ClusterError)
          else cbind cluster_supported (\<lambda>u. cluster_set_state_query (query_task i) state)))"

end
