(* ===== verification/AioCursors.thy ===== *)
theory AioCursors
  imports AioCaches
begin

section \<open>Asynchronous cursors and transactions\<close>

text \<open>
  The asynchronous classes of \<open>cursors.py\<close> and \<open>transaction.py\<close>. An object is the value its
  coroutines return with their outcome, since they change it also when they raise.
  \<open>StopAsyncIteration\<close> is represented by \<open>StopIteration\<close>.
\<close>

subsection \<open>Cursors\<close>

text \<open>
  A cursor that was not entered has no connection; one whose first page could not be read has a
  connection and no data.
\<close>

record 'c aio_cursor =
  ac_node :: "nat option"
  ac_page :: "'c option"

definition new_aio_cursor :: "'c aio_cursor" where
  "new_aio_cursor = \<lparr>ac_node = None, ac_page = None\<rparr>"

definition enter_cursor ::
  "(nat \<Rightarrow> api_result task) \<Rightarrow> (api_result \<Rightarrow> 'c res) \<Rightarrow> 'c aio_cursor \<Rightarrow> (unit res \<times> 'c aio_cursor) task"
where
  "enter_cursor query finalize_init st =
     followed_by aio_random_node (\<lambda>r. case r of
       Inl e \<Rightarrow> Done (Inr (Inl e, st))
     | Inr i \<Rightarrow>
         followed_by (query i) (\<lambda>q. Done (Inr (case rbind q finalize_init of
           Inl e \<Rightarrow> (Inl e, st\<lparr>ac_node := Some i\<rparr>)
         | Inr cu \<Rightarrow> (Inr (), st\<lparr>ac_node := Some i, ac_page := Some cu\<rparr>)))))"

definition aio_scan_enter ::
  "cache_info \<Rightarrow> pyval \<Rightarrow> pyval \<Rightarrow> pyval \<Rightarrow> (pyval \<times> pyval) cursor aio_cursor \<Rightarrow>
   (unit res \<times> (pyval \<times> pyval) cursor aio_cursor) task"
where
  "aio_scan_enter info page_size partitions local st =
     (if ac_node st \<noteq> None then Done (Inr (Inr (), st))
      else enter_cursor (\<lambda>i. scan (query_task i) info page_size partitions local) (new_cursor CacheError data_items) st)"

definition aio_vector_enter ::
  "cache_info \<Rightarrow> pyval \<Rightarrow> pyval \<Rightarrow> pyval \<Rightarrow> pyval \<Rightarrow> pyval \<Rightarrow> pyval \<Rightarrow> (pyval \<times> pyval) cursor aio_cursor \<Rightarrow>
   (unit res \<times> (pyval \<times> pyval) cursor aio_cursor) task"
where
  "aio_vector_enter info page_size type_name field clause_vector k threshold st =
     (if ac_node st \<noteq> None then Done (Inr (Inr (), st))
      else enter_cursor (\<lambda>i. vector (query_task i) info page_size type_name field clause_vector k threshold)
        (new_cursor CacheError data_items) st)"

text \<open>An SQL fields cursor is only taken for initialised if its identifier is not 0 either.\<close>

definition aio_fields_enter ::
  "cache_info \<Rightarrow> sql_fields_args \<Rightarrow> row_cursor aio_cursor \<Rightarrow> (unit res \<times> row_cursor aio_cursor) task"
where
  "aio_fields_enter info a st =
     (if ac_node st \<noteq> None \<and> (case ac_page st of None \<Rightarrow> False | Some cu \<Rightarrow> truthy (cu_id cu)) then Done (Inr (Inr (), st))
      else enter_cursor (\<lambda>i. sql_fields (query_task i) info a) fields_finalize_init st)"

text \<open>The next item: of the page, or of the next page if the server has more.\<close>

definition next_item ::
  "(nat \<Rightarrow> pyval \<Rightarrow> api_result task) \<Rightarrow> (api_result \<Rightarrow> ('i list \<times> pyval) res) \<Rightarrow> nat \<Rightarrow> ('i, 'z) cursor_scheme \<Rightarrow>
   ('i res \<times> ('i, 'z) cursor_scheme) task"
where
  "next_item get_page page_items i cu =
     (case cu_data cu of
        x # xs \<Rightarrow> Done (Inr (Inr x, cu\<lparr>cu_data := xs\<rparr>))
      | [] \<Rightarrow>
          if truthy (cu_more cu)
          then followed_by (get_page i (cu_id cu)) (\<lambda>q. Done (Inr (case rbind q page_items of
                 Inl e \<Rightarrow> (Inl e, cu)
               | Inr (data, m) \<Rightarrow>
                   (case data of
                      [] \<Rightarrow> (Inl StopIteration, cu\<lparr>cu_data := [], cu_more := m\<rparr>)
                    | x # xs \<Rightarrow> (Inr x, cu\<lparr>cu_data := xs, cu_more := m\<rparr>)))))
          else Done (Inr (Inl StopIteration, cu)))"

definition aio_next ::
  "py_error \<Rightarrow> (nat \<Rightarrow> 'c \<Rightarrow> ('a res \<times> 'c) task) \<Rightarrow> ('a \<Rightarrow> 'b task) \<Rightarrow> 'c aio_cursor \<Rightarrow> ('b res \<times> 'c aio_cursor) task"
where
  "aio_next uninitialized item unwrap_item st =
     (case ac_node st of
        None \<Rightarrow> Done (Inr (Inl uninitialized, st))
      | Some i \<Rightarrow>
          (case ac_page st of
             None \<Rightarrow> Done (Inr (Inl StopIteration, st))
           | Some cu \<Rightarrow>
               cbind (item i cu) (\<lambda>(r, cu'). let st' = st\<lparr>ac_page := Some cu'\<rparr>
                 in case r of
                      Inl e \<Rightarrow> Done (Inr (Inl e, st'))
                    | Inr x \<Rightarrow> followed_by (unwrap_item x) (\<lambda>v. Done (Inr (v, st'))))))"

definition aio_unwrap_pair :: "pyval \<times> pyval \<Rightarrow> (pyval \<times> pyval) task" where
  "aio_unwrap_pair kv =
     cbind (aio_unwrap_binary (fst kv)) (\<lambda>k. cbind (aio_unwrap_binary (snd kv)) (\<lambda>v. Done (Inr (k, v))))"

definition aio_scan_next ::
  "(pyval \<times> pyval) cursor aio_cursor \<Rightarrow> ((pyval \<times> pyval) res \<times> (pyval \<times> pyval) cursor aio_cursor) task"
where
  "aio_scan_next =
     aio_next CacheError
       (next_item (\<lambda>i. scan_cursor_get_page (query_task i)) (page_response_items CacheError data_items)) aio_unwrap_pair"

definition aio_vector_next ::
  "(pyval \<times> pyval) cursor aio_cursor \<Rightarrow> ((pyval \<times> pyval) res \<times> (pyval \<times> pyval) cursor aio_cursor) task"
where
  "aio_vector_next =
     aio_next CacheError
       (next_item (\<lambda>i. vector_cursor_get_page (query_task i)) (page_response_items CacheError data_items)) aio_unwrap_pair"

fun aio_unwrap_each :: "pyval list \<Rightarrow> pyval list task" where
  "aio_unwrap_each [] = Done (Inr [])"
| "aio_unwrap_each (v # vs) =
     cbind (aio_unwrap_binary v) (\<lambda>x. cbind (aio_unwrap_each vs) (\<lambda>xs. Done (Inr (x # xs))))"

definition aio_unwrap_row :: "wval \<Rightarrow> wval task" where
  "aio_unwrap_row row =
     cbind (Done (rbind (wseq row) (rmap as_val))) (\<lambda>vs.
     cbind (aio_unwrap_each vs) (\<lambda>xs. Done (Inr (WV (VList xs)))))"

definition aio_fields_next :: "row_cursor aio_cursor \<Rightarrow> (wval res \<times> row_cursor aio_cursor) task" where
  "aio_fields_next st =
     (case (ac_node st, ac_page st) of
        (Some i, Some cu) \<Rightarrow>
          (case cu_names cu of
             Some names \<Rightarrow> Done (Inr (Inr names, st\<lparr>ac_page := Some (cu\<lparr>cu_names := None\<rparr>)\<rparr>))
           | None \<Rightarrow>
               aio_next SQLError
                 (next_item (\<lambda>i cid. sql_fields_cursor_get_page (query_task i) cid (cu_field_count cu))
                   (page_response_items SQLError wseq)) aio_unwrap_row st)
      | (None, _) \<Rightarrow> Done (Inr (Inl SQLError, st))
      | (_, None) \<Rightarrow> Done (Inr (Inl StopIteration, st)))"

definition aio_cursor_close :: "('i, 'z) cursor_scheme aio_cursor \<Rightarrow> unit task" where
  "aio_cursor_close st =
     (case (ac_node st, ac_page st) of
        (Some i, Some cu) \<Rightarrow>
          if truthy (cu_id cu) \<and> truthy (cu_more cu)
          then cbind (resource_close (query_task i) (cu_id cu)) (\<lambda>result. Done (Inr ()))
          else Done (Inr ())
      | _ \<Rightarrow> Done (Inr ()))"

text \<open>\<open>AioClient.sql\<close> makes the cursor's cache information and arguments; nothing is sent yet.\<close>

definition aio_sql ::
  "ident option \<Rightarrow> cache_obj option \<Rightarrow> sql_fields_args \<Rightarrow> world \<Rightarrow> (cache_info \<times> sql_fields_args) res"
where
  "aio_sql cache co a w =
     (case p_context (w_pool w) of
        None \<Rightarrow> Inl AttributeError
      | Some pc \<Rightarrow>
          let info = (case cache of
                        Some c \<Rightarrow> \<lparr>ci_cache_id = cache_id c, ci_expiry_policy = None, ci_protocol_context = pc\<rparr>
                      | None \<Rightarrow> (case co of Some c \<Rightarrow> co_info c
                          | None \<Rightarrow> \<lparr>ci_cache_id = 0, ci_expiry_policy = None, ci_protocol_context = pc\<rparr>))
          in Inr (info, if ci_cache_id info \<noteq> 0 then a\<lparr>a_schema := VNone\<rparr> else a))"

subsection \<open>Transactions\<close>

text \<open>A transaction has an identifier once it was started.\<close>

record aio_transaction = transaction +
  t_started :: bool

definition aio_tx_new :: "pyval \<Rightarrow> pyval \<Rightarrow> pyval \<Rightarrow> pyval \<Rightarrow> aio_transaction res" where
  "aio_tx_new concurrency isolation timeout label =
     rbind (validate_int_enum_param concurrency transaction_concurrency) (\<lambda>c.
     rbind (validate_int_enum_param isolation transaction_isolation) (\<lambda>i.
     rbind (validate_timeout timeout) (\<lambda>t.
     rbind (validate_label label) (\<lambda>l.
       Inr \<lparr>t_concurrency = c, t_isolation = i, t_timeout = t, t_label = l, t_id = 0, t_closed = False, t_started = False\<rparr>))))"

definition set_context :: "(int \<times> nat) option \<Rightarrow> world \<Rightarrow> world" where
  "set_context x w = w\<lparr>w_contexts := (w_contexts w)(w_task w := x)\<rparr>"

definition tx_started :: "nat \<Rightarrow> api_result \<Rightarrow> world \<Rightarrow> api_result res \<times> world" where
  "tx_started i result w =
     (case with_env (\<lambda>env. case tx_start_post_process result env of
              (r, env') \<Rightarrow> (rbind r (\<lambda>x. Inr (x, e_tx env')), env')) w of
        (Inl e, w') \<Rightarrow> (Inl e, w')
      | (Inr (x, tx), w') \<Rightarrow>
          (Inr x, if r_status x = 0 then set_context (map_option (\<lambda>t. (t, i)) tx) w' else w'))"

definition aio_start_tx :: "aio_transaction \<Rightarrow> wval task" where
  "aio_start_tx tx =
     aio_status CacheError
       (cbind aio_random_node (\<lambda>i.
        cbind (tx_start_query (query_task i) (t_concurrency tx) (t_isolation tx) (t_timeout tx) (t_label tx)) (\<lambda>result.
          act (tx_started i result))))"

definition aio_tx_enter :: "aio_transaction \<Rightarrow> (unit res \<times> aio_transaction) task" where
  "aio_tx_enter tx =
     followed_by (aio_start_tx tx) (\<lambda>r. Done (Inr (case r of
       Inl e \<Rightarrow> (Inl e, tx)
     | Inr v \<Rightarrow>
         (case v of
            WV (VInt tx_id) \<Rightarrow> (Inr (), tx\<lparr>t_id := tx_id, t_closed := False, t_started := True\<rparr>)
          | _ \<Rightarrow> (Inl TypeError, tx)))))"

definition aio_end_tx :: "int \<Rightarrow> bool \<Rightarrow> wval task" where
  "aio_end_tx tx_id committed =
     aio_status CacheError (inspect (\<lambda>w. case w_contexts w (w_task w) of
       None \<Rightarrow> Done (Inl CacheError)
     | Some (current, i) \<Rightarrow>
         if current \<noteq> tx_id then Done (Inl CacheError)
         else followed_by (tx_end_query (query_task i) tx_id (VBool committed)) (\<lambda>r. act (\<lambda>w. (r, set_context None w)))))"

text \<open>
  \<open>commit\<close>, and \<open>close\<close>, which \<open>rollback\<close> and leaving an \<open>async with\<close> block call. Ending a
  transaction that was never started is an \<open>AttributeError\<close> and closes it.
\<close>

definition aio_tx_finish :: "bool \<Rightarrow> aio_transaction \<Rightarrow> (wval res \<times> aio_transaction) task" where
  "aio_tx_finish committed tx =
     (if t_closed tx then Done (Inr (Inr (WV VNone), tx))
      else if \<not> t_started tx then Done (Inr (Inl AttributeError, tx\<lparr>t_closed := True\<rparr>))
      else followed_by (aio_end_tx (t_id tx) committed) (\<lambda>r. Done (Inr (r, tx\<lparr>t_closed := True\<rparr>))))"

definition aio_tx_commit :: "aio_transaction \<Rightarrow> (wval res \<times> aio_transaction) task" where
  "aio_tx_commit = aio_tx_finish True"

definition aio_tx_close :: "aio_transaction \<Rightarrow> (wval res \<times> aio_transaction) task" where
  "aio_tx_close = aio_tx_finish False"

definition aio_tx_rollback :: "aio_transaction \<Rightarrow> (wval res \<times> aio_transaction) task" where
  "aio_tx_rollback = aio_tx_close"

end
