(* ===== verification/TaskLogic.thy ===== *)
theory TaskLogic
  imports Coroutines
begin

section \<open>Reasoning about tasks that run concurrently\<close>

text \<open>
  A rely-guarantee logic for coroutines. \<open>safe I R E G Q A c\<close>: from a state with \<open>A\<close> every action of
  \<open>c\<close> keeps \<open>I\<close> and is one that \<open>G\<close> allows, and an outcome of \<open>c\<close> has \<open>Q\<close>, if the others only do
  what \<open>R\<close> allows while \<open>c\<close> is suspended; \<open>E\<close> is what the scheduler does to resume it.
\<close>

coinductive safe ::
  "('w \<Rightarrow> bool) \<Rightarrow> ('w \<Rightarrow> 'w \<Rightarrow> bool) \<Rightarrow> ('w \<Rightarrow> 'w) \<Rightarrow> ('w \<Rightarrow> 'w \<Rightarrow> bool) \<Rightarrow>
   ('a res \<Rightarrow> 'w \<Rightarrow> bool) \<Rightarrow> ('w \<Rightarrow> bool) \<Rightarrow> ('w, 'a) coro \<Rightarrow> bool"
  for I R E G Q
where
  safe_Done: "(\<And>w. I w \<Longrightarrow> A w \<Longrightarrow> Q r w) \<Longrightarrow> safe I R E G Q A (Done r)"
| safe_Act: "(\<And>w. I w \<Longrightarrow> A w \<Longrightarrow>
     I (snd (g w)) \<and> G w (snd (g w)) \<and> safe I R E G Q (\<lambda>w'. w' = snd (g w)) (fst (g w))) \<Longrightarrow>
   safe I R E G Q A (Act g)"
| safe_Await: "safe I R E G Q (\<lambda>w'. \<exists>w0 w. I w0 \<and> A w0 \<and> R w0 w \<and> P w \<and> w' = E w) k \<Longrightarrow>
   safe I R E G Q A (Await P k)"

inductive_simps safe_Done_iff [simp]: "safe I R E G Q A (Done r)"
inductive_simps safe_Act_iff: "safe I R E G Q A (Act g)"
inductive_simps safe_Await_iff: "safe I R E G Q A (Await P k)"

lemma safe_coinduct [consumes 1, case_names Done Act Await]:
  assumes "X A c"
    and "\<And>A r w. X A (Done r) \<Longrightarrow> I w \<Longrightarrow> A w \<Longrightarrow> Q r w"
    and "\<And>A g w. X A (Act g) \<Longrightarrow> I w \<Longrightarrow> A w \<Longrightarrow> I (snd (g w)) \<and> G w (snd (g w)) \<and>
      (X (\<lambda>w'. w' = snd (g w)) (fst (g w)) \<or> safe I R E G Q (\<lambda>w'. w' = snd (g w)) (fst (g w)))"
    and "\<And>A P k. X A (Await P k) \<Longrightarrow>
      X (\<lambda>w'. \<exists>w0 w. I w0 \<and> A w0 \<and> R w0 w \<and> P w \<and> w' = E w) k \<or>
      safe I R E G Q (\<lambda>w'. \<exists>w0 w. I w0 \<and> A w0 \<and> R w0 w \<and> P w \<and> w' = E w) k"
  shows "safe I R E G Q A c"
  using assms(1)
proof (rule safe.coinduct)
  fix A c
  assume X: "X A c"
  show "(\<exists>A' r. A = A' \<and> c = Done r \<and> (\<forall>w. I w \<longrightarrow> A' w \<longrightarrow> Q r w)) \<or>
    (\<exists>A' g. A = A' \<and> c = Act g \<and> (\<forall>w. I w \<longrightarrow> A' w \<longrightarrow> I (snd (g w)) \<and> G w (snd (g w)) \<and>
       (X (\<lambda>w'. w' = snd (g w)) (fst (g w)) \<or> safe I R E G Q (\<lambda>w'. w' = snd (g w)) (fst (g w))))) \<or>
    (\<exists>A' P k. A = A' \<and> c = Await P k \<and> (X (\<lambda>w'. \<exists>w0 w. I w0 \<and> A' w0 \<and> R w0 w \<and> P w \<and> w' = E w) k \<or>
       safe I R E G Q (\<lambda>w'. \<exists>w0 w. I w0 \<and> A' w0 \<and> R w0 w \<and> P w \<and> w' = E w) k))"
  proof (cases c)
    case (Done r)
    have "\<forall>w. I w \<longrightarrow> A w \<longrightarrow> Q r w" using assms(2) [OF X [unfolded Done]] by simp
    then show ?thesis by (simp add: Done)
  next
    case (Act g)
    have "\<forall>w. I w \<longrightarrow> A w \<longrightarrow> I (snd (g w)) \<and> G w (snd (g w)) \<and>
        (X (\<lambda>w'. w' = snd (g w)) (fst (g w)) \<or> safe I R E G Q (\<lambda>w'. w' = snd (g w)) (fst (g w)))"
      using assms(3) [OF X [unfolded Act]] by simp
    then show ?thesis by (simp add: Act)
  next
    case (Await P k)
    show ?thesis using assms(4) [OF X [unfolded Await]] by (simp add: Await)
  qed
qed

lemma safe_weaken:
  assumes "safe I R E G Q A' c" and "\<And>w. I w \<Longrightarrow> A w \<Longrightarrow> A' w"
  shows "safe I R E G Q A c"
proof -
  define X where "X A c \<longleftrightarrow> (\<exists>A'. safe I R E G Q A' c \<and> (\<forall>w. I w \<longrightarrow> A w \<longrightarrow> A' w))" for A c
  have "X A c" using assms by (auto simp: X_def)
  then show ?thesis
  proof (induct rule: safe_coinduct [where X = X])
    case (Done A r w)
    then show ?case by (auto simp: X_def)
  next
    case (Act A g w)
    then show ?case by (auto simp: X_def safe_Act_iff)
  next
    case (Await A P k)
    then obtain A' where A': "safe I R E G Q A' (Await P k)" "\<forall>w. I w \<longrightarrow> A w \<longrightarrow> A' w" by (auto simp: X_def)
    have "X (\<lambda>w'. \<exists>w0 w. I w0 \<and> A w0 \<and> R w0 w \<and> P w \<and> w' = E w) k"
      unfolding X_def by (rule exI, rule conjI [OF A'(1) [unfolded safe_Await_iff]]) (use A'(2) in blast)
    then show ?case by simp
  qed
qed

lemma safe_post:
  assumes "safe I R E G Q' A c" and "\<And>r w. I w \<Longrightarrow> Q' r w \<Longrightarrow> Q r w"
  shows "safe I R E G Q A c"
  using assms(1)
proof (induct rule: safe_coinduct [where X = "safe I R E G Q'"])
  case (Done A r w)
  then show ?case using assms(2) by simp
next
  case (Act A g w)
  then show ?case by (auto simp: safe_Act_iff)
next
  case (Await A P k)
  then show ?case by (simp add: safe_Await_iff)
qed

lemma followed_by_simps [simp]:
  "followed_by (Done r) f = f r"
  "followed_by (Act g) f = Act (\<lambda>w. map_prod (\<lambda>c. followed_by c f) id (g w))"
  "followed_by (Await P k) f = Await P (followed_by k f)"
  by (subst followed_by.code, simp)+

lemma cbind_simps [simp]:
  "cbind (Done (Inr x)) f = f x"
  "cbind (Done (Inl e)) f = Done (Inl e)"
  "cbind (Act g) f = Act (\<lambda>w. map_prod (\<lambda>c. cbind c f) id (g w))"
  "cbind (Await P k) f = Await P (cbind k f)"
  by (simp_all add: cbind_def)

lemma safe_followed_by:
  assumes "safe I R E G Q' A m" and "\<And>r. safe I R E G Q (Q' r) (f r)"
  shows "safe I R E G Q A (followed_by m f)"
proof -
  define X where "X A c \<longleftrightarrow> (\<exists>m'. c = followed_by m' f \<and> safe I R E G Q' A m')" for A c
  have "X A (followed_by m f)" using assms(1) by (auto simp: X_def)
  then show ?thesis
  proof (induct rule: safe_coinduct [where X = X])
    case (Done A r w)
    then obtain m' where m': "Done r = followed_by m' f" "safe I R E G Q' A m'" by (auto simp: X_def)
    then obtain r' where "m' = Done r'" by (cases m') simp_all
    with m' have "safe I R E G Q (Q' r') (Done r)" "Q' r' w" using assms(2) [of r'] Done by simp_all
    then show ?case using Done by simp
  next
    case (Act A g w)
    then obtain m' where m': "Act g = followed_by m' f" "safe I R E G Q' A m'" by (auto simp: X_def)
    show ?case
    proof (cases m')
      case (Done r)
      with m' Act have "safe I R E G Q (Q' r) (Act g)" "Q' r w" using assms(2) [of r] by simp_all
      then show ?thesis using Act by (simp add: safe_Act_iff)
    next
      case h: (Act h)
      with m' have "I (snd (h w)) \<and> G w (snd (h w)) \<and> safe I R E G Q' (\<lambda>w'. w' = snd (h w)) (fst (h w))"
        using Act by (simp add: safe_Act_iff)
      then show ?thesis using m'(1) h by (auto simp: X_def)
    next
      case (Await P k)
      with m' show ?thesis by simp
    qed
  next
    case (Await A P k)
    then obtain m' where m': "Await P k = followed_by m' f" "safe I R E G Q' A m'" by (auto simp: X_def)
    show ?case
    proof (cases m')
      case (Done r)
      with m' have "safe I R E G Q (Q' r) (Await P k)" "\<And>w. I w \<Longrightarrow> A w \<Longrightarrow> Q' r w" using assms(2) [of r] by simp_all
      then have "safe I R E G Q A (Await P k)" by (blast intro: safe_weaken)
      then show ?thesis by (simp add: safe_Await_iff)
    next
      case (Act h)
      with m' show ?thesis by simp
    next
      case (Await P' k')
      with m' show ?thesis by (auto simp: safe_Await_iff X_def)
    qed
  qed
qed

lemma safe_cbind:
  assumes "safe I R E G (\<lambda>r. case r of Inl e \<Rightarrow> Q (Inl e) | Inr x \<Rightarrow> B x) A m"
    and "\<And>x. safe I R E G Q (B x) (f x)"
  shows "safe I R E G Q A (cbind m f)"
  unfolding cbind_def
  by (rule safe_followed_by [OF assms(1)]) (use assms(2) in \<open>simp split: sum.split\<close>)

lemma safe_act:
  assumes "\<And>w. I w \<Longrightarrow> A w \<Longrightarrow> I (snd (f w)) \<and> G w (snd (f w)) \<and> Q (fst (f w)) (snd (f w))"
  shows "safe I R E G Q A (act f)"
  unfolding act_def by (rule safe_Act) (use assms in simp)

lemma safe_inspect:
  assumes "\<And>w. I w \<Longrightarrow> A w \<Longrightarrow> G w w \<and> safe I R E G Q (\<lambda>w'. w' = w) (f w)"
  shows "safe I R E G Q A (inspect f)"
  unfolding inspect_def by (rule safe_Act) (use assms in simp)

lemma safe_await:
  assumes "\<And>w0 w. I w0 \<Longrightarrow> A w0 \<Longrightarrow> R w0 w \<Longrightarrow> P w \<Longrightarrow> I (E w) \<Longrightarrow> Q (Inr ()) (E w)"
  shows "safe I R E G Q A (await P)"
  unfolding await_def by (rule safe_Await, rule safe_Done) (use assms in blast)

lemma loop_simps [simp]:
  "loop body (Done (Inl e)) = Done (Inl e)"
  "loop body (Done (Inr (Inr y))) = Done (Inr y)"
  "loop body (Done (Inr (Inl x))) = Act (\<lambda>w. (loop body (body x), w))"
  "loop body (Act g) = Act (\<lambda>w. map_prod (\<lambda>c. loop body c) id (g w))"
  "loop body (Await P k) = Await P (loop body k)"
  by (subst loop.code, simp)+

lemma loop_Done:
  "loop body (Done r) = (case r of Inl e \<Rightarrow> Done (Inl e) | Inr v \<Rightarrow>
     (case v of Inl x \<Rightarrow> Act (\<lambda>w. (loop body (body x), w)) | Inr y \<Rightarrow> Done (Inr y)))"
  by (auto split: sum.split)

definition loop_post :: "('a res \<Rightarrow> 'w \<Rightarrow> bool) \<Rightarrow> ('x \<Rightarrow> 'w \<Rightarrow> bool) \<Rightarrow> ('x + 'a) res \<Rightarrow> 'w \<Rightarrow> bool" where
  "loop_post Q each r w =
     (case r of Inl e \<Rightarrow> Q (Inl e) w | Inr (Inl x) \<Rightarrow> each x w | Inr (Inr y) \<Rightarrow> Q (Inr y) w)"

lemma safe_loop:
  assumes body: "\<And>x. safe I R E G (loop_post Q each) (each x) (body x)" and refl: "\<And>w. I w \<Longrightarrow> G w w"
    and "safe I R E G (loop_post Q each) A m"
  shows "safe I R E G Q A (loop body m)"
proof -
  define X where "X A c \<longleftrightarrow> (\<exists>m'. c = loop body m' \<and> safe I R E G (loop_post Q each) A m')" for A c
  have "X A (loop body m)" using assms(3) by (auto simp: X_def)
  then show ?thesis
  proof (induct rule: safe_coinduct [where X = X])
    case (Done A r w)
    then obtain m' where m': "Done r = loop body m'" "safe I R E G (loop_post Q each) A m'" by (auto simp: X_def)
    then obtain r' where r': "m' = Done r'" by (cases m') simp_all
    with m' Done have "loop_post Q each r' w" by simp
    with m' r' show ?case by (auto simp: loop_post_def split: sum.splits)
  next
    case (Act A g w)
    then obtain m' where m': "Act g = loop body m'" "safe I R E G (loop_post Q each) A m'" by (auto simp: X_def)
    show ?case
    proof (cases m')
      case (Done r)
      with m'(1) obtain x where r: "r = Inr (Inl x)" "g = (\<lambda>w. (loop body (body x), w))"
        by (auto simp: loop_Done split: sum.splits)
      then have "each x w" using m' Done Act by (simp add: loop_post_def)
      then have "safe I R E G (loop_post Q each) (\<lambda>w'. w' = w) (body x)" by (blast intro: safe_weaken [OF body])
      then show ?thesis using r Act refl by (auto simp: X_def)
    next
      case h: (Act h)
      with m' have "I (snd (h w)) \<and> G w (snd (h w)) \<and> safe I R E G (loop_post Q each) (\<lambda>w'. w' = snd (h w)) (fst (h w))"
        using Act by (simp add: safe_Act_iff)
      then show ?thesis using m'(1) h by (auto simp: X_def)
    next
      case (Await P k)
      with m' show ?thesis by simp
    qed
  next
    case (Await A P k)
    then obtain m' where m': "Await P k = loop body m'" "safe I R E G (loop_post Q each) A m'" by (auto simp: X_def)
    then obtain k' where k': "m' = Await P k'" "k = loop body k'"
      by (cases m') (auto simp: loop_Done split: sum.splits)
    with m' show ?case by (auto simp: safe_Await_iff X_def)
  qed
qed

lemma safe_repeat:
  assumes "\<And>x. safe I R E G (loop_post Q each) (each x) (body x)" and "\<And>w. I w \<Longrightarrow> G w w"
  shows "safe I R E G Q (each x) (repeat body x)"
  unfolding repeat_def by (rule safe_loop [OF assms assms(1)])

subsection \<open>Coroutines that need no assertions\<close>

text \<open>
  \<open>calm I G c\<close>: every action of \<open>c\<close>, from whatever state with \<open>I\<close>, keeps \<open>I\<close> and is one that \<open>G\<close>
  allows. It is safe for every assertion that neither \<open>G\<close> nor the others can break.
\<close>

coinductive calm :: "('w \<Rightarrow> bool) \<Rightarrow> ('w \<Rightarrow> 'w \<Rightarrow> bool) \<Rightarrow> ('w, 'a) coro \<Rightarrow> bool" for I G where
  calm_Done [intro, simp]: "calm I G (Done r)"
| calm_Act: "(\<And>w. I w \<Longrightarrow> I (snd (g w)) \<and> G w (snd (g w)) \<and> calm I G (fst (g w))) \<Longrightarrow> calm I G (Act g)"
| calm_Await: "calm I G k \<Longrightarrow> calm I G (Await P k)"

inductive_simps calm_Act_iff: "calm I G (Act g)"
inductive_simps calm_Await_iff [simp]: "calm I G (Await P k)"

lemma calm_coinduct [consumes 1, case_names Act Await]:
  assumes "X c"
    and "\<And>g w. X (Act g) \<Longrightarrow> I w \<Longrightarrow> I (snd (g w)) \<and> G w (snd (g w)) \<and> (X (fst (g w)) \<or> calm I G (fst (g w)))"
    and "\<And>P k. X (Await P k) \<Longrightarrow> X k \<or> calm I G k"
  shows "calm I G c"
  using assms(1)
proof (rule calm.coinduct)
  fix c
  assume X: "X c"
  show "(\<exists>r. c = Done r) \<or>
    (\<exists>g. c = Act g \<and> (\<forall>w. I w \<longrightarrow> I (snd (g w)) \<and> G w (snd (g w)) \<and> (X (fst (g w)) \<or> calm I G (fst (g w))))) \<or>
    (\<exists>k P. c = Await P k \<and> (X k \<or> calm I G k))"
  proof (cases c)
    case (Act g)
    then show ?thesis using assms(2) [OF X [unfolded Act]] by simp
  next
    case (Await P k)
    show ?thesis using assms(3) [OF X [unfolded Await]] by (simp add: Await)
  qed simp
qed

named_theorems calm_intros

lemma calm_followed_by [calm_intros]:
  assumes "calm I G m" and "\<And>r. calm I G (f r)"
  shows "calm I G (followed_by m f)"
proof -
  define X where "X c \<longleftrightarrow> (\<exists>m'. c = followed_by m' f \<and> calm I G m')" for c
  have "X (followed_by m f)" using assms(1) by (auto simp: X_def)
  then show ?thesis
  proof (induct rule: calm_coinduct [where X = X])
    case (Act g w)
    then obtain m' where m': "Act g = followed_by m' f" "calm I G m'" by (auto simp: X_def)
    then show ?case
    proof (cases m')
      case (Done r)
      with m' have "calm I G (Act g)" using assms(2) [of r] by simp
      with Act show ?thesis by (simp add: calm_Act_iff)
    qed (use Act m' in \<open>auto simp: X_def calm_Act_iff\<close>)
  next
    case (Await P k)
    then obtain m' where m': "Await P k = followed_by m' f" "calm I G m'" by (auto simp: X_def)
    then show ?case
    proof (cases m')
      case (Done r)
      with m' have "calm I G (Await P k)" using assms(2) [of r] by simp
      then show ?thesis by simp
    qed (use m' in \<open>auto simp: X_def\<close>)
  qed
qed

lemma calm_cbind [calm_intros]:
  assumes "calm I G m" and "\<And>x. calm I G (f x)"
  shows "calm I G (cbind m f)"
  unfolding cbind_def by (rule calm_followed_by [OF assms(1)]) (simp add: assms(2) split: sum.split)

lemma calm_act:
  assumes "\<And>w. I w \<Longrightarrow> I (snd (f w)) \<and> G w (snd (f w))"
  shows "calm I G (act f)"
  unfolding act_def by (rule calm_Act) (simp add: assms)

lemma calm_await [calm_intros]: "calm I G (await P)"
  by (simp add: await_def)

lemma calm_inspect:
  assumes "\<And>w. I w \<Longrightarrow> G w w" and "\<And>w. I w \<Longrightarrow> calm I G (f w)"
  shows "calm I G (inspect f)"
  unfolding inspect_def by (rule calm_Act) (simp add: assms)

lemma calm_loop:
  assumes "\<And>w. I w \<Longrightarrow> G w w" and "\<And>x. calm I G (body x)" and "calm I G m"
  shows "calm I G (loop body m)"
proof -
  define X where "X c \<longleftrightarrow> (\<exists>m'. c = loop body m' \<and> calm I G m')" for c
  have "X (loop body m)" using assms(3) by (auto simp: X_def)
  then show ?thesis
  proof (induct rule: calm_coinduct [where X = X])
    case (Act g w)
    then obtain m' where "Act g = loop body m'" "calm I G m'" by (auto simp: X_def)
    with Act(2) assms(1,2) show ?case
      by (cases m') (auto simp: X_def calm_Act_iff loop_Done split: sum.splits)
  next
    case (Await P k)
    then obtain m' where "Await P k = loop body m'" "calm I G m'" by (auto simp: X_def)
    then show ?case by (cases m') (auto simp: X_def loop_Done split: sum.splits)
  qed
qed

lemma calm_repeat:
  assumes "\<And>w. I w \<Longrightarrow> G w w" and "\<And>x. calm I G (body x)"
  shows "calm I G (repeat body x)"
  unfolding repeat_def by (rule calm_loop) (simp_all add: assms)

lemma calm_resumed: "calm I G c \<Longrightarrow> calm I G (resumed c)"
  by (cases c) (simp_all add: resumed_def)

lemma calm_gather:
  fixes cs :: "('w, 'a) coro list"
  assumes "\<And>w xs. I w \<Longrightarrow> I (snd (pick w xs)) \<and> G w (snd (pick w xs))" and "\<forall>c \<in> set cs. calm I G c"
  shows "calm I G (gather pick cs)"
proof -
  define X where "X c \<longleftrightarrow> (\<exists>t (cs :: ('w, 'a) coro list). c = gathering pick t cs \<and> (\<forall>c \<in> set cs. calm I G c))" for c
  have upd: "\<forall>c \<in> set (cs[i := c']). calm I G c" if "\<forall>c \<in> set cs. calm I G c" "i < length cs \<Longrightarrow> calm I G c'"
    for cs :: "('w, 'a) coro list" and i c'
    using that by (cases "i < length cs") (auto simp: set_conv_nth nth_list_update)
  have "X (gather pick cs)" using assms(2) by (auto simp: X_def gather_def)
  then show ?thesis
  proof (induct rule: calm_coinduct [where X = X])
    case (Act g w)
    then obtain t cs where e: "Act g = gathering pick t cs" and cs: "\<forall>c \<in> set cs. calm I G c" by (auto simp: X_def)
    show ?case
    proof (cases "next_action t cs")
      case (Some ig)
      then have g: "g = (\<lambda>w. map_prod (\<lambda>c. gathering pick t (cs[fst ig := c])) id (snd ig w))"
        using e by (subst (asm) gathering.code) simp
      from Some have i: "fst ig < length cs" "cs ! fst ig = Act (snd ig)"
        by (auto simp: next_action_def split: turn.splits if_splits coro.splits)
      then have "calm I G (Act (snd ig))" using cs by (metis nth_mem)
      with Act(2) have n: "I (snd (snd ig w)) \<and> G w (snd (snd ig w)) \<and> calm I G (fst (snd ig w))"
        by (simp add: calm_Act_iff)
      have "\<forall>c \<in> set (cs[fst ig := fst (snd ig w)]). calm I G c"
        by (rule upd [OF cs]) (use n in simp)
      then have "X (fst (g w))" unfolding X_def g by auto
      then show ?thesis using n by (simp add: g)
    next
      case None
      then have t: "t = Choose"
        and g: "g = (\<lambda>w. map_prod (\<lambda>i. gathering pick (Running i) (cs[i := resumed (cs ! i)])) id (pick w (ready_tasks w cs)))"
        using e by (subst (asm) gathering.code, simp split: if_splits)+
      have "\<forall>c \<in> set (cs[i := resumed (cs ! i)]). calm I G c" for i
        by (rule upd [OF cs]) (use cs in \<open>auto intro: calm_resumed\<close>)
      then have "X (fst (g w))" unfolding X_def g by auto
      then show ?thesis using assms(1) [OF Act(2)] by (simp add: g)
    qed
  next
    case (Await P k)
    then obtain t cs where e: "Await P k = gathering pick t cs" and cs: "\<forall>c \<in> set cs. calm I G c" by (auto simp: X_def)
    then have "k = gathering pick Choose cs"
      by (subst (asm) gathering.code) (auto split: option.splits if_splits)
    with cs show ?case by (auto simp: X_def)
  qed
qed

lemma safe_calm:
  fixes c :: "('w, 'a) coro"
  assumes "calm I G' c" and "\<And>w w'. I w \<Longrightarrow> G' w w' \<Longrightarrow> G w w'"
    and "\<And>w w'. I w \<Longrightarrow> A w \<Longrightarrow> I w' \<Longrightarrow> G' w w' \<Longrightarrow> A w'"
    and "\<And>w w'. I w \<Longrightarrow> A w \<Longrightarrow> R w w' \<Longrightarrow> A (E w')"
  shows "safe I R E G (\<lambda>r. A) A c"
proof -
  define X where "X B c \<longleftrightarrow> calm I G' c \<and> (\<forall>w. I w \<longrightarrow> B w \<longrightarrow> A w)" for B and c :: "('w, 'a) coro"
  have "X A c" using assms(1) by (auto simp: X_def)
  then show ?thesis
  proof (induct rule: safe_coinduct [where X = X])
    case (Done B r w)
    then show ?case by (simp add: X_def)
  next
    case (Act B g w)
    then have n: "I (snd (g w)) \<and> G' w (snd (g w)) \<and> calm I G' (fst (g w))" and "A w"
      by (simp_all add: X_def calm_Act_iff)
    then have "A (snd (g w))" "G w (snd (g w))"
      using assms(2) [OF Act(2)] assms(3) [OF Act(2)] by simp_all
    with n show ?case by (simp add: X_def)
  next
    case (Await B P k)
    then have k: "calm I G' k" and B: "\<And>w. I w \<Longrightarrow> B w \<Longrightarrow> A w" by (auto simp: X_def)
    have "A w'" if "\<exists>w0 w. I w0 \<and> B w0 \<and> R w0 w \<and> P w \<and> w' = E w" for w'
      using that assms(4) B by blast
    with k show ?case by (simp add: X_def)
  qed
qed

subsection \<open>Soundness\<close>

locale concurrent_tasks =
  fixes J :: "'w \<Rightarrow> bool" and T :: "nat \<Rightarrow> 'w \<Rightarrow> bool"
    and R :: "nat \<Rightarrow> 'w \<Rightarrow> 'w \<Rightarrow> bool" and G :: "nat \<Rightarrow> 'w \<Rightarrow> 'w \<Rightarrow> bool" and Q :: "nat \<Rightarrow> 'a res \<Rightarrow> 'w \<Rightarrow> bool"
    and ev :: "'w \<Rightarrow> 'w \<Rightarrow> bool" and spawn :: "'w \<Rightarrow> (('w, 'a) coro \<times> 'w) option" and enter :: "nat \<Rightarrow> 'w \<Rightarrow> 'w"
  assumes rely_refl: "R i w w" and rely_trans: "R i w w1 \<Longrightarrow> R i w1 w2 \<Longrightarrow> R i w w2"
    and guarantee: "J w \<Longrightarrow> T i w \<Longrightarrow> G i w w' \<Longrightarrow> i \<noteq> j \<Longrightarrow> R j w w'"
    and happens: "J w \<Longrightarrow> ev w w' \<Longrightarrow> J w' \<and> R j w w'"
    and enters: "J w \<Longrightarrow> J (enter i w) \<and> T i (enter i w) \<and> R j w (enter i w) \<and> R j (enter i w) w"
    and spawns: "J w \<Longrightarrow> spawn w = Some (c, w') \<Longrightarrow> J w' \<and> R j w w' \<and>
      safe (\<lambda>w. J w \<and> T j w) (R j) (enter j) (G j) (Q j) (\<lambda>w. True) c"
begin

definition good :: "nat \<Rightarrow> ('w \<Rightarrow> bool) \<Rightarrow> ('w, 'a) coro \<Rightarrow> bool" where
  "good i = safe (\<lambda>w. J w \<and> T i w) (R i) (enter i) (G i) (Q i)"

text \<open>A task that has not begun, and one that is suspended.\<close>

definition fresh :: "nat \<Rightarrow> 'w \<Rightarrow> ('w, 'a) coro \<Rightarrow> bool" where
  "fresh i w c \<longleftrightarrow> (\<exists>A. A w \<and> (\<forall>v v'. A v \<longrightarrow> R i v v' \<longrightarrow> A v') \<and> good i A c)"

definition rested :: "nat \<Rightarrow> 'w \<Rightarrow> ('w, 'a) coro \<Rightarrow> bool" where
  "rested i w c \<longleftrightarrow> fresh i w c \<or>
     (\<forall>g. c \<noteq> Act g) \<and> (\<exists>w0. J w0 \<and> T i w0 \<and> R i w0 w \<and> good i (\<lambda>w'. w' = w0) c)"

definition okay :: "('w, 'a) system \<Rightarrow> bool" where
  "okay s = (case s of (w, ts, r) \<Rightarrow> J w \<and>
     (case r of
        None \<Rightarrow> \<forall>i < length ts. rested i w (ts ! i)
      | Some i \<Rightarrow> i < length ts \<and> T i w \<and> good i (\<lambda>w'. w' = w) (ts ! i) \<and>
          (\<forall>j < length ts. j \<noteq> i \<longrightarrow> rested j w (ts ! j))))"

lemma fresh_rely: "fresh i w c \<Longrightarrow> R i w w' \<Longrightarrow> fresh i w' c"
  unfolding fresh_def by blast

lemma rested_rely: "rested i w c \<Longrightarrow> R i w w' \<Longrightarrow> rested i w' c"
  unfolding rested_def using rely_trans fresh_rely by blast

lemma fresh_enter:
  assumes "fresh i w c" and "J w"
  shows "good i (\<lambda>w'. w' = enter i w) c"
proof -
  obtain A where A: "A w" "\<forall>v v'. A v \<longrightarrow> R i v v' \<longrightarrow> A v'" "good i A c" using assms(1) unfolding fresh_def by blast
  have "R i w (enter i w)" using enters [OF assms(2)] by simp
  with A(1,2) have "A (enter i w)" by blast
  then show ?thesis using A(3) unfolding good_def by (auto intro: safe_weaken)
qed

lemma rested_start: "good i (\<lambda>w. True) c \<Longrightarrow> rested i w c"
  unfolding rested_def fresh_def by (intro disjI1 exI [of _ "\<lambda>w. True"]) simp

lemma resume_good:
  assumes "J w" and "rested i w c" and "ready w c"
  shows "good i (\<lambda>w'. w' = enter i w) (resumed c)"
proof (cases c)
  case (Done r)
  then show ?thesis using assms(3) by (simp add: ready_def)
next
  case (Act g)
  then have "fresh i w c" using assms(2) by (auto simp: rested_def)
  from fresh_enter [OF this assms(1)] show ?thesis by (simp add: Act resumed_def)
next
  case (Await P k)
  obtain w0 where w0: "J w0" "T i w0" "R i w0 w" "good i (\<lambda>w'. w' = w0) c"
  proof (cases "fresh i w c")
    case True
    have "J (enter i w)" "T i (enter i w)" "R i (enter i w) w" using enters [OF assms(1)] by auto
    with that fresh_enter [OF True assms(1)] show ?thesis by blast
  next
    case False
    then show ?thesis using that assms(2) unfolding rested_def by blast
  qed
  have "P w" using assms(3) by (simp add: ready_def Await)
  from w0(4) have "safe (\<lambda>w. J w \<and> T i w) (R i) (enter i) (G i) (Q i)
      (\<lambda>w'. \<exists>v v'. (J v \<and> T i v) \<and> v = w0 \<and> R i v v' \<and> P v' \<and> w' = enter i v') k"
    unfolding good_def Await safe_Await_iff by (rule safe_weaken) blast
  then show ?thesis
    unfolding good_def Await resumed_def coro.case by (rule safe_weaken) (use w0 \<open>P w\<close> in auto)
qed

lemma step_okay:
  assumes "okay s" and "sys_step ev spawn enter s s'"
  shows "okay s'"
  using assms(2,1)
proof cases
  case (resume i ts w)
  then have "J w" "rested i w (ts ! i)" "\<forall>j < length ts. rested j w (ts ! j)" using assms(1) by (auto simp: okay_def)
  moreover have "good i (\<lambda>w'. w' = enter i w) (resumed (ts ! i))" using calculation resume by (blast intro: resume_good)
  moreover have "J (enter i w)" "T i (enter i w)" "R j w (enter i w)" for j using enters [OF \<open>J w\<close>] by auto
  ultimately show ?thesis using resume by (auto simp: okay_def nth_list_update intro: rested_rely)
next
  case (run i ts g w)
  then have o: "J w" "T i w" "good i (\<lambda>w'. w' = w) (Act g)" "\<forall>j < length ts. j \<noteq> i \<longrightarrow> rested j w (ts ! j)"
    using assms(1) by (auto simp: okay_def)
  then have n: "(J (snd (g w)) \<and> T i (snd (g w))) \<and> G i w (snd (g w)) \<and> good i (\<lambda>w'. w' = snd (g w)) (fst (g w))"
    unfolding good_def safe_Act_iff by blast
  then have "R j w (snd (g w))" if "j \<noteq> i" for j using guarantee [OF o(1,2), of "snd (g w)" j] n that by simp
  then show ?thesis using run o(4) n by (auto simp: okay_def nth_list_update intro: rested_rely)
next
  case (suspend i ts w)
  then have o: "J w" "T i w" "good i (\<lambda>w'. w' = w) (ts ! i)" "\<forall>j < length ts. j \<noteq> i \<longrightarrow> rested j w (ts ! j)"
    using assms(1) by (auto simp: okay_def)
  then have "rested i w (ts ! i)" unfolding rested_def using suspend rely_refl by blast
  with o suspend show ?thesis by (auto simp: okay_def)
next
  case (event w w' ts)
  then have "J w" "\<forall>j < length ts. rested j w (ts ! j)" using assms(1) by (auto simp: okay_def)
  then show ?thesis using event happens [OF \<open>J w\<close>] by (auto simp: okay_def intro: rested_rely)
next
  case (launch w c w' ts)
  then have "J w" "\<forall>j < length ts. rested j w (ts ! j)" using assms(1) by (auto simp: okay_def)
  moreover have "J w'" "R j w w'" "good j (\<lambda>w. True) c" for j
    using spawns [OF \<open>J w\<close> launch(3)] by (auto simp: good_def)
  ultimately show ?thesis using launch
    by (auto simp: okay_def nth_append less_Suc_eq rested_start intro: rested_rely)
qed

theorem reach_okay:
  assumes "sys_reach ev spawn enter s s'" and "okay s"
  shows "okay s'"
  using assms by induction (auto intro: step_okay)

lemma start_okay:
  fixes A :: "nat \<Rightarrow> 'w \<Rightarrow> bool"
  assumes "J w" and "\<And>i. i < length ts \<Longrightarrow> A i w" and "\<And>i v v'. A i v \<Longrightarrow> R i v v' \<Longrightarrow> A i v'"
    and "\<And>i. i < length ts \<Longrightarrow> good i (A i) (ts ! i)"
  shows "okay (w, ts, None)"
proof -
  have "rested i w (ts ! i)" if "i < length ts" for i
    unfolding rested_def fresh_def using assms(2,4) [OF that] assms(3) [of i]
    by (intro disjI1 exI [of _ "A i"]) blast
  then show ?thesis using assms(1) by (simp add: okay_def)
qed

lemma okay_state: "okay (w, ts, r) \<Longrightarrow> J w"
  by (simp add: okay_def)

lemma okay_outcome:
  assumes "okay (w, ts, None)" and "i < length ts" and "ts ! i = Done r"
  shows "\<exists>w0. J w0 \<and> T i w0 \<and> R i w0 w \<and> Q i r w0"
proof -
  have o: "J w" "rested i w (Done r)" using assms by (auto simp: okay_def)
  have e: "J (enter i w)" "T i (enter i w)" "R i (enter i w) w" using enters [OF o(1)] by auto
  show ?thesis
  proof (cases "fresh i w (Done r)")
    case True
    from fresh_enter [OF this o(1)] e have "Q i r (enter i w)" by (simp add: good_def)
    with e show ?thesis by blast
  next
    case False
    then show ?thesis using o(2) unfolding rested_def good_def by auto
  qed
qed

lemma okay_step:
  assumes "okay (w, ts, Some i)" and "sys_step ev spawn enter (w, ts, Some i) (w', ts', r)"
  shows "J w \<and> T i w \<and> (w' = w \<or> G i w w')"
proof -
  have o: "J w" "T i w" "good i (\<lambda>w'. w' = w) (ts ! i)" using assms(1) by (auto simp: okay_def)
  from assms(2) show ?thesis
  proof cases
    case (run g)
    with o show ?thesis unfolding good_def run safe_Act_iff by blast
  qed (use o in auto)
qed

end

end
