(* ===== verification/AioSteps.thy ===== *)
theory AioSteps
  imports AioCursors TaskLogic Sessions
begin

section \<open>The steps of an asynchronous client\<close>

text \<open>
  What every single action of the coroutines and every event of the loop keeps: the well-formedness
  of the shared state and, for all but a few actions, the locks, the transactions and the version of
  the partition mapping.
\<close>

subsection \<open>What is kept\<close>

definition done_ok :: "aio_conn \<Rightarrow> bool" where
  "done_ok c \<longleftrightarrow> (\<forall>(q, packet) \<in> set (a_done c). packet_id packet = q)"

definition conn_ok :: "aio_sock conn \<Rightarrow> bool" where
  "conn_ok k \<longleftrightarrow> done_ok (s_conn (k_sock k)) \<and>
     (k_open k \<longleftrightarrow> a_transport (s_conn (k_sock k)) \<and> \<not> a_closed (s_conn (k_sock k)))"

definition mapping_ok :: "'s pool \<Rightarrow> bool" where
  "mapping_ok p \<longleftrightarrow> sorted_wrt (\<lambda>a b. \<not> py_eq b a) (map fst (p_mapping p))"

definition world_ok :: "world \<Rightarrow> bool" where
  "world_ok w \<longleftrightarrow> p_context (w_pool w) \<noteq> None \<and> mapping_ok (w_pool w) \<and> (\<forall>k \<in> set (nodes w). conn_ok k)"

lemma mapping_ok_same: "p_mapping p' = p_mapping p \<Longrightarrow> mapping_ok p' = mapping_ok p"
  by (simp add: mapping_ok_def)

lemma mapping_ok_simps [simp]:
  "mapping_ok (p\<lparr>p_nodes := ks\<rparr>) = mapping_ok p" "mapping_ok (p\<lparr>p_tick := n\<rparr>) = mapping_ok p"
  "mapping_ok (p\<lparr>p_current := n\<rparr>) = mapping_ok p" "mapping_ok (p\<lparr>p_env := env\<rparr>) = mapping_ok p"
  "mapping_ok (p\<lparr>p_context := c\<rparr>) = mapping_ok p" "mapping_ok (share k p) = mapping_ok p"
  by (simp_all add: mapping_ok_def)

definition newest :: "world \<Rightarrow> int \<times> int" where
  "newest w = e_affinity_version (p_env (w_pool w))"

definition onward :: "world \<Rightarrow> world \<Rightarrow> bool" where
  "onward w w' \<longleftrightarrow> p_aware (w_pool w') = p_aware (w_pool w) \<and>
     \<not> version_less (newest w') (newest w) \<and> length (w_attempts w) \<le> length (w_attempts w')"

definition quiet :: "world \<Rightarrow> world \<Rightarrow> bool" where
  "quiet w w' \<longleftrightarrow> onward w w' \<and> w_task w' = w_task w \<and> w_contexts w' = w_contexts w \<and>
     w_affinity_mux w' = w_affinity_mux w \<and> w_registry_mux w' = w_registry_mux w \<and>
     p_version (w_pool w') = p_version (w_pool w)"

lemma onward_refl [simp]: "onward w w"
  by (simp add: onward_def version_less_def)

lemma onward_trans: "onward w w1 \<Longrightarrow> onward w1 w2 \<Longrightarrow> onward w w2"
  using not_version_less_trans unfolding onward_def by (metis le_trans)

lemma quiet_refl [simp]: "quiet w w"
  by (simp add: quiet_def)

lemma quiet_trans: "quiet w w1 \<Longrightarrow> quiet w1 w2 \<Longrightarrow> quiet w w2"
  using onward_trans unfolding quiet_def by metis

definition still :: "(world \<Rightarrow> 'a res \<times> world) \<Rightarrow> bool" where
  "still f \<longleftrightarrow> (\<forall>w. world_ok w \<longrightarrow> world_ok (snd (f w)) \<and> quiet w (snd (f w)))"

definition peaceful :: "nat \<Rightarrow> 'a task \<Rightarrow> bool" where
  "peaceful i = calm (\<lambda>w. world_ok w \<and> w_task w = i) quiet"

named_theorems still_intros

lemma peaceful_Done [still_intros, simp]: "peaceful i (Done r)"
  by (simp add: peaceful_def)

lemma peaceful_act [still_intros]: "still f \<Longrightarrow> peaceful i (act f)"
  unfolding peaceful_def still_def by (rule calm_act) (simp add: quiet_def)

lemma peaceful_followed_by [still_intros]:
  "peaceful i m \<Longrightarrow> (\<And>r. peaceful i (f r)) \<Longrightarrow> peaceful i (followed_by m f)"
  unfolding peaceful_def by (rule calm_followed_by)

lemma peaceful_cbind [still_intros]:
  "peaceful i m \<Longrightarrow> (\<And>x. peaceful i (f x)) \<Longrightarrow> peaceful i (cbind m f)"
  unfolding peaceful_def by (rule calm_cbind)

lemma peaceful_await [still_intros]: "peaceful i (await P)"
  unfolding peaceful_def by (rule calm_await)

lemma peaceful_inspect [still_intros]: "(\<And>w. world_ok w \<Longrightarrow> peaceful i (f w)) \<Longrightarrow> peaceful i (inspect f)"
  unfolding peaceful_def by (rule calm_inspect) simp_all

lemma peaceful_repeat [still_intros]: "(\<And>x. peaceful i (body x)) \<Longrightarrow> peaceful i (repeat body x)"
  unfolding peaceful_def by (rule calm_repeat) simp_all

lemma peaceful_if [still_intros]: "peaceful i c \<Longrightarrow> peaceful i d \<Longrightarrow> peaceful i (if b then c else d)"
  by simp

lemma still_pick: "still (\<lambda>w. case pick_one w xs of (x, w') \<Rightarrow> (Inr x, w'))"
  by (simp add: still_def pick_one_def Let_def world_ok_def nodes_def quiet_def onward_def newest_def version_less_def)

lemma peaceful_gather [still_intros]: "(\<And>c. c \<in> set cs \<Longrightarrow> peaceful i c) \<Longrightarrow> peaceful i (gather_all cs)"
  unfolding peaceful_def gather_all_def
  by (rule calm_gather)
    (auto simp: pick_one_def Let_def world_ok_def nodes_def quiet_def onward_def newest_def version_less_def)

subsection \<open>Steps of connections\<close>

definition conn_still :: "(aio_sock conn \<Rightarrow> 'a res \<times> aio_sock conn) \<Rightarrow> bool" where
  "conn_still f \<longleftrightarrow> (\<forall>k. conn_ok k \<longrightarrow> k_context k \<noteq> None \<longrightarrow> conn_ok (snd (f k)) \<and> k_context (snd (f k)) \<noteq> None)"

lemma on_conn_still: "conn_still f \<Longrightarrow> still (on_conn i f)"
  unfolding still_def
proof (intro allI impI)
  fix w
  assume f: "conn_still f" and w: "world_ok w"
  show "world_ok (snd (on_conn i f w)) \<and> quiet w (snd (on_conn i f w))"
  proof (cases "i < length (nodes w)")
    case True
    obtain r k where fk: "f (lend (w_pool w) (nodes w ! i)) = (r, k)" by (cases "f (lend (w_pool w) (nodes w ! i))")
    have "conn_ok (nodes w ! i)" using w True by (simp add: world_ok_def)
    then have "conn_ok (lend (w_pool w) (nodes w ! i))" by (simp add: conn_ok_def lend_def)
    moreover have "k_context (lend (w_pool w) (nodes w ! i)) \<noteq> None" using w by (simp add: world_ok_def)
    ultimately have k: "conn_ok k \<and> k_context k \<noteq> None" using f fk unfolding conn_still_def by (metis snd_conv)
    have "set ((nodes w)[i := k]) \<subseteq> insert k (set (nodes w))" by (rule set_update_subset_insert)
    then have "\<forall>x \<in> set ((nodes w)[i := k]). conn_ok x" using k w by (auto simp: world_ok_def)
    moreover have "snd (on_conn i f w) = w\<lparr>w_pool := share k ((w_pool w)\<lparr>p_nodes := (nodes w)[i := k]\<rparr>)\<rparr>"
      using True by (simp add: on_conn_def fk)
    ultimately show ?thesis
      using k w by (simp add: world_ok_def nodes_def quiet_def onward_def newest_def version_less_def share_def)
  qed (use w in \<open>simp add: on_conn_def\<close>)
qed

lemma put_view_ok: "done_ok c \<Longrightarrow> conn_ok (put_view c k)"
  by (simp add: conn_ok_def put_view_def done_ok_def)

lemma view_done [simp]: "done_ok (aio_view k) \<longleftrightarrow> done_ok (s_conn (k_sock k))"
  by (simp add: done_ok_def aio_view_def)

lemma done_ok_same: "a_done c' = a_done c \<Longrightarrow> done_ok c \<Longrightarrow> done_ok c'"
  by (simp add: done_ok_def)

lemma view_simps [simp]:
  "k_context (put_view c k) = k_context k" "k_client (put_view c k) = k_client k"
  by (simp_all add: put_view_def)

lemma conn_still_put_in:
  assumes "\<And>k. a_done (f k) = a_done (aio_view k)" and "\<And>k. k_context (g k) = k_context k"
  shows "conn_still (\<lambda>k. (r k, put_view (f k) (g k)))"
  unfolding conn_still_def
proof (intro allI impI)
  fix k
  assume "conn_ok k" "k_context k \<noteq> None"
  then have "done_ok (f k)" using done_ok_same [OF assms(1)] by (simp add: conn_ok_def)
  with \<open>k_context k \<noteq> None\<close> show "conn_ok (snd (r k, put_view (f k) (g k))) \<and> k_context (snd (r k, put_view (f k) (g k))) \<noteq> None"
    by (simp add: put_view_ok assms(2))
qed

lemmas conn_still_put = conn_still_put_in [where g = "\<lambda>k. k", OF _ refl]

lemma conn_ok_frame:
  "k_sock k' = k_sock k \<Longrightarrow> k_open k' = k_open k \<Longrightarrow> conn_ok k' = conn_ok k"
  by (simp add: conn_ok_def)

lemma publish_frame [simp]:
  "k_sock (k_publish ev k) = k_sock k" "k_open (k_publish ev k) = k_open k" "k_client (k_publish ev k) = k_client k"
  "k_context (k_publish ev k) = k_context k"
  by (simp_all add: k_publish_def)

lemma callback_frame [simp]:
  "k_sock (on_handshake_start k) = k_sock k" "k_open (on_handshake_start k) = k_open k"
  "k_context (on_handshake_start k) = k_context k"
  "k_sock (on_connection_lost b k) = k_sock k" "k_open (on_connection_lost b k) = k_open k"
  "k_context (on_connection_lost b k) = k_context k"
  "k_sock (on_handshake_fail e k) = k_sock k" "k_open (on_handshake_fail e k) = k_open k"
  "k_context (on_handshake_fail e k) = k_context k"
  "k_sock (on_handshake_success result k) = k_sock k" "k_open (on_handshake_success result k) = k_open k"
  "(k_context (on_handshake_success result k) = None) = (k_context k = None)"
  by (simp_all add: on_handshake_start_def on_connection_lost_def on_handshake_fail_def on_handshake_success_def Let_def)

lemma handshake_failed_eq: "handshake_failed False e k = (Inl e, on_handshake_fail e k)"
  by (simp add: handshake_failed_def split: py_error.split)

lemma conn_still_frame:
  assumes "\<And>k. k_sock (snd (f k)) = k_sock k" and "\<And>k. k_open (snd (f k)) = k_open k"
    and "\<And>k. k_context k \<noteq> None \<Longrightarrow> k_context (snd (f k)) \<noteq> None"
  shows "conn_still f"
  unfolding conn_still_def using assms conn_ok_frame by blast

lemma callbacks_still [still_intros]:
  "conn_still (\<lambda>k. (r, on_handshake_start k))" "conn_still (\<lambda>k. (r, on_connection_lost b k))"
  "conn_still (handshake_done response)" "conn_still (handshake_failed False e)" "conn_still (choose_version v)"
  "conn_still (raise_handshake_error response)" "conn_still begin_connect" "conn_still handshake_request"
  "conn_still (parse_handshake packet)"
  by (rule conn_still_frame;
      simp add: handshake_done_def handshake_failed_eq choose_version_def raise_handshake_error_def begin_connect_def
        handshake_request_def parse_handshake_def split: option.split sum.split prod.split; fail)+

lemma conn_still_put_const [still_intros]:
  "conn_still (\<lambda>k. (Inr (), put_view ((aio_view k)\<lparr>a_closed := b\<rparr>) k))"
  by (rule conn_still_put) simp

lemma still_at: "(\<And>w. still (f w)) \<Longrightarrow> still (\<lambda>w. f w w)"
  by (simp add: still_def)

lemma still_same [still_intros]: "still (\<lambda>w. (r w, w))"
  by (simp add: still_def)

lemma still_const [still_intros]: "still (Pair r)"
  by (simp add: still_def)

lemma still_cases [still_intros]:
  "(\<And>a. still (f a)) \<Longrightarrow> (\<And>b. still (g b)) \<Longrightarrow> still (\<lambda>w. case s of Inl a \<Rightarrow> f a w | Inr b \<Rightarrow> g b w)"
  "still c \<Longrightarrow> (\<And>x. still (d x)) \<Longrightarrow> still (\<lambda>w. case z of None \<Rightarrow> c w | Some x \<Rightarrow> d x w)"
  by (cases s, simp_all) (cases z, simp_all)

lemma still_on_conn [still_intros]: "conn_still f \<Longrightarrow> still (on_conn i f)"
  by (rule on_conn_still)

lemma still_after:
  assumes "still f" and "\<And>x. still (g x)"
  shows "still (\<lambda>w. case f w of (r, w') \<Rightarrow> g r w')"
  unfolding still_def
proof (intro allI impI)
  fix w
  assume w: "world_ok w"
  obtain r w1 where f: "f w = (r, w1)" by (cases "f w")
  with assms(1) w have w1: "world_ok w1" "quiet w w1" by (auto simp: still_def dest: spec [of _ w])
  with assms(2) [of r] have "world_ok (snd (g r w1))" "quiet w1 (snd (g r w1))" by (simp_all add: still_def)
  with w1(2) f show "world_ok (snd (case f w of (r, w') \<Rightarrow> g r w')) \<and> quiet w (snd (case f w of (r, w') \<Rightarrow> g r w'))"
    using quiet_trans by auto
qed

lemma still_attempts:
  assumes "\<And>w. length (w_attempts w) \<le> length (h w)"
  shows "still (\<lambda>w. (r w, w\<lparr>w_attempts := h w\<rparr>))"
  using assms by (simp add: still_def world_ok_def nodes_def quiet_def onward_def newest_def version_less_def)

lemma still_set_attempt [still_intros]: "still (\<lambda>w. (r w, set_attempt j (a w) w))"
  unfolding set_attempt_def by (rule still_attempts) simp

lemma start_attempt_still [still_intros]: "still (start_attempt i)"
  unfolding start_attempt_def [abs_def]
proof (rule still_after)
  show "still (on_conn i (\<lambda>k. (Inr (), put_view ((aio_view k)\<lparr>a_closed := False\<rparr>) k)))"
    by (intro still_intros)
  fix x :: "unit res"
  show "still ((\<lambda>r w'. case r of Inl e \<Rightarrow> (Inl e, w')
      | Inr u \<Rightarrow> (Inr (length (w_attempts w')), w'\<lparr>w_attempts := w_attempts w' @ [new_attempt i]\<rparr>)) x)"
    by (intro still_intros still_attempts) simp
qed

lemma adopt_transport_still [still_intros]: "still (adopt_transport i j)"
  unfolding adopt_transport_def [abs_def]
  by (rule still_at [where f = "\<lambda>v w. case at_opened (the_attempt j v) of Some (Inl e) \<Rightarrow> (Inl e, w)
      | _ \<Rightarrow> on_conn i (\<lambda>k. (Inr (), put_view ((aio_view k)\<lparr>a_transport := \<not> at_lost (the_attempt j v)\<rparr>)
               (k\<lparr>k_sock := (k_sock k)\<lparr>s_current := j\<rparr>\<rparr>))) w"])
    (intro still_intros conn_still_put_in; simp)

lemma results_still [still_intros]:
  "still (handshake_result j)" "still (answer i query_id)"
  by (auto simp: handshake_result_def [abs_def] answer_def [abs_def] still_def)

lemma conn_still_if [still_intros]:
  "conn_still f \<Longrightarrow> conn_still g \<Longrightarrow> conn_still (\<lambda>k. if b k then f k else g k)"
  by (simp add: conn_still_def)

lemma conn_still_same [still_intros]: "conn_still (\<lambda>k. (r k, k))"
  by (simp add: conn_still_def)

lemma begin_close_still [still_intros]: "still (begin_close i)"
  unfolding begin_close_def [abs_def]
proof (rule still_after)
  show "still (on_conn i (\<lambda>k. if a_transport (aio_view k)
      then (Inr (Some (s_current (k_sock k))), put_view (aio_close_transport (aio_view k)) k) else (Inr None, k)))"
    by (intro still_intros conn_still_put) (simp add: aio_close_transport_def)
  fix x :: "nat option res"
  show "still ((\<lambda>r w'. case r of Inr (Some j) \<Rightarrow> (Inr True, set_attempt j ((the_attempt j w')\<lparr>at_closing := True\<rparr>) w')
      | r \<Rightarrow> (Inr False, w')) x)"
    by (intro still_intros still_attempts)
qed

lemma send_request_still [still_intros]: "still (send_request i query_id data)"
  unfolding send_request_def [abs_def]
proof (rule still_after)
  have "conn_still (\<lambda>k. if \<not> aio_alive (aio_view k) then (Inl SocketError, k)
      else (Inr (s_current (k_sock k)), put_view ((aio_view k)\<lparr>a_pending := List.insert query_id (a_pending (aio_view k))\<rparr>) k))"
    by (intro still_intros conn_still_put) simp
  then have "conn_still (\<lambda>k. case aio_request query_id (aio_view k) of Inl e \<Rightarrow> (Inl e, k)
      | Inr c \<Rightarrow> (Inr (s_current (k_sock k)), put_view c k))"
    by (simp add: aio_request_def if_distrib [of "case_sum _ _"] cong: if_cong)
  then show "still (on_conn i (\<lambda>k. case aio_request query_id (aio_view k) of Inl e \<Rightarrow> (Inl e, k)
      | Inr c \<Rightarrow> (Inr (s_current (k_sock k)), put_view c k)))"
    by (rule on_conn_still)
  fix x :: "nat res"
  show "still ((\<lambda>r w'. case r of Inl e \<Rightarrow> (Inl e, w')
      | Inr j \<Rightarrow> (Inr (), set_attempt j ((the_attempt j w')\<lparr>at_sent := at_sent (the_attempt j w') @ [data]\<rparr>) w')) x)"
    by (intro still_intros still_attempts)
qed

subsection \<open>Steps of queries and of the client\<close>

lemma still_pool:
  assumes "\<And>w. world_ok w \<Longrightarrow> p_context (h w) \<noteq> None" and "\<And>w. world_ok w \<Longrightarrow> mapping_ok (h w)" and "\<And>w. world_ok w \<Longrightarrow> set (p_nodes (h w)) \<subseteq> set (nodes w)"
    and "\<And>w. p_aware (h w) = p_aware (w_pool w)" and "\<And>w. p_version (h w) = p_version (w_pool w)"
    and "\<And>w. world_ok w \<Longrightarrow> \<not> version_less (e_affinity_version (p_env (h w))) (newest w)"
  shows "still (\<lambda>w. (r w, w\<lparr>w_pool := h w\<rparr>))"
  unfolding still_def
proof (intro allI impI)
  fix w
  assume w: "world_ok w"
  have "\<forall>k \<in> set (p_nodes (h w)). conn_ok k" using assms(3) [OF w] w by (auto simp: world_ok_def)
  then show "world_ok (snd (r w, w\<lparr>w_pool := h w\<rparr>)) \<and> quiet w (snd (r w, w\<lparr>w_pool := h w\<rparr>))"
    using assms(1,2,6) [OF w] assms(4,5) w by (simp add: world_ok_def nodes_def quiet_def onward_def newest_def)
qed

lemma with_env_still_version:
  assumes "\<And>env. \<not> version_less (e_affinity_version (snd (f env))) (e_affinity_version env)"
  shows "still (with_env f)"
proof -
  let ?env = "\<lambda>w pc. (with_net pc () (p_env (w_pool w)))\<lparr>e_tx := map_option fst (w_contexts w (w_task w))\<rparr>"
  let ?h = "\<lambda>w. case p_context (w_pool w) of None \<Rightarrow> w_pool w
      | Some pc \<Rightarrow> (w_pool w)\<lparr>p_env := (snd (f (?env w pc)))\<lparr>e_tx := None\<rparr>\<rparr>"
  let ?r = "\<lambda>w. case p_context (w_pool w) of None \<Rightarrow> Inl AttributeError | Some pc \<Rightarrow> fst (f (?env w pc))"
  have e: "with_env f = (\<lambda>w. (?r w, w\<lparr>w_pool := ?h w\<rparr>))"
    by (rule ext) (simp add: with_env_def split: option.split prod.split)
  from assms [of "?env w pc" for w pc] show ?thesis
    unfolding e
    by (intro still_pool)
      (auto simp: world_ok_def nodes_def newest_def with_net_def version_less_def split: option.splits)
qed

lemma with_env_still [still_intros]:
  fixes net :: "unit net"
  assumes "in_session net f"
  shows "still (with_env f)"
proof (rule with_env_still_version)
  show "\<not> version_less (e_affinity_version (snd (f env))) (e_affinity_version env)" for env
    using assms by (cases "f env") (simp add: in_session_def session_def)
qed

lemma encode_query_session: "in_session net (\<lambda>env. encode_query q params (on_query_started q env))"
proof (rule in_sessionI)
  fix env :: "'a env" and r env'
  assume "encode_query q params (on_query_started q env) = (r, env')"
  then obtain c where "env' = (on_query_started q env)\<lparr>e_client := c\<rparr> \<or> env' = on_query_started q env"
    by (auto simp: encode_query_def split: sum.splits)
  moreover have "session net (on_query_started q env) ((on_query_started q env)\<lparr>e_client := c\<rparr>)"
    by (rule session_same) auto
  moreover have "session net env (on_query_started q env)" by (rule on_query_session)
  ultimately show "session net env env'" using session_trans by metis
qed

lemma finish_query_still [still_intros]: "still (finish_query q r)"
proof -
  have s: "in_session (\<lambda>data s. (Inl SocketError, ())) (\<lambda>env. (Inr () :: unit res, on_query_finished q r env))"
    by (simp add: in_session_def on_query_session)
  have "still (\<lambda>w. case with_env (\<lambda>env. (Inr () :: unit res, on_query_finished q r env)) w of (x, w') \<Rightarrow> (r, w'))"
    by (rule still_after [OF with_env_still [OF s]]) (rule still_const)
  then show ?thesis by (simp add: finish_query_def [abs_def] split_beta)
qed

lemma query_pieces_still [still_intros]:
  "still (with_env (\<lambda>env. encode_query q params (on_query_started q env)))"
  "still (with_env (receive_response r packet))" "still (with_env (new_query config op following))"
  by (rule with_env_still, rule encode_query_session receive_response_session new_query_session)+

lemma peaceful_case [still_intros]:
  "(\<And>a. peaceful i (f a)) \<Longrightarrow> (\<And>b. peaceful i (g b)) \<Longrightarrow> peaceful i (case s of Inl a \<Rightarrow> f a | Inr b \<Rightarrow> g b)"
  "peaceful i c \<Longrightarrow> (\<And>x. peaceful i (d x)) \<Longrightarrow> peaceful i (case z of None \<Rightarrow> c | Some x \<Rightarrow> d x)"
  "(\<And>a b. peaceful i (h a b)) \<Longrightarrow> peaceful i (case p of (a, b) \<Rightarrow> h a b)"
  by (cases s, simp_all) (cases z, simp_all, cases p, simp)

lemma aio_request_peaceful [still_intros]: "peaceful i (aio_request_task j query_id data)"
  unfolding aio_request_task_def by (intro still_intros)

lemma queries_peaceful [still_intros]:
  "peaceful i (query_task j op following params r post)" "peaceful i (config_query_task j op following params)"
  unfolding query_task_def config_query_task_def perform_task_def by (intro still_intros)+

subsection \<open>Connecting\<close>

text \<open>A client that knows its protocol does not detect it again.\<close>

lemma peaceful_cbind_act:
  assumes "still f" and "\<And>w x. world_ok w \<Longrightarrow> fst (f w) = Inr x \<Longrightarrow> peaceful i (g x)"
  shows "peaceful i (cbind (act f) g)"
proof -
  have "calm (\<lambda>w. world_ok w \<and> w_task w = i) quiet (cbind (Done (fst (f w))) g)" if "world_ok w" for w
    using assms(2) [OF that] by (cases "fst (f w)") (simp_all add: peaceful_def)
  then show ?thesis
    using assms(1) unfolding peaceful_def act_def cbind_simps still_def by (intro calm_Act) (simp add: quiet_def)
qed

lemma close_transport_peaceful [still_intros]:
  "peaceful i (aio_close_transport_task j)" "peaceful i (aio_close_task j)"
  unfolding aio_close_task_def aio_close_transport_task_def by (intro still_intros)+

lemma connect_version_peaceful [still_intros]: "peaceful i (aio_connect_version_task j)"
  unfolding aio_connect_version_task_def by (intro still_intros)

lemma connect_loop_peaceful: "peaceful i (aio_connect_loop_task j False)"
  unfolding aio_connect_loop_task_def
  by (intro still_intros) (auto intro!: still_intros split: py_error.split)

lemma connect_core_peaceful [still_intros]: "peaceful i (aio_connect_core_task j)"
  unfolding aio_connect_core_task_def
proof (rule peaceful_cbind_act)
  show "still (on_conn j begin_connect)" by (intro still_intros)
  fix w x
  assume "world_ok w" "fst (on_conn j begin_connect w) = Inr x"
  then have "\<not> x" by (auto simp: on_conn_def begin_connect_def world_ok_def split: if_splits)
  then show "peaceful i (aio_connect_loop_task j x)" using connect_loop_peaceful by simp
qed

lemma reconnect_peaceful [still_intros]:
  "peaceful i (aio_connect_task j)" "peaceful i (aio_reconnect_task j)"
  unfolding aio_connect_task_def aio_reconnect_task_def silence_def by (intro still_intros)+

subsection \<open>Steps of the client\<close>

definition same_base :: "'s pool \<Rightarrow> 's pool \<Rightarrow> bool" where
  "same_base p p' \<longleftrightarrow> p_nodes p' = p_nodes p \<and> p_context p' = p_context p \<and> p_aware p' = p_aware p \<and>
     p_version p' = p_version p \<and> e_affinity_version (p_env p') = e_affinity_version (p_env p) \<and>
     (mapping_ok p \<longrightarrow> mapping_ok p')"

interpretation base: steady same_base
  by unfold_locales (auto simp: same_base_def)

lemma update_pool_peaceful [still_intros]:
  assumes "\<And>p. same_base p (f p)"
  shows "peaceful i (update_pool f)"
  unfolding update_pool_def
  using assms by (intro still_intros still_pool) (auto simp: same_base_def world_ok_def nodes_def newest_def version_less_def)

lemma pool_task_peaceful [still_intros]:
  assumes "keeps same_base f"
  shows "peaceful i (pool_task f)"
proof -
  let ?h = "\<lambda>w. case f (w_pool w) of None \<Rightarrow> w_pool w | Some (r, p) \<Rightarrow> p"
  let ?r = "\<lambda>w. case f (w_pool w) of None \<Rightarrow> Inl RuntimeError | Some (r, p) \<Rightarrow> r"
  have e: "(\<lambda>w. case f (w_pool w) of None \<Rightarrow> (Inl RuntimeError, w) | Some (r, p) \<Rightarrow> (r, w\<lparr>w_pool := p\<rparr>)) =
      (\<lambda>w. (?r w, w\<lparr>w_pool := ?h w\<rparr>))"
    by (rule ext) (simp split: option.split prod.split)
  have b: "same_base (w_pool w) (?h w)" for w
    using assms base.steady_refl by (auto simp: keeps_def split: option.split)
  show ?thesis
    unfolding pool_task_def e
    using b by (intro still_intros still_pool) (auto simp: same_base_def world_ok_def nodes_def newest_def version_less_def)
qed

lemma cache_partition_mapping_base: "cache_partition_mapping cid p = (m, p') \<Longrightarrow> same_base p p'"
  by (fastforce simp: cache_partition_mapping_def key_get_def same_base_def mapping_ok_def sorted_wrt_append find_None_iff
      split: option.splits)

lemma same_base_client [simp]: "same_base p (p\<lparr>p_env := (p_env p)\<lparr>e_client := c\<rparr>\<rparr>)"
  by (simp add: same_base_def)

lemma best_node_base: "keeps same_base (best_node_of_key i cid key key_hint)"
  unfolding keeps_def
proof (intro allI impI)
  fix p r p'
  assume a: "best_node_of_key i cid key key_hint p = Some (r, p')"
  obtain m p1 where m: "cache_partition_mapping cid p = (m, p1)" by (cases "cache_partition_mapping cid p")
  have "same_base p1 p'"
    using a m base.steady_refl by (auto simp: best_node_of_key_def Let_def split: option.splits if_splits sum.splits)
  with cache_partition_mapping_base [OF m] show "same_base p p'" by (rule base.steady_trans)
qed

lemma new_cache_base [still_intros]: "keeps same_base (new_cache name ep)"
  by (auto simp: keeps_def new_cache_def register_cache_def same_base_def mapping_ok_def key_put_keys
      split: sum.splits option.splits)

lemma get_cache_base [still_intros]: "keeps same_base (get_cache settings)"
proof -
  have "keeps same_base (case x of (name, s) \<Rightarrow>
      case s of None \<Rightarrow> new_cache name None | Some d \<Rightarrow> preturn (Inl ParameterError))" for x
    by (auto intro: new_cache_base base.keeps_return split: prod.split option.split)
  then show ?thesis unfolding get_cache_def by (intro base.keeps_bind base.keeps_return)
qed

lemma pool_unwrap_base [still_intros]: "keeps same_base (pool_unwrap v)"
  by (auto simp: keeps_def pool_unwrap_def same_base_def split: sum.splits prod.splits)

lemma unwrap_result_base [still_intros]: "keeps same_base (unwrap_result result)"
  unfolding unwrap_result_def
  by (auto intro!: base.keeps_bind base.keeps_return pool_unwrap_base split: wval.split)

lemma unwrap_values_base [still_intros]: "keeps same_base (unwrap_values kvs :: ('s, (pyval \<times> pyval) list) prog)"
proof (induction kvs)
  case (Cons x kvs)
  obtain k v where x: "x = (k, v)" by (cases x)
  let ?rest = "unwrap_values kvs :: ('s, (pyval \<times> pyval) list) prog"
  have "keeps same_base (pbind (pool_unwrap v) (\<lambda>x. pbind ?rest (\<lambda>ys. preturn (Inr ((k, x) # ys)))))"
    by (intro base.keeps_bind base.keeps_return pool_unwrap_base Cons.IH)
  with x show ?case by (simp add: keeps_def)
qed (simp add: keeps_def base.steady_refl)

lemma unwrap_all_values_base [still_intros]: "keeps same_base (unwrap_all_values result)"
  unfolding unwrap_all_values_def
  by (auto intro!: base.keeps_bind base.keeps_return unwrap_values_base split: wval.split pyval.split)

lemma best_node_of_key_peaceful [still_intros]: "peaceful i (aio_best_node_of_key j cid key key_hint)"
  using pool_task_peaceful [OF best_node_base] by (simp add: aio_best_node_of_key_def pool_task_def)

lemma client_act_peaceful [still_intros]: "peaceful i (client_act f)"
proof -
  have "client_act f = pool_task (\<lambda>p. case f (e_client (p_env p)) of Inl e \<Rightarrow> Some (Inl e, p)
      | Inr c \<Rightarrow> Some (Inr (), p\<lparr>p_env := (p_env p)\<lparr>e_client := c\<rparr>\<rparr>))"
    by (auto simp: client_act_def pool_task_def the_client_def intro!: arg_cong [where f = act] split: sum.split)
  moreover have "keeps same_base (\<lambda>p :: aio_sock pool. case f (e_client (p_env p)) of Inl e \<Rightarrow> Some (Inl e, p)
      | Inr c \<Rightarrow> Some (Inr (), p\<lparr>p_env := (p_env p)\<lparr>e_client := c\<rparr>\<rparr>))"
    by (auto simp: keeps_def same_base_def split: sum.splits)
  ultimately show ?thesis by (simp add: pool_task_peaceful)
qed

lemma pick_one_still [still_intros]:
  "still (\<lambda>w. case pick_one w (alive_nodes (w_pool w)) of (x, w') \<Rightarrow> (Inr x, w'))"
  by (simp add: still_def pick_one_def Let_def world_ok_def nodes_def quiet_def onward_def newest_def version_less_def)

lemma choose_alive_peaceful [still_intros]: "peaceful i c \<Longrightarrow> peaceful i (choose_alive c)"
  unfolding choose_alive_def by (intro still_intros)

lemma peaceful_gather_map [still_intros]:
  "(\<And>x. peaceful i (f x)) \<Longrightarrow> peaceful i (gather_all (map f xs))"
  by (rule peaceful_gather) auto

lemma get_random_node_peaceful [still_intros]: "peaceful i aio_get_random_node"
  unfolding aio_get_random_node_def by (intro still_intros)

lemma try_nodes_peaceful [still_intros]: "peaceful i (try_nodes js)"
  by (induction js) (auto intro!: still_intros split: sum.split)

lemma random_node_peaceful [still_intros]: "peaceful i aio_random_node"
  unfolding aio_random_node_def by (intro still_intros) (simp add: same_base_def)

lemma aio_client_close_peaceful [still_intros]: "peaceful i aio_client_close"
proof -
  have "still (\<lambda>w. (Inr (), w\<lparr>w_pool := (w_pool w)\<lparr>p_nodes := []\<rparr>\<rparr>))"
    by (rule still_pool) (auto simp: world_ok_def newest_def version_less_def)
  then show ?thesis unfolding aio_client_close_def update_pool_def by (intro still_intros)
qed

lemma aio_status_peaceful [still_intros]: "peaceful i c \<Longrightarrow> peaceful i (aio_status exc c)"
  unfolding aio_status_def by (intro still_intros)

text \<open>The operations of the API, performed by queries over one node.\<close>

lemmas performed_defs =
  operation_defs get_binary_type_def put_binary_query_def tx_start_query_def tx_end_query_def
  cluster_get_state_query_def cluster_set_state_query_def cache_get_configuration_def
  scan_def scan_cursor_get_page_def vector_def vector_cursor_get_page_def
  sql_fields_def sql_fields_cursor_get_page_def resource_close_def cursor_query_def

lemma get_binary_type_peaceful [still_intros]: "peaceful i (aio_get_binary_type binary_type)"
  unfolding aio_get_binary_type_def performed_defs by (intro still_intros)

lemma put_binary_type_peaceful [still_intros]: "peaceful i (aio_put_binary_type name key enum schema)"
  unfolding aio_put_binary_type_def performed_defs by (intro still_intros)

lemma get_affinity_peaceful [still_intros]: "peaceful i (aio_get_affinity n j caches)"
proof (induction n)
  case (Suc n)
  have "peaceful i (partitions_task j (VList caches))"
    unfolding partitions_task_def partitions_query_def by (intro still_intros)
  then show ?case by (auto intro!: still_intros Suc split: prod.split option.split)
qed simp

lemma get_cache_names_peaceful [still_intros]: "peaceful i aio_get_cache_names"
  unfolding aio_get_cache_names_def performed_defs by (intro still_intros)

subsection \<open>Events\<close>

lemma process_packet_done: "done_ok c \<Longrightarrow> done_ok ((process_packet packet c)\<lparr>a_buffer := b\<rparr>)"
  by (auto simp: done_ok_def process_packet_def process_message_def Let_def split: option.splits)

lemma process_buffer_done:
  assumes "process_buffer c = Some c'" and "done_ok c"
  shows "done_ok c'"
proof -
  let ?P = "\<lambda>c c'. done_ok c \<longrightarrow> done_ok c'"
  have "?P c c'"
  proof (rule process_buffer.raw_induct [OF _ assms(1), of ?P], goal_cases)
    case (1 loop c c')
    then show ?case using process_packet_done by (auto split: if_splits simp del: process_packet_buffer)
  qed
  with assms(2) show ?thesis by simp
qed

lemma on_conn_effect:
  assumes "world_ok w" and "conn_still f"
  shows "world_ok (snd (on_conn i f w))" "quiet w (snd (on_conn i f w))"
  using on_conn_still [OF assms(2), of i] assms(1) by (simp_all add: still_def)

lemma set_attempt_effect [simp]:
  "world_ok (set_attempt j a w) = world_ok w" "quiet v w \<Longrightarrow> quiet v (set_attempt j a w)"
  "world_ok (w\<lparr>w_background := js\<rparr>) = world_ok w" "quiet v w \<Longrightarrow> quiet v (w\<lparr>w_background := js\<rparr>)"
  by (simp_all add: set_attempt_def world_ok_def nodes_def quiet_def onward_def newest_def)

lemma lose_still [still_intros]: "conn_still (lose j shaken)"
proof -
  let ?c = "\<lambda>k. (fst (process_connection_lost shaken (aio_view k)))
      \<lparr>a_transport := a_transport (aio_view k) \<and> s_current (k_sock k) \<noteq> j\<rparr>"
  have l: "lose j shaken k = (Inr b, put_view (?c k) k) \<or>
      lose j shaken k = (Inr b, on_connection_lost False (put_view (?c k) k))" if "b \<longleftrightarrow> shaken \<and> \<not> a_closed (aio_view k)" for k b
    using that by (simp add: lose_def process_connection_lost_def Let_def)
  have "conn_ok (put_view (?c k) k)" if "conn_ok k" for k
    by (rule put_view_ok, rule done_ok_same [of _ "aio_view k"])
      (use that in \<open>simp_all add: process_connection_lost_def conn_ok_def\<close>)
  moreover have "conn_ok (on_connection_lost False k) = conn_ok k" for k
    by (rule conn_ok_frame) simp_all
  ultimately have "conn_ok (snd (lose j shaken k)) \<and> k_context (snd (lose j shaken k)) = k_context k" if "conn_ok k" for k
    using l [OF refl, of k] that by (elim disjE) simp_all
  then show ?thesis by (simp add: conn_still_def)
qed

lemma connection_lost_effect:
  assumes "world_ok w"
  shows "world_ok (connection_lost j e w)" "quiet w (connection_lost j e w)"
proof -
  have f: "conn_still (lose j shaken)" for shaken by (rule lose_still)
  show "world_ok (connection_lost j e w)" "quiet w (connection_lost j e w)"
    using on_conn_effect [OF assms f] by (simp_all add: connection_lost_def Let_def split_beta)
qed

lemma connection_made_effect:
  assumes "world_ok w"
  shows "world_ok (connection_made j w)" "quiet w (connection_made j w)"
proof -
  have "conn_still handshake_request" by (intro still_intros)
  from on_conn_effect [OF assms this] show "world_ok (connection_made j w)" "quiet w (connection_made j w)"
    by (simp_all add: connection_made_def Let_def split_beta split: sum.split)
qed

lemma receive_data_effect:
  assumes "receive_data j data w = Some w'" and "world_ok w"
  shows "world_ok w' \<and> quiet w w'"
proof (cases "length (nodes w) \<le> at_node (the_attempt j w)")
  case True
  with assms show ?thesis by (auto simp: receive_data_def Let_def)
next
  case False
  define a i where "a = the_attempt j w" and "i = at_node a"
  from False assms(1) obtain c where c: "data_received data (protocol_view a (nodes w ! i)) = Some c"
    by (auto simp: receive_data_def Let_def a_def i_def split: option.splits)
  have "done_ok (s_conn (k_sock (nodes w ! i)))"
    using False assms(2) by (simp add: world_ok_def conn_ok_def a_def i_def)
  then have "done_ok c"
    using c unfolding data_received_def
    by (elim process_buffer_done) (simp add: done_ok_def protocol_view_def aio_view_def)
  then have "conn_still (\<lambda>k. (Inr () :: unit res, put_view c k))" by (simp add: conn_still_def put_view_ok)
  note finish = on_conn_effect [OF _ this]
  have p: "conn_still (parse_handshake packet)" for packet by (intro still_intros)
  define a1 where "a1 = a\<lparr>at_buffer := a_buffer c\<rparr>"
  from assms(1) False c consider
      e w1 packet where "on_conn i (parse_handshake packet) w = (Inl e, w1)"
        "w' = connection_lost j e (set_attempt j (a\<lparr>at_buffer := at_buffer a @ data\<rparr>) w1)"
    | response w1 packet where "on_conn i (parse_handshake packet) w = (Inr response, w1)"
        "w' = set_attempt j (a1\<lparr>at_handshake := Some (Inr response)\<rparr>) (snd (on_conn i (\<lambda>k. (Inr (), put_view c k)) w1))"
    | h where "w' = set_attempt j (a1\<lparr>at_handshake := h\<rparr>) (snd (on_conn i (\<lambda>k. (Inr (), put_view c k)) w))"
    by (auto simp: receive_data_def Let_def a_def i_def a1_def split: option.splits sum.splits prod.splits)
  then show ?thesis
  proof cases
    case 1
    then have "world_ok w1" "quiet w w1" using on_conn_effect [OF assms(2) p, of i packet] by simp_all
    then have "world_ok (set_attempt j (a\<lparr>at_buffer := at_buffer a @ data\<rparr>) w1)"
      "quiet w (set_attempt j (a\<lparr>at_buffer := at_buffer a @ data\<rparr>) w1)" by simp_all
    with connection_lost_effect [OF this(1), of j e] show ?thesis unfolding 1(2) by (blast intro: quiet_trans)
  next
    case 2
    then have "world_ok w1" "quiet w w1" using on_conn_effect [OF assms(2) p, of i packet] by simp_all
    then show ?thesis using finish [of w1 i] 2(2) quiet_trans by simp
  next
    case 3
    then show ?thesis using finish [OF assms(2), of i] by simp
  qed
qed

lemma happen_effect:
  assumes "happen ev w = Some w'" and "world_ok w"
  shows "world_ok w' \<and> quiet w w'"
proof (cases ev)
  case (Data j bs)
  with assms(1) have "receive_data j bs w = Some w'" by (simp add: happen_def split: if_splits)
  then show ?thesis using assms(2) by (rule receive_data_effect)
qed (use assms connection_made_effect connection_lost_effect in \<open>auto simp: happen_def split: if_splits\<close>)

end
