(* ===== verification/AioSystem.thy ===== *)
theory AioSystem
  imports AioSteps
begin

section \<open>Everything that can happen to an asynchronous client\<close>

text \<open>
  The tasks of an application over one client that has connected, run by the event loop with whatever
  the network does: what a task may rely on and what it guarantees, that every operation of the
  client keeps to it, and what follows for all interleavings.
\<close>

subsection \<open>The system\<close>

definition enter_task :: "nat \<Rightarrow> world \<Rightarrow> world" where
  "enter_task i w = w\<lparr>w_task := i\<rparr>"

definition loop_event :: "world \<Rightarrow> world \<Rightarrow> bool" where
  "loop_event w w' \<longleftrightarrow> (\<exists>ev. happen ev w = Some w')"

text \<open>A scheduled reconnection; nobody waits for its outcome.\<close>

definition background_task :: "nat \<Rightarrow> wval task" where
  "background_task i = followed_by (aio_reconnect_task i) (\<lambda>r. Done (Inr (WV VNone)))"

definition start_background :: "world \<Rightarrow> (wval task \<times> world) option" where
  "start_background w =
     (case w_background w of [] \<Rightarrow> None | i # js \<Rightarrow> Some (background_task i, w\<lparr>w_background := js\<rparr>))"

subsection \<open>Relying and guaranteeing\<close>

text \<open>
  The steps of task \<open>i\<close> leave the transactions and locks of the others alone, and change the version
  of the partition mapping only while it holds the lock for that.
\<close>

definition allowed :: "nat \<Rightarrow> world \<Rightarrow> world \<Rightarrow> bool" where
  "allowed i w w' \<longleftrightarrow> onward w w' \<and> w_task w' = w_task w \<and>
     (\<forall>j. j \<noteq> i \<longrightarrow> w_contexts w' j = w_contexts w j \<and>
        (w_affinity_mux w' = Some j) = (w_affinity_mux w = Some j) \<and>
        (w_registry_mux w' = Some j) = (w_registry_mux w = Some j)) \<and>
     (p_version (w_pool w') \<noteq> p_version (w_pool w) \<longrightarrow> w_affinity_mux w = Some i)"

definition rely :: "nat \<Rightarrow> world \<Rightarrow> world \<Rightarrow> bool" where
  "rely j w w' \<longleftrightarrow> onward w w' \<and> w_contexts w' j = w_contexts w j \<and>
     (w_affinity_mux w' = Some j) = (w_affinity_mux w = Some j) \<and>
     (w_registry_mux w' = Some j) = (w_registry_mux w = Some j) \<and>
     (w_affinity_mux w = Some j \<longrightarrow> p_version (w_pool w') = p_version (w_pool w))"

lemma rely_refl [simp]: "rely j w w"
  by (simp add: rely_def)

lemma rely_trans: "rely j w w1 \<Longrightarrow> rely j w1 w2 \<Longrightarrow> rely j w w2"
  using onward_trans unfolding rely_def by metis

lemma allowed_rely: "allowed i w w' \<Longrightarrow> i \<noteq> j \<Longrightarrow> rely j w w'"
  unfolding allowed_def rely_def by auto

lemma quiet_allowed: "quiet w w' \<Longrightarrow> allowed i w w'"
  by (simp add: quiet_def allowed_def)

lemma allowed_refl [simp]: "allowed i w w"
  by (simp add: quiet_allowed)

lemma quiet_rely: "quiet w w' \<Longrightarrow> rely j w w'"
  by (simp add: quiet_def rely_def)

text \<open>A task holds none of the locks, or one of them.\<close>

definition unlocked :: "nat \<Rightarrow> world \<Rightarrow> bool" where
  "unlocked i w \<longleftrightarrow> w_affinity_mux w \<noteq> Some i \<and> w_registry_mux w \<noteq> Some i"

definition in_affinity :: "nat \<Rightarrow> world \<Rightarrow> bool" where
  "in_affinity i w \<longleftrightarrow> w_affinity_mux w = Some i \<and> w_registry_mux w \<noteq> Some i"

definition in_registry :: "nat \<Rightarrow> world \<Rightarrow> bool" where
  "in_registry i w \<longleftrightarrow> w_registry_mux w = Some i \<and> w_affinity_mux w \<noteq> Some i"

lemmas lock_defs = unlocked_def in_affinity_def in_registry_def

definition heeds :: "nat \<Rightarrow> (world \<Rightarrow> bool) \<Rightarrow> (world \<Rightarrow> bool) \<Rightarrow> 'a task \<Rightarrow> bool" where
  "heeds i A B =
     safe (\<lambda>w. world_ok w \<and> w_task w = i) (rely i) (enter_task i) (allowed i) (\<lambda>r. B) A"

abbreviation heeding :: "nat \<Rightarrow> 'a task \<Rightarrow> bool" where
  "heeding i \<equiv> heeds i (unlocked i) (unlocked i)"

named_theorems heed_intros

definition lock_state :: "nat \<Rightarrow> (world \<Rightarrow> bool) \<Rightarrow> bool" where
  "lock_state i A \<longleftrightarrow> A = unlocked i \<or> A = in_affinity i \<or> A = in_registry i"

lemma lock_states [heed_intros, simp]:
  "lock_state i (unlocked i)" "lock_state i (in_affinity i)" "lock_state i (in_registry i)"
  by (simp_all add: lock_state_def)

lemma heeds_peaceful:
  assumes "peaceful i c" and "lock_state i A"
  shows "heeds i A A c"
  unfolding heeds_def
proof (rule safe_calm [OF assms(1) [unfolded peaceful_def]])
  show "allowed i w w'" if "quiet w w'" for w w' using that by (rule quiet_allowed)
  show "A w'" if "A w" "quiet w w'" for w w' using assms(2) that by (auto simp: lock_state_def lock_defs quiet_def)
  show "A (enter_task i w')" if "A w" "rely i w w'" for w w'
    using assms(2) that by (auto simp: lock_state_def lock_defs rely_def enter_task_def)
qed

lemma heeds_Done [heed_intros]: "heeds i A A (Done r)"
  by (simp add: heeds_def)

lemma heeds_followed_by:
  "heeds i A B m \<Longrightarrow> (\<And>r. heeds i B C (f r)) \<Longrightarrow> heeds i A C (followed_by m f)"
  unfolding heeds_def by (rule safe_followed_by)

lemmas [heed_intros] = heeds_followed_by [where A = A and B = A and C = A for A]

lemma heeds_cbind [heed_intros]:
  "heeds i A A m \<Longrightarrow> (\<And>x. heeds i A A (f x)) \<Longrightarrow> heeds i A A (cbind m f)"
  unfolding cbind_def by (rule heeds_followed_by) (auto intro: heeds_Done split: sum.split)

lemma heeds_inspect [heed_intros]:
  assumes "\<And>w. world_ok w \<Longrightarrow> A w \<Longrightarrow> heeds i A B (f w)"
  shows "heeds i A B (inspect f)"
  unfolding heeds_def by (rule safe_inspect) (use assms in \<open>auto simp: heeds_def intro: safe_weaken\<close>)

lemma heeds_repeat [heed_intros]:
  assumes "\<And>x. heeds i A A (body x)"
  shows "heeds i A A (repeat body x)"
  unfolding heeds_def
  by (rule safe_repeat [where each = "\<lambda>x. A"])
    (auto intro!: safe_post [OF assms [unfolded heeds_def]] simp: loop_post_def split: sum.split)

lemma heeds_act:
  assumes "\<And>w. world_ok w \<Longrightarrow> w_task w = i \<Longrightarrow> A w \<Longrightarrow>
    world_ok (snd (f w)) \<and> allowed i w (snd (f w)) \<and> B (snd (f w))"
  shows "heeds i A B (act f)"
  unfolding heeds_def by (rule safe_act) (use assms in \<open>fastforce simp: allowed_def\<close>)

lemma heeds_case [heed_intros]:
  "(\<And>a. heeds i A B (f a)) \<Longrightarrow> (\<And>b. heeds i A B (g b)) \<Longrightarrow> heeds i A B (case s of Inl a \<Rightarrow> f a | Inr b \<Rightarrow> g b)"
  "heeds i A B c \<Longrightarrow> (\<And>x. heeds i A B (d x)) \<Longrightarrow> heeds i A B (case z of None \<Rightarrow> c | Some x \<Rightarrow> d x)"
  "(\<And>a b. heeds i A B (h a b)) \<Longrightarrow> heeds i A B (case p of (a, b) \<Rightarrow> h a b)"
  "heeds i A B c \<Longrightarrow> heeds i A B c' \<Longrightarrow> heeds i A B (if t then c else c')"
  by (cases s, simp_all) (cases z, simp_all, cases p, simp)

subsection \<open>Locks\<close>

lemma world_ok_locks [simp]:
  "world_ok (w\<lparr>w_affinity_mux := x\<rparr>) = world_ok w" "world_ok (w\<lparr>w_registry_mux := x\<rparr>) = world_ok w"
  "world_ok (w\<lparr>w_task := j\<rparr>) = world_ok w" "world_ok (w\<lparr>w_contexts := cs\<rparr>) = world_ok w"
  by (simp_all add: world_ok_def nodes_def)

lemma onward_locks [simp]:
  "onward w (w\<lparr>w_affinity_mux := x\<rparr>)" "onward w (w\<lparr>w_registry_mux := x\<rparr>)" "onward w (w\<lparr>w_task := j\<rparr>)"
  "onward w (w\<lparr>w_contexts := cs\<rparr>)"
  by (simp_all add: onward_def newest_def version_less_def)

lemma unlocked_rely: "unlocked i w \<Longrightarrow> rely i w w' \<Longrightarrow> unlocked i (enter_task i w')"
  by (simp add: lock_defs rely_def enter_task_def)

lemma with_lock_heeding:
  assumes take: "\<And>w. world_ok w \<Longrightarrow> w_task w = i \<Longrightarrow> unlocked i w \<Longrightarrow> \<not> get w \<Longrightarrow>
      world_ok (put True w) \<and> allowed i w (put True w) \<and> B (put True w)"
    and release: "\<And>w. world_ok w \<Longrightarrow> w_task w = i \<Longrightarrow> B w \<Longrightarrow>
      world_ok (put False w) \<and> allowed i w (put False w) \<and> unlocked i (put False w)"
    and "heeds i B B body" and enter: "\<And>w. get (enter_task i w) = get w"
  shows "heeding i (with_lock get put body)"
  unfolding with_lock_def heeds_def
proof (rule safe_cbind [where B = "\<lambda>u. B"])
  let ?I = "\<lambda>w. world_ok w \<and> w_task w = i"
  let ?Q = "\<lambda>r. case r of Inl e \<Rightarrow> unlocked i | Inr x \<Rightarrow> B"
  let ?take = "act (\<lambda>w. (Inr (), put True w)) :: unit task"
  have t: "safe ?I (rely i) (enter_task i) (allowed i) ?Q (\<lambda>w. unlocked i w \<and> \<not> get w) ?take"
    by (rule safe_act) (use take in \<open>auto simp: allowed_def\<close>)
  show "safe ?I (rely i) (enter_task i) (allowed i) ?Q (unlocked i) (acquire get put)"
    unfolding acquire_def Let_def
  proof (rule safe_inspect, intro conjI)
    fix w
    assume w: "unlocked i w"
    show "safe ?I (rely i) (enter_task i) (allowed i) ?Q (\<lambda>w'. w' = w) (if get w then Await (\<lambda>w. \<not> get w) ?take else ?take)"
    proof (cases "get w")
      case True
      have "safe ?I (rely i) (enter_task i) (allowed i) ?Q
          (\<lambda>w'. \<exists>v v'. ?I v \<and> v = w \<and> rely i v v' \<and> \<not> get v' \<and> w' = enter_task i v') ?take"
      proof (rule safe_weaken [OF t])
        fix w'
        assume "\<exists>v v'. ?I v \<and> v = w \<and> rely i v v' \<and> \<not> get v' \<and> w' = enter_task i v'"
        then obtain v' where "rely i w v'" "\<not> get v'" "w' = enter_task i v'" by blast
        then show "unlocked i w' \<and> \<not> get w'" using unlocked_rely [OF w] enter by simp
      qed
      with True show ?thesis by (simp add: safe_Await)
    next
      case False
      have "safe ?I (rely i) (enter_task i) (allowed i) ?Q (\<lambda>w'. w' = w) ?take"
        by (rule safe_weaken [OF t]) (use w False in simp)
      with False show ?thesis by simp
    qed
  qed simp
  fix u :: unit
  have "heeds i B (unlocked i) (followed_by body (\<lambda>r. act (\<lambda>w. (r, put False w))))"
    by (rule heeds_followed_by [OF assms(3)], rule heeds_act) (use release in simp)
  then show "safe ?I (rely i) (enter_task i) (allowed i) (\<lambda>r. unlocked i) B (followed_by body (\<lambda>r. act (\<lambda>w. (r, put False w))))"
    by (simp add: heeds_def)
qed

lemma with_mux_heeding [heed_intros]:
  "heeds i (in_affinity i) (in_affinity i) body \<Longrightarrow> heeding i (with_affinity_mux body)"
  "heeds i (in_registry i) (in_registry i) body' \<Longrightarrow> heeding i (with_registry_mux body')"
  unfolding with_affinity_mux_def with_registry_mux_def
  by (erule with_lock_heeding [rotated 2]; auto simp: lock_defs allowed_def enter_task_def)+

subsection \<open>Operations\<close>

lemmas heed_leaves [heed_intros] =
  queries_peaceful [THEN heeds_peaceful] random_node_peaceful [THEN heeds_peaceful]
  best_node_of_key_peaceful [THEN heeds_peaceful] client_act_peaceful [THEN heeds_peaceful]
  pool_task_peaceful [THEN heeds_peaceful] get_binary_type_peaceful [THEN heeds_peaceful]
  put_binary_type_peaceful [THEN heeds_peaceful] get_affinity_peaceful [THEN heeds_peaceful]
  get_cache_names_peaceful [THEN heeds_peaceful] aio_client_close_peaceful [THEN heeds_peaceful]
  with_env_still [THEN peaceful_act, THEN heeds_peaceful]

lemma heeds_status [heed_intros]: "heeds i A A c \<Longrightarrow> heeds i A A (aio_status exc c)"
  unfolding aio_status_def by (intro heed_intros)

lemma query_binary_type_heeding [heed_intros]: "heeding i (aio_query_binary_type type_id schema)"
  unfolding aio_query_binary_type_def found_or_def Let_def by (intro heed_intros)

lemma register_binary_type_heeding [heed_intros]: "heeding i (aio_register_binary_type cls key)"
  unfolding aio_register_binary_type_def by (intro heed_intros)

text \<open>Installing new partition mappings needs the lock.\<close>

lemma install_affinity_heeds [heed_intros]: "heeds i (in_affinity i) (in_affinity i) (act (install_affinity full))"
  by (rule heeds_act)
    (simp add: install_affinity_def update_affinity_def world_ok_def nodes_def mapping_ok_def fold_key_put_keys
      allowed_def onward_def newest_def version_less_def in_affinity_def)

lemma refresh_heeds [heed_intros]: "heeds i (in_affinity i) (in_affinity i) (aio_refresh j)"
  unfolding aio_refresh_def Let_def by (intro heed_intros)

lemma get_best_node_heeding [heed_intros]: "heeding i (aio_get_best_node cid key key_hint)"
  unfolding aio_get_best_node_def by (intro heed_intros)

lemma best_node_heeding [heed_intros]: "heeding i (aio_cache_best_node co key key_hint)"
  unfolding aio_cache_best_node_def by (intro heed_intros)

lemma any_node_op_heeding [heed_intros]:
  "(\<And>j. heeding i (f (query_task j) (co_info co))) \<Longrightarrow> heeding i (aio_any_node_op co f)"
  unfolding aio_any_node_op_def by (intro heed_intros)

lemma keyed_op_heeding [heed_intros]:
  "(\<And>j k h. heeding i (f (query_task j) (co_info co) k h)) \<Longrightarrow> heeding i (aio_keyed_op co key key_hint f)"
  unfolding aio_keyed_op_def by (intro heed_intros)

lemma unwrap_result_heeding [heed_intros]: "heeding i (aio_unwrap_result result)"
  unfolding aio_unwrap_result_def by (intro heed_intros unwrap_result_base)

lemma unwrap_all_heeding [heed_intros]: "heeding i (pool_task (unwrap_all_values result))"
  by (intro heed_intros unwrap_all_values_base)

lemmas aio_op_defs =
  aio_get_def aio_put_def aio_replace_def aio_clear_key_def aio_contains_key_def aio_get_and_put_def
  aio_get_and_put_if_absent_def aio_put_if_absent_def aio_get_and_remove_def aio_get_and_replace_def
  aio_remove_key_def aio_remove_if_equals_def aio_replace_if_equals_def aio_get_all_def aio_put_all_def
  aio_clear_keys_def aio_contains_keys_def aio_remove_keys_def aio_get_size_def aio_clear_def
  aio_remove_all_def aio_destroy_def aio_get_state_def aio_set_state_def

text \<open>The operations of a cache and of the cluster, with a value as their result.\<close>

inductive cache_coroutine :: "wval task \<Rightarrow> bool" where
  "cache_coroutine (aio_get co k h)"
| "cache_coroutine (aio_put co k v h vh)"
| "cache_coroutine (aio_replace co k v h vh)"
| "cache_coroutine (aio_clear_key co k h)"
| "cache_coroutine (aio_contains_key co k h)"
| "cache_coroutine (aio_get_and_put co k v h vh)"
| "cache_coroutine (aio_get_and_put_if_absent co k v h vh)"
| "cache_coroutine (aio_put_if_absent co k v h vh)"
| "cache_coroutine (aio_get_and_remove co k h)"
| "cache_coroutine (aio_get_and_replace co k v h vh)"
| "cache_coroutine (aio_remove_key co k h)"
| "cache_coroutine (aio_remove_if_equals co k s h sh)"
| "cache_coroutine (aio_replace_if_equals co k s v h sh vh)"
| "cache_coroutine (aio_get_all co ks)"
| "cache_coroutine (aio_put_all co kvs)"
| "cache_coroutine (aio_clear_keys co ks)"
| "cache_coroutine (aio_contains_keys co ks)"
| "cache_coroutine (aio_remove_keys co ks)"
| "cache_coroutine (aio_get_size co modes)"
| "cache_coroutine (aio_clear co ks)"
| "cache_coroutine (aio_remove_all co)"
| "cache_coroutine (aio_destroy co)"
| "cache_coroutine aio_get_state"
| "cache_coroutine (aio_set_state state)"
| "cache_coroutine aio_get_cache_names"
| "cache_coroutine (aio_get_binary_type name)"
| "cache_coroutine (aio_put_binary_type n key enum schema)"

lemma cluster_supported_heeding [heed_intros]: "heeding i cluster_supported"
proof -
  have "in_session (\<lambda>data s. (Inl SocketError, ())) (\<lambda>env :: unit env.
      (if is_cluster_api_supported (e_protocol env) then Inr () else Inl NotSupportedByClusterError, env))"
    by (simp add: in_session_def)
  then show ?thesis unfolding cluster_supported_def by (intro heed_intros)
qed

lemma cache_coroutine_heeding: "cache_coroutine c \<Longrightarrow> heeding i c"
  by (induction rule: cache_coroutine.induct; (unfold aio_op_defs performed_defs)?; intro heed_intros)

lemma get_cache_heeding [heed_intros]: "heeding i (aio_get_cache settings)" "heeding i (pool_task (new_cache name ep))"
  unfolding aio_get_cache_def by (intro heed_intros get_cache_base new_cache_base)+

lemma create_config_heeding [heed_intros]: "heeding i (create_config_task op_code cache_props j)"
proof -
  have "in_session (\<lambda>data s. (Inl SocketError, ())) (\<lambda>env :: unit env. (collect_props (e_protocol env) 0 cache_props, env))"
    by (simp add: in_session_def)
  then show ?thesis unfolding create_config_task_def by (intro heed_intros)
qed

lemma create_cache_heeding [heed_intros]:
  "heeding i (aio_create_cache settings)" "heeding i (aio_get_or_create_cache settings)"
  unfolding aio_create_cache_def aio_get_or_create_cache_def aio_create_with_def performed_defs
  by (intro heed_intros)+

lemma settings_heeding [heed_intros]: "heeding i (aio_settings co)"
proof -
  have "in_session (\<lambda>data s. (Inl SocketError, ())) (\<lambda>env :: unit env. (Inr (e_protocol env) :: protocol_context res, env))"
    by (simp add: in_session_def)
  moreover have "heeding i (Done (case r_value r of WCodes s \<Rightarrow> Inr (s, co\<lparr>co_settings := Some s\<rparr>) | _ \<Rightarrow> Inl TypeError))" for r
    by (rule heeds_Done)
  ultimately show ?thesis unfolding aio_settings_def performed_defs by (intro heed_intros)
qed

subsection \<open>Cursors and transactions\<close>

lemma enter_cursor_heeding [heed_intros]: "(\<And>j. heeding i (query j)) \<Longrightarrow> heeding i (enter_cursor query init st)"
  unfolding enter_cursor_def by (intro heed_intros)

lemma cursor_enter_heeding [heed_intros]:
  "heeding i (aio_scan_enter info page_size partitions local st)"
  "heeding i (aio_vector_enter info page_size type_name field clause_vector k threshold st')"
  "heeding i (aio_fields_enter info a st'')"
  unfolding aio_scan_enter_def aio_vector_enter_def aio_fields_enter_def performed_defs by (intro heed_intros)+

lemma next_item_heeding [heed_intros]:
  "(\<And>j cid. heeding i (get_page j cid)) \<Longrightarrow> heeding i (next_item get_page page_items j cu)"
  unfolding next_item_def by (auto intro!: heed_intros split: list.split)

lemma aio_next_heeding [heed_intros]:
  assumes "\<And>j cu. heeding i (item j cu)" and "\<And>x. heeding i (unwrap_item x)"
  shows "heeding i (aio_next uninitialized item unwrap_item st)"
  unfolding aio_next_def Let_def by (intro heed_intros assms)

lemma unwrap_binary_heeding [heed_intros]: "heeding i (aio_unwrap_binary v)"
  unfolding aio_unwrap_binary_def by (intro heed_intros pool_unwrap_base)

lemma unwrap_each_heeding [heed_intros]: "heeding i (aio_unwrap_each vs)"
  by (induction vs) (auto intro!: heed_intros)

lemma unwrap_heeding [heed_intros]: "heeding i (aio_unwrap_pair kv)" "heeding i (aio_unwrap_row row)"
  unfolding aio_unwrap_pair_def aio_unwrap_row_def by (intro heed_intros)+

lemma cursor_next_heeding [heed_intros]:
  "heeding i (aio_scan_next st)" "heeding i (aio_vector_next st)" "heeding i (aio_fields_next st')"
  unfolding aio_scan_next_def aio_vector_next_def aio_fields_next_def performed_defs prod.case
  by (intro heed_intros)+

lemma cursor_close_heeding [heed_intros]: "heeding i (aio_cursor_close st)"
  unfolding aio_cursor_close_def performed_defs prod.case by (intro heed_intros)

lemma set_context_effect:
  "w_task w = i \<Longrightarrow> world_ok (set_context x w) = world_ok w \<and> allowed i w (set_context x w) \<and>
    unlocked i (set_context x w) = unlocked i w"
  by (simp add: set_context_def allowed_def unlocked_def)

lemma allowed_trans:
  assumes "allowed i w w1" and "allowed i w1 w2" and "unlocked i w1"
  shows "allowed i w w2"
proof -
  have "onward w w2" using assms(1,2) onward_trans unfolding allowed_def by blast
  then show ?thesis using assms by (simp add: allowed_def unlocked_def)
qed

lemma tx_started_heeding [heed_intros]: "heeding i (act (tx_started j result))"
proof (rule heeds_act)
  fix w
  assume w: "world_ok w" "w_task w = i" "unlocked i w"
  let ?f = "\<lambda>env :: unit env. case tx_start_post_process result env of (r, env') \<Rightarrow> (rbind r (\<lambda>x. Inr (x, e_tx env')), env')"
  have "\<not> version_less (e_affinity_version (snd (?f env))) (e_affinity_version env)" for env
    by (simp add: tx_start_post_process_def version_less_def split: sum.split pyval.split)
  then have "still (with_env ?f)" by (rule with_env_still_version)
  moreover obtain r w1 where e: "with_env ?f w = (r, w1)" by (cases "with_env ?f w")
  ultimately have w1: "world_ok w1" "allowed i w w1" "w_task w1 = i" "unlocked i w1"
    using w quiet_allowed by (auto simp: still_def quiet_def unlocked_def dest!: spec [of _ w])
  then show "world_ok (snd (tx_started j result w)) \<and> allowed i w (snd (tx_started j result w)) \<and>
      unlocked i (snd (tx_started j result w))"
    using set_context_effect [OF w1(3)] allowed_trans by (simp add: tx_started_def e split: sum.split prod.split)
qed

lemma tx_ended_heeding [heed_intros]: "heeding i (act (\<lambda>w. (r, set_context None w)))"
  by (rule heeds_act) (simp add: set_context_effect)

lemma transaction_heeding [heed_intros]: "heeding i (aio_tx_enter tx)" "heeding i (aio_tx_finish committed tx)"
  unfolding aio_tx_enter_def aio_start_tx_def aio_tx_finish_def aio_end_tx_def performed_defs
  by (intro heed_intros; fail)+

lemma await_heeding [heed_intros]: "heeding i (await P)"
  by (rule heeds_peaceful [OF peaceful_await lock_states(1)])

subsection \<open>The tasks of an application\<close>

text \<open>
  A task calls operations of the client, one after the other, and goes on with their outcomes in any
  way: it may use them, handle the exceptions, look at the client and wait.
\<close>

inductive client_task :: "wval task \<Rightarrow> bool" where
  task_ends: "client_task (Done r)"
| task_looks: "(\<And>w. client_task (look w)) \<Longrightarrow> client_task (inspect look)"
| task_waits: "(\<And>r. client_task (f r)) \<Longrightarrow> client_task (followed_by (await P) f)"
| task_operation: "cache_coroutine c \<Longrightarrow> (\<And>r. client_task (f r)) \<Longrightarrow> client_task (followed_by c f)"
| task_get_cache: "(\<And>r. client_task (f r)) \<Longrightarrow> client_task (followed_by (aio_get_cache settings) f)"
| task_create_cache: "(\<And>r. client_task (f r)) \<Longrightarrow> client_task (followed_by (aio_create_cache settings) f)"
| task_get_or_create: "(\<And>r. client_task (f r)) \<Longrightarrow> client_task (followed_by (aio_get_or_create_cache settings) f)"
| task_settings: "(\<And>r. client_task (f r)) \<Longrightarrow> client_task (followed_by (aio_settings co) f)"
| task_query_type: "(\<And>r. client_task (f r)) \<Longrightarrow> client_task (followed_by (aio_query_binary_type type_id schema) f)"
| task_register_type: "(\<And>r. client_task (f r)) \<Longrightarrow> client_task (followed_by (aio_register_binary_type cls key) f)"
| task_scan: "(\<And>r. client_task (f r)) \<Longrightarrow> client_task (followed_by (aio_scan_enter info page_size partitions local st) f)"
| task_scan_next: "(\<And>r. client_task (f r)) \<Longrightarrow> client_task (followed_by (aio_scan_next st) f)"
| task_vector: "(\<And>r. client_task (f r)) \<Longrightarrow>
    client_task (followed_by (aio_vector_enter info page_size type_name field clause_vector k threshold st) f)"
| task_vector_next: "(\<And>r. client_task (f r)) \<Longrightarrow> client_task (followed_by (aio_vector_next st) f)"
| task_close: "(\<And>r. client_task (f r)) \<Longrightarrow>
    client_task (followed_by (aio_cursor_close (st :: (pyval \<times> pyval) cursor aio_cursor)) f)"
| task_fields: "(\<And>r. client_task (f r)) \<Longrightarrow> client_task (followed_by (aio_fields_enter info a st') f)"
| task_fields_next: "(\<And>r. client_task (f r)) \<Longrightarrow> client_task (followed_by (aio_fields_next st') f)"
| task_fields_close: "(\<And>r. client_task (f r)) \<Longrightarrow> client_task (followed_by (aio_cursor_close (st' :: row_cursor aio_cursor)) f)"
| task_tx_start: "(\<And>r. client_task (f r)) \<Longrightarrow> client_task (followed_by (aio_tx_enter tx) f)"
| task_tx_commit: "(\<And>r. client_task (f r)) \<Longrightarrow> client_task (followed_by (aio_tx_commit tx) f)"
| task_tx_close: "(\<And>r. client_task (f r)) \<Longrightarrow> client_task (followed_by (aio_tx_close tx) f)"
| task_client_close: "(\<And>r. client_task (f r)) \<Longrightarrow> client_task (followed_by aio_client_close f)"

lemmas task_operations =
  cache_coroutine_heeding await_heeding get_cache_heeding create_cache_heeding settings_heeding
  query_binary_type_heeding register_binary_type_heeding cursor_enter_heeding cursor_next_heeding
  cursor_close_heeding transaction_heeding aio_client_close_peaceful [THEN heeds_peaceful, OF lock_states(1)]

lemma client_task_heeding: "client_task c \<Longrightarrow> heeding i c"
proof (induction rule: client_task.induct)
  case (task_ends r)
  show ?case by (rule heeds_Done)
next
  case (task_looks look)
  then show ?case by (intro heeds_inspect)
qed (erule heeds_followed_by [rotated], (unfold aio_tx_commit_def aio_tx_close_def)?,
  rule task_operations, assumption?)+

text \<open>A reconnection in the background needs nothing from the state it begins in.\<close>

lemma background_safe:
  "safe (\<lambda>w. world_ok w \<and> w_task w = i) (rely i) (enter_task i) (allowed i) (\<lambda>r w. True) (\<lambda>w. True) (background_task j)"
proof -
  have "peaceful i (background_task j)" unfolding background_task_def by (intro still_intros)
  from safe_calm [OF this [unfolded peaceful_def] quiet_allowed] show ?thesis by simp
qed

lemma start_background_effect:
  "start_background w = Some (c, w') \<Longrightarrow> (\<exists>j js. c = background_task j \<and> w' = w\<lparr>w_background := js\<rparr>)"
  by (auto simp: start_background_def split: list.splits)

lemma enter_task_effect [simp]: "world_ok (enter_task i w) = world_ok w" "w_task (enter_task i w) = i"
  "rely j w (enter_task i w)" "rely j (enter_task i w) w"
  by (simp_all add: enter_task_def rely_def) (simp add: onward_def newest_def version_less_def)

lemma enter_task_pool [simp]: "w_pool (enter_task i w) = w_pool w"
  by (simp add: enter_task_def)

interpretation aio: concurrent_tasks world_ok "\<lambda>i w. w_task w = i" rely allowed "\<lambda>i r w. True"
  loop_event start_background enter_task
proof
  show "world_ok w' \<and> rely j w w'" if "world_ok w" "loop_event w w'" for w w' j
    using that happen_effect quiet_rely unfolding loop_event_def by blast
  fix w c w' j
  assume w: "world_ok w" and "start_background w = Some (c, w')"
  then obtain i js where "c = background_task i" "w' = w\<lparr>w_background := js\<rparr>" using start_background_effect by blast
  moreover have "rely j w (w\<lparr>w_background := js\<rparr>)" by (rule quiet_rely) simp
  ultimately show "world_ok w' \<and> rely j w w' \<and>
      safe (\<lambda>w. world_ok w \<and> w_task w = j) (rely j) (enter_task j) (allowed j) (\<lambda>r w. True) (\<lambda>w. True) c"
    using w background_safe by simp
qed (use rely_trans allowed_rely in \<open>auto\<close>)

text \<open>An application that has just been started over a connected client.\<close>

definition app_start :: "world \<Rightarrow> wval task list \<Rightarrow> bool" where
  "app_start w ts \<longleftrightarrow> world_ok w \<and> list_all client_task ts \<and> w_affinity_mux w = None \<and> w_registry_mux w = None"

abbreviation app_reach :: "(world, wval) system \<Rightarrow> (world, wval) system \<Rightarrow> bool" where
  "app_reach \<equiv> sys_reach loop_event start_background enter_task"

abbreviation app_step :: "(world, wval) system \<Rightarrow> (world, wval) system \<Rightarrow> bool" where
  "app_step \<equiv> sys_step loop_event start_background enter_task"

lemma app_okay:
  assumes "app_start w ts" and "app_reach (w, ts, None) s"
  shows "aio.okay s"
proof (rule aio.reach_okay [OF assms(2)], rule aio.start_okay [of _ _ unlocked])
  show "world_ok w" using assms(1) by (simp add: app_start_def)
  show "unlocked i w" for i using assms(1) by (simp add: app_start_def unlocked_def)
  show "unlocked i v'" if "unlocked i v" "rely i v v'" for i v v' using that by (simp add: unlocked_def rely_def)
  fix i
  assume "i < length ts"
  then have "heeding i (ts ! i)" using assms(1) client_task_heeding by (simp add: app_start_def list_all_length)
  then show "aio.good i (unlocked i) (ts ! i)" unfolding aio.good_def heeds_def by (auto intro: safe_post)
qed

lemma app_step_effect:
  assumes "app_start w0 ts0" and "app_reach (w0, ts0, None) (w, ts, r)" and "app_step (w, ts, r) (w', ts', r')"
  shows "(\<exists>i. r = Some i \<and> allowed i w w') \<or> (\<forall>j. rely j w w') \<and> r = None \<and> p_version (w_pool w') = p_version (w_pool w)"
proof (cases r)
  case (Some i)
  from app_okay [OF assms(1,2)] aio.okay_step assms(3) Some allowed_refl show ?thesis by blast
next
  case None
  have w: "world_ok w" by (rule aio.okay_state [OF app_okay [OF assms(1,2)]])
  from assms(3) [unfolded None] show ?thesis
  proof cases
    case (resume i)
    then show ?thesis using None enter_task_effect(3) by (metis enter_task_pool)
  next
    case event
    then obtain ev where "happen ev w = Some w'" by (auto simp: loop_event_def)
    then have "quiet w w'" using happen_effect w by blast
    then show ?thesis using None quiet_rely by (auto simp: quiet_def)
  next
    case (launch c)
    then obtain i js where "w' = w\<lparr>w_background := js\<rparr>" using start_background_effect by blast
    moreover have "rely j w (w\<lparr>w_background := js\<rparr>)" for j by (rule quiet_rely) simp
    ultimately show ?thesis using None by simp
  qed
qed

end
