(* ===== verification/AioProps.thy ===== *)
theory AioProps
  imports AioSystem
begin

section \<open>What asynchronous clients promise\<close>

text \<open>
  The properties of an application over an asynchronous client, for every interleaving of its tasks
  with each other, with the background reconnections and with the network.
\<close>

subsection \<open>An application to show it on\<close>

text \<open>One connected node, and tasks that look a cache up by its name.\<close>

definition demo_aio_conn :: "aio_sock conn" where
  "demo_aio_conn =
     (demo_conn \<lparr>s_conn = demo_aio, s_current = 0\<rparr>)\<lparr>k_open := True, k_failed := False\<rparr>"

definition demo_attempt :: attempt where
  "demo_attempt = (new_attempt 0)\<lparr>at_opened := Some (Inr ()), at_handshake := Some (Inr [])\<rparr>"

definition demo_world :: world where
  "demo_world = \<lparr>w_pool = demo_pool [demo_aio_conn], w_attempts = [demo_attempt], w_registry_mux = None,
     w_affinity_mux = None, w_background = [], w_contexts = (\<lambda>i. None), w_task = 0\<rparr>"

definition demo_task :: "wval task" where
  "demo_task = followed_by (aio_tx_close \<lparr>t_concurrency = VInt 0, t_isolation = VInt 0, t_timeout = VInt 0,
     t_label = VNone, t_id = 7, t_closed = False, t_started = True\<rparr>) (\<lambda>r. Done (Inr (WV VNone)))"

lemma demo_start: "app_start demo_world [demo_task, demo_task]"
proof -
  have "client_task demo_task" unfolding demo_task_def by (intro task_tx_close task_ends)
  then show ?thesis
    by (simp add: app_start_def world_ok_def demo_world_def nodes_def demo_pool_def mapping_ok_def conn_ok_def done_ok_def
        demo_aio_conn_def demo_aio_def demo_conn_def)
qed

lemma demo_task_acts:
  "\<exists>g. demo_task = Act g \<and> (\<forall>w. w_contexts w (w_task w) = None \<longrightarrow> g w = (Done (Inr (WV VNone)), w))"
  by (simp add: demo_task_def aio_tx_close_def aio_tx_finish_def aio_end_tx_def aio_status_def inspect_def)

lemma demo_steps:
  "app_step (demo_world, [demo_task, demo_task], None) (enter_task 1 demo_world, [demo_task, demo_task], Some 1)"
  "app_step (enter_task 1 demo_world, [demo_task, demo_task], Some 1)
     (enter_task 1 demo_world, [demo_task, Done (Inr (WV VNone))], Some 1)"
proof -
  obtain g where g: "demo_task = Act g" "\<And>w. w_contexts w (w_task w) = None \<Longrightarrow> g w = (Done (Inr (WV VNone)), w)"
    using demo_task_acts by blast
  have "app_step (demo_world, [demo_task, demo_task], None)
      (enter_task 1 demo_world, [demo_task, demo_task][1 := resumed ([demo_task, demo_task] ! 1)], Some 1)"
    by (rule resume) (simp_all add: g(1) ready_def)
  then show "app_step (demo_world, [demo_task, demo_task], None) (enter_task 1 demo_world, [demo_task, demo_task], Some 1)"
    by (simp add: g(1) resumed_def)
  let ?w = "enter_task 1 demo_world"
  have "app_step (?w, [demo_task, demo_task], Some 1)
      (snd (g ?w), [demo_task, demo_task][1 := fst (g ?w)], Some 1)"
    by (rule run) (simp_all add: g(1))
  moreover have "g ?w = (Done (Inr (WV VNone)), ?w)" by (rule g(2)) (simp add: enter_task_def demo_world_def)
  ultimately show "app_step (?w, [demo_task, demo_task], Some 1) (?w, [demo_task, Done (Inr (WV VNone))], Some 1)"
    by simp
qed

lemma demo_reach:
  "app_reach (demo_world, [demo_task, demo_task], None) (enter_task 1 demo_world, [demo_task, demo_task], Some 1)"
  by (rule move [OF stay demo_steps(1)])

text \<open>
  C8. The state the tasks share stays well-formed, whatever the tasks of an application do and in
  whatever order the event loop runs them, with the network accepting, refusing, delivering and
  losing at any time: the protocol is known, no two entries of the partition mapping have equal keys,
  and a request is only ever answered with a packet that carries its own identifier.
\<close>

theorem aio_state_kept:
  assumes "app_start w0 ts0" and "app_reach (w0, ts0, None) (w, ts, r)"
  shows "p_context (w_pool w) \<noteq> None \<and> sorted_wrt (\<lambda>a b. \<not> py_eq b a) (map fst (p_mapping (w_pool w))) \<and>
    (\<forall>i q packet. fst (answer i q w) = Inr packet \<longrightarrow> packet_id packet = q)"
proof -
  have w: "world_ok w" by (rule aio.okay_state [OF app_okay [OF assms]])
  have "packet_id packet = q" if "fst (answer i q w) = Inr packet" for i q packet
  proof -
    from that have i: "i < length (nodes w)"
      and m: "map_of (rev (a_done (aio_view (nodes w ! i)))) q = Some packet"
      by (auto simp: answer_def split: if_splits option.splits)
    from i w have "done_ok (aio_view (nodes w ! i))" by (simp add: world_ok_def conn_ok_def)
    with map_of_SomeD [OF m] show ?thesis by (auto simp: done_ok_def)
  qed
  with w show ?thesis by (simp add: world_ok_def mapping_ok_def)
qed

theorem aio_state_kept_witness:
  "\<exists>w. app_reach (demo_world, [demo_task, demo_task], None) (w, [demo_task, Done (Inr (WV VNone))], Some 1) \<and>
     p_context (w_pool w) \<noteq> None"
  using aio_state_kept [OF demo_start move [OF demo_reach demo_steps(2)]] move [OF demo_reach demo_steps(2)] by blast

text \<open>
  C10. Tasks are isolated from each other: a step of the event loop changes the current transaction of
  a task only if it is a step of that task, and gives up or takes a lock for a task only if it is a
  step of that task. Neither events nor background reconnections nor other tasks do.
\<close>

theorem aio_tasks_isolated:
  assumes "app_start w0 ts0" and "app_reach (w0, ts0, None) (w, ts, r)" and "app_step (w, ts, r) (w', ts', r')"
    and "r \<noteq> Some j"
  shows "w_contexts w' j = w_contexts w j \<and> (w_affinity_mux w' = Some j) = (w_affinity_mux w = Some j) \<and>
    (w_registry_mux w' = Some j) = (w_registry_mux w = Some j)"
proof -
  have "rely j w w'" using app_step_effect [OF assms(1-3)] assms(4) allowed_rely by auto
  then show ?thesis by (simp add: rely_def)
qed

theorem aio_tasks_isolated_witness:
  "\<exists>w w'. app_step (w, [demo_task, demo_task], Some 1) (w', [demo_task, Done (Inr (WV VNone))], Some 1) \<and>
     w_contexts w' 0 = w_contexts w 0"
  using aio_tasks_isolated [OF demo_start demo_reach demo_steps(2), of 0] demo_steps(2) by auto



subsection \<open>Asynchronous queries\<close>

text \<open>The environment of the task that runs, and the actions of a coroutine up to where it suspends or ends.\<close>

definition env_of :: "world \<Rightarrow> unit env option" where
  "env_of w = map_option (\<lambda>pc. (with_net pc () (p_env (w_pool w)))\<lparr>e_tx := map_option fst (w_contexts w (w_task w))\<rparr>)
     (p_context (w_pool w))"

inductive acts :: "'a task \<Rightarrow> world \<Rightarrow> 'a task \<Rightarrow> world \<Rightarrow> bool" where
  acts_none: "acts c w c w"
| acts_more: "g w = (c1, w1) \<Longrightarrow> acts c1 w1 c' w' \<Longrightarrow> acts (Act g) w c' w'"

lemma acts_trans: "acts c w c1 w1 \<Longrightarrow> acts c1 w1 c2 w2 \<Longrightarrow> acts c w c2 w2"
  by (induction rule: acts.induct) (auto intro: acts_more)

lemma acts_act: "f w = (r, w') \<Longrightarrow> acts (act f) w (Done r) w'"
  unfolding act_def by (rule acts_more [OF _ acts_none]) simp

lemma acts_followed_by: "acts c w c' w' \<Longrightarrow> acts (followed_by c f) w (followed_by c' f) w'"
  by (induction rule: acts.induct) (auto intro: acts_none acts_more)

lemma acts_cbind: "acts c w c' w' \<Longrightarrow> acts (cbind c f) w (cbind c' f) w'"
  unfolding cbind_def by (rule acts_followed_by)

lemma acts_bind_act: "f w = (Inr x, w') \<Longrightarrow> acts (g x) w' c w2 \<Longrightarrow> acts (cbind (act f) g) w c w2"
  using acts_trans [OF acts_cbind [OF acts_act]] by fastforce

lemma acts_bind_raise: "f w = (Inl e, w') \<Longrightarrow> acts (cbind (act f) g) w (Done (Inl e)) w'"
  using acts_cbind [OF acts_act] by fastforce

lemma with_env_of:
  fixes net :: "unit net"
  assumes "env_of w = Some env" and "f env = (r, env')" and "in_session net f"
  shows "\<exists>w'. with_env f w = (r, w') \<and> env_of w' = Some env' \<and> nodes w' = nodes w \<and> world_ok w' = world_ok w"
proof -
  from assms(1) obtain pc where pc: "p_context (w_pool w) = Some pc"
    and env: "env = (with_net pc () (p_env (w_pool w)))\<lparr>e_tx := map_option fst (w_contexts w (w_task w))\<rparr>"
    by (auto simp: env_of_def)
  let ?w = "w\<lparr>w_pool := (w_pool w)\<lparr>p_env := env'\<lparr>e_tx := None\<rparr>\<rparr>\<rparr>"
  have "with_env f w = (r, ?w)" using assms(2) by (simp add: with_env_def pc env)
  moreover have "session net env env'" using assms(2,3) by (simp add: in_session_def)
  then have "e_tx env' = e_tx env" "e_protocol env' = pc" by (simp_all add: session_def env with_net_def)
  then have "env_of ?w = Some env'" by (simp add: env_of_def pc env with_net_def)
  ultimately show ?thesis by (simp add: nodes_def world_ok_def)
qed

lemma on_conn_env:
  assumes "\<And>k. k_context (snd (f k)) = k_context k" and "\<And>k. k_client (snd (f k)) = k_client k"
  shows "env_of (snd (on_conn i f w)) = env_of w"
  using assms [of "lend (w_pool w) (nodes w ! i)"]
  by (cases "f (lend (w_pool w) (nodes w ! i))") (simp add: on_conn_def env_of_def share_def lend_def with_net_def)

lemma send_request_alive:
  assumes "world_ok w" and "node_alive i w"
  shows "\<exists>w'. send_request i qid data w = (Inr (), w') \<and> env_of w' = env_of w"
proof -
  let ?k = "lend (w_pool w) (nodes w ! i)"
  let ?f = "\<lambda>k. case aio_request qid (aio_view k) of Inl e \<Rightarrow> (Inl e, k) | Inr c \<Rightarrow> (Inr (s_current (k_sock k)), put_view c k)"
  from assms have i: "i < length (nodes w)" "alive ?k" "conn_ok ?k"
    by (simp_all add: node_alive_def world_ok_def) (simp add: conn_ok_def lend_def)
  then have "aio_alive (aio_view ?k)"
    by (auto simp: aio_alive_def alive_def aio_view_def conn_ok_def)
  then obtain k where "?f ?k = (Inr (s_current (k_sock ?k)), k)" by (simp add: aio_request_def)
  with i(1) obtain j w1 where w1: "on_conn i ?f w = (Inr j, w1)" by (simp add: on_conn_def)
  have "env_of w1 = env_of w"
    using on_conn_env [of ?f i w] w1 by (simp split: sum.split)
  with w1 show ?thesis by (simp add: send_request_def env_of_def set_attempt_def)
qed

lemma send_query_encode:
  fixes env :: "unit env"
  shows "send_query (\<lambda>data s. (reply, s)) q params env =
    (case encode_query q params env of (Inl e, env') \<Rightarrow> (Inl e, env') | (Inr data, env') \<Rightarrow> (reply, env'))"
  by (simp add: send_query_def encode_query_def split: sum.split)

lemma query_end:
  assumes "env_of w = Some env"
  shows "\<exists>w'. acts (cbind (act (finish_query q result)) (\<lambda>x. Done (post x))) w
      (Done (case result of Inl e \<Rightarrow> Inl e | Inr x \<Rightarrow> post x)) w' \<and> env_of w' = Some (on_query_finished q result env)"
proof -
  have "in_session (\<lambda>data s. (Inl SocketError, ())) (\<lambda>env :: unit env. (Inr () :: unit res, on_query_finished q result env))"
    by (simp add: in_session_def on_query_session)
  from with_env_of [OF assms refl this] obtain w' where
    "with_env (\<lambda>env. (Inr () :: unit res, on_query_finished q result env)) w = (Inr (), w')"
    "env_of w' = Some (on_query_finished q result env)" by auto
  then have f: "finish_query q result w = (result, w')" "env_of w' = Some (on_query_finished q result env)"
    by (simp_all add: finish_query_def)
  show ?thesis
  proof (cases result)
    case (Inl e)
    with f show ?thesis using acts_bind_raise [of "finish_query q result" w e w'] by auto
  next
    case (Inr x)
    with f have "acts (cbind (act (finish_query q result)) (\<lambda>x. Done (post x))) w (Done (post x)) w'"
      by (intro acts_bind_act [OF _ acts_none]) simp
    with f(2) Inr show ?thesis by auto
  qed
qed

text \<open>
  C9. An asynchronous query does what a synchronous one does over a connection that gives the same
  reply. Over a connection that is alive its coroutine either ends at once (the request cannot be
  encoded) or sends the request and suspends until the request is answered; resumed in whatever state
  where it is, it ends with the same outcome, exceptions included, and leaves the same registry,
  counter, topology version and events as the synchronous query.
\<close>

theorem query_task_as_query:
  assumes "world_ok w" and "node_alive i w" and "env_of w = Some env"
    and "query_perform (\<lambda>data s. (reply, s)) op following params r post env = (out, env')"
  shows "(\<exists>w'. acts (query_task i op following params r post) w (Done out) w' \<and> env_of w' = Some env') \<or>
    (\<exists>qid k w1. acts (query_task i op following params r post) w (Await (resolved i qid) k) w1 \<and>
       (\<forall>w2. env_of w2 = env_of w1 \<and> answer i qid w2 = (reply, w2) \<longrightarrow>
          (\<exists>w'. acts k w2 (Done out) w' \<and> env_of w' = Some env')))"
proof -
  let ?net = "\<lambda>data s. (reply, s :: unit)"
  let ?q = "fst (next_query_id (e_query_counter env))"
  define q where "q = \<lparr>q_op_code = op, q_following = following, q_query_id = ?q, q_config = False\<rparr>"
  define env1 where "env1 = env\<lparr>e_query_counter := snd (next_query_id (e_query_counter env))\<rparr>"
  have q: "new_query False op following env = (Inr q, env1)"
    by (simp add: new_query_def q_def env1_def split: prod.split)
  from with_env_of [OF assms(3) q new_query_session] obtain w1 where
    w1: "with_env (new_query False op following) w = (Inr q, w1)" "env_of w1 = Some env1" "nodes w1 = nodes w" "world_ok w1"
    using assms(1) by auto
  let ?enc = "\<lambda>env :: unit env. encode_query q params (on_query_started q env)"
  obtain d env2 where d: "?enc env1 = (d, env2)" by (cases "?enc env1")
  from with_env_of [OF w1(2) d encode_query_session] w1(3,4) obtain w2 where
    w2: "with_env ?enc w1 = (d, w2)" "env_of w2 = Some env2" "nodes w2 = nodes w" "world_ok w2"
    by auto
  obtain o1 env3 where o1: "run_bind (send_query ?net q params) (receive_response r) (on_query_started q env1) = (o1, env3)"
    by (cases "run_bind (send_query ?net q params) (receive_response r) (on_query_started q env1)")
  with assms(4) q have out: "out = (case o1 of Inl e \<Rightarrow> Inl e | Inr x \<Rightarrow> post x)" "env' = on_query_finished q o1 env3"
    by (auto simp: query_perform_def perform_def run_bind_def run_res_def split: sum.splits)
  let ?post = "\<lambda>m. cbind (followed_by m (\<lambda>result. act (finish_query q result))) (\<lambda>x. Done (post x))"
  let ?main = "cbind (act (with_env ?enc)) (\<lambda>data. cbind (aio_request_task i ?q data) (\<lambda>packet. act (with_env (receive_response r packet))))"
  have lift: "acts (?post m) v (?post m') v'" if "acts m v m' v'" for m v m' v'
    by (rule acts_cbind [OF acts_followed_by [OF that]])
  have start: "acts (query_task i op following params r post) w (?post ?main) w1"
    unfolding query_task_def perform_task_def
    by (rule acts_bind_act, rule w1(1)) (simp add: q_def acts_none)
  have tail: "\<exists>w'. acts (?post (Done x)) v (Done (case x of Inl e \<Rightarrow> Inl e | Inr y \<Rightarrow> post y)) w' \<and>
      env_of w' = Some (on_query_finished q x env4)" if "env_of v = Some env4" for x v env4
    using query_end [OF that] by simp
  show ?thesis
  proof (cases d)
    case (Inl e)
    then have "o1 = Inl e" "env3 = env2" using o1 d by (simp_all add: run_bind_def send_query_encode)
    moreover have "acts (?post ?main) w1 (?post (Done (Inl e))) w2"
      by (rule lift [OF acts_bind_raise]) (simp add: w2(1) Inl)
    ultimately show ?thesis using tail [OF w2(2), of o1] out start acts_trans by meson
  next
    case (Inr data)
    have "node_alive i w2" using assms(2) w2(3) by (simp add: node_alive_def)
    from send_request_alive [OF w2(4) this] obtain w3 where
      w3: "send_request i ?q data w2 = (Inr (), w3)" "env_of w3 = Some env2" using w2(2) by metis
    let ?k = "?post (cbind (act (answer i ?q)) (\<lambda>packet. act (with_env (receive_response r packet))))"
    have send: "acts (?post ?main) w1 (Await (resolved i ?q) ?k) w3"
    proof (rule acts_trans [OF lift])
      show "acts ?main w1 (cbind (aio_request_task i ?q data) (\<lambda>packet. act (with_env (receive_response r packet)))) w2"
        by (rule acts_bind_act [OF _ acts_none]) (simp add: w2(1) Inr)
      have "acts (aio_request_task i ?q data) w2 (Await (resolved i ?q) (act (answer i ?q))) w3"
        unfolding aio_request_task_def by (rule acts_bind_act, rule w3(1)) (simp add: await_def acts_none)
      from lift [OF acts_cbind [OF this]]
      show "acts (?post (cbind (aio_request_task i ?q data) (\<lambda>packet. act (with_env (receive_response r packet))))) w2
          (Await (resolved i ?q) ?k) w3" by simp
    qed
    have receive: "\<exists>w'. acts ?k v (Done out) w' \<and> env_of w' = Some env'"
      if v: "env_of v = Some env2" "answer i ?q v = (reply, v)" for v
    proof (cases reply)
      case (Inl e)
      then have "o1 = Inl e" "env3 = env2" using o1 d Inr by (simp_all add: run_bind_def send_query_encode)
      moreover have "acts ?k v (?post (Done (Inl e))) v"
        by (rule lift [OF acts_bind_raise]) (simp add: v Inl)
      ultimately show ?thesis using tail [OF v(1), of o1] out acts_trans by meson
    next
      case (Inr packet)
      then have "receive_response r packet env2 = (o1, env3)"
        using o1 d \<open>d = Inr data\<close> by (simp add: run_bind_def send_query_encode)
      from with_env_of [OF v(1) this receive_response_session] obtain v1 where
        v1: "with_env (receive_response r packet) v = (o1, v1)" "env_of v1 = Some env3" by blast
      have "acts ?k v (?post (Done o1)) v1"
        by (rule lift, rule acts_bind_act, simp add: v Inr, rule acts_act, rule v1(1))
      then show ?thesis using tail [OF v1(2), of o1] out acts_trans by meson
    qed
    show ?thesis
      by (rule disjI2, rule exI [of _ ?q], rule exI [of _ ?k], rule exI [of _ w3])
        (use acts_trans [OF start send] receive w3(2) in simp)
  qed
qed

theorem query_task_as_query_witness:
  "\<exists>env out env'. env_of demo_world = Some env \<and>
     query_perform (\<lambda>data s. (Inl SocketError, s)) OP_CACHE_GET_NAMES [] [] (Response []) Inr env = (out, env') \<and>
     ((\<exists>w'. acts (query_task 0 OP_CACHE_GET_NAMES [] [] (Response []) Inr) demo_world (Done out) w' \<and> env_of w' = Some env') \<or>
      (\<exists>qid k w1. acts (query_task 0 OP_CACHE_GET_NAMES [] [] (Response []) Inr) demo_world (Await (resolved 0 qid) k) w1))"
proof -
  have w: "world_ok demo_world" using demo_start by (simp add: app_start_def)
  have a: "node_alive 0 demo_world"
    by (simp add: node_alive_def nodes_def demo_world_def demo_aio_conn_def alive_def)
  obtain env where e: "env_of demo_world = Some env" by (simp add: env_of_def demo_world_def demo_pool_def)
  obtain out env' where
    q: "query_perform (\<lambda>data s. (Inl SocketError, s)) OP_CACHE_GET_NAMES [] [] (Response []) Inr env = (out, env')"
    by (cases "query_perform (\<lambda>data s. (Inl SocketError, s)) OP_CACHE_GET_NAMES [] [] (Response []) Inr env")
  from query_task_as_query [OF w a e q] e q show ?thesis by blast
qed

subsection \<open>Lost transports\<close>



end
