(* ===== verification/Spec2Isabelle.thy ===== *)
theory Spec2Isabelle
  imports PutGet CacheConfig Services Partitions HandshakeProps ConnectionProps AioConnection CursorProps PoolProps TransactionProps BinaryTypes Monitoring Tls AioProps
begin

text \<open>
  A verification development for the GridGain Python thin client (\<open>pygridgain\<close>).

  \<^bold>\<open>The program.\<close> The client speaks the binary thin-client protocol of GridGain over TCP. Paths
  below are relative to \<open>src/pygridgain/\<close>. An application works with the objects of \<open>client.py\<close>,
  \<open>cache.py\<close>, \<open>cluster.py\<close>, \<open>transaction.py\<close> and \<open>cursors.py\<close>. They choose a connection
  (\<open>client.py\<close>), describe a query (\<open>api/\<close>, \<open>queries/query.py\<close>), encode its parameters
  (\<open>datatypes/\<close>, \<open>stream/\<close>), send it over the connection (\<open>connection/\<close>), parse the answer
  (\<open>queries/response.py\<close>, \<open>datatypes/\<close>) and raise or return its result (\<open>api/result.py\<close>). Complex
  objects need the registry of classes (\<open>client.py\<close>, \<open>binary.py\<close>), which itself asks the server,
  and hash codes (\<open>utils.py\<close> or its C twin \<open>cext/cutils.c\<close>).

  \<^bold>\<open>Conventions\<close> (\<open>Prelude\<close>). Every exception the code raises is a constructor of \<open>py_error\<close>; an
  operation that can raise returns \<open>'a res = py_error + 'a\<close>; an operation with effects is a function
  from a state to a result and the new state (\<open>prog\<close>, combined by \<open>bind\<close>), so that a state changed
  before an exception stays changed. Python's unbounded integers are \<open>int\<close>, values packed by \<open>struct\<close>
  and \<open>ctypes\<close> are reduced to their width explicitly, C code and floats are \<open>w word\<close>. A computation
  that may not return (connecting again and again, an endless packet stream) is a
  \<open>partial_function (option)\<close> with the value \<open>None\<close> for not returning, and the properties state where
  it is \<open>Some\<close>.

  \<^bold>\<open>The data layer.\<close>
  \<^item> \<open>Hashing\<close>: \<open>utils.py\<close> and \<open>cext/cutils.c\<close>, the hash codes and schema identifiers of both
    implementations on integers and on 32-bit words, and their equivalence; the hash of decimals
    against \<open>java.math.BigInteger\<close>.
  \<^item> \<open>Unicode\<close>, \<open>Floats\<close>: UTF-8, UTF-16LE and the IEEE operations of the standard library the data
    classes use.
  \<^item> \<open>CTypes\<close>: the values a \<open>LittleEndianStructure\<close> is read into, with the truncation of \<open>ctypes\<close>.
  \<^item> \<open>Types\<close>, \<open>Infer\<close>: the data classes of \<open>datatypes/\<close> as datatypes with their type codes
    (\<open>type_codes.py\<close>, \<open>internal.py: tc_map\<close>), and the class the client chooses for a Python value
    (\<open>AnyDataObject.map_python_type\<close>).
  \<^item> \<open>Registry\<close>, \<open>Stream\<close>: \<open>BaseClient\<close>'s registry of complex object classes and
    \<open>stream/binary_stream.py\<close>, a buffer with its position.
  \<^item> \<open>Codec\<close>, \<open>Primitives\<close>, \<open>Standard\<close>, \<open>Complex\<close>, \<open>Reading\<close>: \<open>from_python\<close>, \<open>parse\<close> and
    \<open>to_python\<close> of every data class (\<open>primitive*.py\<close>, \<open>standard.py\<close>, \<open>null_object.py\<close>, \<open>complex.py\<close>,
    \<open>binary.py\<close>). \<open>Codec\<close> holds the locale every fixed-width class is an instance of. Parsing recurses
    as its input says, so it has a depth \<open>e_depth\<close> (Python's recursion limit); \<open>Depth\<close> shows that
    twice the number of bytes left plus two is enough on every input, and more changes nothing.
  \<^item> \<open>StandardCodec\<close>, \<open>Layout\<close>, \<open>LayoutProps\<close>: encoders only append, and what they append does not
    depend on the stream; the byte layout of complex objects; round trips of standard objects.
  \<^item> \<open>LeafTrip\<close>, \<open>RoundTrip\<close>, \<open>AnyTrip\<close>: the relation between what is written and what is read
    back, for any nesting of objects.

  \<^bold>\<open>Queries.\<close>
  \<^item> \<open>Protocol\<close>: \<open>connection/protocol_context.py\<close> and \<open>bitmask_feature.py\<close>; \<open>CacheInfo\<close>:
    \<open>expiry_policy.py\<close> and \<open>queries/cache_info.py\<close>.
  \<^item> \<open>Structs\<close>, \<open>StructTrip\<close>: the descriptions of requests and responses (\<open>Struct\<close>, \<open>StructArray\<close>,
    \<open>Conditional\<close>, \<open>Map\<close> of \<open>internal.py\<close>, \<open>cache_properties.py\<close>) as one datatype with its writer, parser
    and converter, and their round trip.
  \<^item> \<open>Query\<close>, \<open>Requests\<close>, \<open>Responses\<close>: \<open>queries/query.py\<close>, \<open>queries/response.py\<close>,
    \<open>api/result.py\<close>; the bytes of requests, and responses as the server writes them
    (\<open>server_response\<close>), with their round trip and their errors.
  \<^item> \<open>KeyValue\<close>, \<open>Sql\<close>, \<open>CacheConfig\<close>, \<open>Services\<close>, \<open>Partitions\<close>: the modules of \<open>api/\<close>.
    \<open>PutGet\<close>: what operations return, given the bytes of the answers.

  \<^bold>\<open>Connections and clients.\<close>
  \<^item> \<open>Handshake\<close>, \<open>HandshakeProps\<close>: \<open>connection/handshake.py\<close>. \<open>Connection\<close>, \<open>ConnectionProps\<close>:
    \<open>connection/connection.py\<close> over the operations of a socket (\<open>socket_ops\<close>, a parameter):
    receiving in any fragmentation, negotiation of the version, failure and reconnection.
  \<^item> \<open>AioConnection\<close>: \<open>connection/aio_connection.py\<close>, the reassembly of packets and the table of
    pending requests as a state machine over every interleaving of its steps.
  \<^item> \<open>Pool\<close>, \<open>PoolProps\<close>: the connections of \<open>client.py: Client\<close>, the choice of a usable one, the
    partition mapping (refreshed at most \<open>AFFINITY_RETRIES = 32\<close> times, the code's bound) and the node of a key. The
    random choices of the code are a stream of picks in the state (\<open>p_picks\<close>), so a property holds for
    every choice. \<open>node_net\<close> is the transport a query of \<open>Query\<close> is performed over.
  \<^item> \<open>Cursors\<close>, \<open>CursorProps\<close>: \<open>cursors.py\<close>, each cursor an instance of the locale \<open>iterator\<close>
    over the pages the server serves. \<open>Caches\<close>, \<open>ClientProps\<close>: \<open>cache.py\<close> and \<open>cluster.py\<close>; one
    operation through all layers. \<open>Transactions\<close>, \<open>TransactionProps\<close>: \<open>transaction.py\<close> and the life
    of transactions among other operations. \<open>Sessions\<close>: what every operation of a client keeps (locale \<open>steady\<close>).
  \<^item> \<open>BinaryTypes\<close>: the descriptions of binary types (\<open>client.py\<close>, \<open>binary.py\<close>) and the cached bytes
    of objects. \<open>Monitoring\<close>: \<open>monitoring.py\<close>, events and their delivery. \<open>Tls\<close>: the constructor of
    \<open>BaseConnection\<close> and \<open>connection/ssl.py\<close> over the \<open>ssl\<close> module (\<open>ssl_ops\<close>, a parameter).

  \<^bold>\<open>The asynchronous client.\<close>
  \<^item> \<open>Coroutines\<close>: what the code uses of \<open>asyncio\<close>. An \<open>async def\<close> function is a resumption
    (\<open>coro\<close>, a codatatype, since loops need not end) over the state all tasks share; \<open>gather\<close> and locks
    are built from it, and \<open>sys_step\<close> is the event loop: any task that can go on may run until it suspends,
    anything may happen in between.
  \<^item> \<open>TaskLogic\<close>: a rely-guarantee logic for coroutines (\<open>safe\<close>, and \<open>calm\<close> where no assertions are
    needed) and its soundness for all interleavings (locale \<open>concurrent_tasks\<close>).
  \<^item> \<open>AioLoop\<close>, \<open>AioRequests\<close>: the protocol objects and coroutines of
    \<open>connection/aio_connection.py\<close> and \<open>Query.perform_async\<close>. The network accepts, refuses, delivers, times
    out and loses connections whenever it likes (\<open>happen\<close>). \<open>AioClient\<close>, \<open>AioCaches\<close>, \<open>AioCursors\<close>:
    \<open>aio_client.py\<close>, \<open>aio_cache.py\<close>, \<open>aio_cluster.py\<close> and the asynchronous classes of \<open>cursors.py\<close> and
    \<open>transaction.py\<close>, over the same operations of \<open>api/\<close> as the synchronous classes: these take what
    performs a query as an argument (\<open>'r performer\<close>).
  \<^item> \<open>AioSteps\<close>, \<open>AioSystem\<close>: what every action and event keeps, what a task may rely on and
    guarantees, and that every operation keeps to it, locks included. \<open>AioProps\<close>: the properties of an
    application whose tasks run in any interleaving, and the equivalence of asynchronous and synchronous queries.

  \<^bold>\<open>Parameters.\<close> The server and the network are never defined: \<open>net\<close> is any function from a
  request and a transport state to an answer or an error, \<open>socket_ops\<close> any implementation of a
  socket. Where a property needs an answer it says which bytes arrive. Bytes the Python runtime
  produces from outside (\<open>repr\<close> of an exception, the time zone) are arguments.

  \<^bold>\<open>Not modelled.\<close> In the asynchronous client encoding a request, decoding a response and unwrapping a
  value are single steps, although the code may wait in them for the description of a class (the model holds the
  descriptions as data); a task refers to a connection by its index, and a connection is listed while it is
  being connected. The scheduler is fair to nobody, so nothing is shown about asynchronous operations ending. The
  system calls behind a socket and the \<open>ssl\<close> module (parameters); the length of time limits; the text of log records and of
  exceptions, \<open>__repr__\<close> and deprecation warnings; the conversion between POSIX time and the local
  time zone of the platform; \<open>exceptions.py\<close> (declarations only); documentation, examples, tests, scripts
  and \<open>setup.py\<close>.
\<close>

end
